(* ===== verification/Prelude.thy ===== *)
theory Prelude
  imports Main "HOL-Library.Word" "HOL-Library.Monad_Syntax"
begin

unbundle bit_operations_syntax

text \<open>
  Shared vocabulary of the development: the machine integers of the 64-bit target, the error
  values of \<^verbatim>\<open>src/src/error.rs\<close>, results with the program's three ways of not
  returning a value, the flat byte memory that the loader's raw pointers address, and the generic
  lemmas on them that the component theories use.
\<close>

named_theorems res_simps \<open>rewriting of results and of the loops that stop at the first fault\<close>
named_theorems mem_simps \<open>reads over writes on the byte memory\<close>
named_theorems align_simps \<open>page rounding on words, read as natural numbers\<close>

section \<open>Machine integers\<close>

type_synonym u8 = "8 word"
type_synonym u16 = "16 word"
type_synonym u32 = "32 word"
type_synonym u64 = "64 word"
type_synonym usize = "64 word"
type_synonym bytes = "u8 list"

section \<open>Errors and results\<close>

text \<open>The \<^verbatim>\<open>Error\<close> enum: one constructor per kind, each with its message.\<close>

datatype error =
    Io string
  | Mmap string
  | Relocation string
  | ParseDynamic string
  | ParseEhdr string
  | ParsePhdr string
  | Custom string

definition io_error :: "string \<Rightarrow> error" where
  "io_error msg = Io msg"

definition relocate_error :: "string \<Rightarrow> error" where
  "relocate_error msg = Relocation msg"

definition parse_dynamic_error :: "string \<Rightarrow> error" where
  "parse_dynamic_error msg = ParseDynamic msg"

definition parse_ehdr_error :: "string \<Rightarrow> error" where
  "parse_ehdr_error msg = ParseEhdr msg"

definition custom_error :: "string \<Rightarrow> error" where
  "custom_error msg = Custom msg"

text \<open>The \<^verbatim>\<open>Display\<close> implementation of \<^verbatim>\<open>Error\<close>.\<close>

fun error_fmt :: "error \<Rightarrow> string" where
  "error_fmt (Io msg) = ''I/O error: '' @ msg"
| "error_fmt (Mmap msg) = ''Memory mapping error: '' @ msg"
| "error_fmt (Relocation msg) = ''Relocation error: '' @ msg"
| "error_fmt (ParseDynamic msg) = ''Dynamic section parsing error: '' @ msg"
| "error_fmt (ParseEhdr msg) = ''ELF header parsing error: '' @ msg"
| "error_fmt (ParsePhdr msg) = ''Program header parsing error: '' @ msg"
| "error_fmt (Custom msg) = ''Custom error: '' @ msg"

text \<open>
  A computation that returns no value either returned an \<^verbatim>\<open>Err\<close>, panicked (a failed
  \<^verbatim>\<open>assert!\<close>, \<^verbatim>\<open>unwrap\<close> or index), read a value that was never
  initialised, or never came back.
\<close>

datatype fault =
    Err error
  | Panic string
  | Uninitialised
  | Diverges

type_synonym 'a result = "fault + 'a"

definition res_bind :: "'a result \<Rightarrow> ('a \<Rightarrow> 'b result) \<Rightarrow> 'b result" where
  "res_bind m f = (case m of Inl e \<Rightarrow> Inl e | Inr x \<Rightarrow> f x)"

definition unwrap :: "string \<Rightarrow> 'a option \<Rightarrow> 'a result" where
  "unwrap msg x = (case x of None \<Rightarrow> Inl (Panic msg) | Some v \<Rightarrow> Inr v)"

definition rust_assert :: "string \<Rightarrow> bool \<Rightarrow> unit result" where
  "rust_assert msg b = (if b then Inr () else Inl (Panic msg))"

text \<open>The value of a loop modelled by \<^theory_text>\<open>partial_function (option)\<close>: \<open>None\<close> is a loop that does not end.\<close>

definition returned :: "'a option \<Rightarrow> 'a result" where
  "returned x = (case x of None \<Rightarrow> Inl Diverges | Some v \<Rightarrow> Inr v)"

text \<open>A vector of slots that may be uninitialised: both accesses check the index.\<close>

definition slot_get :: "'a option list \<Rightarrow> nat \<Rightarrow> 'a result" where
  "slot_get xs i =
     (if i < length xs then (case xs ! i of None \<Rightarrow> Inl Uninitialised | Some x \<Rightarrow> Inr x)
      else Inl (Panic ''index out of bounds''))"

definition slot_set :: "'a option list \<Rightarrow> nat \<Rightarrow> 'a \<Rightarrow> 'a option list result" where
  "slot_set xs i x =
     (if i < length xs then Inr (xs[i := Some x]) else Inl (Panic ''index out of bounds''))"

text \<open>A \<^verbatim>\<open>for\<close> loop whose body ends with \<^verbatim>\<open>?\<close>: it stops at the first fault.\<close>

primrec res_fold :: "('a \<Rightarrow> 's \<Rightarrow> 's result) \<Rightarrow> 'a list \<Rightarrow> 's \<Rightarrow> 's result" where
  "res_fold f [] s = Inr s"
| "res_fold f (x # xs) s = res_bind (f x s) (res_fold f xs)"

section \<open>Memory\<close>

text \<open>
  The address space the raw pointers address: one byte per 64-bit address, little endian.
  \<^verbatim>\<open>ptr.read()\<close> and \<^verbatim>\<open>ptr.write(v)\<close> of an \<open>n\<close>-byte value are \<open>read_le\<close> and \<open>write_le\<close>.
\<close>

type_synonym mem = "usize \<Rightarrow> u8"

definition read_bytes :: "nat \<Rightarrow> mem \<Rightarrow> usize \<Rightarrow> bytes" where
  "read_bytes n m a = map (\<lambda>i. m (a + of_nat i)) [0..<n]"

primrec le_word :: "bytes \<Rightarrow> 'a::len word" where
  "le_word [] = 0"
| "le_word (b # bs) = ucast b OR push_bit 8 (le_word bs)"

definition read_le :: "nat \<Rightarrow> mem \<Rightarrow> usize \<Rightarrow> 'a::len word" where
  "read_le n m a = le_word (read_bytes n m a)"

definition write_le :: "nat \<Rightarrow> mem \<Rightarrow> usize \<Rightarrow> 'a::len word \<Rightarrow> mem" where
  "write_le n m a v =
     (\<lambda>x. if unat (x - a) < n then ucast (drop_bit (8 * unat (x - a)) v) else m x)"

text \<open>\<^verbatim>\<open>dest.copy_from_slice(src)\<close>, \<^verbatim>\<open>ptr.write_bytes(b, n)\<close>.\<close>

definition write_bytes :: "mem \<Rightarrow> usize \<Rightarrow> bytes \<Rightarrow> mem" where
  "write_bytes m a bs = (\<lambda>x. if unat (x - a) < length bs then bs ! unat (x - a) else m x)"

definition fill_bytes :: "nat \<Rightarrow> u8 \<Rightarrow> mem \<Rightarrow> usize \<Rightarrow> mem" where
  "fill_bytes n b m a = (\<lambda>x. if unat (x - a) < n then b else m x)"

abbreviation read_u8 :: "mem \<Rightarrow> usize \<Rightarrow> u8" where "read_u8 \<equiv> read_le 1"
abbreviation read_u16 :: "mem \<Rightarrow> usize \<Rightarrow> u16" where "read_u16 \<equiv> read_le 2"
abbreviation read_u32 :: "mem \<Rightarrow> usize \<Rightarrow> u32" where "read_u32 \<equiv> read_le 4"
abbreviation read_u64 :: "mem \<Rightarrow> usize \<Rightarrow> u64" where "read_u64 \<equiv> read_le 8"
abbreviation write_u32 :: "mem \<Rightarrow> usize \<Rightarrow> u32 \<Rightarrow> mem" where "write_u32 \<equiv> write_le 4"
abbreviation write_u64 :: "mem \<Rightarrow> usize \<Rightarrow> u64 \<Rightarrow> mem" where "write_u64 \<equiv> write_le 8"

text \<open>The bytes \<open>[a, a + n)\<close>, modulo the address space.\<close>

definition in_range :: "usize \<Rightarrow> nat \<Rightarrow> usize \<Rightarrow> bool" where
  "in_range a n x \<longleftrightarrow> unat (x - a) < n"

text \<open>A memory that holds \<open>bs\<close> at \<open>a\<close> and zero bytes elsewhere.\<close>

definition mem_of :: "usize \<Rightarrow> bytes \<Rightarrow> mem" where
  "mem_of a bs = write_bytes (\<lambda>_. 0) a bs"

section \<open>Lemmas on results\<close>

lemma res_bind_simps [simp, res_simps]:
  "res_bind (Inr x) f = f x"
  "res_bind (Inl e) f = Inl e"
  by (simp_all add: res_bind_def)

lemma res_bind_eq_Inr [res_simps]:
  "res_bind m f = Inr y \<longleftrightarrow> (\<exists>x. m = Inr x \<and> f x = Inr y)"
  by (cases m) simp_all

lemma res_bind_eq_Inl [res_simps]:
  "res_bind m f = Inl e \<longleftrightarrow> m = Inl e \<or> (\<exists>x. m = Inr x \<and> f x = Inl e)"
  by (cases m) simp_all

lemma unwrap_simps [simp, res_simps]:
  "unwrap msg (Some x) = Inr x"
  "unwrap msg None = Inl (Panic msg)"
  "unwrap msg v = Inr y \<longleftrightarrow> v = Some y"
  by (auto simp: unwrap_def split: option.splits)

lemma rust_assert_simps [simp, res_simps]:
  "rust_assert msg True = Inr ()"
  "rust_assert msg False = Inl (Panic msg)"
  "rust_assert msg b = Inr u \<longleftrightarrow> b"
  by (auto simp: rust_assert_def)

lemma returned_simps [simp, res_simps]:
  "returned (Some x) = Inr x"
  "returned None = Inl Diverges"
  "returned v = Inr y \<longleftrightarrow> v = Some y"
  by (auto simp: returned_def split: option.splits)

lemma res_fold_append:
  "res_fold f (xs @ ys) s = res_bind (res_fold f xs s) (res_fold f ys)"
proof (induction xs arbitrary: s)
  case Nil
  then show ?case by simp
next
  case (Cons x xs)
  then show ?case by (cases "f x s") simp_all
qed

lemma res_fold_invariant:
  assumes "res_fold f xs s = Inr t" and "P s"
    and "\<And>x s s'. x \<in> set xs \<Longrightarrow> P s \<Longrightarrow> f x s = Inr s' \<Longrightarrow> P s'"
  shows "P t"
  using assms
proof (induction xs arbitrary: s)
  case Nil
  then show ?case by simp
next
  case (Cons x xs)
  from Cons.prems(1) obtain s' where step: "f x s = Inr s'" and rest: "res_fold f xs s' = Inr t"
    by (auto simp: res_simps)
  from Cons.prems(2,3) step have "P s'" by auto
  from rest this show ?case
    by (rule Cons.IH) (auto intro: Cons.prems(3))
qed

lemma res_fold_returns:
  assumes "\<And>x s. x \<in> set xs \<Longrightarrow> \<exists>s'. f x s = Inr s'"
  shows "\<exists>t. res_fold f xs s = Inr t"
  using assms
proof (induction xs arbitrary: s)
  case Nil
  then show ?case by simp
next
  case (Cons x xs)
  from Cons.prems [of x s] obtain s' where "f x s = Inr s'" by auto
  with Cons.IH [of s'] Cons.prems show ?case by simp
qed

section \<open>Lemmas on memory\<close>

lemma length_read_bytes [simp]: "length (read_bytes n m a) = n"
  by (simp add: read_bytes_def)

lemma nth_read_bytes [simp]: "i < n \<Longrightarrow> read_bytes n m a ! i = m (a + of_nat i)"
  by (simp add: read_bytes_def)

lemma bit_le_word:
  "bit (le_word bs :: 'a::len word) k \<longleftrightarrow>
     k < LENGTH('a) \<and> k < 8 * length bs \<and> bit (bs ! (k div 8)) (k mod 8)"
proof (induction bs arbitrary: k)
  case Nil
  then show ?case by simp
next
  case (Cons b bs)
  show ?case
  proof (cases "k < 8")
    case True
    then show ?thesis by (auto simp: bit_or_iff bit_ucast_iff bit_push_bit_iff)
  next
    case False
    then obtain j where k: "k = 8 + j" by (metis linorder_not_less le_Suc_ex)
    have "\<not> bit b k" using False by (auto dest: bit_imp_le_length)
    moreover have "(8 + j) div 8 = Suc (j div 8)" by simp
    ultimately show ?thesis
      unfolding k by (simp add: bit_or_iff bit_ucast_iff bit_push_bit_iff Cons.IH) auto
  qed
qed

lemma bit_read_le:
  "bit (read_le n m a :: 'a::len word) k \<longleftrightarrow>
     k < LENGTH('a) \<and> k < 8 * n \<and> bit (m (a + of_nat (k div 8))) (k mod 8)"
  by (auto simp: read_le_def bit_le_word)

lemma unat_of_nat_usize [simp]: "i < 2 ^ 64 \<Longrightarrow> unat (of_nat i :: usize) = i"
  by (simp add: unat_of_nat)

lemma read_write_le [mem_simps]:
  fixes v :: "'a::len word"
  assumes "LENGTH('a) = 8 * n" and "n < 2 ^ 61"
  shows "read_le n (write_le n m a v) a = v"
proof (rule bit_word_eqI)
  fix k assume k: "k < LENGTH('a)"
  then have kn: "k div 8 < n" and "k < 8 * n" using assms(1) by auto
  moreover from kn assms(2) have "k div 8 < 2 ^ 64" by simp
  moreover have "8 * (k div 8) + k mod 8 = k" by simp
  ultimately show "bit (read_le n (write_le n m a v) a :: 'a word) k = bit v k"
    using k kn by (auto simp: bit_read_le write_le_def bit_ucast_iff bit_drop_bit_eq)
qed

lemma write_le_frame [mem_simps]: "\<not> in_range a n x \<Longrightarrow> write_le n m a v x = m x"
  by (simp add: write_le_def in_range_def)

lemma fill_bytes_frame [mem_simps]: "\<not> in_range a n x \<Longrightarrow> fill_bytes n b m a x = m x"
  by (simp add: fill_bytes_def in_range_def)

lemma fill_bytes_same [mem_simps]: "in_range a n x \<Longrightarrow> fill_bytes n b m a x = b"
  by (simp add: fill_bytes_def in_range_def)

lemma write_bytes_frame [mem_simps]: "\<not> in_range a (length bs) x \<Longrightarrow> write_bytes m a bs x = m x"
  by (simp add: write_bytes_def in_range_def)

lemma read_write_bytes [mem_simps]:
  "length bs < 2 ^ 64 \<Longrightarrow> read_bytes (length bs) (write_bytes m a bs) a = bs"
  by (rule nth_equalityI) (simp_all add: write_bytes_def)

lemma read_bytes_cong:
  "(\<And>i. i < n \<Longrightarrow> m (a + of_nat i) = m' (a + of_nat i)) \<Longrightarrow> read_bytes n m a = read_bytes n m' a"
  by (simp add: read_bytes_def)

lemma read_le_cong:
  "(\<And>i. i < n \<Longrightarrow> m (a + of_nat i) = m' (a + of_nat i)) \<Longrightarrow> read_le n m a = read_le n m' a"
  unfolding read_le_def by (metis read_bytes_cong)

lemma in_range_add_of_nat: "i < n \<Longrightarrow> n \<le> 2 ^ 64 \<Longrightarrow> in_range a n (a + of_nat i)"
  by (simp add: in_range_def)

text \<open>Two ranges that do not meet: a write to one leaves reads of the other.\<close>

definition disjoint_ranges :: "usize \<Rightarrow> nat \<Rightarrow> usize \<Rightarrow> nat \<Rightarrow> bool" where
  "disjoint_ranges a n b k \<longleftrightarrow> (\<forall>x. \<not> (in_range a n x \<and> in_range b k x))"

lemma read_le_write_le_disjoint [mem_simps]:
  assumes "disjoint_ranges a n b k" and "k \<le> 2 ^ 64"
  shows "read_le k (write_le n m a v) b = read_le k m b"
proof (rule read_le_cong)
  fix i assume "i < k"
  with assms have "\<not> in_range a n (b + of_nat i)"
    by (auto simp: disjoint_ranges_def dest: in_range_add_of_nat)
  then show "write_le n m a v (b + of_nat i) = m (b + of_nat i)"
    by (rule write_le_frame)
qed

section \<open>Lemmas on rounding\<close>

lemma and_not_mask_word: "(x::'a::len word) AND NOT (mask n) = push_bit n (drop_bit n x)"
  by (rule bit_word_eqI) (auto simp: bit_simps)

lemma unat_and_not_mask [align_simps]:
  "unat ((x::'a::len word) AND NOT (mask n)) = unat x div 2 ^ n * 2 ^ n"
proof (cases "n < LENGTH('a)")
  case True
  have "unat x div 2 ^ n * 2 ^ n \<le> unat x" by simp
  also have "\<dots> < 2 ^ LENGTH('a)" by (rule unsigned_less)
  finally have "take_bit LENGTH('a) (unat x div 2 ^ n * 2 ^ n) = unat x div 2 ^ n * 2 ^ n"
    by (simp add: take_bit_nat_eq_self_iff)
  then show ?thesis
    unfolding and_not_mask_word unsigned_push_bit_eq unat_drop_bit_eq
    by (simp add: push_bit_eq_mult drop_bit_eq_div)
next
  case False
  then have "unat x < 2 ^ n"
    by (meson unsigned_less linorder_not_less one_le_numeral order_less_le_trans power_increasing)
  moreover from False have "x AND NOT (mask n) = 0"
    by (intro bit_word_eqI) (auto simp: bit_simps)
  ultimately show ?thesis by simp
qed

end
