(* ===== verification/Elf_Abi.thy ===== *)
theory Elf_Abi
  imports Prelude
begin

text \<open>
  The numbers and layouts of the ELF-64 object file format that the sources import from the
  \<^verbatim>\<open>abi\<close>, \<^verbatim>\<open>file\<close>, \<^verbatim>\<open>segment\<close>, \<^verbatim>\<open>section\<close>,
  \<^verbatim>\<open>symbol\<close>, \<^verbatim>\<open>relocation\<close> and \<^verbatim>\<open>dynamic\<close> modules of the
  \<^verbatim>\<open>elf\<close> crate, with the values and field offsets the System V ABI, its x86-64
  supplement and the GNU extensions document. Nothing here is code of the repository: the
  component theories refer to these constants by the names the sources use.
\<close>

named_theorems abi \<open>the documented values of the ELF constants\<close>

section \<open>Header, segments, sections\<close>

definition EI_CLASS :: nat where [abi]: "EI_CLASS = 4"
definition EI_VERSION :: nat where [abi]: "EI_VERSION = 6"
definition ELFMAGIC :: bytes where [abi]: "ELFMAGIC = [0x7F, 0x45, 0x4C, 0x46]"
definition ELFCLASS64 :: u8 where [abi]: "ELFCLASS64 = 2"
definition EV_CURRENT :: u8 where [abi]: "EV_CURRENT = 1"
definition ET_REL :: u16 where [abi]: "ET_REL = 1"
definition ET_EXEC :: u16 where [abi]: "ET_EXEC = 2"
definition ET_DYN :: u16 where [abi]: "ET_DYN = 3"
definition EM_X86_64 :: u16 where [abi]: "EM_X86_64 = 62"
definition PT_LOAD :: u32 where [abi]: "PT_LOAD = 1"
definition PT_DYNAMIC :: u32 where [abi]: "PT_DYNAMIC = 2"
definition PT_INTERP :: u32 where [abi]: "PT_INTERP = 3"
definition PT_PHDR :: u32 where [abi]: "PT_PHDR = 6"
definition PT_GNU_RELRO :: u32 where [abi]: "PT_GNU_RELRO = 0x6474E552"
definition PF_X :: u32 where [abi]: "PF_X = 1"
definition PF_W :: u32 where [abi]: "PF_W = 2"
definition PF_R :: u32 where [abi]: "PF_R = 4"
definition SHT_SYMTAB :: u32 where [abi]: "SHT_SYMTAB = 2"
definition SHT_RELA :: u32 where [abi]: "SHT_RELA = 4"
definition SHT_NOBITS :: u32 where [abi]: "SHT_NOBITS = 8"
definition SHT_REL :: u32 where [abi]: "SHT_REL = 9"
definition SHT_INIT_ARRAY :: u32 where [abi]: "SHT_INIT_ARRAY = 14"
definition SHF_WRITE :: u64 where [abi]: "SHF_WRITE = 1"
definition SHF_ALLOC :: u64 where [abi]: "SHF_ALLOC = 2"
definition SHF_EXECINSTR :: u64 where [abi]: "SHF_EXECINSTR = 4"
definition SHN_UNDEF :: u16 where [abi]: "SHN_UNDEF = 0"

section \<open>Symbols\<close>

definition STB_LOCAL :: u8 where [abi]: "STB_LOCAL = 0"
definition STB_GLOBAL :: u8 where [abi]: "STB_GLOBAL = 1"
definition STB_WEAK :: u8 where [abi]: "STB_WEAK = 2"
definition STB_GNU_UNIQUE :: u8 where [abi]: "STB_GNU_UNIQUE = 10"
definition STT_NOTYPE :: u8 where [abi]: "STT_NOTYPE = 0"
definition STT_OBJECT :: u8 where [abi]: "STT_OBJECT = 1"
definition STT_FUNC :: u8 where [abi]: "STT_FUNC = 2"
definition STT_FILE :: u8 where [abi]: "STT_FILE = 4"
definition STT_COMMON :: u8 where [abi]: "STT_COMMON = 5"
definition STT_TLS :: u8 where [abi]: "STT_TLS = 6"
definition STT_GNU_IFUNC :: u8 where [abi]: "STT_GNU_IFUNC = 10"
definition VER_NDX_VERSION :: u16 where [abi]: "VER_NDX_VERSION = 0x7FFF"
definition VER_NDX_HIDDEN :: u16 where [abi]: "VER_NDX_HIDDEN = 0x8000"

section \<open>Dynamic section tags\<close>

definition DT_NULL :: u64 where [abi]: "DT_NULL = 0"
definition DT_NEEDED :: u64 where [abi]: "DT_NEEDED = 1"
definition DT_PLTRELSZ :: u64 where [abi]: "DT_PLTRELSZ = 2"
definition DT_PLTGOT :: u64 where [abi]: "DT_PLTGOT = 3"
definition DT_HASH :: u64 where [abi]: "DT_HASH = 4"
definition DT_STRTAB :: u64 where [abi]: "DT_STRTAB = 5"
definition DT_SYMTAB :: u64 where [abi]: "DT_SYMTAB = 6"
definition DT_RELA :: u64 where [abi]: "DT_RELA = 7"
definition DT_RELASZ :: u64 where [abi]: "DT_RELASZ = 8"
definition DT_INIT :: u64 where [abi]: "DT_INIT = 12"
definition DT_FINI :: u64 where [abi]: "DT_FINI = 13"
definition DT_RPATH :: u64 where [abi]: "DT_RPATH = 15"
definition DT_REL :: u64 where [abi]: "DT_REL = 17"
definition DT_RELSZ :: u64 where [abi]: "DT_RELSZ = 18"
definition DT_PLTREL :: u64 where [abi]: "DT_PLTREL = 20"
definition DT_JMPREL :: u64 where [abi]: "DT_JMPREL = 23"
definition DT_INIT_ARRAY :: u64 where [abi]: "DT_INIT_ARRAY = 25"
definition DT_FINI_ARRAY :: u64 where [abi]: "DT_FINI_ARRAY = 26"
definition DT_INIT_ARRAYSZ :: u64 where [abi]: "DT_INIT_ARRAYSZ = 27"
definition DT_FINI_ARRAYSZ :: u64 where [abi]: "DT_FINI_ARRAYSZ = 28"
definition DT_RUNPATH :: u64 where [abi]: "DT_RUNPATH = 29"
definition DT_FLAGS :: u64 where [abi]: "DT_FLAGS = 30"
definition DT_GNU_HASH :: u64 where [abi]: "DT_GNU_HASH = 0x6FFFFEF5"
definition DT_VERSYM :: u64 where [abi]: "DT_VERSYM = 0x6FFFFFF0"
definition DT_RELACOUNT :: u64 where [abi]: "DT_RELACOUNT = 0x6FFFFFF9"
definition DT_RELCOUNT :: u64 where [abi]: "DT_RELCOUNT = 0x6FFFFFFA"
definition DT_FLAGS_1 :: u64 where [abi]: "DT_FLAGS_1 = 0x6FFFFFFB"
definition DT_VERDEF :: u64 where [abi]: "DT_VERDEF = 0x6FFFFFFC"
definition DT_VERDEFNUM :: u64 where [abi]: "DT_VERDEFNUM = 0x6FFFFFFD"
definition DT_VERNEED :: u64 where [abi]: "DT_VERNEED = 0x6FFFFFFE"
definition DT_VERNEEDNUM :: u64 where [abi]: "DT_VERNEEDNUM = 0x6FFFFFFF"
definition DF_BIND_NOW :: u64 where [abi]: "DF_BIND_NOW = 8"
definition DF_1_NOW :: u64 where [abi]: "DF_1_NOW = 1"

section \<open>x86-64 relocation types\<close>

definition R_X86_64_NONE :: u32 where [abi]: "R_X86_64_NONE = 0"
definition R_X86_64_64 :: u32 where [abi]: "R_X86_64_64 = 1"
definition R_X86_64_PC32 :: u32 where [abi]: "R_X86_64_PC32 = 2"
definition R_X86_64_GOT32 :: u32 where [abi]: "R_X86_64_GOT32 = 3"
definition R_X86_64_PLT32 :: u32 where [abi]: "R_X86_64_PLT32 = 4"
definition R_X86_64_COPY :: u32 where [abi]: "R_X86_64_COPY = 5"
definition R_X86_64_GLOB_DAT :: u32 where [abi]: "R_X86_64_GLOB_DAT = 6"
definition R_X86_64_JUMP_SLOT :: u32 where [abi]: "R_X86_64_JUMP_SLOT = 7"
definition R_X86_64_RELATIVE :: u32 where [abi]: "R_X86_64_RELATIVE = 8"
definition R_X86_64_GOTPCREL :: u32 where [abi]: "R_X86_64_GOTPCREL = 9"
definition R_X86_64_32 :: u32 where [abi]: "R_X86_64_32 = 10"
definition R_X86_64_32S :: u32 where [abi]: "R_X86_64_32S = 11"
definition R_X86_64_DTPMOD64 :: u32 where [abi]: "R_X86_64_DTPMOD64 = 16"
definition R_X86_64_DTPOFF64 :: u32 where [abi]: "R_X86_64_DTPOFF64 = 17"
definition R_X86_64_TPOFF64 :: u32 where [abi]: "R_X86_64_TPOFF64 = 18"
definition R_X86_64_IRELATIVE :: u32 where [abi]: "R_X86_64_IRELATIVE = 37"

section \<open>Structures and their layouts\<close>

record ehdr =
  e_ident :: bytes
  e_type :: u16
  e_machine :: u16
  e_version :: u32
  e_entry :: u64
  e_phoff :: u64
  e_shoff :: u64
  e_flags :: u32
  e_ehsize :: u16
  e_phentsize :: u16
  e_phnum :: u16
  e_shentsize :: u16
  e_shnum :: u16
  e_shstrndx :: u16

record phdr =
  p_type :: u32
  p_flags :: u32
  p_offset :: u64
  p_vaddr :: u64
  p_paddr :: u64
  p_filesz :: u64
  p_memsz :: u64
  p_align :: u64

record shdr =
  sh_name :: u32
  sh_type :: u32
  sh_flags :: u64
  sh_addr :: u64
  sh_offset :: u64
  sh_size :: u64
  sh_link :: u32
  sh_info :: u32
  sh_addralign :: u64
  sh_entsize :: u64

record rela =
  rela_offset :: u64
  rela_info :: u64
  rela_addend :: u64

record sym =
  sym_name :: u32
  sym_info :: u8
  sym_other :: u8
  sym_shndx :: u16
  sym_value :: u64
  sym_size :: u64

record dyn =
  d_tag :: u64
  d_un :: u64

definition size_ehdr :: nat where [abi]: "size_ehdr = 64"
definition size_phdr :: nat where [abi]: "size_phdr = 56"
definition size_shdr :: nat where [abi]: "size_shdr = 64"
definition size_rela :: nat where [abi]: "size_rela = 24"
definition size_sym :: nat where [abi]: "size_sym = 24"
definition size_dyn :: nat where [abi]: "size_dyn = 16"

definition ehdr_at :: "mem \<Rightarrow> usize \<Rightarrow> ehdr" where
  "ehdr_at m a =
     \<lparr>e_ident = read_bytes 16 m a, e_type = read_u16 m (a + 16), e_machine = read_u16 m (a + 18),
      e_version = read_u32 m (a + 20), e_entry = read_u64 m (a + 24), e_phoff = read_u64 m (a + 32),
      e_shoff = read_u64 m (a + 40), e_flags = read_u32 m (a + 48), e_ehsize = read_u16 m (a + 52),
      e_phentsize = read_u16 m (a + 54), e_phnum = read_u16 m (a + 56),
      e_shentsize = read_u16 m (a + 58), e_shnum = read_u16 m (a + 60),
      e_shstrndx = read_u16 m (a + 62)\<rparr>"

definition phdr_at :: "mem \<Rightarrow> usize \<Rightarrow> phdr" where
  "phdr_at m a =
     \<lparr>p_type = read_u32 m a, p_flags = read_u32 m (a + 4), p_offset = read_u64 m (a + 8),
      p_vaddr = read_u64 m (a + 16), p_paddr = read_u64 m (a + 24), p_filesz = read_u64 m (a + 32),
      p_memsz = read_u64 m (a + 40), p_align = read_u64 m (a + 48)\<rparr>"

definition shdr_at :: "mem \<Rightarrow> usize \<Rightarrow> shdr" where
  "shdr_at m a =
     \<lparr>sh_name = read_u32 m a, sh_type = read_u32 m (a + 4), sh_flags = read_u64 m (a + 8),
      sh_addr = read_u64 m (a + 16), sh_offset = read_u64 m (a + 24), sh_size = read_u64 m (a + 32),
      sh_link = read_u32 m (a + 40), sh_info = read_u32 m (a + 44),
      sh_addralign = read_u64 m (a + 48), sh_entsize = read_u64 m (a + 56)\<rparr>"

definition rela_at :: "mem \<Rightarrow> usize \<Rightarrow> rela" where
  "rela_at m a =
     \<lparr>rela_offset = read_u64 m a, rela_info = read_u64 m (a + 8), rela_addend = read_u64 m (a + 16)\<rparr>"

definition sym_at :: "mem \<Rightarrow> usize \<Rightarrow> sym" where
  "sym_at m a =
     \<lparr>sym_name = read_u32 m a, sym_info = read_u8 m (a + 4), sym_other = read_u8 m (a + 5),
      sym_shndx = read_u16 m (a + 6), sym_value = read_u64 m (a + 8), sym_size = read_u64 m (a + 16)\<rparr>"

definition dyn_at :: "mem \<Rightarrow> usize \<Rightarrow> dyn" where
  "dyn_at m a = \<lparr>d_tag = read_u64 m a, d_un = read_u64 m (a + 8)\<rparr>"

end
