(* ===== verification/Elf_Defs.thy ===== *)
theory Elf_Defs
  imports Elf_Abi
begin

text \<open>
  \<^verbatim>\<open>src/src/elf/defs.rs\<close> and \<^verbatim>\<open>src/src/elf/ehdr.rs\<close> for the 64-bit
  target: the accessors of relocation entries and symbols, the symbol filters used by lookup, the
  view of a section as a table, and the header with its validation. The lemmas say what the packed
  fields decode to, which symbols the filters accept, and on which branch validation fails.
\<close>

section \<open>Target configuration\<close>

definition E_CLASS :: u8 where
  "E_CLASS = ELFCLASS64"

definition REL_MASK :: usize where
  "REL_MASK = 0xFFFFFFFF"

definition REL_BIT :: nat where
  "REL_BIT = 32"

definition EHDR_SIZE :: nat where
  "EHDR_SIZE = size_ehdr"

definition DT_RELRSZ :: u64 where
  "DT_RELRSZ = 35"

definition DT_RELR :: u64 where
  "DT_RELR = 36"

text \<open>\<^verbatim>\<open>EM_ARCH\<close> of the x86-64 target.\<close>

definition EM_ARCH :: u16 where
  "EM_ARCH = EM_X86_64"

section \<open>Relocation entries\<close>

text \<open>\<^verbatim>\<open>ElfRelr\<close> is one word; \<^verbatim>\<open>ElfRelType\<close> is \<^verbatim>\<open>ElfRela\<close> on this target.\<close>

definition relr_value :: "u64 \<Rightarrow> usize" where
  "relr_value r = r"

definition r_type :: "rela \<Rightarrow> usize" where
  "r_type r = rela_info r AND REL_MASK"

definition r_symbol :: "rela \<Rightarrow> usize" where
  "r_symbol r = drop_bit REL_BIT (rela_info r)"

definition r_offset :: "rela \<Rightarrow> usize" where
  "r_offset r = rela_offset r"

definition r_addend :: "rela \<Rightarrow> usize \<Rightarrow> u64" where
  "r_addend r base = rela_addend r"

definition rela_set_offset :: "rela \<Rightarrow> usize \<Rightarrow> rela" where
  "rela_set_offset r off = r\<lparr>rela_offset := off\<rparr>"

section \<open>Symbols\<close>

definition OK_BINDS :: usize where
  "OK_BINDS = push_bit (unat STB_GLOBAL) 1 OR push_bit (unat STB_WEAK) 1
     OR push_bit (unat STB_GNU_UNIQUE) 1"

definition OK_TYPES :: usize where
  "OK_TYPES = push_bit (unat STT_NOTYPE) 1 OR push_bit (unat STT_OBJECT) 1
     OR push_bit (unat STT_FUNC) 1 OR push_bit (unat STT_COMMON) 1
     OR push_bit (unat STT_TLS) 1 OR push_bit (unat STT_GNU_IFUNC) 1"

definition st_value :: "sym \<Rightarrow> usize" where
  "st_value s = sym_value s"

definition st_bind :: "sym \<Rightarrow> u8" where
  "st_bind s = drop_bit 4 (sym_info s)"

definition st_type :: "sym \<Rightarrow> u8" where
  "st_type s = sym_info s AND 0xF"

definition st_shndx :: "sym \<Rightarrow> usize" where
  "st_shndx s = ucast (sym_shndx s)"

definition st_name :: "sym \<Rightarrow> usize" where
  "st_name s = ucast (sym_name s)"

definition st_size :: "sym \<Rightarrow> usize" where
  "st_size s = sym_size s"

definition st_other :: "sym \<Rightarrow> u8" where
  "st_other s = sym_other s"

definition is_undef :: "sym \<Rightarrow> bool" where
  "is_undef s \<longleftrightarrow> st_shndx s = ucast SHN_UNDEF"

definition is_ok_bind :: "sym \<Rightarrow> bool" where
  "is_ok_bind s \<longleftrightarrow> push_bit (unat (st_bind s)) 1 AND OK_BINDS \<noteq> 0"

definition is_ok_type :: "sym \<Rightarrow> bool" where
  "is_ok_type s \<longleftrightarrow> push_bit (unat (st_type s)) 1 AND OK_TYPES \<noteq> 0"

definition is_local :: "sym \<Rightarrow> bool" where
  "is_local s \<longleftrightarrow> st_bind s = STB_LOCAL"

definition is_weak :: "sym \<Rightarrow> bool" where
  "is_weak s \<longleftrightarrow> st_bind s = STB_WEAK"

definition sym_set_value :: "sym \<Rightarrow> usize \<Rightarrow> sym" where
  "sym_set_value s v = s\<lparr>sym_value := v\<rparr>"

section \<open>Sections as tables\<close>

definition shdr_new ::
  "u32 \<Rightarrow> u32 \<Rightarrow> usize \<Rightarrow> usize \<Rightarrow> usize \<Rightarrow> usize \<Rightarrow> u32 \<Rightarrow> u32 \<Rightarrow> usize \<Rightarrow> usize \<Rightarrow> shdr" where
  "shdr_new name ty fl addr off sz link info align ent =
     \<lparr>sh_name = name, sh_type = ty, sh_flags = fl, sh_addr = addr, sh_offset = off, sh_size = sz,
      sh_link = link, sh_info = info, sh_addralign = align, sh_entsize = ent\<rparr>"

text \<open>
  \<^verbatim>\<open>content_mut::<T>\<close>: the addresses of the section's entries, \<open>sz\<close> the size of
  \<^verbatim>\<open>T\<close>; the integer division by \<^verbatim>\<open>sh_entsize\<close> panics when it is zero.
\<close>

definition content_mut :: "nat \<Rightarrow> shdr \<Rightarrow> usize list result" where
  "content_mut sz sh =
     (if sh_entsize sh = 0 then Inl (Panic ''attempt to divide by zero'')
      else Inr (map (\<lambda>i. sh_addr sh + of_nat (i * sz)) [0..<unat (sh_size sh div sh_entsize sh)]))"

section \<open>The ELF header\<close>

definition is_dylib :: "ehdr \<Rightarrow> bool" where
  "is_dylib h \<longleftrightarrow> e_type h = ET_DYN"

definition is_executable :: "ehdr \<Rightarrow> bool" where
  "is_executable h \<longleftrightarrow> e_type h = ET_EXEC \<or> e_type h = ET_DYN"

definition vaildate :: "ehdr \<Rightarrow> unit result" where
  "vaildate h =
     (if take 4 (e_ident h) \<noteq> ELFMAGIC then Inl (Err (parse_ehdr_error ''invalid ELF magic''))
      else if e_ident h ! EI_CLASS \<noteq> E_CLASS then Inl (Err (parse_ehdr_error ''file class mismatch''))
      else if e_ident h ! EI_VERSION \<noteq> EV_CURRENT then Inl (Err (parse_ehdr_error ''invalid ELF version''))
      else if e_machine h \<noteq> EM_ARCH then Inl (Err (parse_ehdr_error ''file arch mismatch''))
      else Inr ())"

text \<open>\<^verbatim>\<open>ElfHeader::new\<close>: the buffer cast to a header, then validated.\<close>

definition ehdr_new :: "bytes \<Rightarrow> ehdr result" where
  "ehdr_new data = (let h = ehdr_at (mem_of 0 data) 0 in res_bind (vaildate h) (\<lambda>_. Inr h))"

definition phdr_range :: "ehdr \<Rightarrow> usize \<times> usize" where
  "phdr_range h =
     (let phdrs_size = ucast (e_phentsize h) * ucast (e_phnum h); phdr_start = e_phoff h
      in (phdr_start, phdr_start + phdrs_size))"

definition shdr_range :: "ehdr \<Rightarrow> usize \<times> usize" where
  "shdr_range h =
     (let shdrs_size = ucast (e_shentsize h) * ucast (e_shnum h); shdr_start = e_shoff h
      in (shdr_start, shdr_start + shdrs_size))"

section \<open>Lemmas\<close>

lemma rel_mask_eq_mask: "REL_MASK = mask 32"
  by (simp add: REL_MASK_def mask_eq_exp_minus_1)

lemma r_type_take_bit: "r_type r = take_bit 32 (rela_info r)"
  by (simp add: r_type_def rel_mask_eq_mask take_bit_eq_mask)

lemma rela_info_split: "rela_info r = push_bit 32 (r_symbol r) OR r_type r"
  by (rule bit_word_eqI) (auto simp: r_type_take_bit r_symbol_def REL_BIT_def bit_simps)

lemma r_info_decode:
  fixes s t :: u32
  assumes "rela_info r = push_bit 32 (ucast s) OR ucast t"
  shows "r_symbol r = ucast s" and "r_type r = ucast t"
  unfolding r_symbol_def r_type_take_bit REL_BIT_def assms
  by (rule bit_word_eqI, auto simp: bit_simps dest: bit_imp_le_length)+

lemma st_type_take_bit: "st_type s = take_bit 4 (sym_info s)"
proof -
  have "(0xF :: u8) = mask 4" by (simp add: mask_eq_exp_minus_1)
  then show ?thesis by (simp add: st_type_def take_bit_eq_mask)
qed

lemma sym_info_split: "sym_info s = push_bit 4 (st_bind s) OR st_type s"
  unfolding st_bind_def st_type_take_bit by (intro bit_word_eqI) (auto simp: bit_simps)

lemma unat_st_bind_less: "unat (st_bind s) < 16"
proof -
  have "unat (st_bind s) = unat (sym_info s) div 16"
    by (simp add: st_bind_def drop_bit_eq_div unat_div)
  moreover have "unat (sym_info s) < 2 ^ 8" using unsigned_less [of "sym_info s"] by simp
  ultimately show ?thesis by simp
qed

lemma unat_st_type_less: "unat (st_type s) < 16"
  using take_bit_nat_less_exp [of 4 "unat (sym_info s)"]
  by (simp add: st_type_take_bit unsigned_take_bit_eq)

lemma push_bit_1_and: "push_bit n (1::'a::len word) AND w \<noteq> 0 \<longleftrightarrow> bit w n"
proof
  assume "push_bit n 1 AND w \<noteq> 0"
  then obtain k where "bit (push_bit n (1::'a word) AND w) k"
    by (metis bit_0_eq bit_eq_iff bot_apply bot_bool_def)
  then show "bit w n" by (auto simp: bit_simps)
next
  assume w: "bit w n"
  then have "bit (push_bit n 1 AND w) n" by (auto simp: bit_simps dest: bit_imp_le_length)
  then show "push_bit n 1 AND w \<noteq> 0" by (metis bit_0_eq bot_apply bot_bool_def)
qed

lemma bit_push_bit_1: "bit (push_bit a (1::'a::len word)) n \<longleftrightarrow> n = a \<and> n < LENGTH('a)"
  by (auto simp: bit_simps bit_1_iff)

lemma is_ok_bind_iff:
  "is_ok_bind s \<longleftrightarrow> st_bind s \<in> {STB_GLOBAL, STB_WEAK, STB_GNU_UNIQUE}"
  unfolding is_ok_bind_def push_bit_1_and OK_BINDS_def bit_or_iff bit_push_bit_1
  using unat_st_bind_less [of s] by (auto simp: word_unat_eq_iff)

lemma is_ok_type_iff:
  "is_ok_type s \<longleftrightarrow>
     st_type s \<in> {STT_NOTYPE, STT_OBJECT, STT_FUNC, STT_COMMON, STT_TLS, STT_GNU_IFUNC}"
  unfolding is_ok_type_def push_bit_1_and OK_TYPES_def bit_or_iff bit_push_bit_1
  using unat_st_type_less [of s] by (auto simp: word_unat_eq_iff)

lemma vaildate_ok_iff:
  "vaildate h = Inr () \<longleftrightarrow>
     take 4 (e_ident h) = ELFMAGIC \<and> e_ident h ! EI_CLASS = E_CLASS \<and>
     e_ident h ! EI_VERSION = EV_CURRENT \<and> e_machine h = EM_ARCH"
  by (auto simp: vaildate_def)

lemma vaildate_not_panic: "vaildate h = Inl e \<Longrightarrow> \<exists>msg. e = Err (ParseEhdr msg)"
  by (auto simp: vaildate_def parse_ehdr_error_def split: if_splits)

lemma content_mut_length:
  "content_mut sz sh = Inr xs \<Longrightarrow> length xs = unat (sh_size sh) div unat (sh_entsize sh)"
  by (auto simp: content_mut_def unat_div split: if_splits)

end
