(* ===== verification/Os_Mmap.thy ===== *)
theory Os_Mmap
  imports Elf_Defs
begin

text \<open>
  \<^verbatim>\<open>src/src/os\<close>: the protection and mapping flags, the \<^verbatim>\<open>Mmap\<close> trait as a
  record of its operations on a process image, and the bare-metal implementation of
  \<^verbatim>\<open>os/baremetal.rs\<close> over an allocator that is a parameter. The interface
  \<open>mmap_contract\<close> states what the trait's documentation promises about memory contents; the
  bare-metal implementation is an interpretation of it.
\<close>

section \<open>Flags\<close>

definition PROT_NONE :: u32 where "PROT_NONE = 0"
definition PROT_READ :: u32 where "PROT_READ = 1"
definition PROT_WRITE :: u32 where "PROT_WRITE = 2"
definition PROT_EXEC :: u32 where "PROT_EXEC = 4"

definition MAP_PRIVATE :: u32 where "MAP_PRIVATE = 2"
definition MAP_FIXED :: u32 where "MAP_FIXED = 16"
definition MAP_ANONYMOUS :: u32 where "MAP_ANONYMOUS = 32"

lemmas flag_defs = PROT_NONE_def PROT_READ_def PROT_WRITE_def PROT_EXEC_def
  MAP_PRIVATE_def MAP_FIXED_def MAP_ANONYMOUS_def

text \<open>\<^verbatim>\<open>contains\<close> of a bit flag set.\<close>

definition flags_contain :: "u32 \<Rightarrow> u32 \<Rightarrow> bool" where
  "flags_contain fs f \<longleftrightarrow> fs AND f = f"

section \<open>The Mmap trait\<close>

text \<open>The process image: the bytes, and the protection in force at each address.\<close>

record vm =
  vm_mem :: mem
  vm_prot :: "usize \<Rightarrow> u32"

text \<open>\<open>op_mmap\<close> also returns whether it set \<^verbatim>\<open>need_copy\<close>, which every caller passes as false.\<close>

record mmap_ops =
  op_mmap :: "usize option \<Rightarrow> usize \<Rightarrow> u32 \<Rightarrow> u32 \<Rightarrow> usize \<Rightarrow> usize option \<Rightarrow> vm \<Rightarrow>
    ((usize \<times> bool) \<times> vm) result"
  op_mmap_anonymous :: "usize \<Rightarrow> usize \<Rightarrow> u32 \<Rightarrow> u32 \<Rightarrow> vm \<Rightarrow> (usize \<times> vm) result"
  op_munmap :: "usize \<Rightarrow> usize \<Rightarrow> vm \<Rightarrow> vm result"
  op_mprotect :: "usize \<Rightarrow> usize \<Rightarrow> u32 \<Rightarrow> vm \<Rightarrow> vm result"
  op_mmap_reserve :: "usize option \<Rightarrow> usize \<Rightarrow> bool \<Rightarrow> vm \<Rightarrow> (usize \<times> vm) result"

text \<open>The default body of \<^verbatim>\<open>mmap_reserve\<close>.\<close>

definition default_mmap_reserve ::
  "(usize option \<Rightarrow> usize \<Rightarrow> u32 \<Rightarrow> u32 \<Rightarrow> usize \<Rightarrow> usize option \<Rightarrow> vm \<Rightarrow>
     ((usize \<times> bool) \<times> vm) result) \<Rightarrow> usize option \<Rightarrow> usize \<Rightarrow> bool \<Rightarrow> vm \<Rightarrow> (usize \<times> vm) result" where
  "default_mmap_reserve mmap addr len use_file w =
     res_bind (mmap addr len PROT_NONE (MAP_PRIVATE OR MAP_ANONYMOUS) 0 None w)
       (\<lambda>((p, need_copy), w'). Inr (p, w'))"

section \<open>Bare metal\<close>

text \<open>
  The allocator (\<^verbatim>\<open>alloc::alloc::alloc\<close>, \<^verbatim>\<open>dealloc\<close>) is a parameter: the address of
  the new block, zero when it has none, and the image after the call.
\<close>

record allocator =
  heap_alloc :: "usize \<Rightarrow> vm \<Rightarrow> usize \<times> vm"
  heap_dealloc :: "usize \<Rightarrow> usize \<Rightarrow> vm \<Rightarrow> vm"

definition bare_mmap ::
  "allocator \<Rightarrow> usize option \<Rightarrow> usize \<Rightarrow> u32 \<Rightarrow> u32 \<Rightarrow> usize \<Rightarrow> usize option \<Rightarrow> vm \<Rightarrow>
     ((usize \<times> bool) \<times> vm) result" where
  "bare_mmap A addr len prot flags offset fd w =
     (case addr of
        Some a \<Rightarrow> Inr ((a, True), w)
      | None \<Rightarrow>
          res_bind (rust_assert ''MAP_FIXED without an address'' (MAP_FIXED AND flags = 0))
            (\<lambda>_. let (p, w') = heap_alloc A len w
                 in if p = 0 then Inl (Panic ''handle_alloc_error'') else Inr ((p, True), w')))"

definition bare_mmap_anonymous :: "usize \<Rightarrow> usize \<Rightarrow> u32 \<Rightarrow> u32 \<Rightarrow> vm \<Rightarrow> (usize \<times> vm) result" where
  "bare_mmap_anonymous addr len prot flags w =
     Inr (addr, w\<lparr>vm_mem := fill_bytes (unat len) 0 (vm_mem w) addr\<rparr>)"

definition bare_munmap :: "allocator \<Rightarrow> usize \<Rightarrow> usize \<Rightarrow> vm \<Rightarrow> vm result" where
  "bare_munmap A addr len w = Inr (heap_dealloc A addr len w)"

definition bare_mprotect :: "usize \<Rightarrow> usize \<Rightarrow> u32 \<Rightarrow> vm \<Rightarrow> vm result" where
  "bare_mprotect addr len prot w = Inr w"

definition bare_metal :: "allocator \<Rightarrow> mmap_ops" where
  "bare_metal A =
     \<lparr>op_mmap = bare_mmap A, op_mmap_anonymous = bare_mmap_anonymous, op_munmap = bare_munmap A,
      op_mprotect = bare_mprotect, op_mmap_reserve = default_mmap_reserve (bare_mmap A)\<rparr>"

section \<open>What the loader relies on\<close>

text \<open>
  \<open>fdata f\<close> is the content a mapping of the descriptor \<open>f\<close> shows. A fixed mapping changes only its
  range; when it does not ask for a copy it is a mapping of the file. An anonymous mapping is zero,
  and it covers whole pages. Protection changes no contents.
\<close>

locale mmap_contract =
  fixes M :: mmap_ops
    and fdata :: "usize \<Rightarrow> nat \<Rightarrow> u8"
  assumes mmap_frame:
    "op_mmap M (Some a) len prot flags off fd w = Inr ((p, nc), w') \<Longrightarrow>
       flags = MAP_PRIVATE OR MAP_FIXED \<Longrightarrow> unat len mod 4096 = 0 \<Longrightarrow> \<not> in_range a (unat len) x \<Longrightarrow> vm_mem w' x = vm_mem w x"
    and mmap_file:
    "op_mmap M (Some a) len prot flags off fd w = Inr ((p, False), w') \<Longrightarrow>
       flags = MAP_PRIVATE OR MAP_FIXED \<Longrightarrow> i < unat len \<Longrightarrow>
       \<exists>f. fd = Some f \<and> vm_mem w' (a + of_nat i) = fdata f (unat off + i)"
    and anonymous_zero:
    "op_mmap_anonymous M a len prot flags w = Inr (p, w') \<Longrightarrow> flags = MAP_PRIVATE OR MAP_FIXED \<Longrightarrow>
       in_range a (unat len) x \<Longrightarrow> vm_mem w' x = 0"
    and anonymous_frame:
    "op_mmap_anonymous M a len prot flags w = Inr (p, w') \<Longrightarrow> flags = MAP_PRIVATE OR MAP_FIXED \<Longrightarrow>
       \<not> in_range a ((unat len + 4095) div 4096 * 4096) x \<Longrightarrow> vm_mem w' x = vm_mem w x"
    and mprotect_mem:
    "op_mprotect M a len prot w = Inr w' \<Longrightarrow> vm_mem w' = vm_mem w"

section \<open>Lemmas\<close>

lemma le_page_up: "n \<le> (n + 4095) div 4096 * (4096::nat)"
  using div_mult_mod_eq [of "n + 4095" 4096] by linarith

lemma in_range_mono: "in_range a n x \<Longrightarrow> n \<le> k \<Longrightarrow> in_range a k x"
  by (simp add: in_range_def)

lemma bare_metal_contract: "mmap_contract (bare_metal A) fdata"
proof unfold_locales
  fix a len prot flags w p w' x
  assume "op_mmap_anonymous (bare_metal A) a len prot flags w = Inr (p, w')"
    and out: "\<not> in_range a ((unat len + 4095) div 4096 * 4096) x"
  then have w': "w' = w\<lparr>vm_mem := fill_bytes (unat len) 0 (vm_mem w) a\<rparr>"
    by (auto simp: bare_metal_def bare_mmap_anonymous_def)
  from out have "\<not> in_range a (unat len) x" by (blast intro: in_range_mono le_page_up)
  then show "vm_mem w' x = vm_mem w x" by (simp add: w' mem_simps)
qed (auto simp: bare_metal_def bare_mmap_def bare_mmap_anonymous_def bare_mprotect_def mem_simps)

interpretation bare_metal: mmap_contract "bare_metal A" fdata for A fdata
  by (rule bare_metal_contract)

end
