(* ===== verification/Input.thy ===== *)
theory Input
  imports Elf_Defs
begin

text \<open>
  \<^verbatim>\<open>src/src/input\<close>: the \<^verbatim>\<open>ElfReader\<close> trait as a record of its
  operations, and its two memory backends. A reader's \<^verbatim>\<open>read\<close> takes the length of the
  buffer and the offset and returns the bytes that fill the buffer. The interface
  \<open>reader_contract\<close> says that a successful read returns the bytes of one fixed content.
\<close>

section \<open>Readers\<close>

record elf_reader =
  file_name :: string
  rd_read :: "nat \<Rightarrow> usize \<Rightarrow> bytes result"
  as_fd :: "usize option"

text \<open>\<^verbatim>\<open>name.rsplit('/').next()\<close>: what follows the last separator.\<close>

definition shortname :: "elf_reader \<Rightarrow> string" where
  "shortname r = rev (takeWhile (\<lambda>c. c \<noteq> CHR ''/'') (rev (file_name r)))"

text \<open>\<^verbatim>\<open>&bytes[start..end]\<close>: both bounds are checked.\<close>

definition slice :: "bytes \<Rightarrow> usize \<Rightarrow> usize \<Rightarrow> bytes result" where
  "slice bs s e =
     (if e < s then Inl (Panic ''slice index starts after its end'')
      else if length bs < unat e then Inl (Panic ''range end index out of range'')
      else Inr (take (unat e - unat s) (drop (unat s) bs)))"

definition elf_binary_read :: "bytes \<Rightarrow> nat \<Rightarrow> usize \<Rightarrow> bytes result" where
  "elf_binary_read bs n off = slice bs off (off + of_nat n)"

definition elf_binary :: "string \<Rightarrow> bytes \<Rightarrow> elf_reader" where
  "elf_binary name bs = \<lparr>file_name = name, rd_read = elf_binary_read bs, as_fd = None\<rparr>"

text \<open>\<^verbatim>\<open>impl ElfReader for &[u8]\<close>: the length test comes first and is an error, not a panic.\<close>

definition slice_read :: "bytes \<Rightarrow> nat \<Rightarrow> usize \<Rightarrow> bytes result" where
  "slice_read bs n off =
     (if of_nat (length bs) < off + of_nat n then Inl (Err (Io ''read offset out of bounds''))
      else slice bs off (off + of_nat n))"

definition slice_reader :: "bytes \<Rightarrow> elf_reader" where
  "slice_reader bs = \<lparr>file_name = ''<memory>'', rd_read = slice_read bs, as_fd = None\<rparr>"

text \<open>\<^verbatim>\<open>into_reader\<close> of byte slices and byte vectors.\<close>

definition bytes_into_reader :: "bytes \<Rightarrow> elf_reader result" where
  "bytes_into_reader bs = Inr (elf_binary ''<memory>'' bs)"

section \<open>What the loader relies on\<close>

locale reader_contract =
  fixes R :: elf_reader
    and content :: "nat \<Rightarrow> u8"
  assumes read_content:
    "rd_read R n off = Inr bs \<Longrightarrow> n < 2 ^ 64 \<Longrightarrow> bs = map (\<lambda>i. content (unat off + i)) [0..<n]"
begin

lemma read_length: "rd_read R n off = Inr bs \<Longrightarrow> n < 2 ^ 64 \<Longrightarrow> length bs = n"
  by (drule (1) read_content) simp

lemma read_nth:
  "rd_read R n off = Inr bs \<Longrightarrow> n < 2 ^ 64 \<Longrightarrow> i < n \<Longrightarrow> bs ! i = content (unat off + i)"
  by (drule (1) read_content) simp

end

section \<open>Lemmas\<close>

text \<open>The content of a byte string, zero past its end.\<close>

definition bytes_content :: "bytes \<Rightarrow> nat \<Rightarrow> u8" where
  "bytes_content bs i = (if i < length bs then bs ! i else 0)"

lemma unat_add_le_imp:
  assumes "off \<le> off + (of_nat n :: usize)" and "n < 2 ^ 64"
  shows "unat (off + of_nat n) = unat off + n"
proof -
  have "unat (off + of_nat n) = unat off + unat (of_nat n :: usize)"
    using assms(1) by (simp add: unat_plus_simple)
  with assms(2) show ?thesis by simp
qed

lemma slice_ok:
  assumes "slice bs off (off + of_nat n) = Inr r" and "n < 2 ^ 64"
  shows "unat off + n \<le> length bs" and "r = take n (drop (unat off) bs)"
  using assms unat_add_le_imp [of off n]
  by (auto simp: slice_def not_less split: if_splits)

lemma elf_binary_read_ok_iff:
  assumes "n < 2 ^ 64" and "length bs < 2 ^ 64"
  shows "elf_binary_read bs n off = Inr r \<longleftrightarrow>
     unat off + n \<le> length bs \<and> r = take n (drop (unat off) bs)"
proof
  assume "elf_binary_read bs n off = Inr r"
  with assms(1) show "unat off + n \<le> length bs \<and> r = take n (drop (unat off) bs)"
    by (auto simp: elf_binary_read_def dest: slice_ok)
next
  assume *: "unat off + n \<le> length bs \<and> r = take n (drop (unat off) bs)"
  with assms have "unat off + unat (of_nat n :: usize) < 2 ^ 64" by simp
  then have le: "off \<le> off + of_nat n"
    by (simp add: no_olen_add_nat)
  with * assms unat_add_le_imp [OF le] show "elf_binary_read bs n off = Inr r"
    by (simp add: elf_binary_read_def slice_def not_less)
qed

lemma take_drop_content:
  "k + n \<le> length bs \<Longrightarrow> take n (drop k bs) = map (\<lambda>i. bytes_content bs (k + i)) [0..<n]"
  by (rule nth_equalityI) (simp_all add: bytes_content_def)

lemma slice_content:
  "slice bs off (off + of_nat n) = Inr r \<Longrightarrow> n < 2 ^ 64 \<Longrightarrow>
     r = map (\<lambda>i. bytes_content bs (unat off + i)) [0..<n]"
  by (frule (1) slice_ok(1), drule (1) slice_ok(2), simp add: take_drop_content)

lemma elf_binary_contract: "reader_contract (elf_binary name bs) (bytes_content bs)"
  by unfold_locales (simp add: elf_binary_def elf_binary_read_def slice_content)

lemma slice_reader_contract: "reader_contract (slice_reader bs) (bytes_content bs)"
  by unfold_locales
    (simp add: slice_reader_def slice_read_def slice_content split: if_splits)

interpretation elf_binary: reader_contract "elf_binary name bs" "bytes_content bs" for name bs
  by (rule elf_binary_contract)

interpretation slice_reader: reader_contract "slice_reader bs" "bytes_content bs" for bs
  by (rule slice_reader_contract)

lemma shortname_no_slash: "CHR ''/'' \<notin> set (shortname r)"
  by (auto simp: shortname_def dest: set_takeWhileD)

lemma shortname_suffix: "\<exists>dir. file_name r = dir @ shortname r"
  unfolding shortname_def by (metis rev_append rev_rev_ident takeWhile_dropWhile_id)

end
