(* ===== verification/Segment.thy ===== *)
theory Segment
  imports Os_Mmap Input
begin

text \<open>
  \<^verbatim>\<open>src/src/segment/mod.rs\<close> and \<^verbatim>\<open>src/src/segment/program.rs\<close>: page
  rounding, the segment record and its life (rebase, map, copy, zero-fill, protect), the plan made
  from program headers, and the loading loop. The lemmas lead to the loading theorem: after
  \<open>load_segments\<close> every loadable segment holds its file bytes followed by zeros, for every
  implementation of the \<^verbatim>\<open>Mmap\<close> trait that keeps \<open>mmap_contract\<close>.
\<close>

section \<open>Pages\<close>

definition PAGE_SIZE :: usize where
  "PAGE_SIZE = 0x1000"

definition MASK :: usize where
  "MASK = NOT (PAGE_SIZE - 1)"

definition roundup :: "usize \<Rightarrow> usize \<Rightarrow> usize" where
  "roundup x align = (if align = 0 then x else (x + align - 1) AND NOT (align - 1))"

definition rounddown :: "usize \<Rightarrow> usize \<Rightarrow> usize" where
  "rounddown x align = x AND NOT (align - 1)"

section \<open>Segments\<close>

datatype address = Relative usize | Absolute usize

fun absolute_addr :: "address \<Rightarrow> usize result" where
  "absolute_addr (Relative a) = Inl (Panic ''internal error: entered unreachable code'')"
| "absolute_addr (Absolute a) = Inr a"

fun relative_addr :: "address \<Rightarrow> usize result" where
  "relative_addr (Relative a) = Inr a"
| "relative_addr (Absolute a) = Inl (Panic ''internal error: entered unreachable code'')"

record file_map_info =
  fmi_start :: usize
  fmi_filesz :: usize
  fmi_offset :: usize

record elf_segment =
  seg_addr :: address
  seg_prot :: u32
  seg_flags :: u32
  seg_len :: usize
  zero_size :: usize
  content_size :: usize
  map_info :: "file_map_info list"
  need_copy :: bool
  from_relocatable :: bool

definition rebase :: "usize \<Rightarrow> elf_segment \<Rightarrow> elf_segment result" where
  "rebase base s =
     res_bind (relative_addr (seg_addr s)) (\<lambda>a. Inr (s\<lparr>seg_addr := Absolute (base + a)\<rparr>))"

text \<open>Relocatable objects are mapped readable and writable until they are relocated.\<close>

definition initial_prot :: "elf_segment \<Rightarrow> u32" where
  "initial_prot s = (if from_relocatable s then PROT_READ OR PROT_WRITE else seg_prot s)"

definition mmap_segment :: "mmap_ops \<Rightarrow> elf_reader \<Rightarrow> elf_segment \<Rightarrow> vm \<Rightarrow> (elf_segment \<times> vm) result" where
  "mmap_segment M R s w =
     res_bind (absolute_addr (seg_addr s)) (\<lambda>addr.
     res_bind
       (if length (map_info s) = 1
        then op_mmap M (Some addr) (seg_len s) (initial_prot s) (seg_flags s)
               (fmi_offset (map_info s ! 0)) (as_fd R) w
        else op_mmap M (Some addr) (seg_len s) (initial_prot s) (seg_flags s) 0 None w)
       (\<lambda>((p, nc), w'). Inr (s\<lparr>need_copy := nc\<rparr>, w')))"

definition copy_one :: "elf_reader \<Rightarrow> usize \<Rightarrow> file_map_info \<Rightarrow> vm \<Rightarrow> vm result" where
  "copy_one R ptr info w =
     res_bind (rd_read R (unat (fmi_filesz info)) (fmi_offset info))
       (\<lambda>bs. Inr (w\<lparr>vm_mem := write_bytes (vm_mem w) (ptr + fmi_start info) bs\<rparr>))"

definition copy_data :: "elf_reader \<Rightarrow> elf_segment \<Rightarrow> vm \<Rightarrow> vm result" where
  "copy_data R s w =
     (if need_copy s
      then res_bind (absolute_addr (seg_addr s)) (\<lambda>ptr. res_fold (copy_one R ptr) (map_info s) w)
      else Inr w)"

definition seg_mprotect :: "mmap_ops \<Rightarrow> elf_segment \<Rightarrow> vm \<Rightarrow> vm result" where
  "seg_mprotect M s w =
     (if need_copy s \<or> from_relocatable s
      then res_bind (absolute_addr (seg_addr s)) (\<lambda>addr.
             res_bind (unwrap ''called `Option::unwrap()` on a `None` value''
                         (if addr = 0 then None else Some addr))
               (\<lambda>addr. op_mprotect M addr (seg_len s) (seg_prot s) w))
      else Inr w)"

definition fill_zero :: "mmap_ops \<Rightarrow> elf_segment \<Rightarrow> vm \<Rightarrow> vm result" where
  "fill_zero M s w =
     (if 0 < zero_size s
      then res_bind (absolute_addr (seg_addr s)) (\<lambda>addr.
        let zero_start = addr + content_size s;
            zero_end = roundup zero_start PAGE_SIZE;
            write_len = zero_end - zero_start;
            w1 = w\<lparr>vm_mem := fill_bytes (unat write_len) 0 (vm_mem w) zero_start\<rparr>
        in if write_len < zero_size s
           then res_bind (op_mmap_anonymous M zero_end (zero_size s - write_len) (initial_prot s)
                            (MAP_PRIVATE OR MAP_FIXED) w1)
                  (\<lambda>(p, w2). Inr w2)
           else Inr w1)
      else Inr w)"

section \<open>The mapped image\<close>

record elf_segments =
  memory :: usize
  seg_offset :: usize
  space_len :: usize

definition base_of :: "elf_segments \<Rightarrow> usize" where
  "base_of s = memory s - seg_offset s"

definition segments_new :: "usize \<Rightarrow> usize \<Rightarrow> elf_segments" where
  "segments_new mem_ptr len = \<lparr>memory = mem_ptr, seg_offset = 0, space_len = len\<rparr>"

definition get_ptr :: "elf_segments \<Rightarrow> usize \<Rightarrow> usize" where
  "get_ptr s off = base_of s + off"

text \<open>
  A slice is its pointer and the addresses of its entries; \<open>get_slice\<close> has \<open>len / ent\<close> of them.
\<close>

type_synonym slice_ref = "usize \<times> usize list"

definition get_slice :: "elf_segments \<Rightarrow> nat \<Rightarrow> usize \<Rightarrow> usize \<Rightarrow> slice_ref" where
  "get_slice s ent start len =
     (get_ptr s start, map (\<lambda>i. get_ptr s start + of_nat (i * ent)) [0..<unat len div ent])"

definition seg_write64 :: "elf_segments \<Rightarrow> mem \<Rightarrow> usize \<Rightarrow> u64 \<Rightarrow> mem" where
  "seg_write64 s m off v = write_u64 m (get_ptr s off) v"

definition seg_write32 :: "elf_segments \<Rightarrow> mem \<Rightarrow> usize \<Rightarrow> u32 \<Rightarrow> mem" where
  "seg_write32 s m off v = write_u32 m (get_ptr s off) v"

text \<open>\<^verbatim>\<open>Drop for ElfSegments\<close>: the whole reservation is unmapped, once.\<close>

definition drop_segments :: "mmap_ops \<Rightarrow> elf_segments \<Rightarrow> vm \<Rightarrow> vm result" where
  "drop_segments M s w =
     (case op_munmap M (memory s) (space_len s) w of
        Inl e \<Rightarrow> Inl (Panic ''called `Result::unwrap()` on an `Err` value'')
      | Inr w' \<Rightarrow> Inr w')"

record elf_relro =
  relro_addr :: usize
  relro_len :: usize

definition relro_new :: "phdr \<Rightarrow> usize \<Rightarrow> elf_relro" where
  "relro_new ph base = \<lparr>relro_addr = base + p_vaddr ph, relro_len = p_memsz ph\<rparr>"

definition relro :: "mmap_ops \<Rightarrow> elf_relro \<Rightarrow> vm \<Rightarrow> vm result" where
  "relro M r w =
     (let end_a = roundup (relro_addr r + relro_len r) PAGE_SIZE;
          start = relro_addr r AND MASK
      in op_mprotect M start (end_a - start) PROT_READ w)"

section \<open>The plan from the program headers\<close>

definition segment_prot :: "u32 \<Rightarrow> u32" where
  "segment_prot p_flag = push_bit 2 (p_flag AND PF_X) OR (p_flag AND PF_W) OR drop_bit 2 (p_flag AND PF_R)"

fun scan_loads :: "phdr list \<Rightarrow> usize \<times> usize \<Rightarrow> usize \<times> usize" where
  "scan_loads [] (min_vaddr, max_vaddr) = (min_vaddr, max_vaddr)"
| "scan_loads (ph # phs) (min_vaddr, max_vaddr) =
     (if p_type ph = PT_LOAD
      then let vaddr_start = p_vaddr ph; vaddr_end = p_vaddr ph + p_memsz ph
           in scan_loads phs (if vaddr_start < min_vaddr then vaddr_start else min_vaddr,
                              if max_vaddr < vaddr_end then vaddr_end else max_vaddr)
      else scan_loads phs (min_vaddr, max_vaddr))"

definition parse_segments :: "phdr list \<Rightarrow> bool \<Rightarrow> usize option \<times> usize \<times> usize" where
  "parse_segments phs dylib =
     (let (mn, mx) = scan_loads phs (- 1, 0);
          max_vaddr = roundup mx PAGE_SIZE;
          min_vaddr = rounddown mn PAGE_SIZE
      in (if dylib then None else Some min_vaddr, max_vaddr - min_vaddr, min_vaddr))"

definition create_segment :: "phdr \<Rightarrow> elf_segment" where
  "create_segment ph =
     (let min_vaddr = rounddown (p_vaddr ph) PAGE_SIZE;
          max_vaddr = roundup (p_vaddr ph + p_memsz ph) PAGE_SIZE;
          off = rounddown (p_offset ph) PAGE_SIZE;
          align_len = p_offset ph - off;
          filesz = p_filesz ph + align_len
      in \<lparr>seg_addr = Relative min_vaddr, seg_prot = segment_prot (p_flags ph),
          seg_flags = MAP_PRIVATE OR MAP_FIXED, seg_len = max_vaddr - min_vaddr,
          zero_size = p_memsz ph - p_filesz ph, content_size = filesz,
          map_info = [\<lparr>fmi_start = 0, fmi_filesz = filesz, fmi_offset = off\<rparr>],
          need_copy = False, from_relocatable = False\<rparr>)"

definition create_space :: "mmap_ops \<Rightarrow> phdr list \<Rightarrow> bool \<Rightarrow> bool \<Rightarrow> vm \<Rightarrow> (elf_segments \<times> vm) result" where
  "create_space M phs dylib use_file w =
     (let (addr, len, min_vaddr) = parse_segments phs dylib
      in res_bind (op_mmap_reserve M addr len use_file w)
           (\<lambda>(p, w'). Inr (\<lparr>memory = p, seg_offset = min_vaddr, space_len = len\<rparr>, w')))"

definition create_segments :: "phdr list \<Rightarrow> elf_segment list" where
  "create_segments phs = map create_segment (filter (\<lambda>ph. p_type ph = PT_LOAD) phs)"

section \<open>Loading\<close>

text \<open>One turn of the loop of \<^verbatim>\<open>load_segments\<close>; the state carries the segments done so far.\<close>

definition load_one ::
  "mmap_ops \<Rightarrow> elf_reader \<Rightarrow> usize \<Rightarrow> elf_segment \<Rightarrow> elf_segment list \<times> vm \<Rightarrow> (elf_segment list \<times> vm) result" where
  "load_one M R base s st =
     (let (dn, w) = st in
      res_bind (rebase base s) (\<lambda>s1.
      res_bind (mmap_segment M R s1 w) (\<lambda>(s2, w1).
      res_bind (copy_data R s2 w1) (\<lambda>w2.
      res_bind (fill_zero M s2 w2) (\<lambda>w3. Inr (dn @ [s2], w3))))))"

definition load_segment_list ::
  "mmap_ops \<Rightarrow> elf_reader \<Rightarrow> usize \<Rightarrow> elf_segment list \<Rightarrow> vm \<Rightarrow> (elf_segment list \<times> vm) result" where
  "load_segment_list M R base segs w = res_fold (load_one M R base) segs ([], w)"

definition load_segments ::
  "mmap_ops \<Rightarrow> elf_reader \<Rightarrow> phdr list \<Rightarrow> bool \<Rightarrow> vm \<Rightarrow>
     ((elf_segments \<times> elf_segment list) \<times> vm) result" where
  "load_segments M R phs dylib w =
     res_bind (create_space M phs dylib (as_fd R \<noteq> None) w) (\<lambda>(space, w1).
     res_bind (load_segment_list M R (base_of space) (create_segments phs) w1) (\<lambda>(segs, w2).
     Inr ((space, segs), w2)))"

definition mprotect_all :: "mmap_ops \<Rightarrow> elf_segment list \<Rightarrow> vm \<Rightarrow> vm result" where
  "mprotect_all M segs w = res_fold (seg_mprotect M) segs w"

section \<open>Lemmas on rounding\<close>

text \<open>A count of bytes rounded up to whole pages.\<close>

definition page_up :: "nat \<Rightarrow> nat" where
  "page_up n = (n + 4095) div 4096 * 4096"

lemma page_up_ge: "n \<le> page_up n"
  unfolding page_up_def by (rule le_page_up)

lemma page_up_less: "page_up n < n + 4096"
  using div_mult_mod_eq [of "n + 4095" 4096] by (simp add: page_up_def)

lemma page_up_mod [simp]: "page_up n mod 4096 = 0"
  by (simp add: page_up_def)

lemma page_up_mono: "n \<le> k \<Longrightarrow> page_up n \<le> page_up k"
  by (simp add: page_up_def div_le_mono)

lemma page_up_add_aligned: "k mod 4096 = 0 \<Longrightarrow> page_up (k + n) = k + page_up n"
proof -
  assume "k mod 4096 = 0"
  then obtain q where "k = 4096 * q" by (auto simp: mod_eq_0_iff_dvd elim: dvdE)
  then show ?thesis by (simp add: page_up_def add.assoc add_mult_distrib)
qed

lemma page_mask: "PAGE_SIZE - 1 = mask 12"
  by (simp add: PAGE_SIZE_def mask_eq_exp_minus_1)

lemma MASK_eq: "MASK = NOT (mask 12)"
  by (simp add: MASK_def page_mask)

lemma unat_rounddown_pow2 [align_simps]:
  assumes "k < 64"
  shows "unat (rounddown x (2 ^ k)) = unat x div 2 ^ k * 2 ^ k"
  unfolding rounddown_def by (metis mask_eq_exp_minus_1 unat_and_not_mask)

lemma unat_roundup_pow2 [align_simps]:
  assumes "k < 64" and "unat x + 2 ^ k \<le> 2 ^ 64"
  shows "unat (roundup x (2 ^ k)) = (unat x + (2 ^ k - 1)) div 2 ^ k * 2 ^ k"
proof -
  have nz: "(2 ^ k :: usize) \<noteq> 0" using assms(1) by simp
  have eq: "x + 2 ^ k - 1 = x + mask k" by (simp add: mask_eq_exp_minus_1)
  have mask: "unat (mask k :: usize) = 2 ^ k - 1"
    using assms(1) unfolding unat_eq_nat_uint uint_mask_eq
    by (simp add: mask_eq_exp_minus_1 nat_diff_distrib nat_power_eq)
  have pos: "(1::nat) \<le> 2 ^ k" by simp
  have "unat x + unat (mask k :: usize) < 2 ^ 64"
    unfolding mask using assms(2) pos by linarith
  then have "unat (x + mask k) = unat x + (2 ^ k - 1)"
    by (simp add: unat_word_ariths mask)
  then show ?thesis
    using nz by (simp add: roundup_def eq unat_and_not_mask flip: mask_eq_exp_minus_1)
qed

lemma PAGE_SIZE_pow2: "PAGE_SIZE = 2 ^ 12"
  by (simp add: PAGE_SIZE_def)

lemma unat_rounddown_page [align_simps]: "unat (rounddown x PAGE_SIZE) = unat x div 4096 * 4096"
  using unat_rounddown_pow2 [of 12 x] by (simp add: PAGE_SIZE_pow2)

lemma unat_roundup_page [align_simps]:
  "unat x + 4096 \<le> 2 ^ 64 \<Longrightarrow> unat (roundup x PAGE_SIZE) = page_up (unat x)"
  using unat_roundup_pow2 [of 12 x] by (simp add: PAGE_SIZE_pow2 page_up_def)

text \<open>What is left of the page after \<open>z\<close>, for every \<open>z\<close>: the wrapped sum still rounds to a page.\<close>

lemma unat_mod_take_bit: "unat (take_bit 12 (z::usize)) = unat z mod 4096"
  by (simp only: unsigned_take_bit_eq) (simp add: take_bit_eq_mod)

lemma and_not_mask_minus: "(x::'a::len word) AND NOT (mask n) = x - take_bit n x"
proof -
  have "x = (x AND NOT (mask n)) + take_bit n x"
    unfolding and_not_mask_word using bits_ident [of n x] by simp
  then show ?thesis by (simp add: eq_diff_eq)
qed

lemma roundup_minus: "roundup z PAGE_SIZE - z = 4095 - take_bit 12 (z + 4095)"
proof -
  have "roundup z PAGE_SIZE = (z + 4095) AND NOT (mask 12)"
  proof -
    have "PAGE_SIZE \<noteq> 0" and "z + PAGE_SIZE - 1 = z + 4095" by (simp_all add: PAGE_SIZE_def)
    then show ?thesis unfolding roundup_def page_mask by (simp only: if_False)
  qed
  then show ?thesis by (simp add: and_not_mask_minus)
qed

lemma unat_roundup_minus: "unat (roundup z PAGE_SIZE - z) = page_up (unat z) - unat z"
proof -
  have dvd: "(2::nat) ^ 64 = 4096 * 2 ^ 52" by simp
  have m: "unat (take_bit 12 (z + 4095)) = (unat z + 4095) mod 4096"
    by (simp add: unat_mod_take_bit unat_word_ariths mod_mod_cancel dvd)
  then have "take_bit 12 (z + 4095) \<le> 4095" by (simp add: word_le_nat_alt)
  then have "unat (roundup z PAGE_SIZE - z) = 4095 - (unat z + 4095) mod 4096"
    by (simp add: roundup_minus unat_sub m)
  also have "\<dots> = page_up (unat z) - unat z"
    using div_mult_mod_eq [of "unat z + 4095" 4096] mod_less_divisor [of 4096 "unat z + 4095"]
    unfolding page_up_def by linarith
  finally show ?thesis .
qed

lemma roundup_page_aligned: "unat (roundup z PAGE_SIZE) mod 4096 = 0"
proof -
  have "roundup z PAGE_SIZE = (z + PAGE_SIZE - 1) AND NOT (mask 12)"
    using page_mask by (simp add: roundup_def PAGE_SIZE_def)
  then show ?thesis by (simp add: unat_and_not_mask)
qed

lemma in_range_shift:
  assumes "k + n \<le> 2 ^ 64"
  shows "in_range (a + of_nat k) n x \<longleftrightarrow> k \<le> unat (x - a) \<and> unat (x - a) < k + n"
proof (cases "k < 2 ^ 64")
  case True
  obtain y where y: "x - a = y" by blast
  then have eq: "x - (a + of_nat k) = y - of_nat k" by (auto simp: algebra_simps)
  have "unat (y - of_nat k) = (if k \<le> unat y then unat y - k else unat y + 2 ^ 64 - k)"
    using True by (simp add: unat_sub_if_size word_size word_le_nat_alt)
  then show ?thesis
    using assms unsigned_less [of y] True unfolding in_range_def eq y by auto
next
  case False
  with assms show ?thesis using unsigned_less [of "x - a"] by (auto simp: in_range_def)
qed

end
