(* ===== verification/Segment_Load.thy ===== *)
theory Segment_Load
  imports Segment
begin

text \<open>
  Correctness of loading (\<^verbatim>\<open>SegmentBuilder::load_segments\<close> on program headers). The
  environment \<open>loading_env\<close> joins the contract of the \<^verbatim>\<open>Mmap\<close> implementation with the one
  of the reader. Offsets inside a segment are natural numbers, \<open>unat (x - A)\<close> for the address \<open>x\<close>
  and the segment's start \<open>A\<close>, so no lemma needs the image to lie away from the end of the
  address space.
\<close>

text \<open>
  A loadable header the ELF specification allows: the file part is not larger than the segment,
  file offset and address agree modulo the page size, and no end overflows.
\<close>

definition phdr_ok :: "phdr \<Rightarrow> bool" where
  "phdr_ok ph \<longleftrightarrow>
     unat (p_filesz ph) \<le> unat (p_memsz ph) \<and>
     unat (p_offset ph) mod 4096 = unat (p_vaddr ph) mod 4096 \<and>
     unat (p_vaddr ph) + unat (p_memsz ph) + 8192 \<le> 2 ^ 64 \<and>
     unat (p_offset ph) + unat (p_filesz ph) < 2 ^ 64"

text \<open>The pages of a header: start and number of bytes, relative to the base.\<close>

definition page_start :: "phdr \<Rightarrow> nat" where
  "page_start ph = unat (p_vaddr ph) div 4096 * 4096"

definition page_span :: "phdr \<Rightarrow> nat" where
  "page_span ph = page_up (unat (p_vaddr ph) + unat (p_memsz ph)) - page_start ph"

text \<open>The pages of two headers do not meet.\<close>

definition pages_apart :: "phdr \<Rightarrow> phdr \<Rightarrow> bool" where
  "pages_apart p q \<longleftrightarrow>
     page_start p + page_span p \<le> page_start q \<or> page_start q + page_span q \<le> page_start p"

text \<open>The bytes of a loaded segment: file content, then zeros.\<close>

definition segment_image :: "(nat \<Rightarrow> u8) \<Rightarrow> phdr \<Rightarrow> nat \<Rightarrow> u8" where
  "segment_image content ph i =
     (if i < unat (p_filesz ph) then content (unat (p_offset ph) + i) else 0)"

definition holds_segment :: "(nat \<Rightarrow> u8) \<Rightarrow> mem \<Rightarrow> usize \<Rightarrow> phdr \<Rightarrow> bool" where
  "holds_segment content m base ph \<longleftrightarrow>
     (\<forall>i < unat (p_memsz ph). m (base + p_vaddr ph + of_nat i) = segment_image content ph i)"

section \<open>Fields of a created segment\<close>

lemma create_segment_simps:
  "seg_addr (create_segment ph) = Relative (rounddown (p_vaddr ph) PAGE_SIZE)"
  "from_relocatable (create_segment ph) = False"
  "zero_size (create_segment ph) = p_memsz ph - p_filesz ph"
  "map_info (create_segment ph) =
     [\<lparr>fmi_start = 0, fmi_filesz = content_size (create_segment ph),
       fmi_offset = rounddown (p_offset ph) PAGE_SIZE\<rparr>]"
  by (simp_all add: create_segment_def Let_def)

lemma mod_plus_page: "x div 4096 * 4096 + x mod 4096 = (x::nat)"
  by simp

lemma unat_minus_rounddown: "unat (x - rounddown x PAGE_SIZE) = unat x mod 4096"
proof -
  have "rounddown x PAGE_SIZE \<le> x" by (simp add: word_le_nat_alt align_simps)
  then show ?thesis by (simp add: unat_sub align_simps minus_div_mult_eq_mod)
qed

lemma unat_content_size:
  assumes "phdr_ok ph"
  shows "unat (content_size (create_segment ph)) = unat (p_filesz ph) + unat (p_vaddr ph) mod 4096"
proof -
  have c: "content_size (create_segment ph) = p_filesz ph + (p_offset ph - rounddown (p_offset ph) PAGE_SIZE)"
    by (simp add: create_segment_def Let_def)
  from assms have "unat (p_filesz ph) + unat (p_offset ph) mod 4096 < 2 ^ 64"
    unfolding phdr_ok_def by (metis add.commute le_less_trans mod_less_eq_dividend nat_add_left_cancel_le)
  with assms show ?thesis
    unfolding c by (simp add: unat_word_ariths unat_minus_rounddown phdr_ok_def)
qed

lemma unat_zero_size:
  "phdr_ok ph \<Longrightarrow> unat (zero_size (create_segment ph)) = unat (p_memsz ph) - unat (p_filesz ph)"
  by (simp add: create_segment_simps phdr_ok_def unat_sub word_le_nat_alt)

lemma unat_seg_len:
  assumes "phdr_ok ph"
  shows "unat (seg_len (create_segment ph)) = page_span ph"
proof -
  have l: "seg_len (create_segment ph) =
      roundup (p_vaddr ph + p_memsz ph) PAGE_SIZE - rounddown (p_vaddr ph) PAGE_SIZE"
    by (simp add: create_segment_def Let_def)
  have s: "unat (p_vaddr ph + p_memsz ph) = unat (p_vaddr ph) + unat (p_memsz ph)"
    using assms by (simp add: phdr_ok_def unat_word_ariths)
  then have r: "unat (roundup (p_vaddr ph + p_memsz ph) PAGE_SIZE) =
      page_up (unat (p_vaddr ph) + unat (p_memsz ph))"
    using assms by (simp add: align_simps phdr_ok_def)
  have "page_start ph \<le> page_up (unat (p_vaddr ph) + unat (p_memsz ph))"
    using page_up_ge [of "unat (p_vaddr ph) + unat (p_memsz ph)"]
      div_times_less_eq_dividend [of "unat (p_vaddr ph)" 4096]
    unfolding page_start_def by linarith
  then show ?thesis
    unfolding l page_span_def by (simp add: unat_sub word_le_nat_alt r align_simps page_start_def)
qed

lemma page_span_alt:
  "page_span ph = page_up (unat (p_vaddr ph) mod 4096 + unat (p_memsz ph))"
proof -
  have "page_up (page_start ph + (unat (p_vaddr ph) mod 4096 + unat (p_memsz ph))) =
      page_start ph + page_up (unat (p_vaddr ph) mod 4096 + unat (p_memsz ph))"
    by (rule page_up_add_aligned) (simp add: page_start_def)
  moreover have "page_start ph + unat (p_vaddr ph) mod 4096 = unat (p_vaddr ph)"
    by (simp add: page_start_def)
  ultimately show ?thesis by (simp add: page_span_def flip: add.assoc)
qed

lemma page_span_less: "phdr_ok ph \<Longrightarrow> page_start ph + page_span ph < 2 ^ 64"
  using page_up_less [of "unat (p_vaddr ph) + unat (p_memsz ph)"]
    page_up_ge [of "unat (p_vaddr ph) + unat (p_memsz ph)"]
    div_times_less_eq_dividend [of "unat (p_vaddr ph)" 4096]
  unfolding phdr_ok_def page_span_def page_start_def by linarith

section \<open>Zero filling\<close>

lemma page_up_minus_mod: "page_up n - n = page_up (n mod 4096) - n mod 4096"
proof -
  have "page_up n = n div 4096 * 4096 + page_up (n mod 4096)"
    using page_up_add_aligned [of "n div 4096 * 4096" "n mod 4096"] by simp
  then show ?thesis using div_mult_mod_eq [of n 4096] by linarith
qed

lemma zero_end_offset:
  assumes "unat A mod 4096 = 0" and "c + 4096 \<le> 2 ^ 64"
  shows "unat (roundup (A + of_nat c) PAGE_SIZE - (A + of_nat c)) = page_up c - c"
proof -
  have "unat (A + of_nat c) mod 4096 = c mod 4096"
  proof -
    have "unat (A + of_nat c) mod 4096 = (unat A + c) mod 2 ^ 64 mod 4096"
      using assms(2) by (simp add: unat_word_ariths)
    also have "\<dots> = (unat A + c) mod 4096"
      by (rule mod_mod_cancel) simp
    also have "\<dots> = c mod 4096"
      using assms(1) mod_add_left_eq [of "unat A" 4096 c] by simp
    finally show ?thesis .
  qed
  then show ?thesis
    unfolding unat_roundup_minus by (metis page_up_minus_mod)
qed

section \<open>Pages of a header\<close>

lemma rounddown_of_nat: "rounddown (p_vaddr ph) PAGE_SIZE = of_nat (page_start ph)"
proof -
  have "of_nat (unat (rounddown (p_vaddr ph) PAGE_SIZE)) = (of_nat (page_start ph) :: usize)"
    by (simp only: unat_rounddown_page page_start_def)
  then show ?thesis by simp
qed

lemma segment_start_aligned:
  assumes "unat base mod 4096 = 0"
  shows "unat (base + of_nat (page_start ph) :: usize) mod 4096 = 0"
proof -
  have "unat (base + of_nat (page_start ph) :: usize) mod 4096 = (unat base + page_start ph) mod 2 ^ 64 mod 4096"
    by (simp add: unat_word_ariths unat_of_nat mod_simps)
  also have "\<dots> = (unat base + page_start ph) mod 4096"
    by (rule mod_mod_cancel) simp
  also have "\<dots> = 0"
    using assms by (simp add: page_start_def mod_add_left_eq flip: mod_add_left_eq [of "unat base"])
  finally show ?thesis .
qed

lemma vaddr_split: "base + p_vaddr ph = base + of_nat (page_start ph) + of_nat (unat (p_vaddr ph) mod 4096)"
proof -
  have "p_vaddr ph = of_nat (page_start ph + unat (p_vaddr ph) mod 4096)"
    by (simp add: page_start_def)
  then show ?thesis by simp
qed

lemma segment_byte_offset:
  assumes "phdr_ok ph" and "i < unat (p_memsz ph)"
  shows "unat (base + p_vaddr ph + of_nat i - (base + of_nat (page_start ph))) =
    unat (p_vaddr ph) mod 4096 + i"
    and "unat (p_vaddr ph) mod 4096 + i < page_span ph"
proof -
  have "unat (p_vaddr ph) mod 4096 + i < 2 ^ 64"
    using assms mod_less_eq_dividend [of "unat (p_vaddr ph)" 4096] unfolding phdr_ok_def by linarith
  then have u: "unat (of_nat (unat (p_vaddr ph) mod 4096 + i) :: usize) = unat (p_vaddr ph) mod 4096 + i"
    by (rule unat_of_nat_usize)
  have "base + p_vaddr ph + of_nat i - (base + of_nat (page_start ph)) =
      of_nat (unat (p_vaddr ph) mod 4096 + i)"
    unfolding vaddr_split by simp
  with u show "unat (base + p_vaddr ph + of_nat i - (base + of_nat (page_start ph))) =
      unat (p_vaddr ph) mod 4096 + i" by metis
  show "unat (p_vaddr ph) mod 4096 + i < page_span ph"
    using assms(2) page_up_ge [of "unat (p_vaddr ph) mod 4096 + unat (p_memsz ph)"]
    unfolding page_span_alt by linarith
qed

definition on_pages :: "usize \<Rightarrow> phdr \<Rightarrow> usize \<Rightarrow> bool" where
  "on_pages base ph x \<longleftrightarrow> in_range (base + of_nat (page_start ph)) (page_span ph) x"

lemma segment_byte_on_pages:
  "phdr_ok ph \<Longrightarrow> i < unat (p_memsz ph) \<Longrightarrow> on_pages base ph (base + p_vaddr ph + of_nat i)"
  unfolding on_pages_def in_range_def using segment_byte_offset by metis

lemma pages_apart_disjoint:
  assumes "phdr_ok p" and "phdr_ok q" and "pages_apart p q" and "on_pages base p x"
  shows "\<not> on_pages base q x"
  using assms(3,4) page_span_less [OF assms(1)] page_span_less [OF assms(2)]
  by (auto simp: on_pages_def pages_apart_def in_range_shift)

section \<open>Loading\<close>

locale loading_env = mmap_contract M fdata + reader_contract R content
  for M :: mmap_ops and fdata :: "usize \<Rightarrow> nat \<Rightarrow> u8" and R :: elf_reader and content :: "nat \<Rightarrow> u8" +
  assumes fd_content: "as_fd R = Some f \<Longrightarrow> fdata f = content"
begin

lemma fill_zero_spec:
  assumes run: "fill_zero M s w = Inr w'" and A: "seg_addr s = Absolute A" "unat A mod 4096 = 0"
    and sz: "unat (content_size s) + unat (zero_size s) + 8192 \<le> 2 ^ 64"
  defines "c \<equiv> unat (content_size s)" and "z \<equiv> unat (zero_size s)"
  shows "c \<le> unat (x - A) \<Longrightarrow> unat (x - A) < c + z \<Longrightarrow> vm_mem w' x = 0"
    and "unat (x - A) < c \<Longrightarrow> vm_mem w' x = vm_mem w x"
    and "page_up (c + z) \<le> unat (x - A) \<Longrightarrow> vm_mem w' x = vm_mem w x"
proof -
  let ?zs = "A + content_size s" and ?ze = "roundup (A + content_size s) PAGE_SIZE"
  let ?w1 = "w\<lparr>vm_mem := fill_bytes (unat (?ze - ?zs)) 0 (vm_mem w) ?zs\<rparr>"
  have zs: "?zs = A + of_nat c" by (simp add: c_def)
  have wl: "unat (?ze - ?zs) = page_up c - c"
    unfolding zs by (rule zero_end_offset) (use A sz in \<open>auto simp: c_def\<close>)
  have up: "c \<le> page_up c" "page_up c < c + 4096" by (rule page_up_ge, rule page_up_less)
  have ze: "?ze = A + of_nat (page_up c)"
  proof -
    have "?ze = ?zs + of_nat (unat (?ze - ?zs))" by simp
    then show ?thesis unfolding wl using up(1) by (simp add: zs of_nat_diff)
  qed
  have bound: "page_up c \<le> 2 ^ 64" using up sz by (simp add: c_def)
  have r1: "in_range ?zs (unat (?ze - ?zs)) x \<longleftrightarrow> c \<le> unat (x - A) \<and> unat (x - A) < page_up c"
    unfolding wl unfolding zs using up bound by (subst in_range_shift) auto
  have w1: "vm_mem ?w1 x = (if c \<le> unat (x - A) \<and> unat (x - A) < page_up c then 0 else vm_mem w x)"
    using r1 by (simp add: mem_simps)
  have mono: "page_up c \<le> page_up (c + z)" by (rule page_up_mono) simp
  have done0: "zero_size s = 0 \<Longrightarrow> w' = w \<and> z = 0" using run by (simp add: fill_zero_def z_def)
  have short: "0 < zero_size s \<Longrightarrow> \<not> ?ze - ?zs < zero_size s \<Longrightarrow> w' = ?w1 \<and> c + z \<le> page_up c"
    using run A(1) wl up by (auto simp: fill_zero_def Let_def z_def word_less_nat_alt)
  have long: "vm_mem w' x = (if page_up c \<le> unat (x - A) \<and> unat (x - A) < c + z then 0 else vm_mem ?w1 x)"
    if pos: "0 < zero_size s" and lt: "?ze - ?zs < zero_size s"
      and x: "unat (x - A) < c + z \<or> page_up (c + z) \<le> unat (x - A)"
  proof -
    obtain p where an: "op_mmap_anonymous M ?ze (zero_size s - (?ze - ?zs)) (initial_prot s)
        (MAP_PRIVATE OR MAP_FIXED) ?w1 = Inr (p, w')"
      using run A(1) pos lt by (auto simp: fill_zero_def Let_def res_simps)
    have ltz: "page_up c - c < z" using lt wl by (simp add: word_less_nat_alt z_def)
    then have len: "unat (zero_size s - (?ze - ?zs)) = c + z - page_up c"
      using lt wl up(1) by (simp add: unat_sub z_def)
    have "page_up (page_up c + (c + z - page_up c)) = page_up c + page_up (c + z - page_up c)"
      by (rule page_up_add_aligned) simp
    then have pgs: "page_up (c + z - page_up c) = page_up (c + z) - page_up c"
      using ltz up(1) by simp
    have b: "page_up (c + z) \<le> 2 ^ 64"
      using page_up_less [of "c + z"] sz by (simp add: c_def z_def)
    have r2: "in_range ?ze (c + z - page_up c) x \<longleftrightarrow> page_up c \<le> unat (x - A) \<and> unat (x - A) < c + z"
      unfolding ze using b ltz up page_up_ge [of "c + z"] by (subst in_range_shift) auto
    have r3: "in_range ?ze (page_up (c + z - page_up c)) x \<longleftrightarrow>
        page_up c \<le> unat (x - A) \<and> unat (x - A) < page_up (c + z)"
      unfolding ze pgs using b mono by (subst in_range_shift) auto
    show ?thesis
      using anonymous_zero [OF an refl, of x] anonymous_frame [OF an refl, of x] r2 r3 x
      unfolding len page_up_def [symmetric] by auto
  qed
  have ge: "c + z \<le> page_up (c + z)" by (rule page_up_ge)
  have main: "(c \<le> unat (x - A) \<and> unat (x - A) < c + z \<longrightarrow> vm_mem w' x = 0) \<and>
      (unat (x - A) < c \<or> page_up (c + z) \<le> unat (x - A) \<longrightarrow> vm_mem w' x = vm_mem w x)"
  proof (cases "zero_size s = 0")
    case True
    with done0 show ?thesis by auto
  next
    case False
    then have pos: "0 < zero_size s" by (simp add: word_neq_0_conv)
    show ?thesis
    proof (cases "?ze - ?zs < zero_size s")
      case True
      from long [OF pos True] w1 mono ge up(1) show ?thesis by auto
    next
      case False
      from short [OF pos False] w1 mono ge up(1) show ?thesis by auto
    qed
  qed
  then show "c \<le> unat (x - A) \<Longrightarrow> unat (x - A) < c + z \<Longrightarrow> vm_mem w' x = 0"
    and "unat (x - A) < c \<Longrightarrow> vm_mem w' x = vm_mem w x"
    and "page_up (c + z) \<le> unat (x - A) \<Longrightarrow> vm_mem w' x = vm_mem w x"
    by blast+
qed

text \<open>Mapping and copying: the first \<open>content_size\<close> bytes of the segment are the file's.\<close>

lemma map_copy_spec:
  assumes mm: "mmap_segment M R s w = Inr (s2, w1)" and cp: "copy_data R s2 w1 = Inr w2"
    and A: "seg_addr s = Absolute A" and fl: "seg_flags s = MAP_PRIVATE OR MAP_FIXED"
    and len: "unat (seg_len s) mod 4096 = 0"
    and mi: "map_info s = [\<lparr>fmi_start = 0, fmi_filesz = content_size s, fmi_offset = off\<rparr>]"
    and fits: "unat (content_size s) \<le> unat (seg_len s)"
  shows "unat (x - A) < unat (content_size s) \<Longrightarrow> vm_mem w2 x = content (unat off + unat (x - A))"
    and "\<not> in_range A (unat (seg_len s)) x \<Longrightarrow> vm_mem w2 x = vm_mem w x"
    and "s2 = s\<lparr>need_copy := need_copy s2\<rparr>"
proof -
  obtain p nc where op: "op_mmap M (Some A) (seg_len s) (initial_prot s) (seg_flags s) off (as_fd R) w
      = Inr ((p, nc), w1)" and s2: "s2 = s\<lparr>need_copy := nc\<rparr>"
    using mm A mi by (auto simp: mmap_segment_def res_simps)
  show "s2 = s\<lparr>need_copy := need_copy s2\<rparr>" by (simp add: s2)
  have copied: "nc \<Longrightarrow> \<exists>bs. rd_read R (unat (content_size s)) off = Inr bs \<and>
      w2 = w1\<lparr>vm_mem := write_bytes (vm_mem w1) A bs\<rparr>"
    using cp A mi by (auto simp: s2 copy_data_def copy_one_def res_simps)
  have same: "\<not> nc \<Longrightarrow> w2 = w1" using cp by (simp add: s2 copy_data_def)
  have bs: "length bs = unat (content_size s)" "i < unat (content_size s) \<Longrightarrow> bs ! i = content (unat off + i)"
    if "rd_read R (unat (content_size s)) off = Inr bs" for bs i
    using read_length [OF that] read_nth [OF that] unsigned_less [of "content_size s"] by simp_all
  show "unat (x - A) < unat (content_size s) \<Longrightarrow> vm_mem w2 x = content (unat off + unat (x - A))"
  proof (cases nc)
    case True
    with copied bs show "unat (x - A) < unat (content_size s) \<Longrightarrow> ?thesis"
      by (auto simp: write_bytes_def)
  next
    case False
    assume lt: "unat (x - A) < unat (content_size s)"
    from False op have "op_mmap M (Some A) (seg_len s) (initial_prot s) (seg_flags s) off (as_fd R) w
        = Inr ((p, False), w1)" by simp
    from mmap_file [OF this fl, of "unat (x - A)"] lt fits
    show ?thesis by (auto simp: same [OF False] fd_content)
  qed
  assume out: "\<not> in_range A (unat (seg_len s)) x"
  then have "vm_mem w1 x = vm_mem w x" by (rule mmap_frame [OF op fl len])
  moreover have "vm_mem w2 x = vm_mem w1 x"
    using copied bs same out fits by (cases nc) (auto simp: write_bytes_def in_range_def)
  ultimately show "vm_mem w2 x = vm_mem w x" by simp
qed

lemma load_one_spec:
  assumes run: "load_one M R base (create_segment ph) (dn, w) = Inr (dn', w')"
    and ok: "phdr_ok ph" and base: "unat base mod 4096 = 0"
  shows "holds_segment content (vm_mem w') base ph"
    and "\<not> on_pages base ph x \<Longrightarrow> vm_mem w' x = vm_mem w x"
proof -
  let ?A = "base + of_nat (page_start ph) :: usize" and ?r = "unat (p_vaddr ph) mod 4096"
  let ?s = "(create_segment ph)\<lparr>seg_addr := Absolute ?A\<rparr>"
  obtain s2 w1 w2 where mm: "mmap_segment M R ?s w = Inr (s2, w1)"
    and cp: "copy_data R s2 w1 = Inr w2" and fz: "fill_zero M s2 w2 = Inr w'"
    using run by (auto simp: load_one_def rebase_def create_segment_simps rounddown_of_nat res_simps)
  have c: "unat (content_size ?s) = unat (p_filesz ph) + ?r" using unat_content_size [OF ok] by simp
  have z: "unat (zero_size ?s) = unat (p_memsz ph) - unat (p_filesz ph)" using unat_zero_size [OF ok] by simp
  have F: "unat (p_filesz ph) \<le> unat (p_memsz ph)" using ok by (simp add: phdr_ok_def)
  have len: "unat (seg_len ?s) = page_span ph" using unat_seg_len [OF ok] by simp
  have lmod: "unat (seg_len ?s) mod 4096 = 0" unfolding len page_span_alt by (rule page_up_mod)
  have span: "?r + unat (p_memsz ph) \<le> page_span ph" unfolding page_span_alt by (rule page_up_ge)
  have fits: "unat (content_size ?s) \<le> unat (seg_len ?s)" unfolding c len using F span by linarith
  have mi: "map_info ?s = [\<lparr>fmi_start = 0, fmi_filesz = content_size ?s,
      fmi_offset = rounddown (p_offset ph) PAGE_SIZE\<rparr>]"
    by (simp add: create_segment_simps)
  have addr: "seg_addr ?s = Absolute ?A" by simp
  have fl: "seg_flags ?s = MAP_PRIVATE OR MAP_FIXED" by (simp add: create_segment_def Let_def)
  note mc = map_copy_spec [OF mm cp addr fl lmod mi fits]
  from mc(3) obtain nc where nc: "s2 = ?s\<lparr>need_copy := nc\<rparr>" by blast
  have s2: "seg_addr s2 = Absolute ?A" "unat (content_size s2) = unat (p_filesz ph) + ?r"
    "unat (zero_size s2) = unat (p_memsz ph) - unat (p_filesz ph)"
    using c z by (simp_all add: nc)
  have cz: "unat (content_size s2) + unat (zero_size s2) = ?r + unat (p_memsz ph)"
    using F unfolding s2 by simp
  have "unat (content_size s2) + unat (zero_size s2) + 8192 \<le> 2 ^ 64"
    unfolding cz using ok mod_less_eq_dividend [of "unat (p_vaddr ph)" 4096]
    unfolding phdr_ok_def by linarith
  note fill = fill_zero_spec [OF fz s2(1) segment_start_aligned [OF base] this, unfolded cz]
  show "holds_segment content (vm_mem w') base ph"
    unfolding holds_segment_def
  proof (intro allI impI)
    fix i assume i: "i < unat (p_memsz ph)"
    let ?x = "base + p_vaddr ph + of_nat i"
    note off = segment_byte_offset(1) [OF ok i, of base]
    show "vm_mem w' ?x = segment_image content ph i"
    proof (cases "i < unat (p_filesz ph)")
      case True
      then have "unat (?x - ?A) < unat (content_size s2)" unfolding off s2 by simp
      then have "vm_mem w' ?x = vm_mem w2 ?x" by (rule fill(2))
      also have "\<dots> = content (unat (rounddown (p_offset ph) PAGE_SIZE) + (?r + i))"
        using mc(1) [of ?x] True unfolding off c by simp
      also have "unat (rounddown (p_offset ph) PAGE_SIZE) + (?r + i) = unat (p_offset ph) + i"
        using ok div_mult_mod_eq [of "unat (p_offset ph)" 4096] by (simp add: align_simps phdr_ok_def)
      finally show ?thesis using True by (simp add: segment_image_def)
    next
      case False
      then have "unat (content_size s2) \<le> unat (?x - ?A)" and "unat (?x - ?A) < ?r + unat (p_memsz ph)"
        unfolding off s2 using i by simp_all
      then have "vm_mem w' ?x = 0" by (rule fill(1))
      with False show ?thesis by (simp add: segment_image_def)
    qed
  qed
  assume out: "\<not> on_pages base ph x"
  then have "page_span ph \<le> unat (x - ?A)" by (simp add: on_pages_def in_range_def)
  then have "vm_mem w' x = vm_mem w2 x" by (intro fill(3)) (simp add: page_span_alt)
  also have "\<dots> = vm_mem w x" using out mc(2) len by (simp add: on_pages_def)
  finally show "vm_mem w' x = vm_mem w x" .
qed

lemma holds_segment_frame:
  assumes "holds_segment content m base ph" and "phdr_ok ph"
    and "\<And>x. on_pages base ph x \<Longrightarrow> m' x = m x"
  shows "holds_segment content m' base ph"
  using assms(1) unfolding holds_segment_def
  by (simp add: assms(3) segment_byte_on_pages [OF assms(2)])

lemma load_list_spec:
  assumes "res_fold (load_one M R base) (map create_segment phs) (dn, w) = Inr (dn', w')"
    and "\<forall>ph \<in> set phs. phdr_ok ph" and "sorted_wrt pages_apart phs" and base: "unat base mod 4096 = 0"
  shows "(\<forall>ph \<in> set phs. holds_segment content (vm_mem w') base ph) \<and>
    (\<forall>x. (\<forall>ph \<in> set phs. \<not> on_pages base ph x) \<longrightarrow> vm_mem w' x = vm_mem w x)"
  using assms(1-3)
proof (induction phs arbitrary: dn w)
  case Nil
  then show ?case by simp
next
  case (Cons ph phs)
  from Cons.prems(1) obtain dn1 w1
    where one: "load_one M R base (create_segment ph) (dn, w) = Inr (dn1, w1)"
      and rest: "res_fold (load_one M R base) (map create_segment phs) (dn1, w1) = Inr (dn', w')"
    by (auto simp: res_simps)
  from Cons.prems(2) have ok: "phdr_ok ph" by simp
  note first = load_one_spec [OF one ok base]
  from Cons.IH [OF rest] Cons.prems(2,3)
  have IH: "\<forall>q \<in> set phs. holds_segment content (vm_mem w') base q"
    "\<And>x. \<forall>q \<in> set phs. \<not> on_pages base q x \<Longrightarrow> vm_mem w' x = vm_mem w1 x" by auto
  have "holds_segment content (vm_mem w') base ph"
  proof (rule holds_segment_frame [OF first(1) ok])
    fix x assume "on_pages base ph x"
    then have "\<forall>q \<in> set phs. \<not> on_pages base q x"
      using Cons.prems(2,3) ok by (auto dest: pages_apart_disjoint)
    then show "vm_mem w' x = vm_mem w1 x" by (rule IH(2))
  qed
  with IH first(2) show ?case by auto
qed

lemma load_segments_spec:
  assumes run: "load_segments M R phs dylib w = Inr ((space, segs), w')"
    and ok: "\<forall>ph \<in> set phs. p_type ph = PT_LOAD \<longrightarrow> phdr_ok ph"
    and apart: "sorted_wrt pages_apart (filter (\<lambda>ph. p_type ph = PT_LOAD) phs)"
    and base: "unat (base_of space) mod 4096 = 0"
    and ph: "ph \<in> set phs" "p_type ph = PT_LOAD"
  shows "holds_segment content (vm_mem w') (base_of space) ph"
proof -
  from run obtain w1 where
    "res_fold (load_one M R (base_of space)) (create_segments phs) ([], w1) = Inr (segs, w')"
    by (auto simp: load_segments_def load_segment_list_def res_simps)
  then show ?thesis
    using load_list_spec [where phs = "filter (\<lambda>ph. p_type ph = PT_LOAD) phs"] ok apart base ph
    by (auto simp: create_segments_def)
qed

end

section \<open>Bare metal, from a byte slice\<close>

interpretation bare_binary:
  loading_env "bare_metal A" fdata "elf_binary name bs" "bytes_content bs" for A fdata name bs
  by unfold_locales (simp add: elf_binary_def)

lemma bare_load_one_returns:
  assumes ok: "phdr_ok ph" and len: "length bs < 2 ^ 64"
    and inside: "unat (p_offset ph) + unat (p_filesz ph) \<le> length bs"
  shows "\<exists>st'. load_one (bare_metal A) (elf_binary name bs) base (create_segment ph) st = Inr st'"
proof -
  let ?off = "rounddown (p_offset ph) PAGE_SIZE" and ?c = "content_size (create_segment ph)"
  have "unat ?off + unat ?c = unat (p_offset ph) + unat (p_filesz ph)"
    using ok div_mult_mod_eq [of "unat (p_offset ph)" 4096]
    by (simp add: unat_content_size align_simps phdr_ok_def)
  with inside len have "elf_binary_read bs (unat ?c) ?off = Inr (take (unat ?c) (drop (unat ?off) bs))"
    by (subst elf_binary_read_ok_iff) (use unsigned_less [of ?c] in simp_all)
  then show ?thesis
    by (auto simp: load_one_def rebase_def create_segment_simps mmap_segment_def bare_metal_def bare_mmap_def
        copy_data_def copy_one_def elf_binary_def fill_zero_def bare_mmap_anonymous_def Let_def
        split: prod.split)
qed

lemma aligned_minus:
  assumes "unat p mod 4096 = 0" and "unat q mod 4096 = 0"
  shows "unat (p - q :: usize) mod 4096 = 0"
proof -
  have "(4096::nat) dvd 2 ^ 64" by (simp add: dvd_def)
  with assms show ?thesis
    by (auto simp: unat_sub_if_size word_size mod_eq_0_iff_dvd intro!: dvd_diff_nat dvd_add)
qed

end
