(* ===== verification/Os_Unix.thy ===== *)
theory Os_Unix
  imports Segment_Load
begin

text \<open>
  \<^verbatim>\<open>src/src/os/unix.rs\<close>: the \<^verbatim>\<open>Mmap\<close> implementation over
  \<^verbatim>\<open>libc\<close> and the file reader. The system calls are parameters: \<open>libc\<close> for memory,
  \<open>fileio\<close> for descriptors. What the code relies on, the documented behaviour of
  \<^verbatim>\<open>mmap\<close>, \<^verbatim>\<open>lseek\<close> and \<^verbatim>\<open>read\<close>, is stated as predicates that the
  theorems assume by name.
\<close>

section \<open>Mapping\<close>

text \<open>Each call returns its C result (the all-ones word is \<open>-1\<close>) and the process image after it.\<close>

record libc =
  c_mmap :: "usize \<Rightarrow> usize \<Rightarrow> u32 \<Rightarrow> u32 \<Rightarrow> u32 \<Rightarrow> usize \<Rightarrow> vm \<Rightarrow> usize \<times> vm"
  c_munmap :: "usize \<Rightarrow> usize \<Rightarrow> vm \<Rightarrow> u32 \<times> vm"
  c_mprotect :: "usize \<Rightarrow> usize \<Rightarrow> u32 \<Rightarrow> vm \<Rightarrow> u32 \<times> vm"

definition MAP_FAILED :: usize where
  "MAP_FAILED = - 1"

definition map_error :: "string \<Rightarrow> error" where
  "map_error msg = Mmap msg"

definition unix_mmap ::
  "libc \<Rightarrow> usize option \<Rightarrow> usize \<Rightarrow> u32 \<Rightarrow> u32 \<Rightarrow> usize \<Rightarrow> usize option \<Rightarrow> vm \<Rightarrow>
     ((usize \<times> bool) \<times> vm) result" where
  "unix_mmap L addr len prot flags offset fd w =
     res_bind
       (case fd of
          Some fd \<Rightarrow>
            (let (p, w') = c_mmap L (case addr of None \<Rightarrow> 0 | Some a \<Rightarrow> a) len prot flags (ucast fd) offset w
             in Inr ((p, False), w'))
        | None \<Rightarrow>
            res_bind (unwrap ''called `Option::unwrap()` on a `None` value'' addr)
              (\<lambda>a. Inr ((a, True), w)))
       (\<lambda>((p, nc), w'). if p = MAP_FAILED then Inl (Err (map_error ''mmap failed'')) else Inr ((p, nc), w'))"

definition unix_mmap_anonymous ::
  "libc \<Rightarrow> usize \<Rightarrow> usize \<Rightarrow> u32 \<Rightarrow> u32 \<Rightarrow> vm \<Rightarrow> (usize \<times> vm) result" where
  "unix_mmap_anonymous L addr len prot flags w =
     (let (p, w') = c_mmap L addr len prot (flags OR MAP_ANONYMOUS) (- 1) 0 w
      in if p = MAP_FAILED then Inl (Err (map_error ''mmap anonymous failed'')) else Inr (p, w'))"

definition unix_munmap :: "libc \<Rightarrow> usize \<Rightarrow> usize \<Rightarrow> vm \<Rightarrow> vm result" where
  "unix_munmap L addr len w =
     (let (r, w') = c_munmap L addr len w
      in if r \<noteq> 0 then Inl (Err (map_error ''munmap failed'')) else Inr w')"

definition unix_mprotect :: "libc \<Rightarrow> usize \<Rightarrow> usize \<Rightarrow> u32 \<Rightarrow> vm \<Rightarrow> vm result" where
  "unix_mprotect L addr len prot w =
     (let (r, w') = c_mprotect L addr len prot w
      in if r \<noteq> 0 then Inl (Err (map_error ''mprotect failed'')) else Inr w')"

text \<open>The result of the reservation is not compared with \<^verbatim>\<open>MAP_FAILED\<close>.\<close>

definition unix_mmap_reserve :: "libc \<Rightarrow> usize option \<Rightarrow> usize \<Rightarrow> bool \<Rightarrow> vm \<Rightarrow> (usize \<times> vm) result" where
  "unix_mmap_reserve L addr len use_file w =
     (let flags = MAP_PRIVATE OR MAP_ANONYMOUS;
          prot = (if use_file then PROT_NONE else PROT_WRITE)
      in Inr (c_mmap L (case addr of None \<Rightarrow> 0 | Some a \<Rightarrow> a) len prot flags (- 1) 0 w))"

definition unix_ops :: "libc \<Rightarrow> mmap_ops" where
  "unix_ops L =
     \<lparr>op_mmap = unix_mmap L, op_mmap_anonymous = unix_mmap_anonymous L, op_munmap = unix_munmap L,
      op_mprotect = unix_mprotect L, op_mmap_reserve = unix_mmap_reserve L\<rparr>"

section \<open>Reading\<close>

text \<open>
  \<open>c_lseek\<close> and \<open>c_read\<close> take the state of the descriptor; \<open>c_read\<close> returns the C result and the
  bytes it stored.
\<close>

record 'fs fileio =
  c_lseek :: "usize \<Rightarrow> 'fs \<Rightarrow> int \<times> 'fs"
  c_read :: "nat \<Rightarrow> 'fs \<Rightarrow> (int \<times> bytes) \<times> 'fs"

definition lseek :: "('fs, 'a) fileio_scheme \<Rightarrow> usize \<Rightarrow> 'fs \<Rightarrow> 'fs result" where
  "lseek F offset fs =
     (let (off, fs') = c_lseek F offset fs
      in if off = - 1 \<or> (of_int off :: usize) \<noteq> offset then Inl (Err (io_error ''lseek failed'')) else Inr fs')"

text \<open>The loop ends: it stops on an error or at the end of the file, and otherwise the rest of the buffer shrinks.\<close>

function read_exact :: "('fs, 'a) fileio_scheme \<Rightarrow> nat \<Rightarrow> 'fs \<Rightarrow> (bytes \<times> 'fs) result" where
  "read_exact F n fs =
     (if n = 0 then Inr ([], fs)
      else let ((r, bs), fs') = c_read F n fs
           in if r < 0 then Inl (Err (io_error ''read error''))
              else if r = 0 then Inl (Err (io_error ''failed to fill buffer''))
              else if n < nat r then Inl (Panic ''range start index out of range'')
              else res_bind (read_exact F (n - nat r) fs') (\<lambda>(rest, fs''). Inr (take (nat r) bs @ rest, fs'')))"
  by pat_completeness auto
termination
  by (relation "measure (\<lambda>(F, n, fs). n)") auto

declare read_exact.simps [simp del]

definition raw_file_read :: "('fs, 'a) fileio_scheme \<Rightarrow> 'fs \<Rightarrow> nat \<Rightarrow> usize \<Rightarrow> bytes result" where
  "raw_file_read F fs n offset =
     res_bind (lseek F offset fs) (\<lambda>fs1. res_bind (read_exact F n fs1) (\<lambda>(bs, fs2). Inr bs))"

definition raw_file :: "string \<Rightarrow> usize \<Rightarrow> ('fs, 'a) fileio_scheme \<Rightarrow> 'fs \<Rightarrow> elf_reader" where
  "raw_file name fd F fs = \<lparr>file_name = name, rd_read = raw_file_read F fs, as_fd = Some fd\<rparr>"

section \<open>What POSIX documents\<close>

text \<open>
  A mapping with \<^verbatim>\<open>MAP_FIXED\<close> that does not fail is placed at its address and replaces whole
  pages: zeros when anonymous, otherwise the file from the given offset.
\<close>

definition posix_mmap :: "libc \<Rightarrow> (u32 \<Rightarrow> nat \<Rightarrow> u8) \<Rightarrow> bool" where
  "posix_mmap L fdata \<longleftrightarrow>
     (\<forall>a len prot flags fd off w p w'.
        c_mmap L a len prot flags fd off w = (p, w') \<and> p \<noteq> MAP_FAILED \<and> flags_contain flags MAP_FIXED \<longrightarrow>
          p = a \<and>
          (\<forall>x. \<not> in_range a (page_up (unat len)) x \<longrightarrow> vm_mem w' x = vm_mem w x) \<and>
          (\<forall>x. flags_contain flags MAP_ANONYMOUS \<and> in_range a (unat len) x \<longrightarrow> vm_mem w' x = 0) \<and>
          (\<forall>i < unat len. \<not> flags_contain flags MAP_ANONYMOUS \<longrightarrow>
             vm_mem w' (a + of_nat i) = fdata fd (unat off + i))) \<and>
     (\<forall>a len prot w r w'. c_mprotect L a len prot w = (r, w') \<longrightarrow> vm_mem w' = vm_mem w)"

text \<open>
  The mappings that a loader may ask for inside its reservation of \<open>space\<close> bytes at \<open>p\<close>, with
  arguments for which the manual lists no error: a page-aligned address, a length that is not zero, a
  protection made of the three permissions, and either the open file \<open>fd\<close> of \<open>sz\<close> bytes from a
  page-aligned offset inside it, or anonymous memory.
\<close>

definition fixed_map_valid ::
  "u32 \<Rightarrow> nat \<Rightarrow> usize \<Rightarrow> usize \<Rightarrow> usize \<Rightarrow> usize \<Rightarrow> u32 \<Rightarrow> u32 \<Rightarrow> u32 \<Rightarrow> usize \<Rightarrow> bool" where
  "fixed_map_valid fd sz p space a len prot flags f off \<longleftrightarrow>
     unat a mod 4096 = 0 \<and> len \<noteq> 0 \<and> unat (a - p) + unat len \<le> unat space \<and>
     prot AND NOT (PROT_READ OR PROT_WRITE OR PROT_EXEC) = 0 \<and>
     (flags = MAP_PRIVATE OR MAP_FIXED \<and> f = fd \<and> unat off mod 4096 = 0 \<and> unat off \<le> sz \<or>
      flags = (MAP_PRIVATE OR MAP_FIXED) OR MAP_ANONYMOUS \<and> f = - 1 \<and> off = 0)"

text \<open>
  The system has the memory for a load: the call that reserves \<open>len\<close> bytes returns a page-aligned
  address, and no valid mapping inside this reservation fails.
\<close>

definition mmap_grants :: "libc \<Rightarrow> u32 \<Rightarrow> nat \<Rightarrow> usize option \<Rightarrow> usize \<Rightarrow> vm \<Rightarrow> bool" where
  "mmap_grants L fd sz addr len w \<longleftrightarrow>
     (let p = fst (c_mmap L (case addr of None \<Rightarrow> 0 | Some a \<Rightarrow> a) len PROT_NONE (MAP_PRIVATE OR MAP_ANONYMOUS) (- 1) 0 w)
      in p \<noteq> MAP_FAILED \<and> unat p mod 4096 = 0 \<and>
         (\<forall>a n prot flags f off w1. fixed_map_valid fd sz p len a n prot flags f off \<longrightarrow>
            fst (c_mmap L a n prot flags f off w1) \<noteq> MAP_FAILED))"

text \<open>
  A file with the given content and length, its state the position: a seek moves the position, and
  fails for an offset that is negative as a signed number; a read returns some bytes from it, at least one unless it is at the end.
\<close>

definition posix_file :: "(nat, 'a) fileio_scheme \<Rightarrow> (nat \<Rightarrow> u8) \<Rightarrow> nat \<Rightarrow> bool" where
  "posix_file F content sz \<longleftrightarrow>
     (\<forall>off pos. c_lseek F off pos =
        (if unat off < 2 ^ 63 then (int (unat off), unat off) else (- 1, pos))) \<and>
     (\<forall>n pos. 0 < n \<longrightarrow>
        (\<exists>k. c_read F n pos = ((int k, map (\<lambda>i. content (pos + i)) [0..<k]), pos + k) \<and>
             k \<le> n \<and> pos + k \<le> max pos sz \<and> (pos < sz \<longrightarrow> 0 < k)))"

section \<open>Lemmas\<close>

lemma fixed_flags:
  "flags_contain (MAP_PRIVATE OR MAP_FIXED) MAP_FIXED"
  "\<not> flags_contain (MAP_PRIVATE OR MAP_FIXED) MAP_ANONYMOUS"
  "flags_contain ((MAP_PRIVATE OR MAP_FIXED) OR MAP_ANONYMOUS) MAP_FIXED"
  "flags_contain ((MAP_PRIVATE OR MAP_FIXED) OR MAP_ANONYMOUS) MAP_ANONYMOUS"
  by (simp_all add: flags_contain_def flag_defs)

lemma posix_mmapD:
  assumes "posix_mmap L fdata" and "c_mmap L a len prot flags fd off w = (p, w')"
    and "p \<noteq> MAP_FAILED" and "flags_contain flags MAP_FIXED"
  shows "p = a"
    and "\<not> in_range a (page_up (unat len)) x \<Longrightarrow> vm_mem w' x = vm_mem w x"
    and "flags_contain flags MAP_ANONYMOUS \<Longrightarrow> in_range a (unat len) x \<Longrightarrow> vm_mem w' x = 0"
    and "\<not> flags_contain flags MAP_ANONYMOUS \<Longrightarrow> i < unat len \<Longrightarrow>
           vm_mem w' (a + of_nat i) = fdata fd (unat off + i)"
  using assms unfolding posix_mmap_def by blast+

lemma page_up_aligned: "n mod 4096 = 0 \<Longrightarrow> page_up n = n"
  using page_up_add_aligned [of n 0] by (simp add: page_up_def)

lemma unix_contract:
  assumes "posix_mmap L fdata"
  shows "mmap_contract (unix_ops L) (\<lambda>f. fdata (ucast f))"
proof unfold_locales
  fix a len prot flags off fd w p nc w' x
  assume op: "op_mmap (unix_ops L) (Some a) len prot flags off fd w = Inr ((p, nc), w')"
    and fl: "flags = MAP_PRIVATE OR MAP_FIXED" and al: "unat len mod 4096 = 0"
    and out: "\<not> in_range a (unat len) x"
  show "vm_mem w' x = vm_mem w x"
  proof (cases fd)
    case None
    with op show ?thesis by (auto simp: unix_ops_def unix_mmap_def split: if_splits)
  next
    case (Some f)
    with op obtain "c_mmap L a len prot flags (ucast f) off w = (p, w')" and "p \<noteq> MAP_FAILED"
      by (auto simp: unix_ops_def unix_mmap_def split: if_splits prod.splits)
    from posix_mmapD(2) [OF assms this] fixed_flags out al show ?thesis
      by (simp add: fl page_up_aligned)
  qed
next
  fix a len prot flags off fd w p w' i
  assume op: "op_mmap (unix_ops L) (Some a) len prot flags off fd w = Inr ((p, False), w')"
    and fl: "flags = MAP_PRIVATE OR MAP_FIXED" and i: "i < unat len"
  then obtain f where f: "fd = Some f" "c_mmap L a len prot flags (ucast f) off w = (p, w')" "p \<noteq> MAP_FAILED"
    by (auto simp: unix_ops_def unix_mmap_def split: if_splits prod.splits option.splits)
  from posix_mmapD(4) [OF assms f(2,3)] fixed_flags i f(1)
  show "\<exists>f. fd = Some f \<and> vm_mem w' (a + of_nat i) = fdata (ucast f) (unat off + i)" by (simp add: fl)
next
  fix a len prot flags w p w' x
  assume op: "op_mmap_anonymous (unix_ops L) a len prot flags w = Inr (p, w')"
    and fl: "flags = MAP_PRIVATE OR MAP_FIXED"
  then have c: "c_mmap L a len prot (flags OR MAP_ANONYMOUS) (- 1) 0 w = (p, w')" "p \<noteq> MAP_FAILED"
    by (auto simp: unix_ops_def unix_mmap_anonymous_def split: if_splits prod.splits)
  note posix = posix_mmapD [OF assms c, unfolded fl, OF fixed_flags(3)]
  show "in_range a (unat len) x \<Longrightarrow> vm_mem w' x = 0" by (rule posix(3) [OF fixed_flags(4)])
  assume "\<not> in_range a ((unat len + 4095) div 4096 * 4096) x"
  then show "vm_mem w' x = vm_mem w x" by (intro posix(2)) (simp add: page_up_def)
next
  fix a len prot w w'
  assume "op_mprotect (unix_ops L) a len prot w = Inr w'"
  with assms show "vm_mem w' = vm_mem w"
    by (auto simp: unix_ops_def unix_mprotect_def posix_mmap_def split: if_splits prod.splits)
qed

lemma read_exact_content:
  assumes F: "posix_file F content sz"
  shows "read_exact F n pos =
     (if n = 0 \<or> pos + n \<le> sz then Inr (map (\<lambda>i. content (pos + i)) [0..<n], pos + n)
      else Inl (Err (io_error ''failed to fill buffer'')))"
proof (induction n arbitrary: pos rule: less_induct)
  case (less n)
  show ?case
  proof (cases "n = 0")
    case True
    then show ?thesis by (simp add: read_exact.simps)
  next
    case False
    with F obtain k where k: "c_read F n pos = ((int k, map (\<lambda>i. content (pos + i)) [0..<k]), pos + k)"
      "k \<le> n" "pos + k \<le> max pos sz" "pos < sz \<Longrightarrow> 0 < k"
      unfolding posix_file_def by (metis neq0_conv)
    show ?thesis
    proof (cases "k = 0")
      case True
      with k False have "\<not> pos < sz" by auto
      with True k False show ?thesis by (simp add: read_exact.simps [of F n pos])
    next
      case nz: False
      have split: "map (\<lambda>i. content (pos + i)) [0..<k] @ map (\<lambda>i. content (pos + k + i)) [0..<n - k] =
          map (\<lambda>i. content (pos + i)) [0..<n]"
        using k(2) by (intro nth_equalityI) (auto simp: nth_append)
      have "read_exact F (n - k) (pos + k) =
         (if n - k = 0 \<or> pos + k + (n - k) \<le> sz
          then Inr (map (\<lambda>i. content (pos + k + i)) [0..<n - k], pos + k + (n - k))
          else Inl (Err (io_error ''failed to fill buffer'')))"
        by (rule less.IH) (use nz False in simp)
      with nz k False split show ?thesis
        by (auto simp: read_exact.simps [of F n pos])
    qed
  qed
qed

lemma raw_file_contract:
  assumes "posix_file F content sz"
  shows "reader_contract (raw_file name fd F pos) content"
proof unfold_locales
  fix n off bs
  assume "rd_read (raw_file name fd F pos) n off = Inr bs"
  then obtain fs1 fs2 where sk: "lseek F off pos = Inr fs1" and rd: "read_exact F n fs1 = Inr (bs, fs2)"
    by (auto simp: raw_file_def raw_file_read_def res_simps)
  from sk assms have "fs1 = unat off"
    by (auto simp: lseek_def posix_file_def split: if_splits)
  with rd show "bs = map (\<lambda>i. content (unat off + i)) [0..<n]"
    by (auto simp: read_exact_content [OF assms] split: if_splits)
qed

lemma unix_loading_env:
  assumes "posix_mmap L fdata" and "posix_file F content sz" and "fdata (ucast fd) = content"
  shows "loading_env (unix_ops L) (\<lambda>f. fdata (ucast f)) (raw_file name fd F pos) content"
  using unix_contract [OF assms(1)] raw_file_contract [OF assms(2)] assms(3)
  by (auto simp: loading_env_def loading_env_axioms_def raw_file_def)

end
