(* ===== verification/Loading_Props.thy ===== *)
theory Loading_Props
  imports Os_Unix
begin

text \<open>
  The properties of segment loading: the reservation covers every segment, the loaded image is the
  one the program headers describe, on bare metal and over POSIX, and loading changes nothing
  outside the reservation.
\<close>

section \<open>The reservation\<close>

definition no_overflow :: "phdr \<Rightarrow> bool" where
  "no_overflow ph \<longleftrightarrow> unat (p_vaddr ph) + unat (p_memsz ph) + 8192 \<le> 2 ^ 64"

lemma phdr_ok_no_overflow: "phdr_ok ph \<Longrightarrow> no_overflow ph"
  by (simp add: phdr_ok_def no_overflow_def)

lemma unat_vaddr_end: "no_overflow ph \<Longrightarrow> unat (p_vaddr ph + p_memsz ph) = unat (p_vaddr ph) + unat (p_memsz ph)"
  by (simp add: no_overflow_def unat_word_ariths)

lemma scan_loads_bounds:
  assumes "scan_loads phs (mn, mx) = (mn', mx')"
    and "\<forall>ph \<in> set phs. p_type ph = PT_LOAD \<longrightarrow> no_overflow ph" and "unat mx + 8192 \<le> 2 ^ 64"
  shows "mn' \<le> mn \<and> mx \<le> mx' \<and> unat mx' + 8192 \<le> 2 ^ 64 \<and>
    (\<forall>ph \<in> set phs. p_type ph = PT_LOAD \<longrightarrow> mn' \<le> p_vaddr ph \<and> p_vaddr ph + p_memsz ph \<le> mx')"
  using assms
proof (induction phs arbitrary: mn mx)
  case Nil
  then show ?case by simp
next
  case (Cons ph phs)
  show ?case
  proof (cases "p_type ph = PT_LOAD")
    case False
    with Cons show ?thesis by simp
  next
    case True
    let ?mn = "if p_vaddr ph < mn then p_vaddr ph else mn"
      and ?mx = "if mx < p_vaddr ph + p_memsz ph then p_vaddr ph + p_memsz ph else mx"
    from True Cons.prems(1) have "scan_loads phs (?mn, ?mx) = (mn', mx')" by (simp add: Let_def)
    moreover have "unat ?mx + 8192 \<le> 2 ^ 64"
      using Cons.prems(2,3) True by (simp add: unat_vaddr_end) (simp add: no_overflow_def)
    ultimately have "mn' \<le> ?mn \<and> ?mx \<le> mx' \<and> unat mx' + 8192 \<le> 2 ^ 64 \<and>
      (\<forall>ph \<in> set phs. p_type ph = PT_LOAD \<longrightarrow> mn' \<le> p_vaddr ph \<and> p_vaddr ph + p_memsz ph \<le> mx')"
      using Cons.prems(2) by (intro Cons.IH) auto
    then show ?thesis by (auto split: if_splits)
  qed
qed

lemma parse_segments_covers:
  assumes parse: "parse_segments phs dylib = (addr, len, min_vaddr)"
    and ok: "\<forall>ph \<in> set phs. p_type ph = PT_LOAD \<longrightarrow> no_overflow ph"
    and ph: "ph \<in> set phs" "p_type ph = PT_LOAD"
  shows "unat min_vaddr mod 4096 = 0" and "unat len mod 4096 = 0"
    and "unat min_vaddr \<le> page_start ph"
    and "page_start ph + page_span ph \<le> unat min_vaddr + unat len"
proof -
  obtain mn mx where sc: "scan_loads phs (- 1, 0) = (mn, mx)" by fastforce
  have mn: "min_vaddr = rounddown mn PAGE_SIZE" and len: "len = roundup mx PAGE_SIZE - min_vaddr"
    using parse sc by (auto simp: parse_segments_def Let_def)
  from scan_loads_bounds [OF sc ok] ph
  have lo: "unat mn \<le> unat (p_vaddr ph)" and hi: "unat (p_vaddr ph) + unat (p_memsz ph) \<le> unat mx"
    and mx: "unat mx + 8192 \<le> 2 ^ 64"
    using ok by (auto simp: word_le_nat_alt unat_vaddr_end)
  have up: "unat (roundup mx PAGE_SIZE) = page_up (unat mx)" using mx by (simp add: align_simps)
  have dn: "unat min_vaddr = unat mn div 4096 * 4096" by (simp add: mn align_simps)
  then show "unat min_vaddr mod 4096 = 0" by simp
  have le: "unat min_vaddr \<le> page_up (unat mx)"
    using lo hi page_up_ge [of "unat mx"] div_times_less_eq_dividend [of "unat mn" 4096]
    unfolding dn by linarith
  then have l: "unat len = page_up (unat mx) - unat min_vaddr"
    unfolding len by (simp add: unat_sub word_le_nat_alt up)
  show "unat len mod 4096 = 0"
    unfolding l using dn by (simp add: mod_eq_0_iff_dvd dvd_diff_nat page_up_def)
  show "unat min_vaddr \<le> page_start ph"
    using lo by (simp add: dn page_start_def div_le_mono)
  have "page_up (unat (p_vaddr ph) + unat (p_memsz ph)) \<le> page_up (unat mx)"
    using hi by (rule page_up_mono)
  moreover have "page_start ph \<le> page_up (unat (p_vaddr ph) + unat (p_memsz ph))"
    using page_up_ge [of "unat (p_vaddr ph) + unat (p_memsz ph)"]
      div_times_less_eq_dividend [of "unat (p_vaddr ph)" 4096]
    unfolding page_start_def by linarith
  ultimately show "page_start ph + page_span ph \<le> unat min_vaddr + unat len"
    unfolding l page_span_def using le by linarith
qed

lemma unat_less_usize: "unat (x::usize) < 2 ^ 64"
  using unsigned_less [of x] by simp

lemma unat_of_nat_below: "i < unat (x::usize) \<Longrightarrow> unat (of_nat i :: usize) = i"
  using unat_less_usize [of x] by simp

lemma on_pages_in_reservation:
  assumes sp: "create_space M phs dylib use_file w = Inr (space, w1)"
    and ok: "\<forall>ph \<in> set phs. p_type ph = PT_LOAD \<longrightarrow> no_overflow ph"
    and ph: "ph \<in> set phs" "p_type ph = PT_LOAD" and x: "on_pages (base_of space) ph x"
  shows "in_range (memory space) (unat (space_len space)) x"
proof -
  obtain addr where pr: "parse_segments phs dylib = (addr, space_len space, seg_offset space)"
    using sp by (auto simp: create_space_def res_simps split: prod.splits)
  note cov = parse_segments_covers [OF pr ok ph]
  let ?k = "page_start ph - unat (seg_offset space)"
  have "base_of space + of_nat (page_start ph) = memory space + of_nat ?k"
    using cov(3) by (simp add: base_of_def of_nat_diff)
  moreover have "?k + page_span ph \<le> 2 ^ 64"
    using cov(3,4) unat_less_usize [of "space_len space"] by linarith
  ultimately have "?k \<le> unat (x - memory space)" "unat (x - memory space) < ?k + page_span ph"
    using x by (simp_all add: on_pages_def in_range_shift)
  with cov(3,4) show ?thesis unfolding in_range_def by linarith
qed

lemma create_space_base_aligned:
  assumes sp: "create_space M phs dylib use_file w = Inr (space, w1)"
    and al: "unat (memory space) mod 4096 = 0"
  shows "unat (base_of space) mod 4096 = 0"
proof -
  have "\<exists>mn. seg_offset space = rounddown mn PAGE_SIZE"
    using sp by (auto simp: create_space_def parse_segments_def Let_def res_simps split: prod.splits)
  then have "unat (seg_offset space) mod 4096 = 0" by (auto simp: align_simps)
  with al show ?thesis unfolding base_of_def by (rule aligned_minus)
qed

section \<open>Protection bits\<close>

lemma flags_contain_push_bit:
  assumes "n < 32"
  shows "flags_contain fs (push_bit n 1) \<longleftrightarrow> bit fs n"
proof
  assume "flags_contain fs (push_bit n 1)"
  then have "bit (fs AND push_bit n 1) n = bit (push_bit n 1 :: u32) n" by (simp add: flags_contain_def)
  with assms show "bit fs n" unfolding bit_and_iff bit_push_bit_1 by simp
next
  assume "bit fs n"
  then show "flags_contain fs (push_bit n 1)"
    unfolding flags_contain_def by (intro bit_word_eqI) (auto simp only: bit_and_iff bit_push_bit_1)
qed

lemma flags_as_bits:
  "PF_X = push_bit 0 1" "PF_W = push_bit 1 1" "PF_R = push_bit 2 1"
  "PROT_READ = push_bit 0 1" "PROT_WRITE = push_bit 1 1" "PROT_EXEC = push_bit 2 1"
  by (simp_all add: abi flag_defs)

lemma bit_segment_prot:
  "bit (segment_prot fl) n \<longleftrightarrow> n = 0 \<and> bit fl 2 \<or> n = 1 \<and> bit fl 1 \<or> n = 2 \<and> bit fl 0"
  unfolding segment_prot_def bit_or_iff bit_push_bit_iff bit_drop_bit_eq bit_and_iff comp_def
  unfolding flags_as_bits bit_push_bit_1 by (auto simp: numeral_2_eq_2)

lemma segment_prot_contains:
  "flags_contain (segment_prot fl) PROT_READ = flags_contain fl PF_R"
  "flags_contain (segment_prot fl) PROT_WRITE = flags_contain fl PF_W"
  "flags_contain (segment_prot fl) PROT_EXEC = flags_contain fl PF_X"
  unfolding flags_as_bits
  by (subst (1 2) flags_contain_push_bit, simp, simp, simp add: bit_segment_prot)+

lemma segment_prot_other_bits: "segment_prot fl AND NOT (PROT_READ OR PROT_WRITE OR PROT_EXEC) = 0"
proof -
  have "PROT_READ OR PROT_WRITE OR PROT_EXEC = mask 3"
    by (simp add: flag_defs mask_eq_exp_minus_1)
  then show ?thesis
    by (intro bit_word_eqI) (auto simp: bit_segment_prot bit_simps)
qed

section \<open>Loading returns\<close>

abbreviation loads :: "phdr list \<Rightarrow> phdr list" where
  "loads phs \<equiv> filter (\<lambda>ph. p_type ph = PT_LOAD) phs"

text \<open>Loading returns when the reservation does and every segment can be loaded at an aligned base.\<close>

lemma load_segments_returns:
  assumes sp: "create_space M phs dylib (as_fd R \<noteq> None) w = Inr (space, w1)"
    and one: "\<And>ph st. ph \<in> set phs \<Longrightarrow> p_type ph = PT_LOAD \<Longrightarrow>
      \<exists>st'. load_one M R (base_of space) (create_segment ph) st = Inr st'"
  shows "\<exists>segs w'. load_segments M R phs dylib w = Inr ((space, segs), w')"
proof -
  have "\<exists>t. res_fold (load_one M R (base_of space)) (create_segments phs) ([], w1) = Inr t"
    by (rule res_fold_returns) (use one in \<open>auto simp: create_segments_def\<close>)
  with sp show ?thesis by (auto simp: load_segments_def load_segment_list_def)
qed

lemma seg_offset_aligned:
  "create_space M phs dylib uf w = Inr (space, w1) \<Longrightarrow> unat (seg_offset space) mod 4096 = 0"
  by (auto simp: create_space_def parse_segments_def Let_def res_simps align_simps split: prod.splits)

text \<open>A header whose segment can be mapped from a file of \<open>sz\<close> bytes.\<close>

definition phdr_in_file :: "nat \<Rightarrow> phdr \<Rightarrow> bool" where
  "phdr_in_file sz ph \<longleftrightarrow> phdr_ok ph \<and> p_memsz ph \<noteq> 0 \<and> unat (p_offset ph) + unat (p_filesz ph) \<le> sz"

text \<open>The zeros of a segment that do not fit into its last file page.\<close>

lemma anonymous_part:
  assumes A: "unat A mod 4096 = 0" and sz: "unat c + unat z + 8192 \<le> 2 ^ 64"
    and lt: "roundup (A + c) PAGE_SIZE - (A + c) < z"
  shows "unat (roundup (A + c) PAGE_SIZE - A) + unat (z - (roundup (A + c) PAGE_SIZE - (A + c))) = unat c + unat z"
    and "z - (roundup (A + c) PAGE_SIZE - (A + c)) \<noteq> 0"
proof -
  let ?r = "roundup (A + c) PAGE_SIZE"
  have "unat (?r - (A + c)) = page_up (unat c) - unat c"
    using zero_end_offset [OF A, of "unat c"] sz by simp
  then have rest: "unat (?r - (A + c)) < 4096" using page_up_less [of "unat c"] by linarith
  define d where "d = ?r - (A + c)"
  have "unat c + unat d < 2 ^ 64" using rest [folded d_def] sz by linarith
  then have "unat (c + d) = unat c + unat d" using unat_add_lem [of c d] by simp
  moreover have "?r - A = c + d" by (simp add: d_def)
  ultimately have "unat (?r - A) = unat c + unat (?r - (A + c))" by (metis d_def)
  moreover have "unat (z - (?r - (A + c))) = unat z - unat (?r - (A + c))" using lt by (simp add: unat_sub)
  ultimately show "unat (?r - A) + unat (z - (?r - (A + c))) = unat c + unat z"
    using lt by (simp add: word_less_nat_alt)
  show "z - (?r - (A + c)) \<noteq> 0" using lt by auto
qed

text \<open>The two mappings that loading a segment asks for are valid ones in the reservation.\<close>

lemma segment_maps_valid:
  assumes sp: "create_space M phs dylib uf w = Inr (space, w1)"
    and ok: "\<forall>ph \<in> set phs. p_type ph = PT_LOAD \<longrightarrow> phdr_in_file sz ph"
    and ph: "ph \<in> set phs" "p_type ph = PT_LOAD" and al: "unat (base_of space) mod 4096 = 0"
  defines "A \<equiv> base_of space + rounddown (p_vaddr ph) PAGE_SIZE" and "s \<equiv> create_segment ph"
  shows "fixed_map_valid fd sz (memory space) (space_len space) A (seg_len s) (seg_prot s)
      (MAP_PRIVATE OR MAP_FIXED) fd (rounddown (p_offset ph) PAGE_SIZE)"
    and "roundup (A + content_size s) PAGE_SIZE - (A + content_size s) < zero_size s \<Longrightarrow>
      fixed_map_valid fd sz (memory space) (space_len space) (roundup (A + content_size s) PAGE_SIZE)
        (zero_size s - (roundup (A + content_size s) PAGE_SIZE - (A + content_size s))) (seg_prot s)
        ((MAP_PRIVATE OR MAP_FIXED) OR MAP_ANONYMOUS) (- 1) 0"
proof -
  from ok ph have okp: "phdr_ok ph" "p_memsz ph \<noteq> 0" "unat (p_offset ph) \<le> sz"
    by (auto simp: phdr_in_file_def)
  have ok': "\<forall>ph \<in> set phs. p_type ph = PT_LOAD \<longrightarrow> no_overflow ph"
    using ok by (simp add: phdr_in_file_def phdr_ok_no_overflow)
  obtain addr where pr: "parse_segments phs dylib = (addr, space_len space, seg_offset space)"
    using sp by (auto simp: create_space_def res_simps split: prod.splits)
  note cov = parse_segments_covers [OF pr ok' ph]
  let ?k = "page_start ph - unat (seg_offset space)"
  have A: "A = memory space + of_nat ?k"
    using cov(3) by (simp add: A_def base_of_def rounddown_of_nat of_nat_diff)
  have Aal: "unat A mod 4096 = 0" unfolding A_def rounddown_of_nat by (rule segment_start_aligned [OF al])
  have fit: "?k + page_span ph \<le> unat (space_len space)" using cov(3,4) by linarith
  then have k: "unat (of_nat ?k :: usize) = ?k"
    using unat_less_usize [of "space_len space"] by (intro unat_of_nat_usize) linarith
  have prot: "seg_prot s AND NOT (PROT_READ OR PROT_WRITE OR PROT_EXEC) = 0"
    unfolding s_def create_segment_def Let_def elf_segment.select_convs by (rule segment_prot_other_bits)
  have cz: "unat (content_size s) + unat (zero_size s) = unat (p_vaddr ph) mod 4096 + unat (p_memsz ph)"
    using unat_content_size [OF okp(1)] unat_zero_size [OF okp(1)] okp(1) by (simp add: s_def phdr_ok_def)
  have span: "unat (content_size s) + unat (zero_size s) \<le> page_span ph"
    unfolding page_span_alt cz by (rule page_up_ge)
  have mem: "0 < unat (p_memsz ph)" using okp(2) by (metis gr0I unat_eq_0)
  then have "0 < page_span ph" using span unfolding cz by linarith
  then have "seg_len s \<noteq> 0" using unat_seg_len [OF okp(1)] by (auto simp: s_def)
  moreover have "unat (rounddown (p_offset ph) PAGE_SIZE) \<le> sz"
    using okp(3) div_times_less_eq_dividend [of "unat (p_offset ph)" 4096] by (simp add: align_simps)
  ultimately show "fixed_map_valid fd sz (memory space) (space_len space) A (seg_len s) (seg_prot s)
      (MAP_PRIVATE OR MAP_FIXED) fd (rounddown (p_offset ph) PAGE_SIZE)"
    using Aal fit prot k unat_seg_len [OF okp(1)]
    by (simp add: fixed_map_valid_def A s_def align_simps)
  let ?r = "roundup (A + content_size s) PAGE_SIZE"
  assume lt: "?r - (A + content_size s) < zero_size s"
  have "unat (content_size s) + unat (zero_size s) + 8192 \<le> 2 ^ 64"
    unfolding cz using okp(1) mod_less_eq_dividend [of "unat (p_vaddr ph)" 4096] unfolding phdr_ok_def by linarith
  note an = anonymous_part [OF Aal this lt]
  have "unat (?r - memory space) \<le> ?k + unat (?r - A)"
  proof -
    have eq: "?r - memory space = of_nat ?k + (?r - A)" by (simp add: A)
    have "unat (of_nat ?k + (?r - A)) = (?k + unat (?r - A)) mod 2 ^ LENGTH(64)"
      unfolding unat_word_ariths(1) k ..
    then show ?thesis unfolding eq by (metis mod_less_eq_dividend)
  qed
  with an(1) span fit have "unat (?r - memory space) +
      unat (zero_size s - (?r - (A + content_size s))) \<le> unat (space_len space)" by linarith
  with an(2) prot show "fixed_map_valid fd sz (memory space) (space_len space) ?r
      (zero_size s - (?r - (A + content_size s))) (seg_prot s) ((MAP_PRIVATE OR MAP_FIXED) OR MAP_ANONYMOUS) (- 1) 0"
    by (simp add: fixed_map_valid_def roundup_page_aligned)
qed

lemma unix_create_space:
  assumes "mmap_grants L fd sz addr len w" and "parse_segments phs dylib = (addr, len, mn)"
  obtains space w1 where "create_space (unix_ops L) phs dylib True w = Inr (space, w1)"
    and "unat (memory space) mod 4096 = 0" and "unat (base_of space) mod 4096 = 0"
    and "\<And>a n prot flags f off w1. fixed_map_valid fd sz (memory space) (space_len space) a n prot flags f off \<Longrightarrow>
        fst (c_mmap L a n prot flags f off w1) \<noteq> MAP_FAILED"
proof -
  obtain p w1 where p: "c_mmap L (case addr of None \<Rightarrow> 0 | Some a \<Rightarrow> a) len PROT_NONE (MAP_PRIVATE OR MAP_ANONYMOUS) (- 1) 0 w = (p, w1)"
    by fastforce
  let ?space = "\<lparr>memory = p, seg_offset = mn, space_len = len\<rparr>"
  have sp: "create_space (unix_ops L) phs dylib True w = Inr (?space, w1)"
    using p by (simp add: create_space_def assms(2) unix_ops_def unix_mmap_reserve_def Let_def)
  from assms(1) p have mem: "unat (memory ?space) mod 4096 = 0" by (simp add: mmap_grants_def)
  show ?thesis
    by (rule that [OF sp mem create_space_base_aligned [OF sp mem]])
      (use assms(1) p in \<open>simp add: mmap_grants_def\<close>)
qed

lemma unix_load_one_returns:
  assumes sp: "create_space M phs dylib uf w = Inr (space, w1)"
    and grant: "\<And>a n prot flags f off w1.
      fixed_map_valid (ucast fd) sz (memory space) (space_len space) a n prot flags f off \<Longrightarrow>
        fst (c_mmap L a n prot flags f off w1) \<noteq> MAP_FAILED"
    and ok: "\<forall>ph \<in> set phs. p_type ph = PT_LOAD \<longrightarrow> phdr_in_file sz ph"
    and ph: "ph \<in> set phs" "p_type ph = PT_LOAD" and al: "unat (base_of space) mod 4096 = 0"
    and fd: "as_fd R = Some fd"
  shows "\<exists>st'. load_one (unix_ops L) R (base_of space) (create_segment ph) st = Inr st'"
proof -
  note valid = segment_maps_valid [OF sp ok ph al, of "ucast fd"]
  note g = grant [OF valid(1)] grant [OF valid(2)]
  let ?A = "base_of space + rounddown (p_vaddr ph) PAGE_SIZE" and ?s = "create_segment ph"
  let ?s1 = "?s\<lparr>seg_addr := Absolute ?A\<rparr>"
  have ip: "initial_prot ?s1 = seg_prot ?s" "seg_flags ?s = MAP_PRIVATE OR MAP_FIXED"
    "initial_prot (?s1\<lparr>need_copy := False\<rparr>) = seg_prot ?s"
    by (simp_all add: initial_prot_def create_segment_def Let_def)
  obtain dn w0 where st: "st = (dn, w0)" by (cases st)
  have rb: "rebase (base_of space) ?s = Inr ?s1" by (simp add: rebase_def create_segment_simps)
  obtain p w2 where "c_mmap L ?A (seg_len ?s) (seg_prot ?s) (MAP_PRIVATE OR MAP_FIXED) (ucast fd)
      (rounddown (p_offset ph) PAGE_SIZE) w0 = (p, w2)" by fastforce
  with g(1) [of w0] fd ip have mm: "mmap_segment (unix_ops L) R ?s1 w0 = Inr (?s1\<lparr>need_copy := False\<rparr>, w2)"
    by (simp add: mmap_segment_def unix_ops_def unix_mmap_def create_segment_simps)
  have "\<exists>w3. fill_zero (unix_ops L) (?s1\<lparr>need_copy := False\<rparr>) w2 = Inr w3"
    using g(2) ip(3)
    by (auto simp: fill_zero_def unix_ops_def unix_mmap_anonymous_def Let_def case_prod_beta)
  with rb mm show ?thesis by (auto simp: st load_one_def copy_data_def)
qed

lemma unix_load_returns:
  assumes grants: "mmap_grants L (ucast fd) sz addr len w" and parse: "parse_segments phs dylib = (addr, len, mn)"
    and ok: "\<forall>ph \<in> set phs. p_type ph = PT_LOAD \<longrightarrow> phdr_in_file sz ph" and fd: "as_fd R = Some fd"
  obtains space segs w' where "load_segments (unix_ops L) R phs dylib w = Inr ((space, segs), w')"
    and "unat (memory space) mod 4096 = 0" and "unat (base_of space) mod 4096 = 0"
proof -
  from unix_create_space [OF grants parse] obtain space w1 where
    sp: "create_space (unix_ops L) phs dylib True w = Inr (space, w1)"
    and mem: "unat (memory space) mod 4096 = 0" and al: "unat (base_of space) mod 4096 = 0"
    and grant: "\<And>a n prot flags f off w1.
      fixed_map_valid (ucast fd) sz (memory space) (space_len space) a n prot flags f off \<Longrightarrow>
        fst (c_mmap L a n prot flags f off w1) \<noteq> MAP_FAILED"
    by metis
  from sp have sp': "create_space (unix_ops L) phs dylib (as_fd R \<noteq> None) w = Inr (space, w1)" by (simp add: fd)
  have "\<exists>segs w'. load_segments (unix_ops L) R phs dylib w = Inr ((space, segs), w')"
    by (rule load_segments_returns [OF sp']) (rule unix_load_one_returns [OF sp grant ok _ _ al fd])
  then show ?thesis using that [OF _ mem al] by auto
qed

lemma bare_create_space:
  assumes "dylib \<Longrightarrow> heap_alloc A (fst (snd (parse_segments phs True))) w = (p, w1) \<and>
      p \<noteq> 0 \<and> unat p mod 4096 = 0"
  shows "\<exists>space w1. create_space (bare_metal A) phs dylib uf w = Inr (space, w1) \<and>
     unat (base_of space) mod 4096 = 0"
proof -
  have "\<exists>space w1. create_space (bare_metal A) phs dylib uf w = Inr (space, w1) \<and>
     unat (memory space) mod 4096 = 0"
    using assms
    by (cases dylib) (auto simp: create_space_def bare_metal_def default_mmap_reserve_def bare_mmap_def
        parse_segments_def Let_def align_simps flag_defs split: prod.splits)
  then show ?thesis using create_space_base_aligned by metis
qed

section \<open>Concrete inputs\<close>

text \<open>Two headers, an allocator, a mapping call and a file at which the properties below are instantiated.\<close>

definition wit_text :: phdr where
  "wit_text = \<lparr>p_type = PT_LOAD, p_flags = 5, p_offset = 0, p_vaddr = 0, p_paddr = 0, p_filesz = 3,
     p_memsz = 3, p_align = 4096\<rparr>"

definition wit_data :: phdr where
  "wit_data = \<lparr>p_type = PT_LOAD, p_flags = 6, p_offset = 2, p_vaddr = 0x1002, p_paddr = 0x1002,
     p_filesz = 2, p_memsz = 0x1000, p_align = 4096\<rparr>"

definition wit_heap :: allocator where
  "wit_heap = \<lparr>heap_alloc = \<lambda>_ w. (0x40000, w), heap_dealloc = \<lambda>_ _ w. w\<rparr>"

definition wit_vm :: vm where
  "wit_vm = \<lparr>vm_mem = \<lambda>_. 7, vm_prot = \<lambda>_. 0\<rparr>"

lemmas wit_phdr_simps = wit_text_def wit_data_def phdr_ok_def pages_apart_def page_start_def
  page_span_def page_up_def PT_LOAD_def no_overflow_def

definition wit_content :: "nat \<Rightarrow> u8" where
  "wit_content n = of_nat n"

definition wit_mmap :: "usize \<Rightarrow> usize \<Rightarrow> u32 \<Rightarrow> u32 \<Rightarrow> u32 \<Rightarrow> usize \<Rightarrow> vm \<Rightarrow> usize \<times> vm" where
  "wit_mmap a len prot flags fd off w =
     (if unat a mod 4096 \<noteq> 0 \<or> len = 0 \<or> unat off mod 4096 \<noteq> 0 then (MAP_FAILED, w)
      else if flags_contain flags MAP_FIXED then
        (a, w\<lparr>vm_mem := (\<lambda>x. if \<not> in_range a (page_up (unat len)) x then vm_mem w x
                             else if flags_contain flags MAP_ANONYMOUS then 0
                             else wit_content (unat off + unat (x - a)))\<rparr>)
      else (0x40000, w))"

definition wit_libc :: libc where
  "wit_libc = \<lparr>c_mmap = wit_mmap, c_munmap = \<lambda>_ _ w. (0, w), c_mprotect = \<lambda>_ _ _ w. (0, w)\<rparr>"

definition wit_file :: "nat fileio" where
  "wit_file = \<lparr>c_lseek = (\<lambda>off pos. if unat off < 2 ^ 63 then (int (unat off), unat off) else (- 1, pos)),
     c_read = (\<lambda>n pos. let k = min n (9000 - pos)
                        in ((int k, map (\<lambda>i. wit_content (pos + i)) [0..<k]), pos + k))\<rparr>"

lemma wit_libc_posix: "posix_mmap wit_libc (\<lambda>_. wit_content)"
  unfolding posix_mmap_def wit_libc_def
  by (auto simp: wit_mmap_def in_range_def unat_of_nat_below intro!: order.strict_trans2 [OF _ page_up_ge]
      split: if_splits)

lemma aligned_not_failed: "unat a mod 4096 = 0 \<Longrightarrow> (a :: usize) \<noteq> MAP_FAILED"
  by (auto simp: MAP_FAILED_def unsigned_minus_1_eq_mask mask_eq_exp_minus_1)

lemma wit_libc_grants:
  assumes "unat (case addr of None \<Rightarrow> 0 | Some a \<Rightarrow> (a :: usize)) mod 4096 = 0" and "len \<noteq> 0"
  shows "mmap_grants wit_libc fd sz addr len w"
  using assms
  by (auto simp: mmap_grants_def wit_libc_def wit_mmap_def fixed_map_valid_def aligned_not_failed flags_contain_def
      flag_defs split: option.splits)

lemma wit_parse: "parse_segments [wit_text, wit_data] dylib = (if dylib then None else Some 0, 0x3000, 0)"
  by (simp add: parse_segments_def wit_text_def wit_data_def Let_def roundup_def rounddown_def
      PAGE_SIZE_def PT_LOAD_def word_gt_0)

lemma wit_in_file: "\<forall>ph \<in> set [wit_text, wit_data]. p_type ph = PT_LOAD \<longrightarrow> phdr_in_file 9000 ph"
  by (simp add: phdr_in_file_def wit_phdr_simps)

lemma wit_file_posix: "posix_file wit_file wit_content 9000"
  unfolding posix_file_def wit_file_def by (auto simp: Let_def)

section \<open>Properties\<close>

text \<open>
  C1. Loading from memory on bare metal. For loadable headers that are well formed, do not share
  pages and lie inside the file, and an allocator that hands out a page-aligned block, loading
  returns, and then every loadable segment holds its file bytes followed by zeros at its address.
\<close>

theorem bare_metal_load_correct:
  assumes "\<forall>ph \<in> set phs. p_type ph = PT_LOAD \<longrightarrow>
      phdr_ok ph \<and> unat (p_offset ph) + unat (p_filesz ph) \<le> length bs"
    and "sorted_wrt pages_apart (filter (\<lambda>ph. p_type ph = PT_LOAD) phs)" and "length bs < 2 ^ 64"
    and "dylib \<Longrightarrow> heap_alloc A (fst (snd (parse_segments phs True))) w = (p, w1) \<and>
      p \<noteq> 0 \<and> unat p mod 4096 = 0"
  shows "\<exists>space segs w'.
     load_segments (bare_metal A) (elf_binary name bs) phs dylib w = Inr ((space, segs), w') \<and>
     (\<forall>ph \<in> set phs. p_type ph = PT_LOAD \<longrightarrow>
        holds_segment (bytes_content bs) (vm_mem w') (base_of space) ph)"
proof -
  obtain space w1 where
    sp: "create_space (bare_metal A) phs dylib (as_fd (elf_binary name bs) \<noteq> None) w = Inr (space, w1)"
    and al: "unat (base_of space) mod 4096 = 0"
    using bare_create_space [OF assms(4)] by metis
  obtain segs w' where run: "load_segments (bare_metal A) (elf_binary name bs) phs dylib w = Inr ((space, segs), w')"
    using load_segments_returns [OF sp] bare_load_one_returns [OF _ assms(3)] assms(1) by metis
  with bare_binary.load_segments_spec [OF run _ assms(2) al] assms(1) show ?thesis by blast
qed

theorem bare_metal_load_correct_witness:
  "\<exists>space segs w'.
     load_segments (bare_metal wit_heap) (elf_binary ''x'' [1, 2, 3, 4]) [wit_text, wit_data] True wit_vm
       = Inr ((space, segs), w') \<and>
     (\<forall>ph \<in> {wit_text, wit_data}.
        holds_segment (bytes_content [1, 2, 3, 4]) (vm_mem w') (base_of space) ph)"
  using bare_metal_load_correct [of "[wit_text, wit_data]" "[1, 2, 3, 4]" True wit_heap wit_vm
      "0x40000" wit_vm "''x''"]
  by (simp add: wit_phdr_simps wit_heap_def)

text \<open>
  C2. Loading a file over POSIX. Take loadable headers that are well formed, not empty, inside the
  file and on separate pages, the documented behaviour of \<^verbatim>\<open>mmap\<close>, \<^verbatim>\<open>lseek\<close> and
  \<^verbatim>\<open>read\<close>, and a system that grants the reservation and the valid mappings inside it. Then
  loading returns: every mapping it asks for is a valid one inside the reservation (aligned, of
  non-zero length, at an aligned offset of the file); and every loadable segment holds its file bytes
  followed by zeros.
\<close>

theorem unix_load_correct:
  assumes "posix_mmap L fdata" and "posix_file F content sz" and "fdata (ucast fd) = content"
    and "\<forall>ph \<in> set phs. p_type ph = PT_LOAD \<longrightarrow> phdr_in_file sz ph"
    and "sorted_wrt pages_apart (filter (\<lambda>ph. p_type ph = PT_LOAD) phs)"
    and "parse_segments phs dylib = (addr, len, min_vaddr)" and "mmap_grants L (ucast fd) sz addr len w"
  shows "\<exists>space segs w'.
     load_segments (unix_ops L) (raw_file name fd F pos) phs dylib w = Inr ((space, segs), w') \<and>
     (\<forall>ph \<in> set phs. p_type ph = PT_LOAD \<longrightarrow>
        holds_segment content (vm_mem w') (base_of space) ph)"
proof -
  have fd: "as_fd (raw_file name fd F pos) = Some fd" by (simp add: raw_file_def)
  have ok: "\<forall>ph \<in> set phs. p_type ph = PT_LOAD \<longrightarrow> phdr_ok ph" using assms(4) by (simp add: phdr_in_file_def)
  from unix_load_returns [OF assms(7,6,4) fd] obtain space segs w' where
    run: "load_segments (unix_ops L) (raw_file name fd F pos) phs dylib w = Inr ((space, segs), w')"
    and al: "unat (base_of space) mod 4096 = 0" by metis
  with loading_env.load_segments_spec [OF unix_loading_env [OF assms(1-3)] run ok assms(5) al]
  show ?thesis by blast
qed

theorem unix_load_correct_witness:
  "\<exists>space segs w'.
     load_segments (unix_ops wit_libc) (raw_file ''x'' 3 wit_file 0) [wit_text, wit_data] False wit_vm
       = Inr ((space, segs), w') \<and>
     (\<forall>ph \<in> {wit_text, wit_data}. holds_segment wit_content (vm_mem w') (base_of space) ph)"
proof -
  have "mmap_grants wit_libc (ucast (3 :: usize)) 9000 (Some 0) 0x3000 wit_vm" by (rule wit_libc_grants) simp_all
  from unix_load_correct [OF wit_libc_posix wit_file_posix refl wit_in_file _ wit_parse [of False, simplified] this, of "''x''" 0]
  show ?thesis by (simp add: wit_phdr_simps)
qed

text \<open>
  C24. The reservation. Reserving address space for a list of headers asks for a page-aligned range,
  and everything that loading then changes lies inside the reservation.
\<close>

theorem loading_stays_in_reservation:
  assumes "create_space (unix_ops L) phs dylib True w = Inr (space, w1)"
    and "load_segments (unix_ops L) (raw_file name fd F pos) phs dylib w = Inr ((space, segs), w')"
    and "posix_mmap L fdata" and "posix_file F content sz" and "fdata (ucast fd) = content"
    and "unat (memory space) mod 4096 = 0"
    and "\<forall>ph \<in> set phs. p_type ph = PT_LOAD \<longrightarrow> phdr_ok ph"
    and "sorted_wrt pages_apart (filter (\<lambda>ph. p_type ph = PT_LOAD) phs)"
    and "\<not> in_range (memory space) (unat (space_len space)) x"
  shows "vm_mem w' x = vm_mem w1 x"
proof -
  note env = unix_loading_env [OF assms(3-5), of name pos]
  have "as_fd (raw_file name fd F pos) \<noteq> None" by (simp add: raw_file_def)
  with assms(1,2) have
    "res_fold (load_one (unix_ops L) (raw_file name fd F pos) (base_of space)) (map create_segment (loads phs)) ([], w1)
       = Inr (segs, w')"
    by (auto simp: load_segments_def load_segment_list_def create_segments_def res_simps)
  from loading_env.load_list_spec [OF env this _ assms(8) create_space_base_aligned [OF assms(1,6)]]
  have "(\<forall>ph \<in> set (loads phs). \<not> on_pages (base_of space) ph x) \<longrightarrow> vm_mem w' x = vm_mem w1 x"
    using assms(7) by auto
  moreover have "\<not> on_pages (base_of space) ph x" if "ph \<in> set (loads phs)" for ph
    using on_pages_in_reservation [OF assms(1), of ph x] assms(7,9) that phdr_ok_no_overflow by auto
  ultimately show ?thesis by blast
qed

theorem loading_stays_in_reservation_witness:
  "\<exists>space w1 segs w'.
     create_space (unix_ops wit_libc) [wit_text, wit_data] True True wit_vm = Inr (space, w1) \<and>
     load_segments (unix_ops wit_libc) (raw_file ''x'' 3 wit_file 0) [wit_text, wit_data] True wit_vm
       = Inr ((space, segs), w') \<and> vm_mem w' 0 = vm_mem w1 0"
proof -
  let ?phs = "[wit_text, wit_data]" and ?R = "raw_file ''x'' 3 wit_file 0"
  let ?space = "\<lparr>memory = 0x40000, seg_offset = 0, space_len = 0x3000\<rparr>"
  have sp: "create_space (unix_ops wit_libc) ?phs True True wit_vm = Inr (?space, wit_vm)"
    by (simp add: create_space_def wit_parse unix_ops_def unix_mmap_reserve_def wit_libc_def
        wit_mmap_def flags_contain_def flag_defs)
  have fd: "as_fd ?R = Some 3" by (simp add: raw_file_def)
  have al: "unat (base_of ?space) mod 4096 = 0" by (simp add: base_of_def)
  have grant: "fst (c_mmap wit_libc a n prot flags f off w1) \<noteq> MAP_FAILED"
    if "fixed_map_valid (ucast (3 :: usize)) 9000 (memory ?space) (space_len ?space) a n prot flags f off" for a n prot flags f off w1
    using that by (auto simp: fixed_map_valid_def wit_libc_def wit_mmap_def aligned_not_failed flags_contain_def flag_defs)
  note one = unix_load_one_returns [OF sp grant wit_in_file _ _ al fd]
  have "\<exists>segs w'. load_segments (unix_ops wit_libc) ?R ?phs True wit_vm = Inr ((?space, segs), w')"
    by (rule load_segments_returns [where ?w1.0 = wit_vm]) (simp add: fd sp, rule one)
  then obtain segs w' where
    run: "load_segments (unix_ops wit_libc) ?R ?phs True wit_vm = Inr ((?space, segs), w')" by blast
  have "vm_mem w' 0 = vm_mem wit_vm 0"
    by (rule loading_stays_in_reservation [OF sp run wit_libc_posix wit_file_posix refl])
      (simp_all add: wit_phdr_simps in_range_def)
  with sp run show ?thesis by blast
qed

text \<open>
  C25. Size of the reservation. The range that \<^verbatim>\<open>parse_segments\<close> computes starts and ends
  on page boundaries and contains all pages of every loadable header.
\<close>

theorem reservation_covers_segments:
  assumes "parse_segments phs dylib = (addr, len, min_vaddr)"
    and "\<forall>ph \<in> set phs. p_type ph = PT_LOAD \<longrightarrow> no_overflow ph"
    and "ph \<in> set phs" and "p_type ph = PT_LOAD"
  shows "unat min_vaddr mod 4096 = 0 \<and> unat len mod 4096 = 0 \<and> unat min_vaddr \<le> page_start ph \<and>
    page_start ph + page_span ph \<le> unat min_vaddr + unat len \<and>
    addr = (if dylib then None else Some min_vaddr)"
  using parse_segments_covers [OF assms] assms(1)
  by (auto simp: parse_segments_def Let_def split: prod.splits)

theorem reservation_covers_segments_witness:
  "page_start wit_data + page_span wit_data \<le> unat (0 :: usize) + unat (0x3000 :: usize)"
proof -
  from reservation_covers_segments [OF wit_parse [of True, simplified], of wit_data] show ?thesis
    by (simp add: wit_phdr_simps)
qed

text \<open>
  For a power-of-two alignment, \<^verbatim>\<open>rounddown\<close> is the greatest multiple not
  above its argument, and \<^verbatim>\<open>roundup\<close>, when it does not overflow, the least one not below.
\<close>

lemma rounding_is_nearest_multiple:
  assumes "k < 64" and "unat x + 2 ^ k \<le> 2 ^ 64"
  shows "2 ^ k dvd unat (rounddown x (2 ^ k)) \<and> unat (rounddown x (2 ^ k)) \<le> unat x \<and>
    unat x < unat (rounddown x (2 ^ k)) + 2 ^ k \<and>
    2 ^ k dvd unat (roundup x (2 ^ k)) \<and> unat x \<le> unat (roundup x (2 ^ k)) \<and>
    unat (roundup x (2 ^ k)) < unat x + 2 ^ k"
proof -
  let ?n = "2 ^ k :: nat"
  have pos: "0 < ?n" by simp
  have "unat x mod ?n < ?n" and "(unat x + (?n - 1)) mod ?n < ?n" using pos by simp_all
  moreover have "unat x div ?n * ?n + unat x mod ?n = unat x"
    and "(unat x + (?n - 1)) div ?n * ?n + (unat x + (?n - 1)) mod ?n = unat x + (?n - 1)"
    by (rule div_mult_mod_eq)+
  ultimately show ?thesis
    unfolding unat_rounddown_pow2 [OF assms(1)] unat_roundup_pow2 [OF assms]
    using pos by (intro conjI dvd_triv_right) linarith+
qed

text \<open>
  Protection. The protection computed from the header's flags grants exactly the permissions
  the flags ask for, and no other bit is set.
\<close>

lemma segment_prot_permissions:
  "flags_contain (segment_prot fl) PROT_READ = flags_contain fl PF_R \<and>
   flags_contain (segment_prot fl) PROT_WRITE = flags_contain fl PF_W \<and>
   flags_contain (segment_prot fl) PROT_EXEC = flags_contain fl PF_X \<and>
   segment_prot fl AND NOT (PROT_READ OR PROT_WRITE OR PROT_EXEC) = 0"
  by (intro conjI segment_prot_contains segment_prot_other_bits)

end
