(* ===== verification/Symbol_Table.thy ===== *)
theory Symbol_Table
  imports Segment
begin

text \<open>
  The data of symbol lookup: \<^verbatim>\<open>ElfStringTable\<close>, \<^verbatim>\<open>SymbolInfo\<close> and
  \<^verbatim>\<open>SymbolTable\<close> of \<^verbatim>\<open>src/src/elf/symbol.rs\<close>, the three hash table
  formats of \<^verbatim>\<open>src/src/elf/hash\<close> with their hash functions and parsers, and the
  structures of \<^verbatim>\<open>src/src/elf/version.rs\<close>. A name is the list of its bytes, a
  reference to a symbol is its address.
\<close>

section \<open>Strings\<close>

text \<open>
  \<^verbatim>\<open>CStr::from_ptr\<close> reads up to the first zero byte; it does not end in a memory that has
  none.
\<close>

partial_function (option) cstr :: "mem \<Rightarrow> usize \<Rightarrow> bytes option" where
  "cstr m a = (if m a = 0 then Some [] else Option.bind (cstr m (a + 1)) (\<lambda>bs. Some (m a # bs)))"

declare cstr.simps [code]

definition get_cstr :: "mem \<Rightarrow> usize \<Rightarrow> usize \<Rightarrow> bytes result" where
  "get_cstr m strtab off = returned (cstr m (strtab + off))"

definition get_str :: "mem \<Rightarrow> usize \<Rightarrow> usize \<Rightarrow> bytes result" where
  "get_str m strtab off = get_cstr m strtab off"

section \<open>Hash functions\<close>

definition gnu_hash_step :: "u32 \<Rightarrow> u8 \<Rightarrow> u32" where
  "gnu_hash_step h b = h * 33 + ucast b"

definition gnu_hash :: "bytes \<Rightarrow> u64" where
  "gnu_hash name = ucast (foldl gnu_hash_step 5381 name)"

definition sysv_hash_step :: "u32 \<Rightarrow> u8 \<Rightarrow> u32" where
  "sysv_hash_step h b =
     (let h1 = push_bit 4 h + ucast b;
          g = h1 AND 0xF0000000;
          h2 = (if g \<noteq> 0 then h1 XOR drop_bit 24 g else h1)
      in h2 AND NOT g)"

definition sysv_hash :: "bytes \<Rightarrow> u64" where
  "sysv_hash name = ucast (foldl sysv_hash_step 0 name)"

section \<open>Hash tables\<close>

record gnu_header =
  gh_nbucket :: u32
  gh_symbias :: u32
  gh_nbloom :: u32
  gh_nshift :: u32

record elf_gnu_hash =
  g_header :: gnu_header
  g_blooms :: usize
  g_buckets :: usize
  g_chains :: usize

definition gnu_parse :: "mem \<Rightarrow> usize \<Rightarrow> elf_gnu_hash" where
  "gnu_parse m ptr =
     (let header = \<lparr>gh_nbucket = read_u32 m ptr, gh_symbias = read_u32 m (ptr + 4),
                    gh_nbloom = read_u32 m (ptr + 8), gh_nshift = read_u32 m (ptr + 12)\<rparr>;
          bloom_size = ucast (gh_nbloom header) * 8;
          bucket_size = ucast (gh_nbucket header) * 4;
          blooms = ptr + 16;
          buckets = blooms + bloom_size;
          chains = buckets + bucket_size
      in \<lparr>g_header = header, g_blooms = blooms, g_buckets = buckets, g_chains = chains\<rparr>)"

record elf_hash =
  h_nbucket :: u32
  h_nchain :: u32
  h_buckets :: usize
  h_chains :: usize

definition elf_hash_parse :: "mem \<Rightarrow> usize \<Rightarrow> elf_hash" where
  "elf_hash_parse m ptr =
     (let nbucket = read_u32 m ptr; nchain = read_u32 m (ptr + 4);
          bucket_size = ucast nbucket * 4;
          buckets = ptr + 8
      in \<lparr>h_nbucket = nbucket, h_nchain = nchain, h_buckets = buckets, h_chains = buckets + bucket_size\<rparr>)"

text \<open>
  The table of relocatable objects is a \<^verbatim>\<open>hashbrown::HashTable\<close> under a
  \<^verbatim>\<open>foldhash\<close> hasher. Its state is the list of the \<^verbatim>\<open>insert_unique\<close> calls
  made on it; how it answers \<^verbatim>\<open>find\<close> and \<^verbatim>\<open>len\<close> is a parameter.
\<close>

record table_entry =
  te_name :: bytes
  te_idx :: usize

type_synonym custom_hash = "(u64 \<times> table_entry) list"

record hashbrown =
  hb_hash :: "bytes \<Rightarrow> u64"
  hb_find :: "custom_hash \<Rightarrow> u64 \<Rightarrow> (table_entry \<Rightarrow> bool) \<Rightarrow> table_entry option"
  hb_len :: "custom_hash \<Rightarrow> usize"

datatype hash_table = Gnu elf_gnu_hash | Elf elf_hash | CustomTab custom_hash

fun into_gnuhash :: "hash_table \<Rightarrow> elf_gnu_hash option" where
  "into_gnuhash (Gnu h) = Some h"
| "into_gnuhash _ = None"

fun into_elfhash :: "hash_table \<Rightarrow> elf_hash option" where
  "into_elfhash (Elf h) = Some h"
| "into_elfhash _ = None"

fun into_customhash :: "hash_table \<Rightarrow> custom_hash option" where
  "into_customhash (CustomTab h) = Some h"
| "into_customhash _ = None"

section \<open>Versions\<close>

record ver_def =
  vd_version :: u16
  vd_flags :: u16
  vd_ndx :: u16
  vd_cnt :: u16
  vd_hash :: u32
  vd_aux :: u32
  vd_next :: u32

record ver_def_aux =
  vda_name :: u32
  vda_next :: u32

record ver_need =
  vn_version :: u16
  vn_cnt :: u16
  vn_file :: u32
  vn_aux :: u32
  vn_next :: u32

record ver_need_aux =
  vna_hash :: u32
  vna_flags :: u16
  vna_other :: u16
  vna_name :: u32
  vna_next :: u32

record version =
  v_name :: bytes
  v_hash :: u32

text \<open>The slots of \<^verbatim>\<open>versions\<close> start uninitialised (\<^verbatim>\<open>set_len\<close>).\<close>

record elf_version =
  version_ids :: usize
  versions :: "version option list"

record symbol_version =
  sv_name :: bytes
  sv_hash :: u32
  sv_hidden :: bool

section \<open>Symbol tables\<close>

record symbol_table =
  st_hashtab :: hash_table
  st_symtab :: usize
  st_strtab :: usize
  st_version :: "elf_version option"

record symbol_info =
  si_name :: bytes
  si_cname :: "bytes option"
  si_version :: "symbol_version option"

text \<open>The address of entry \<open>idx\<close> of the symbol table.\<close>

definition sym_ptr :: "symbol_table \<Rightarrow> usize \<Rightarrow> usize" where
  "sym_ptr T idx = st_symtab T + idx * of_nat size_sym"

record pre_compute =
  pc_gnuhash :: u32
  pc_fofs :: usize
  pc_fmask :: usize
  pc_hash :: "u32 option"
  pc_custom :: "u64 option"

definition precompute :: "symbol_info \<Rightarrow> pre_compute" where
  "precompute info =
     (let gnuhash = ucast (gnu_hash (si_name info))
      in \<lparr>pc_gnuhash = gnuhash, pc_fofs = ucast gnuhash div 64,
          pc_fmask = push_bit (unat (gnuhash mod 64)) 1, pc_hash = None, pc_custom = None\<rparr>)"

section \<open>Lemmas\<close>

lemma cstr_zero: "m a = 0 \<Longrightarrow> cstr m a = Some []"
  by (simp add: cstr.simps)

lemma cstr_step: "m a \<noteq> 0 \<Longrightarrow> cstr m a = Option.bind (cstr m (a + 1)) (\<lambda>bs. Some (m a # bs))"
  by (subst cstr.simps) simp

text \<open>A string ends when its terminator is in memory, and its bytes are those before it.\<close>

lemma cstr_bytes:
  assumes "\<And>i. i < length bs \<Longrightarrow> m (a + of_nat i) = bs ! i" and "0 \<notin> set bs"
    and "m (a + of_nat (length bs)) = 0"
  shows "cstr m a = Some bs"
  using assms
proof (induction bs arbitrary: a)
  case Nil
  then show ?case by (simp add: cstr_zero)
next
  case (Cons b bs)
  from Cons.prems(1) [of 0] Cons.prems(2) have b: "m a = b" "b \<noteq> 0" by auto
  have "cstr m (a + 1) = Some bs"
  proof (rule Cons.IH)
    show "m (a + 1 + of_nat i) = bs ! i" if "i < length bs" for i
      using Cons.prems(1) [of "Suc i"] that by (simp add: add.assoc)
    show "m (a + 1 + of_nat (length bs)) = 0" using Cons.prems(3) by (simp add: add.assoc)
  qed (use Cons.prems(2) in auto)
  with b show ?case by (simp add: cstr_step)
qed

lemma cstr_sound:
  assumes "cstr m a = Some bs"
  shows "(\<forall>i < length bs. m (a + of_nat i) = bs ! i) \<and> 0 \<notin> set bs \<and> m (a + of_nat (length bs)) = 0"
  using assms
proof (induction bs arbitrary: a)
  case Nil
  then show ?case by (cases "m a = 0") (auto simp: cstr_zero cstr_step bind_eq_Some_conv)
next
  case (Cons b bs)
  from Cons.prems have nz: "m a \<noteq> 0" by (auto simp: cstr_zero)
  with Cons.prems have b: "b = m a" and rest: "cstr m (a + 1) = Some bs"
    by (auto simp: cstr_step bind_eq_Some_conv)
  note IH = Cons.IH [OF rest]
  have "m (a + of_nat i) = (b # bs) ! i" if "i < Suc (length bs)" for i
    using IH that b by (cases i) (auto simp: add.assoc)
  with IH b nz show ?case by (auto simp: add.assoc)
qed

text \<open>Some byte of a memory is zero exactly when every string in it ends.\<close>

lemma cstr_ends:
  assumes "m (a + of_nat n) = 0"
  shows "\<exists>bs. cstr m a = Some bs \<and> length bs \<le> n"
  using assms
proof (induction n arbitrary: a)
  case 0
  then show ?case by (simp add: cstr_zero)
next
  case (Suc n)
  show ?case
  proof (cases "m a = 0")
    case True
    then show ?thesis by (simp add: cstr_zero)
  next
    case False
    from Suc.prems have "m ((a + 1) + of_nat n) = 0" by (simp add: add.assoc)
    from Suc.IH [OF this] obtain bs where "cstr m (a + 1) = Some bs" "length bs \<le> n" by blast
    with False show ?thesis by (simp add: cstr_step)
  qed
qed

end
