(* ===== verification/Version.thy ===== *)
theory Version
  imports Symbol_Table
begin

text \<open>
  \<^verbatim>\<open>src/src/elf/version.rs\<close>: the version tables of the GNU extension, read by their
  iterators, the table \<^verbatim>\<open>ELFVersion\<close> built from them, and the two questions lookup
  asks: the version a symbol requires, and whether a definition matches a requirement.
\<close>

section \<open>Structures in memory\<close>

definition ver_def_at :: "mem \<Rightarrow> usize \<Rightarrow> ver_def" where
  "ver_def_at m a =
     \<lparr>vd_version = read_u16 m a, vd_flags = read_u16 m (a + 2), vd_ndx = read_u16 m (a + 4),
      vd_cnt = read_u16 m (a + 6), vd_hash = read_u32 m (a + 8), vd_aux = read_u32 m (a + 12),
      vd_next = read_u32 m (a + 16)\<rparr>"

definition ver_def_aux_at :: "mem \<Rightarrow> usize \<Rightarrow> ver_def_aux" where
  "ver_def_aux_at m a = \<lparr>vda_name = read_u32 m a, vda_next = read_u32 m (a + 4)\<rparr>"

definition ver_need_at :: "mem \<Rightarrow> usize \<Rightarrow> ver_need" where
  "ver_need_at m a =
     \<lparr>vn_version = read_u16 m a, vn_cnt = read_u16 m (a + 2), vn_file = read_u32 m (a + 4),
      vn_aux = read_u32 m (a + 8), vn_next = read_u32 m (a + 12)\<rparr>"

definition ver_need_aux_at :: "mem \<Rightarrow> usize \<Rightarrow> ver_need_aux" where
  "ver_need_aux_at m a =
     \<lparr>vna_hash = read_u32 m a, vna_flags = read_u16 m (a + 4), vna_other = read_u16 m (a + 6),
      vna_name = read_u32 m (a + 8), vna_next = read_u32 m (a + 12)\<rparr>"

definition verdef_index :: "ver_def \<Rightarrow> nat" where
  "verdef_index d = unat (vd_ndx d AND VER_NDX_VERSION)"

definition verneed_aux_index :: "ver_need_aux \<Rightarrow> nat" where
  "verneed_aux_index x = unat (vna_other x AND VER_NDX_VERSION)"

definition version_index :: "u16 \<Rightarrow> u16" where
  "version_index v = v AND VER_NDX_VERSION"

definition is_hidden :: "u16 \<Rightarrow> bool" where
  "is_hidden v \<longleftrightarrow> v AND VER_NDX_HIDDEN \<noteq> 0"

definition version_ids_get :: "mem \<Rightarrow> usize \<Rightarrow> usize \<Rightarrow> u16" where
  "version_ids_get m ids sym_idx = read_u16 m (ids + sym_idx * 2)"

section \<open>Iterators\<close>

text \<open>
  An iterator is its pointer, its counter and its bound; \<^verbatim>\<open>next\<close> steps it. The
  auxiliary iterators walk an array, the outer ones follow \<^verbatim>\<open>vd_next\<close> and
  \<^verbatim>\<open>vn_next\<close>.
\<close>

record ver_iter =
  it_ptr :: usize
  it_count :: nat
  it_num :: nat

definition verdef_aux_next :: "mem \<Rightarrow> ver_iter \<Rightarrow> (ver_def_aux \<times> ver_iter) option" where
  "verdef_aux_next m it =
     (if it_count it < it_num it
      then Some (ver_def_aux_at m (it_ptr it), it\<lparr>it_ptr := it_ptr it + 8, it_count := it_count it + 1\<rparr>)
      else None)"

definition verneed_aux_next :: "mem \<Rightarrow> ver_iter \<Rightarrow> (ver_need_aux \<times> ver_iter) option" where
  "verneed_aux_next m it =
     (if it_count it < it_num it
      then Some (ver_need_aux_at m (it_ptr it), it\<lparr>it_ptr := it_ptr it + 16, it_count := it_count it + 1\<rparr>)
      else None)"

definition verdef_next :: "mem \<Rightarrow> ver_iter \<Rightarrow> ((ver_def \<times> ver_iter) \<times> ver_iter) option" where
  "verdef_next m it =
     (if it_count it < it_num it
      then let d = ver_def_at m (it_ptr it);
               aux = \<lparr>it_ptr = it_ptr it + ucast (vd_aux d), it_count = 0, it_num = unat (vd_cnt d)\<rparr>
           in Some ((d, aux), it\<lparr>it_ptr := it_ptr it + ucast (vd_next d), it_count := it_count it + 1\<rparr>)
      else None)"

definition verneed_next :: "mem \<Rightarrow> ver_iter \<Rightarrow> ((ver_need \<times> ver_iter) \<times> ver_iter) option" where
  "verneed_next m it =
     (if it_count it < it_num it
      then let n = ver_need_at m (it_ptr it);
               aux = \<lparr>it_ptr = it_ptr it + ucast (vn_aux n), it_count = 0, it_num = unat (vn_cnt n)\<rparr>
           in Some ((n, aux), it\<lparr>it_ptr := it_ptr it + ucast (vn_next n), it_count := it_count it + 1\<rparr>)
      else None)"

definition table_iter :: "usize \<Rightarrow> usize \<Rightarrow> ver_iter" where
  "table_iter ptr num = \<lparr>it_ptr = ptr, it_count = 0, it_num = unat num\<rparr>"

text \<open>The items a \<^verbatim>\<open>for\<close> loop over an iterator sees: at most \<open>k\<close>, the items left.\<close>

primrec iter_items :: "(ver_iter \<Rightarrow> ('a \<times> ver_iter) option) \<Rightarrow> nat \<Rightarrow> ver_iter \<Rightarrow> 'a list" where
  "iter_items nx 0 it = []"
| "iter_items nx (Suc k) it = (case nx it of None \<Rightarrow> [] | Some (x, it') \<Rightarrow> x # iter_items nx k it')"

definition items :: "(ver_iter \<Rightarrow> ('a \<times> ver_iter) option) \<Rightarrow> ver_iter \<Rightarrow> 'a list" where
  "items nx it = iter_items nx (it_num it - it_count it) it"

section \<open>The version table\<close>

definition verdef_items :: "mem \<Rightarrow> (usize \<times> usize) option \<Rightarrow> (ver_def \<times> ver_iter) list" where
  "verdef_items m verdefs =
     (case verdefs of None \<Rightarrow> [] | Some (ptr, num) \<Rightarrow> items (verdef_next m) (table_iter ptr num))"

definition verneed_auxs :: "mem \<Rightarrow> (usize \<times> usize) option \<Rightarrow> ver_need_aux list" where
  "verneed_auxs m verneeds =
     (case verneeds of None \<Rightarrow> []
      | Some (ptr, num) \<Rightarrow>
          concat (map (\<lambda>(n, aux). items (verneed_aux_next m) aux) (items (verneed_next m) (table_iter ptr num))))"

definition set_verdef ::
  "mem \<Rightarrow> usize \<Rightarrow> ver_def \<times> ver_iter \<Rightarrow> version option list \<Rightarrow> version option list result" where
  "set_verdef m strtab d vs =
     res_bind (unwrap ''called `Option::unwrap()` on a `None` value'' (verdef_aux_next m (snd d))) (\<lambda>(aux, _).
     res_bind (get_str m strtab (ucast (vda_name aux))) (\<lambda>name.
     slot_set vs (verdef_index (fst d)) \<lparr>v_name = name, v_hash = vd_hash (fst d)\<rparr>))"

definition set_verneed ::
  "mem \<Rightarrow> usize \<Rightarrow> ver_need_aux \<Rightarrow> version option list \<Rightarrow> version option list result" where
  "set_verneed m strtab aux vs =
     res_bind (get_str m strtab (ucast (vna_name aux))) (\<lambda>name.
     slot_set vs (verneed_aux_index aux) \<lparr>v_name = name, v_hash = vna_hash aux\<rparr>)"

definition elf_version_new ::
  "mem \<Rightarrow> usize option \<Rightarrow> (usize \<times> usize) option \<Rightarrow> (usize \<times> usize) option \<Rightarrow> usize \<Rightarrow> elf_version option result" where
  "elf_version_new m version_ids_off verneeds verdefs strtab =
     (case version_ids_off of
        None \<Rightarrow> Inr None
      | Some off \<Rightarrow>
          (let defs = verdef_items m verdefs;
               auxs = verneed_auxs m verneeds;
               ndx_max0 = foldl (\<lambda>mx d. if mx < verdef_index (fst d) then verdef_index (fst d) else mx) 0 defs;
               ndx_max = foldl (\<lambda>mx x. if mx < verneed_aux_index x then verneed_aux_index x else mx) ndx_max0 auxs
           in res_bind (res_fold (set_verdef m strtab) defs (replicate (ndx_max + 1) None)) (\<lambda>vs1.
              res_bind (res_fold (set_verneed m strtab) auxs vs1) (\<lambda>vs2.
              Inr (Some \<lparr>version_ids = off, versions = vs2\<rparr>)))))"

section \<open>Requirements\<close>

definition dl_hash_add :: "u32 \<Rightarrow> u8 \<Rightarrow> u32" where
  "dl_hash_add h b = push_bit 4 h + ucast b"

definition dl_hash_step :: "u32 \<Rightarrow> u8 \<Rightarrow> u32" where
  "dl_hash_step h b = (let h1 = dl_hash_add h b; hi = h1 AND 0xF0000000 in h1 XOR drop_bit 24 hi)"

definition dl_elf_hash :: "bytes \<Rightarrow> u32 result" where
  "dl_elf_hash bs =
     (if bs = [] then Inl (Panic ''index out of bounds'')
      else let h = ucast (bs ! 0) in
        if h \<noteq> 0 \<and> length bs > 1 then
          let h = dl_hash_add h (bs ! 1) in
          if length bs > 2 then
            let h = dl_hash_add h (bs ! 2) in
            if length bs > 3 then
              let h = dl_hash_add h (bs ! 3) in
              if length bs > 4 then
                let h = dl_hash_add h (bs ! 4)
                in Inr (foldl dl_hash_step h (drop 5 bs) AND 0x0FFFFFFF)
              else Inr h
            else Inr h
          else Inr h
        else Inr h)"

definition symbol_version_new :: "bytes \<Rightarrow> symbol_version result" where
  "symbol_version_new name =
     res_bind (dl_elf_hash name) (\<lambda>h. Inr \<lparr>sv_name = name, sv_hash = h, sv_hidden = True\<rparr>)"

definition get_requirement :: "mem \<Rightarrow> symbol_table \<Rightarrow> usize \<Rightarrow> symbol_version option result" where
  "get_requirement m T sym_idx =
     (case st_version T of
        None \<Rightarrow> Inr None
      | Some gnu_version \<Rightarrow>
          (let ver_ndx = version_ids_get m (version_ids gnu_version) sym_idx
           in if version_index ver_ndx \<le> 1 then Inr None
              else res_bind (slot_get (versions gnu_version) (unat (version_index ver_ndx))) (\<lambda>v.
                   Inr (Some \<lparr>sv_name = v_name v, sv_hash = v_hash v, sv_hidden = is_hidden ver_ndx\<rparr>))))"

definition check_match :: "mem \<Rightarrow> symbol_table \<Rightarrow> usize \<Rightarrow> symbol_version option \<Rightarrow> bool result" where
  "check_match m T sym_idx version =
     (case version of
        None \<Rightarrow> Inr True
      | Some req \<Rightarrow>
          res_bind (unwrap ''called `Option::unwrap()` on a `None` value'' (st_version T)) (\<lambda>gnu_version.
            let ver_ndx = version_ids_get m (version_ids gnu_version) sym_idx;
                def_hidden = is_hidden ver_ndx
            in res_bind (slot_get (versions gnu_version) (unat (version_index ver_ndx))) (\<lambda>d.
               Inr (v_hash d = sv_hash req \<and> v_name d = sv_name req \<or> \<not> sv_hidden req \<and> \<not> def_hidden))))"

section \<open>Lemmas on the hash\<close>

lemma high_nibble: "(0xF0000000 :: u32) = NOT (mask 28)"
  by (simp add: mask_eq_exp_minus_1)

lemma low_bits: "(0x0FFFFFFF :: u32) = mask 28"
  by (simp add: mask_eq_exp_minus_1)

lemma push_bit_4_mask: "push_bit 4 (h AND mask 28 :: u32) = push_bit 4 h"
  by (rule bit_word_eqI) (auto simp: bit_simps)

lemma clear_high_nibble:
  "(h XOR drop_bit 24 (h AND NOT (mask 28))) AND NOT (h AND NOT (mask 28)) =
     (h XOR drop_bit 24 (h AND NOT (mask 28))) AND (mask 28 :: u32)"
  by (rule bit_word_eqI) (auto simp: bit_simps)

lemma xor_if: "(if g \<noteq> 0 then h XOR drop_bit 24 g else h) = h XOR drop_bit 24 (g :: u32)"
  by (cases "g = 0") simp_all

lemma sysv_step_alt:
  "sysv_hash_step h b = (let h1 = push_bit 4 h + ucast b in (h1 XOR drop_bit 24 (h1 AND NOT (mask 28))) AND mask 28)"
  unfolding sysv_hash_step_def high_nibble Let_def xor_if clear_high_nibble ..

lemma dl_step_masked: "dl_hash_step h b AND mask 28 = sysv_hash_step (h AND mask 28) b"
  by (simp only: dl_hash_step_def dl_hash_add_def sysv_step_alt Let_def high_nibble push_bit_4_mask)

lemma dl_fold_masked: "foldl dl_hash_step h bs AND mask 28 = foldl sysv_hash_step (h AND mask 28) bs"
proof (induction bs arbitrary: h)
  case Nil
  then show ?case by simp
next
  case (Cons b bs)
  show ?case by (simp add: Cons.IH dl_step_masked)
qed

lemma unat_ucast_u8 [simp]: "unat (ucast (b::u8) :: u32) = unat b"
proof -
  have "unat b < 2 ^ 8" using unsigned_less [of b] by simp
  then have "unat b < 2 ^ 32" by simp
  then show ?thesis by (simp add: unsigned_ucast_eq take_bit_nat_eq_self)
qed

lemma unat_dl_hash_add:
  assumes "unat h \<le> B" and "16 * B + 255 < 2 ^ 28"
  shows "unat (dl_hash_add h b) = 16 * unat h + unat b" and "unat (dl_hash_add h b) \<le> 16 * B + 255"
    and "dl_hash_add h b = sysv_hash_step h b"
proof -
  have b: "unat b < 256" using unsigned_less [of b] by simp
  have p: "unat (push_bit 4 h) = 16 * unat h"
  proof -
    have "unat h * 16 < 2 ^ 32" using assms by simp
    then show ?thesis
      unfolding unsigned_push_bit_eq by (simp add: push_bit_eq_mult take_bit_nat_eq_self)
  qed
  have "16 * unat h + unat b < 2 ^ 28" using assms b by linarith
  then show u: "unat (dl_hash_add h b) = 16 * unat h + unat b"
    unfolding dl_hash_add_def using b
    by (simp add: unat_word_ariths p)
  with assms b show "unat (dl_hash_add h b) \<le> 16 * B + 255" by linarith
  have "unat (dl_hash_add h b AND NOT (mask 28)) = 0"
    using u \<open>16 * unat h + unat b < 2 ^ 28\<close> by (simp add: unat_and_not_mask)
  then have "dl_hash_add h b AND 0xF0000000 = 0" by (simp only: high_nibble unat_eq_0)
  then show "dl_hash_add h b = sysv_hash_step h b"
    by (simp only: sysv_hash_step_def dl_hash_add_def Let_def) simp
qed

lemma sysv_steps:
  "sysv_hash_step 0 b0 = ucast b0"
  "sysv_hash_step (ucast b0) b1 = dl_hash_add (ucast b0) b1"
  "sysv_hash_step (dl_hash_add (ucast b0) b1) b2 = dl_hash_add (dl_hash_add (ucast b0) b1) b2"
  "sysv_hash_step (dl_hash_add (dl_hash_add (ucast b0) b1) b2) b3 =
     dl_hash_add (dl_hash_add (dl_hash_add (ucast b0) b1) b2) b3"
  "sysv_hash_step (dl_hash_add (dl_hash_add (dl_hash_add (ucast b0) b1) b2) b3) b4 =
     dl_hash_add (dl_hash_add (dl_hash_add (dl_hash_add (ucast b0) b1) b2) b3) b4"
  "dl_hash_add (dl_hash_add (dl_hash_add (dl_hash_add (ucast b0) b1) b2) b3) b4 AND mask 28 =
     dl_hash_add (dl_hash_add (dl_hash_add (dl_hash_add (ucast b0) b1) b2) b3) b4"
proof -
  have z: "dl_hash_add 0 b0 = ucast b0" by (simp add: dl_hash_add_def)
  note s0 = unat_dl_hash_add [where h = 0 and B = 0 and b = b0, simplified z]
  then have b0: "unat (ucast b0 :: u32) \<le> 255" by simp
  note s1 = unat_dl_hash_add [OF b0, of b1, simplified]
  note s2 = unat_dl_hash_add [OF s1(2), of b2, simplified]
  note s3 = unat_dl_hash_add [OF s2(2), of b3, simplified]
  note s4 = unat_dl_hash_add [OF s3(2), of b4, simplified]
  show "sysv_hash_step 0 b0 = ucast b0" using s0(3) by simp
  show "sysv_hash_step (ucast b0) b1 = dl_hash_add (ucast b0) b1" using s1(3) by simp
  show "sysv_hash_step (dl_hash_add (ucast b0) b1) b2 = dl_hash_add (dl_hash_add (ucast b0) b1) b2"
    using s2(3) by simp
  show "sysv_hash_step (dl_hash_add (dl_hash_add (ucast b0) b1) b2) b3 =
     dl_hash_add (dl_hash_add (dl_hash_add (ucast b0) b1) b2) b3" using s3(3) by simp
  show "sysv_hash_step (dl_hash_add (dl_hash_add (dl_hash_add (ucast b0) b1) b2) b3) b4 =
     dl_hash_add (dl_hash_add (dl_hash_add (dl_hash_add (ucast b0) b1) b2) b3) b4" using s4(3) by simp
  let ?h = "dl_hash_add (dl_hash_add (dl_hash_add (dl_hash_add (ucast b0) b1) b2) b3) b4"
  have "unat ?h < 2 ^ 28" using s4(2) by simp
  then have "take_bit 28 ?h = ?h" by (simp add: word_unat_eq_iff unsigned_take_bit_eq take_bit_nat_eq_self)
  then show "?h AND mask 28 = ?h" by (simp add: take_bit_eq_mask)
qed

lemma dl_elf_hash_sysv:
  assumes "bs \<noteq> []" and "bs ! 0 \<noteq> 0"
  shows "dl_elf_hash bs = Inr (foldl sysv_hash_step 0 bs)"
proof -
  from assms obtain b0 r0 where bs: "bs = b0 # r0" and nz: "b0 \<noteq> 0" by (cases bs) auto
  then have nz': "(ucast b0 :: u32) \<noteq> 0" by (metis unat_eq_0 unat_ucast_u8)
  show ?thesis
  proof (cases r0)
    case Nil
    then show ?thesis by (simp add: bs dl_elf_hash_def sysv_steps)
  next
    case r0: (Cons b1 r1)
    show ?thesis
    proof (cases r1)
      case Nil
      then show ?thesis by (simp add: bs r0 dl_elf_hash_def nz' sysv_steps)
    next
      case r1: (Cons b2 r2)
      show ?thesis
      proof (cases r2)
        case Nil
        then show ?thesis by (simp add: bs r0 r1 dl_elf_hash_def nz' sysv_steps)
      next
        case r2: (Cons b3 r3)
        show ?thesis
        proof (cases r3)
          case Nil
          then show ?thesis by (simp add: bs r0 r1 r2 dl_elf_hash_def nz' sysv_steps)
        next
          case (Cons b4 r4)
          then show ?thesis
            by (simp add: bs r0 r1 r2 dl_elf_hash_def nz' sysv_steps low_bits dl_fold_masked)
        qed
      qed
    qed
  qed
qed

section \<open>Lemmas on the table\<close>

lemma slot_get_set: "slot_set xs i v = Inr ys \<Longrightarrow> slot_get ys j = (if j = i then Inr v else slot_get xs j)"
  by (auto simp: slot_set_def slot_get_def split: if_splits)

lemma slot_set_length: "slot_set xs i v = Inr ys \<Longrightarrow> length ys = length xs"
  by (auto simp: slot_set_def split: if_splits)

lemma foldl_max_ge: "(s::nat) \<le> foldl (\<lambda>mx x. if mx < f x then f x else mx) s xs"
proof (induction xs arbitrary: s)
  case (Cons x xs)
  have "s \<le> (if s < f x then f x else s)" by simp
  also have "\<dots> \<le> foldl (\<lambda>mx x. if mx < f x then f x else mx) (if s < f x then f x else s) xs"
    by (rule Cons.IH)
  finally show ?case by simp
qed simp

lemma foldl_max_mem: "x \<in> set xs \<Longrightarrow> f x \<le> foldl (\<lambda>mx x. if mx < f x then f x else (mx::nat)) s xs"
proof (induction xs arbitrary: s)
  case (Cons y ys)
  show ?case
  proof (cases "x = y")
    case True
    have "f y \<le> (if s < f y then f y else s)" by simp
    also have "\<dots> \<le> foldl (\<lambda>mx x. if mx < f x then f x else mx) (if s < f y then f y else s) ys"
      by (rule foldl_max_ge)
    finally show ?thesis by (simp add: True)
  next
    case False
    with Cons show ?thesis by simp
  qed
qed simp

text \<open>A loop that sets the slot \<open>ix x\<close> for each item, with distinct slots in range, leaves each item's value in its slot.\<close>

lemma set_slots:
  assumes "\<And>x vs. x \<in> set xs \<Longrightarrow> f x vs = slot_set vs (ix x) (val x)"
    and "\<And>x. x \<in> set xs \<Longrightarrow> ix x < length vs"
  shows "\<exists>vs'. res_fold f xs vs = Inr vs' \<and> length vs' = length vs \<and>
     (distinct (map ix xs) \<longrightarrow> (\<forall>x \<in> set xs. slot_get vs' (ix x) = Inr (val x))) \<and>
     (\<forall>i. i \<notin> ix ` set xs \<longrightarrow> slot_get vs' i = slot_get vs i)"
  using assms
proof (induction xs arbitrary: vs)
  case Nil
  then show ?case by simp
next
  case (Cons x xs)
  from Cons.prems(2) [of x] obtain vs1 where vs1: "slot_set vs (ix x) (val x) = Inr vs1"
    by (auto simp: slot_set_def)
  note len = slot_set_length [OF vs1]
  have "\<exists>vs'. res_fold f xs vs1 = Inr vs' \<and> length vs' = length vs1 \<and>
     (distinct (map ix xs) \<longrightarrow> (\<forall>x \<in> set xs. slot_get vs' (ix x) = Inr (val x))) \<and>
     (\<forall>i. i \<notin> ix ` set xs \<longrightarrow> slot_get vs' i = slot_get vs1 i)"
    by (rule Cons.IH) (use Cons.prems len in auto)
  then show ?case
    using Cons.prems(1) [of x] vs1 len slot_get_set [OF vs1] by auto
qed

lemma slot_get_replicate [simp]: "slot_get (replicate n None) i \<noteq> Inr u"
  by (simp add: slot_get_def)

lemma filled_slots:
  assumes "\<forall>i. i \<notin> A \<longrightarrow> slot_get vs1 i = slot_get (replicate n None) i"
    and "\<forall>i. i \<notin> B \<longrightarrow> slot_get vs2 i = slot_get vs1 i"
  shows "\<forall>i u. slot_get vs2 i = Inr u \<longrightarrow> i \<in> A \<union> B"
proof (intro allI impI)
  fix i u
  assume "slot_get vs2 i = Inr u"
  then show "i \<in> A \<union> B"
    using assms slot_get_replicate [of n i u] by (cases "i \<in> B"; cases "i \<in> A") simp_all
qed

text \<open>
  The tables of a file are readable: every definition has an auxiliary entry, and every name ends.
\<close>

definition verdefs_ok :: "mem \<Rightarrow> usize \<Rightarrow> (usize \<times> usize) option \<Rightarrow> bool" where
  "verdefs_ok m strtab verdefs \<longleftrightarrow>
     (\<forall>d \<in> set (verdef_items m verdefs). vd_cnt (fst d) \<noteq> 0 \<and>
        cstr m (strtab + ucast (vda_name (ver_def_aux_at m (it_ptr (snd d))))) \<noteq> None)"

definition verneeds_ok :: "mem \<Rightarrow> usize \<Rightarrow> (usize \<times> usize) option \<Rightarrow> bool" where
  "verneeds_ok m strtab verneeds \<longleftrightarrow>
     (\<forall>x \<in> set (verneed_auxs m verneeds). cstr m (strtab + ucast (vna_name x)) \<noteq> None)"

text \<open>The index and the value that each entry of the tables defines.\<close>

definition verdef_version :: "mem \<Rightarrow> usize \<Rightarrow> ver_def \<times> ver_iter \<Rightarrow> version" where
  "verdef_version m strtab d =
     \<lparr>v_name = the (cstr m (strtab + ucast (vda_name (ver_def_aux_at m (it_ptr (snd d)))))),
      v_hash = vd_hash (fst d)\<rparr>"

definition verneed_version :: "mem \<Rightarrow> usize \<Rightarrow> ver_need_aux \<Rightarrow> version" where
  "verneed_version m strtab x =
     \<lparr>v_name = the (cstr m (strtab + ucast (vna_name x))), v_hash = vna_hash x\<rparr>"

lemma iter_items_snd:
  assumes "\<And>it x it'. nx it = Some (x, it') \<Longrightarrow> P x"
  shows "x \<in> set (iter_items nx k it) \<Longrightarrow> P x"
  by (induction k arbitrary: it) (auto split: option.splits intro: assms [OF sym])

lemma verdef_items_aux: "d \<in> set (verdef_items m verdefs) \<Longrightarrow> it_count (snd d) = 0 \<and> it_num (snd d) = unat (vd_cnt (fst d))"
  unfolding verdef_items_def items_def
  by (auto split: option.splits prod.splits dest!: iter_items_snd [rotated,
      where P = "\<lambda>d. it_count (snd d) = 0 \<and> it_num (snd d) = unat (vd_cnt (fst d))"])
    (auto simp: verdef_next_def Let_def split: if_splits)

lemma set_verdef_slot:
  assumes "verdefs_ok m strtab verdefs" and "d \<in> set (verdef_items m verdefs)"
  shows "set_verdef m strtab d vs = slot_set vs (verdef_index (fst d)) (verdef_version m strtab d)"
proof -
  from assms have "vd_cnt (fst d) \<noteq> 0"
    and c: "cstr m (strtab + ucast (vda_name (ver_def_aux_at m (it_ptr (snd d))))) \<noteq> None"
    by (auto simp: verdefs_ok_def)
  with verdef_items_aux [OF assms(2)] have "it_count (snd d) < it_num (snd d)"
    by (simp add: word_unat_eq_iff)
  with c show ?thesis
    by (auto simp: set_verdef_def verdef_aux_next_def get_str_def get_cstr_def verdef_version_def)
qed

lemma set_verneed_slot:
  assumes "verneeds_ok m strtab verneeds" and "x \<in> set (verneed_auxs m verneeds)"
  shows "set_verneed m strtab x vs = slot_set vs (verneed_aux_index x) (verneed_version m strtab x)"
  using assms by (auto simp: verneeds_ok_def set_verneed_def get_str_def get_cstr_def verneed_version_def)

lemma versions_of_items:
  assumes "verdefs_ok m strtab verdefs" and "verneeds_ok m strtab verneeds"
    and "distinct (map (verdef_index \<circ> fst) (verdef_items m verdefs) @
      map verneed_aux_index (verneed_auxs m verneeds))"
  shows "\<exists>v. elf_version_new m (Some off) verneeds verdefs strtab = Inr (Some v) \<and> version_ids v = off \<and>
     (\<forall>d \<in> set (verdef_items m verdefs).
        slot_get (versions v) (verdef_index (fst d)) = Inr (verdef_version m strtab d)) \<and>
     (\<forall>x \<in> set (verneed_auxs m verneeds).
        slot_get (versions v) (verneed_aux_index x) = Inr (verneed_version m strtab x)) \<and>
     (\<forall>i u. slot_get (versions v) i = Inr u \<longrightarrow>
        i \<in> (verdef_index \<circ> fst) ` set (verdef_items m verdefs) \<union> verneed_aux_index ` set (verneed_auxs m verneeds))"
proof -
  let ?defs = "verdef_items m verdefs" and ?auxs = "verneed_auxs m verneeds"
  let ?lo = "foldl (\<lambda>mx d. if mx < verdef_index (fst d) then verdef_index (fst d) else mx) 0 ?defs"
  let ?mx = "foldl (\<lambda>mx x. if mx < verneed_aux_index x then verneed_aux_index x else mx) ?lo ?auxs"
  let ?vs = "replicate (?mx + 1) None :: version option list"
  have len: "length ?vs = ?mx + 1" by simp
  have d_in: "verdef_index (fst d) < length ?vs" if "d \<in> set ?defs" for d
    using foldl_max_mem [OF that, of "\<lambda>d. verdef_index (fst d)" 0]
      foldl_max_ge [of ?lo verneed_aux_index ?auxs] unfolding len by linarith
  have x_in: "verneed_aux_index x < length ?vs" if "x \<in> set ?auxs" for x
    using foldl_max_mem [OF that, of verneed_aux_index ?lo] unfolding len by linarith
  obtain vs1 where vs1: "res_fold (set_verdef m strtab) ?defs ?vs = Inr vs1" "length vs1 = length ?vs"
    "\<forall>d \<in> set ?defs. slot_get vs1 (verdef_index (fst d)) = Inr (verdef_version m strtab d)"
    "\<forall>i. i \<notin> (verdef_index \<circ> fst) ` set ?defs \<longrightarrow> slot_get vs1 i = slot_get ?vs i"
    using set_slots [of ?defs "set_verdef m strtab" "verdef_index \<circ> fst" "verdef_version m strtab" ?vs]
      set_verdef_slot [OF assms(1)] d_in assms(3) by auto
  obtain vs2 where vs2: "res_fold (set_verneed m strtab) ?auxs vs1 = Inr vs2"
    "\<forall>x \<in> set ?auxs. slot_get vs2 (verneed_aux_index x) = Inr (verneed_version m strtab x)"
    "\<forall>i. i \<notin> verneed_aux_index ` set ?auxs \<longrightarrow> slot_get vs2 i = slot_get vs1 i"
    using set_slots [of ?auxs "set_verneed m strtab" verneed_aux_index "verneed_version m strtab" vs1]
      set_verneed_slot [OF assms(2)] x_in assms(3) vs1(2) by auto
  have other: "verdef_index (fst d) \<notin> verneed_aux_index ` set ?auxs" if "d \<in> set ?defs" for d
    using assms(3) that by auto
  have rest: "\<forall>i u. slot_get vs2 i = Inr u \<longrightarrow>
      i \<in> (verdef_index \<circ> fst) ` set ?defs \<union> verneed_aux_index ` set ?auxs"
    by (rule filled_slots [OF vs1(4) vs2(3)])
  from vs1(3) vs2(3) other have defs:
    "\<forall>d \<in> set ?defs. slot_get vs2 (verdef_index (fst d)) = Inr (verdef_version m strtab d)" by simp
  have "elf_version_new m (Some off) verneeds verdefs strtab = Inr (Some \<lparr>version_ids = off, versions = vs2\<rparr>)"
    using vs1(1) vs2(1) by (simp add: elf_version_new_def Let_def)
  with defs vs2(2) rest show ?thesis
    by (intro exI [of _ "\<lparr>version_ids = off, versions = vs2\<rparr>"]) (simp only: elf_version.select_convs simp_thms)
qed

section \<open>The tables as a list of versions\<close>

text \<open>
  A version of the file is its number, its hash and its name. The relations below say how the
  versions lie in memory, in the offsets of the file format: a definition has its number at 4, the
  count of its auxiliary entries at 6, its hash at 8, the offset of its first auxiliary entry (which
  starts with the offset of the name) at 12 and that of the next definition at 16. A needed file has
  the count of its auxiliary entries at 2, their offset at 8 and that of the next file at 12; its
  auxiliary entries are consecutive, 16 bytes each, with the hash at 0, the number at 6 and the name
  at 8. A name ends with its first zero byte.
\<close>

type_synonym file_version = "u16 \<times> u32 \<times> bytes"

definition name_at :: "mem \<Rightarrow> usize \<Rightarrow> bytes \<Rightarrow> bool" where
  "name_at m a bs \<longleftrightarrow> (\<forall>i < length bs. m (a + of_nat i) = bs ! i) \<and> 0 \<notin> set bs \<and> m (a + of_nat (length bs)) = 0"

primrec verdef_chain :: "mem \<Rightarrow> usize \<Rightarrow> usize \<Rightarrow> file_version list \<Rightarrow> bool" where
  "verdef_chain m strtab a [] \<longleftrightarrow> True"
| "verdef_chain m strtab a (v # vs) \<longleftrightarrow>
     read_u16 m (a + 4) = fst v \<and> read_u16 m (a + 6) \<noteq> 0 \<and> read_u32 m (a + 8) = fst (snd v) \<and>
     name_at m (strtab + ucast (read_u32 m (a + ucast (read_u32 m (a + 12))))) (snd (snd v)) \<and>
     verdef_chain m strtab (a + ucast (read_u32 m (a + 16))) vs"

primrec verneed_array :: "mem \<Rightarrow> usize \<Rightarrow> usize \<Rightarrow> file_version list \<Rightarrow> bool" where
  "verneed_array m strtab a [] \<longleftrightarrow> True"
| "verneed_array m strtab a (v # vs) \<longleftrightarrow>
     read_u32 m a = fst (snd v) \<and> read_u16 m (a + 6) = fst v \<and>
     name_at m (strtab + ucast (read_u32 m (a + 8))) (snd (snd v)) \<and> verneed_array m strtab (a + 16) vs"

primrec verneed_chain :: "mem \<Rightarrow> usize \<Rightarrow> usize \<Rightarrow> file_version list list \<Rightarrow> bool" where
  "verneed_chain m strtab a [] \<longleftrightarrow> True"
| "verneed_chain m strtab a (f # fs) \<longleftrightarrow>
     unat (read_u16 m (a + 2)) = length f \<and> verneed_array m strtab (a + ucast (read_u32 m (a + 8))) f \<and>
     verneed_chain m strtab (a + ucast (read_u32 m (a + 12))) fs"

text \<open>A table of the dynamic section, its address and its number of entries, holds a list.\<close>

definition table_holds :: "(usize \<Rightarrow> 'a list \<Rightarrow> bool) \<Rightarrow> (usize \<times> usize) option \<Rightarrow> 'a list \<Rightarrow> bool" where
  "table_holds R tab xs \<longleftrightarrow>
     (case tab of None \<Rightarrow> xs = [] | Some (a, n) \<Rightarrow> unat n = length xs \<and> R a xs)"

text \<open>The slot of a version is its number without the hidden bit.\<close>

definition version_slot :: "file_version \<Rightarrow> nat" where
  "version_slot v = unat (fst v AND 0x7FFF)"

lemma name_at_cstr: "name_at m a bs \<Longrightarrow> cstr m a = Some bs"
  by (simp add: name_at_def cstr_bytes)

lemma verdef_iter_items:
  assumes "verdef_chain m strtab (it_ptr it) vs" and "it_num it - it_count it = length vs"
  shows "map (\<lambda>d. (vd_ndx (fst d), vd_hash (fst d),
        cstr m (strtab + ucast (vda_name (ver_def_aux_at m (it_ptr (snd d))))))) (iter_items (verdef_next m) (length vs) it) =
       map (\<lambda>v. (fst v, fst (snd v), Some (snd (snd v)))) vs"
    and "list_all (\<lambda>d. vd_cnt (fst d) \<noteq> 0) (iter_items (verdef_next m) (length vs) it)"
  using assms
  by (induction vs arbitrary: it)
    (simp_all add: verdef_next_def Let_def ver_def_at_def ver_def_aux_at_def name_at_cstr)

lemma verneed_aux_iter_items:
  assumes "verneed_array m strtab (it_ptr it) vs" and "it_num it - it_count it = length vs"
  shows "map (\<lambda>x. (vna_other x, vna_hash x, cstr m (strtab + ucast (vna_name x))))
       (iter_items (verneed_aux_next m) (length vs) it) = map (\<lambda>v. (fst v, fst (snd v), Some (snd (snd v)))) vs"
  using assms
  by (induction vs arbitrary: it) (auto simp: verneed_aux_next_def ver_need_aux_at_def name_at_cstr)

lemma verneed_iter_items:
  assumes "verneed_chain m strtab (it_ptr it) fs" and "it_num it - it_count it = length fs"
  shows "map (\<lambda>x. (vna_other x, vna_hash x, cstr m (strtab + ucast (vna_name x))))
       (concat (map (\<lambda>(n, aux). items (verneed_aux_next m) aux) (iter_items (verneed_next m) (length fs) it))) =
     map (\<lambda>v. (fst v, fst (snd v), Some (snd (snd v)))) (concat fs)"
  using assms
proof (induction fs arbitrary: it)
  case (Cons f fs)
  let ?it = "it\<lparr>it_ptr := it_ptr it + ucast (vn_next (ver_need_at m (it_ptr it))), it_count := it_count it + 1\<rparr>"
  let ?aux = "\<lparr>it_ptr = it_ptr it + ucast (vn_aux (ver_need_at m (it_ptr it))), it_count = 0, it_num = length f\<rparr>"
  from Cons.prems have "verneed_chain m strtab (it_ptr ?it) fs" "it_num ?it - it_count ?it = length fs"
    and arr: "verneed_array m strtab (it_ptr ?aux) f"
    and nx: "verneed_next m it = Some ((ver_need_at m (it_ptr it), ?aux), ?it)"
    by (auto simp: ver_need_at_def verneed_next_def Let_def)
  with Cons.IH [of ?it] verneed_aux_iter_items [OF arr] show ?case by (simp add: items_def)
qed simp

lemma verdef_items_layout:
  assumes "table_holds (verdef_chain m strtab) verdefs ds"
  shows "map (\<lambda>d. (verdef_index (fst d), verdef_version m strtab d)) (verdef_items m verdefs) =
       map (\<lambda>v. (version_slot v, \<lparr>v_name = snd (snd v), v_hash = fst (snd v)\<rparr>)) ds"
    and "verdefs_ok m strtab verdefs"
proof -
  have all: "map (\<lambda>d. (vd_ndx (fst d), vd_hash (fst d),
        cstr m (strtab + ucast (vda_name (ver_def_aux_at m (it_ptr (snd d))))))) (verdef_items m verdefs) =
      map (\<lambda>v. (fst v, fst (snd v), Some (snd (snd v)))) ds"
    and cnt: "list_all (\<lambda>d. vd_cnt (fst d) \<noteq> 0) (verdef_items m verdefs)"
    using assms verdef_iter_items [of m strtab _ ds]
    by (auto simp: table_holds_def verdef_items_def items_def table_iter_def split: option.splits)
  from map_eq_imp_length_eq [OF all] have len: "length (verdef_items m verdefs) = length ds" .
  have nth: "vd_ndx (fst (verdef_items m verdefs ! i)) = fst (ds ! i)"
    "vd_hash (fst (verdef_items m verdefs ! i)) = fst (snd (ds ! i))"
    "cstr m (strtab + ucast (vda_name (ver_def_aux_at m (it_ptr (snd (verdef_items m verdefs ! i)))))) = Some (snd (snd (ds ! i)))"
    if "i < length ds" for i
    using arg_cong [OF all, of "\<lambda>xs. xs ! i"] that len by auto
  show "map (\<lambda>d. (verdef_index (fst d), verdef_version m strtab d)) (verdef_items m verdefs) =
       map (\<lambda>v. (version_slot v, \<lparr>v_name = snd (snd v), v_hash = fst (snd v)\<rparr>)) ds"
    by (rule nth_equalityI)
      (auto simp: len nth verdef_index_def verdef_version_def version_slot_def VER_NDX_VERSION_def)
  show "verdefs_ok m strtab verdefs"
    unfolding verdefs_ok_def
  proof
    fix d
    assume "d \<in> set (verdef_items m verdefs)"
    then obtain i where "i < length ds" "d = verdef_items m verdefs ! i" by (metis in_set_conv_nth len)
    with cnt nth(3) [of i] show "vd_cnt (fst d) \<noteq> 0 \<and>
        cstr m (strtab + ucast (vda_name (ver_def_aux_at m (it_ptr (snd d))))) \<noteq> None"
      by (simp add: list_all_length len)
  qed
qed

lemma verneed_auxs_layout:
  assumes "table_holds (verneed_chain m strtab) verneeds fs"
  shows "map (\<lambda>x. (verneed_aux_index x, verneed_version m strtab x)) (verneed_auxs m verneeds) =
       map (\<lambda>v. (version_slot v, \<lparr>v_name = snd (snd v), v_hash = fst (snd v)\<rparr>)) (concat fs)"
    and "verneeds_ok m strtab verneeds"
proof -
  have all: "map (\<lambda>x. (vna_other x, vna_hash x, cstr m (strtab + ucast (vna_name x)))) (verneed_auxs m verneeds) =
      map (\<lambda>v. (fst v, fst (snd v), Some (snd (snd v)))) (concat fs)"
    using assms verneed_iter_items [of m strtab _ fs]
    by (auto simp: table_holds_def verneed_auxs_def items_def table_iter_def split: option.splits)
  from map_eq_imp_length_eq [OF all] have len: "length (verneed_auxs m verneeds) = length (concat fs)" .
  have nth: "vna_other (verneed_auxs m verneeds ! i) = fst (concat fs ! i)"
    "vna_hash (verneed_auxs m verneeds ! i) = fst (snd (concat fs ! i))"
    "cstr m (strtab + ucast (vna_name (verneed_auxs m verneeds ! i))) = Some (snd (snd (concat fs ! i)))"
    if "i < length (concat fs)" for i
    using arg_cong [OF all, of "\<lambda>xs. xs ! i"] that len by auto
  show "map (\<lambda>x. (verneed_aux_index x, verneed_version m strtab x)) (verneed_auxs m verneeds) =
       map (\<lambda>v. (version_slot v, \<lparr>v_name = snd (snd v), v_hash = fst (snd v)\<rparr>)) (concat fs)"
    by (rule nth_equalityI)
      (auto simp: len nth verneed_aux_index_def verneed_version_def version_slot_def VER_NDX_VERSION_def)
  show "verneeds_ok m strtab verneeds"
    using nth(3) by (auto simp: verneeds_ok_def in_set_conv_nth len)
qed

section \<open>Concrete inputs\<close>

text \<open>
  Two chained version definitions with the numbers 1 and 2 at 0x100, a needed file with two versions,
  3 and 4, at 0x138, and their names in the strings at 0x168.
\<close>

definition wit_ver_mem :: mem where
  "wit_ver_mem = mem_of 0x100
     [1,0, 0,0, 1,0, 1,0, 0x38,0,0,0, 20,0,0,0, 28,0,0,0,  1,0,0,0, 0,0,0,0,
      1,0, 0,0, 2,0, 1,0, 0x39,0,0,0, 20,0,0,0, 0,0,0,0,  3,0,0,0, 0,0,0,0,
      1,0, 2,0, 0,0,0,0, 16,0,0,0, 0,0,0,0,
      0x3A,0,0,0, 0,0, 3,0, 5,0,0,0, 16,0,0,0,  0x3B,0,0,0, 0,0, 4,0, 7,0,0,0, 0,0,0,0,
      0, 0x30, 0, 0x31, 0, 0x32, 0, 0x33, 0]"

lemmas wit_ver_simps = wit_ver_mem_def read_le_def read_bytes_def mem_of_def write_bytes_def upt_rec name_at_def

section \<open>Properties\<close>

text \<open>
  C28. The version table. For a file whose version tables hold the definitions \<open>ds\<close> and the needed
  files \<open>fs\<close>, laid out and chained as the format says, with distinct numbers, building the table
  returns, the slot of each version that the file defines or needs holds that version's name and
  hash, and no other slot holds anything.
\<close>

theorem elf_version_new_correct:
  assumes "table_holds (verdef_chain m strtab) verdefs ds"
    and "table_holds (verneed_chain m strtab) verneeds fs"
    and "distinct (map version_slot (ds @ concat fs))"
  shows "\<exists>v. elf_version_new m (Some off) verneeds verdefs strtab = Inr (Some v) \<and> version_ids v = off \<and>
     (\<forall>(ndx, hash, name) \<in> set (ds @ concat fs).
        slot_get (versions v) (unat (ndx AND 0x7FFF)) = Inr \<lparr>v_name = name, v_hash = hash\<rparr>) \<and>
     (\<forall>i u. slot_get (versions v) i = Inr u \<longrightarrow> i \<in> version_slot ` set (ds @ concat fs))"
proof -
  note D = verdef_items_layout [OF assms(1)] and N = verneed_auxs_layout [OF assms(2)]
  have ix: "map (verdef_index \<circ> fst) (verdef_items m verdefs) = map version_slot ds"
    "map verneed_aux_index (verneed_auxs m verneeds) = map version_slot (concat fs)"
    using arg_cong [OF D(1), of "map fst"] arg_cong [OF N(1), of "map fst"] by (simp_all add: comp_def)
  from arg_cong [OF ix(1), of set] arg_cong [OF ix(2), of set]
  have im: "(verdef_index \<circ> fst) ` set (verdef_items m verdefs) = version_slot ` set ds"
    "verneed_aux_index ` set (verneed_auxs m verneeds) = version_slot ` set (concat fs)"
    by simp_all
  from assms(3) ix have "distinct (map (verdef_index \<circ> fst) (verdef_items m verdefs) @
      map verneed_aux_index (verneed_auxs m verneeds))" by simp
  from versions_of_items [OF D(2) N(2) this, of off, unfolded im] obtain v where
    v: "elf_version_new m (Some off) verneeds verdefs strtab = Inr (Some v)" "version_ids v = off"
    "\<forall>p \<in> set (map (\<lambda>d. (verdef_index (fst d), verdef_version m strtab d)) (verdef_items m verdefs)).
       slot_get (versions v) (fst p) = Inr (snd p)"
    "\<forall>p \<in> set (map (\<lambda>x. (verneed_aux_index x, verneed_version m strtab x)) (verneed_auxs m verneeds)).
       slot_get (versions v) (fst p) = Inr (snd p)"
    "\<forall>i u. slot_get (versions v) i = Inr u \<longrightarrow> i \<in> version_slot ` set (ds @ concat fs)"
    unfolding set_append image_Un set_map by auto
  from v(3,4) have "\<forall>w \<in> set (ds @ concat fs). slot_get (versions v) (unat (fst w AND 0x7FFF)) =
      Inr \<lparr>v_name = snd (snd w), v_hash = fst (snd w)\<rparr>"
    unfolding D(1) N(1) by (auto simp: version_slot_def)
  with v(1,2,5) show ?thesis unfolding split_beta by blast
qed

theorem elf_version_new_correct_witness:
  "\<exists>v. elf_version_new wit_ver_mem (Some 0x300) (Some (0x138, 1)) (Some (0x100, 2)) 0x168 = Inr (Some v) \<and>
     slot_get (versions v) 2 = Inr \<lparr>v_name = [0x31], v_hash = 0x39\<rparr> \<and>
     slot_get (versions v) 4 = Inr \<lparr>v_name = [0x33], v_hash = 0x3B\<rparr>"
proof -
  have d: "table_holds (verdef_chain wit_ver_mem 0x168) (Some (0x100, 2)) [(1, 0x38, [0x30]), (2, 0x39, [0x31])]"
    by (simp add: table_holds_def wit_ver_simps)
  have n: "table_holds (verneed_chain wit_ver_mem 0x168) (Some (0x138, 1)) [[(3, 0x3A, [0x32]), (4, 0x3B, [0x33])]]"
    by (simp add: table_holds_def wit_ver_simps)
  from elf_version_new_correct [OF d n, of "0x300"] show ?thesis
    by (auto simp: version_slot_def)
qed

text \<open>
  Version hash. \<^verbatim>\<open>SymbolVersion::dl_elf_hash\<close>, which unrolls the first five bytes
  and masks once at the end, computes the System V hash of \<^verbatim>\<open>ElfHash::hash\<close>, for every
  name that is not empty and does not start with a zero byte.
\<close>

lemma dl_elf_hash_is_sysv_hash:
  assumes "bs \<noteq> []" and "bs ! 0 \<noteq> 0"
  shows "\<exists>h. dl_elf_hash bs = Inr h \<and> ucast h = sysv_hash bs"
  using dl_elf_hash_sysv [OF assms] by (simp add: sysv_hash_def)

text \<open>
  Matching a version. A required version matches a definition with the same name and hash, or,
  when neither is hidden, any definition; a lookup that requires no version matches every symbol,
  and one that requires a version panics on an object without version information.
\<close>

lemma check_match_behaviour:
  "check_match m T i None = Inr True \<and>
   (st_version T = None \<longrightarrow>
      check_match m T i (Some req) = Inl (Panic ''called `Option::unwrap()` on a `None` value'')) \<and>
   (\<forall>V d. st_version T = Some V \<and>
      slot_get (versions V) (unat (version_index (version_ids_get m (version_ids V) i))) = Inr d \<longrightarrow>
      check_match m T i (Some req) =
        Inr (v_hash d = sv_hash req \<and> v_name d = sv_name req \<or>
             \<not> sv_hidden req \<and> \<not> is_hidden (version_ids_get m (version_ids V) i)))"
  by (auto simp: check_match_def Let_def)

end
