(* ===== verification/Dynamic.thy ===== *)
theory Dynamic
  imports Symbol_Table
begin

text \<open>
  \<^verbatim>\<open>src/src/elf/dynamic.rs\<close>: parsing of the dynamic section. The local variables of
  \<^verbatim>\<open>ElfDynamic::new\<close> are the record \<open>dyn_state\<close>, the \<^verbatim>\<open>match\<close> is
  \<open>dyn_entry\<close>, and the loop over the entries, which has no bound but the null tag, is a partial
  function. The lemmas relate the parsed record to the last entry of each tag.
\<close>

section \<open>Data\<close>

datatype elf_dynamic_hash_tab = DynGnu usize | DynElf usize

fun hash_tab_into :: "elf_dynamic_hash_tab \<Rightarrow> usize" where
  "hash_tab_into (DynGnu off) = off"
| "hash_tab_into (DynElf off) = off"

fun hash_tab_add :: "elf_dynamic_hash_tab \<Rightarrow> usize \<Rightarrow> elf_dynamic_hash_tab" where
  "hash_tab_add (DynGnu off) rhs = DynGnu (off + rhs)"
| "hash_tab_add (DynElf off) rhs = DynElf (off + rhs)"

fun hash_tab_sub :: "elf_dynamic_hash_tab \<Rightarrow> usize \<Rightarrow> elf_dynamic_hash_tab" where
  "hash_tab_sub (DynGnu off) rhs = DynGnu (off - rhs)"
| "hash_tab_sub (DynElf off) rhs = DynElf (off - rhs)"

record elf_dynamic =
  dyn_ptr :: usize
  dy_hashtab :: elf_dynamic_hash_tab
  dy_symtab :: usize
  dy_strtab :: usize
  bind_now :: bool
  got_plt :: "usize option"
  init_fn :: "usize option"
  init_array_fn :: "slice_ref option"
  fini_fn :: "usize option"
  fini_array_fn :: "slice_ref option"
  pltrel :: "slice_ref option"
  dynrel :: "slice_ref option"
  relr :: "slice_ref option"
  rel_count :: "usize option"
  needed_libs :: "usize list"
  version_idx :: "usize option"
  verneed :: "(usize \<times> usize) option"
  verdef :: "(usize \<times> usize) option"
  rpath_off :: "usize option"
  runpath_off :: "usize option"

record dyn_state =
  symtab_off :: usize
  strtab_off :: usize
  elf_hash_off :: "usize option"
  gnu_hash_off :: "usize option"
  got_off :: "usize option"
  pltrel_size :: "usize option"
  pltrel_off :: "usize option"
  rel_off :: "usize option"
  rel_size :: "usize option"
  s_rel_count :: "usize option"
  relr_off :: "usize option"
  relr_size :: "usize option"
  init_off :: "usize option"
  fini_off :: "usize option"
  init_array_off :: "usize option"
  init_array_size :: "usize option"
  fini_array_off :: "usize option"
  fini_array_size :: "usize option"
  version_ids_off :: "usize option"
  verneed_off :: "usize option"
  verneed_num :: "usize option"
  verdef_off :: "usize option"
  verdef_num :: "usize option"
  s_rpath_off :: "usize option"
  s_runpath_off :: "usize option"
  s_flags :: usize
  s_flags_1 :: usize
  is_rela :: "bool option"
  s_needed_libs :: "usize list"

definition dyn_init :: dyn_state where
  "dyn_init =
     \<lparr>symtab_off = 0, strtab_off = 0, elf_hash_off = None, gnu_hash_off = None, got_off = None,
      pltrel_size = None, pltrel_off = None, rel_off = None, rel_size = None, s_rel_count = None,
      relr_off = None, relr_size = None, init_off = None, fini_off = None, init_array_off = None,
      init_array_size = None, fini_array_off = None, fini_array_size = None, version_ids_off = None,
      verneed_off = None, verneed_num = None, verdef_off = None, verdef_num = None,
      s_rpath_off = None, s_runpath_off = None, s_flags = 0, s_flags_1 = 0, is_rela = None,
      s_needed_libs = []\<rparr>"

text \<open>\<^verbatim>\<open>NonZeroUsize::new\<close>.\<close>

definition non_zero :: "usize \<Rightarrow> usize option" where
  "non_zero v = (if v = 0 then None else Some v)"

section \<open>Parsing\<close>

definition dyn_entry :: "dyn_state \<Rightarrow> dyn \<Rightarrow> dyn_state" where
  "dyn_entry s d =
     (let t = d_tag d; v = d_un d in
      if t = DT_FLAGS then s\<lparr>s_flags := v\<rparr>
      else if t = DT_FLAGS_1 then s\<lparr>s_flags_1 := v\<rparr>
      else if t = DT_PLTGOT then s\<lparr>got_off := non_zero v\<rparr>
      else if t = DT_NEEDED then (if v = 0 then s else s\<lparr>s_needed_libs := s_needed_libs s @ [v]\<rparr>)
      else if t = DT_HASH then s\<lparr>elf_hash_off := Some v\<rparr>
      else if t = DT_GNU_HASH then s\<lparr>gnu_hash_off := Some v\<rparr>
      else if t = DT_SYMTAB then s\<lparr>symtab_off := v\<rparr>
      else if t = DT_STRTAB then s\<lparr>strtab_off := v\<rparr>
      else if t = DT_PLTRELSZ then s\<lparr>pltrel_size := non_zero v\<rparr>
      else if t = DT_PLTREL then s\<lparr>is_rela := Some (v = DT_RELA)\<rparr>
      else if t = DT_JMPREL then s\<lparr>pltrel_off := non_zero v\<rparr>
      else if t = DT_RELR then s\<lparr>relr_off := non_zero v\<rparr>
      else if t = DT_RELA \<or> t = DT_REL then s\<lparr>is_rela := Some (t = DT_RELA), rel_off := non_zero v\<rparr>
      else if t = DT_RELASZ \<or> t = DT_RELSZ then s\<lparr>rel_size := non_zero v\<rparr>
      else if t = DT_RELRSZ then s\<lparr>relr_size := non_zero v\<rparr>
      else if t = DT_RELACOUNT \<or> t = DT_RELCOUNT then s\<lparr>s_rel_count := non_zero v\<rparr>
      else if t = DT_INIT then s\<lparr>init_off := non_zero v\<rparr>
      else if t = DT_FINI then s\<lparr>fini_off := non_zero v\<rparr>
      else if t = DT_INIT_ARRAY then s\<lparr>init_array_off := non_zero v\<rparr>
      else if t = DT_INIT_ARRAYSZ then s\<lparr>init_array_size := non_zero v\<rparr>
      else if t = DT_FINI_ARRAY then s\<lparr>fini_array_off := non_zero v\<rparr>
      else if t = DT_FINI_ARRAYSZ then s\<lparr>fini_array_size := non_zero v\<rparr>
      else if t = DT_VERSYM then s\<lparr>version_ids_off := Some v\<rparr>
      else if t = DT_VERNEED then s\<lparr>verneed_off := Some v\<rparr>
      else if t = DT_VERNEEDNUM then s\<lparr>verneed_num := Some v\<rparr>
      else if t = DT_VERDEF then s\<lparr>verdef_off := Some v\<rparr>
      else if t = DT_VERDEFNUM then s\<lparr>verdef_num := Some v\<rparr>
      else if t = DT_RPATH then s\<lparr>s_rpath_off := Some v\<rparr>
      else if t = DT_RUNPATH then s\<lparr>s_runpath_off := Some v\<rparr>
      else s)"

partial_function (option) dyn_loop :: "mem \<Rightarrow> usize \<Rightarrow> dyn_state \<Rightarrow> dyn_state option" where
  "dyn_loop m ptr s =
     (let d = dyn_at m ptr
      in if d_tag d = DT_NULL then Some s else dyn_loop m (ptr + of_nat size_dyn) (dyn_entry s d))"

declare dyn_loop.simps [code]

text \<open>\<^verbatim>\<open>NonZeroUsize::checked_add(base).unwrap()\<close>.\<close>

definition checked_add :: "usize \<Rightarrow> usize \<Rightarrow> usize result" where
  "checked_add off base =
     (if unat off + unat base < 2 ^ 64 then Inr (off + base)
      else Inl (Panic ''called `Option::unwrap()` on a `None` value''))"

definition or_zero :: "usize option \<Rightarrow> usize" where
  "or_zero x = (case x of None \<Rightarrow> 0 | Some v \<Rightarrow> v)"

text \<open>\<^verbatim>\<open>off.map(|off| (off.checked_add(base).unwrap(), num.unwrap()))\<close>.\<close>

definition version_range :: "usize \<Rightarrow> usize option \<Rightarrow> usize option \<Rightarrow> (usize \<times> usize) option result" where
  "version_range base off num =
     (case off of
        None \<Rightarrow> Inr None
      | Some v \<Rightarrow> res_bind (checked_add v base) (\<lambda>a.
          res_bind (unwrap ''called `Option::unwrap()` on a `None` value'' num) (\<lambda>n. Inr (Some (a, n)))))"

definition dyn_finish :: "usize \<Rightarrow> elf_segments \<Rightarrow> dyn_state \<Rightarrow> elf_dynamic result" where
  "dyn_finish dynamic_ptr segs s =
     (let base = base_of segs in
      res_bind (case is_rela s of None \<Rightarrow> Inr () | Some b \<Rightarrow> rust_assert ''relocation format'' b) (\<lambda>_.
      res_bind (case gnu_hash_off s of
                  Some off \<Rightarrow> Inr (DynGnu off)
                | None \<Rightarrow> (case elf_hash_off s of
                    Some off \<Rightarrow> Inr (DynElf off)
                  | None \<Rightarrow> Inl (Err (parse_dynamic_error
                      ''dynamic section does not have DT_GNU_HASH nor DT_HASH'')))) (\<lambda>hash_off.
      res_bind (version_range base (verneed_off s) (verneed_num s)) (\<lambda>need.
      res_bind (version_range base (verdef_off s) (verdef_num s)) (\<lambda>defs.
      res_bind (case version_ids_off s of None \<Rightarrow> Inr None
                | Some off \<Rightarrow> res_bind (checked_add off base) (\<lambda>a. Inr (Some a))) (\<lambda>idx.
      Inr \<lparr>dyn_ptr = dynamic_ptr, dy_hashtab = hash_tab_add hash_off base,
           dy_symtab = symtab_off s + base, dy_strtab = strtab_off s + base,
           bind_now = (s_flags s AND DF_BIND_NOW \<noteq> 0 \<or> s_flags_1 s AND DF_1_NOW \<noteq> 0),
           got_plt = (case got_off s of None \<Rightarrow> None | Some off \<Rightarrow> non_zero (base + off)),
           init_fn = map_option (get_ptr segs) (init_off s),
           init_array_fn = map_option (\<lambda>off. get_slice segs 8 off (or_zero (init_array_size s))) (init_array_off s),
           fini_fn = map_option (get_ptr segs) (fini_off s),
           fini_array_fn = map_option (\<lambda>off. get_slice segs 8 off (or_zero (fini_array_size s))) (fini_array_off s),
           pltrel = map_option (\<lambda>off. get_slice segs size_rela off (or_zero (pltrel_size s))) (pltrel_off s),
           dynrel = map_option (\<lambda>off. get_slice segs size_rela off (or_zero (rel_size s))) (rel_off s),
           relr = map_option (\<lambda>off. get_slice segs 8 off (or_zero (relr_size s))) (relr_off s),
           rel_count = s_rel_count s, needed_libs = s_needed_libs s, version_idx = idx,
           verneed = need, verdef = defs, rpath_off = s_rpath_off s, runpath_off = s_runpath_off s\<rparr>))))))"

definition elf_dynamic_new :: "mem \<Rightarrow> usize \<Rightarrow> elf_segments \<Rightarrow> elf_dynamic result" where
  "elf_dynamic_new m dynamic_ptr segs =
     res_bind (returned (dyn_loop m dynamic_ptr dyn_init)) (dyn_finish dynamic_ptr segs)"

section \<open>The section as a list of entries\<close>

definition dyn_list :: "mem \<Rightarrow> usize \<Rightarrow> nat \<Rightarrow> dyn list" where
  "dyn_list m ptr n = map (\<lambda>i. dyn_at m (ptr + of_nat (i * size_dyn))) [0..<n]"

text \<open>The section at \<open>ptr\<close> has the entries \<open>es\<close> before its null entry.\<close>

definition dyn_section :: "mem \<Rightarrow> usize \<Rightarrow> dyn list \<Rightarrow> bool" where
  "dyn_section m ptr es \<longleftrightarrow>
     dyn_list m ptr (length es) = es \<and> (\<forall>d \<in> set es. d_tag d \<noteq> DT_NULL) \<and>
     d_tag (dyn_at m (ptr + of_nat (length es * size_dyn))) = DT_NULL"

text \<open>The value of the last entry that has one of the given tags.\<close>

primrec last_val :: "u64 set \<Rightarrow> dyn list \<Rightarrow> usize option" where
  "last_val ts [] = None"
| "last_val ts (d # ds) =
     (case last_val ts ds of
        Some v \<Rightarrow> Some v
      | None \<Rightarrow> if d_tag d \<in> ts then Some (d_un d) else None)"

section \<open>Lemmas\<close>

lemma last_val_snoc: "last_val ts (ds @ [d]) = (if d_tag d \<in> ts then Some (d_un d) else last_val ts ds)"
  by (induction ds) (auto split: option.splits)

lemma dyn_list_Suc: "dyn_list m ptr (Suc n) = dyn_at m ptr # dyn_list m (ptr + of_nat size_dyn) n"
  by (simp add: dyn_list_def map_upt_Suc algebra_simps del: upt_Suc)

lemma dyn_loop_section:
  assumes "dyn_section m ptr es"
  shows "dyn_loop m ptr s = Some (foldl dyn_entry s es)"
  using assms
proof (induction es arbitrary: ptr s)
  case Nil
  then show ?case by (subst dyn_loop.simps) (simp add: dyn_section_def)
next
  case (Cons d es)
  from Cons.prems have d: "dyn_at m ptr = d" "d_tag d \<noteq> DT_NULL"
    and rest: "dyn_section m (ptr + of_nat size_dyn) es"
    by (auto simp: dyn_section_def dyn_list_Suc add.assoc)
  from Cons.IH [OF rest] d show ?case by (subst dyn_loop.simps) (simp add: Let_def)
qed

lemma elf_dynamic_new_section:
  "dyn_section m ptr es \<Longrightarrow> elf_dynamic_new m ptr segs = dyn_finish ptr segs (foldl dyn_entry dyn_init es)"
  by (simp add: elf_dynamic_new_def dyn_loop_section)

text \<open>Each variable of the loop holds what the last entry of its tags says.\<close>

definition from_last :: "(usize \<Rightarrow> 'a) \<Rightarrow> 'a \<Rightarrow> usize option \<Rightarrow> 'a" where
  "from_last f z x = (case x of None \<Rightarrow> z | Some v \<Rightarrow> f v)"

lemma from_last_simps [simp]: "from_last f z None = z" "from_last f z (Some v) = f v"
  by (simp_all add: from_last_def)

lemmas dyn_entry_simps = dyn_entry_def Let_def last_val_snoc abi DT_RELR_def DT_RELRSZ_def

lemma parsed_tables:
  "symtab_off (foldl dyn_entry dyn_init es) = from_last id 0 (last_val {DT_SYMTAB} es)"
  "strtab_off (foldl dyn_entry dyn_init es) = from_last id 0 (last_val {DT_STRTAB} es)"
  "elf_hash_off (foldl dyn_entry dyn_init es) = last_val {DT_HASH} es"
  "gnu_hash_off (foldl dyn_entry dyn_init es) = last_val {DT_GNU_HASH} es"
  "got_off (foldl dyn_entry dyn_init es) = from_last non_zero None (last_val {DT_PLTGOT} es)"
  by (induction es rule: rev_induct) (simp_all add: dyn_init_def, simp_all add: dyn_entry_simps)

lemma parsed_relocations:
  "pltrel_off (foldl dyn_entry dyn_init es) = from_last non_zero None (last_val {DT_JMPREL} es)"
  "pltrel_size (foldl dyn_entry dyn_init es) = from_last non_zero None (last_val {DT_PLTRELSZ} es)"
  "rel_off (foldl dyn_entry dyn_init es) = from_last non_zero None (last_val {DT_RELA, DT_REL} es)"
  "rel_size (foldl dyn_entry dyn_init es) = from_last non_zero None (last_val {DT_RELASZ, DT_RELSZ} es)"
  "relr_off (foldl dyn_entry dyn_init es) = from_last non_zero None (last_val {DT_RELR} es)"
  "relr_size (foldl dyn_entry dyn_init es) = from_last non_zero None (last_val {DT_RELRSZ} es)"
  "s_rel_count (foldl dyn_entry dyn_init es) =
     from_last non_zero None (last_val {DT_RELACOUNT, DT_RELCOUNT} es)"
  by (induction es rule: rev_induct) (simp_all add: dyn_init_def, simp_all add: dyn_entry_simps)

lemma parsed_versions:
  "version_ids_off (foldl dyn_entry dyn_init es) = last_val {DT_VERSYM} es"
  "verneed_off (foldl dyn_entry dyn_init es) = last_val {DT_VERNEED} es"
  "verneed_num (foldl dyn_entry dyn_init es) = last_val {DT_VERNEEDNUM} es"
  "verdef_off (foldl dyn_entry dyn_init es) = last_val {DT_VERDEF} es"
  "verdef_num (foldl dyn_entry dyn_init es) = last_val {DT_VERDEFNUM} es"
  by (induction es rule: rev_induct) (simp_all add: dyn_init_def, simp_all add: dyn_entry_simps)

lemma parsed_flags:
  "s_flags (foldl dyn_entry dyn_init es) = from_last id 0 (last_val {DT_FLAGS} es)"
  "s_flags_1 (foldl dyn_entry dyn_init es) = from_last id 0 (last_val {DT_FLAGS_1} es)"
  "s_needed_libs (foldl dyn_entry dyn_init es) =
     filter (\<lambda>v. v \<noteq> 0) (map d_un (filter (\<lambda>d. d_tag d = DT_NEEDED) es))"
  by (induction es rule: rev_induct) (simp_all add: dyn_init_def, simp_all add: dyn_entry_simps)

lemma parsed_is_rela:
  assumes "\<forall>d \<in> set es. d_tag d \<noteq> DT_REL \<and> (d_tag d = DT_PLTREL \<longrightarrow> d_un d = DT_RELA)"
  shows "is_rela (foldl dyn_entry dyn_init es) \<noteq> Some False"
  using assms
proof (induction es rule: rev_induct)
  case Nil
  then show ?case by (simp add: dyn_init_def)
next
  case (snoc d es)
  then have IH: "is_rela (foldl dyn_entry dyn_init es) \<noteq> Some False" by simp
  have "is_rela (dyn_entry s d) =
      (if d_tag d = DT_PLTREL then Some (d_un d = DT_RELA)
       else if d_tag d = DT_RELA \<or> d_tag d = DT_REL then Some (d_tag d = DT_RELA) else is_rela s)" for s
    by (simp add: dyn_entry_simps)
  with IH snoc.prems show ?case by simp
qed

lemma parsed_functions:
  "init_off (foldl dyn_entry dyn_init es) = from_last non_zero None (last_val {DT_INIT} es)"
  "fini_off (foldl dyn_entry dyn_init es) = from_last non_zero None (last_val {DT_FINI} es)"
  "init_array_off (foldl dyn_entry dyn_init es) = from_last non_zero None (last_val {DT_INIT_ARRAY} es)"
  "init_array_size (foldl dyn_entry dyn_init es) = from_last non_zero None (last_val {DT_INIT_ARRAYSZ} es)"
  "fini_array_off (foldl dyn_entry dyn_init es) = from_last non_zero None (last_val {DT_FINI_ARRAY} es)"
  "fini_array_size (foldl dyn_entry dyn_init es) = from_last non_zero None (last_val {DT_FINI_ARRAYSZ} es)"
  by (induction es rule: rev_induct) (simp_all add: dyn_init_def, simp_all add: dyn_entry_simps)

lemma parsed_paths:
  "s_rpath_off (foldl dyn_entry dyn_init es) = last_val {DT_RPATH} es"
  "s_runpath_off (foldl dyn_entry dyn_init es) = last_val {DT_RUNPATH} es"
  by (induction es rule: rev_induct) (simp_all add: dyn_init_def, simp_all add: dyn_entry_simps)

lemmas parsed = parsed_tables parsed_relocations parsed_versions parsed_flags parsed_functions parsed_paths

section \<open>What a section says\<close>

text \<open>
  The addresses and tables that the last entries of a section name, for a module loaded at \<open>base\<close>.
  A missing or null entry names nothing, and a table has as many entries as its size entry has
  whole ones.
\<close>

definition named_addr :: "usize \<Rightarrow> u64 \<Rightarrow> dyn list \<Rightarrow> usize option" where
  "named_addr base t es =
     (case last_val {t} es of None \<Rightarrow> None | Some v \<Rightarrow> if v = 0 then None else Some (base + v))"

definition named_bytes :: "u64 set \<Rightarrow> dyn list \<Rightarrow> nat" where
  "named_bytes ts es = (case last_val ts es of None \<Rightarrow> 0 | Some n \<Rightarrow> unat n)"

definition named_table :: "usize \<Rightarrow> nat \<Rightarrow> u64 set \<Rightarrow> u64 set \<Rightarrow> dyn list \<Rightarrow> slice_ref option" where
  "named_table base ent ts szs es =
     (case last_val ts es of
        None \<Rightarrow> None
      | Some v \<Rightarrow> if v = 0 then None
          else Some (base + v, map (\<lambda>i. base + v + of_nat (i * ent)) [0..<named_bytes szs es div ent]))"

definition named_count :: "u64 set \<Rightarrow> dyn list \<Rightarrow> usize option" where
  "named_count ts es = (case last_val ts es of None \<Rightarrow> None | Some n \<Rightarrow> if n = 0 then None else Some n)"

definition named_versions :: "usize \<Rightarrow> u64 \<Rightarrow> u64 \<Rightarrow> dyn list \<Rightarrow> (usize \<times> usize) option" where
  "named_versions base t num es =
     (case (last_val {t} es, last_val {num} es) of (Some v, Some n) \<Rightarrow> Some (base + v, n) | _ \<Rightarrow> None)"

text \<open>The version tags of a section are consistent and no address overflows.\<close>

definition versions_present :: "usize \<Rightarrow> dyn list \<Rightarrow> bool" where
  "versions_present base es \<longleftrightarrow>
     (\<forall>off. last_val {DT_VERNEED} es = Some off \<longrightarrow>
        unat off + unat base < 2 ^ 64 \<and> last_val {DT_VERNEEDNUM} es \<noteq> None) \<and>
     (\<forall>off. last_val {DT_VERDEF} es = Some off \<longrightarrow>
        unat off + unat base < 2 ^ 64 \<and> last_val {DT_VERDEFNUM} es \<noteq> None) \<and>
     (\<forall>off. last_val {DT_VERSYM} es = Some off \<longrightarrow> unat off + unat base < 2 ^ 64)"

lemma version_range_named:
  assumes "\<forall>v. last_val {t} es = Some v \<longrightarrow> unat v + unat base < 2 ^ 64 \<and> last_val {num} es \<noteq> None"
  shows "version_range base (last_val {t} es) (last_val {num} es) = Inr (named_versions base t num es)"
  using assms by (auto simp: version_range_def checked_add_def named_versions_def add.commute split: option.splits)

lemma get_slice_named:
  "map_option (\<lambda>off. get_slice segs ent off (or_zero (from_last non_zero None (last_val szs es))))
     (from_last non_zero None (last_val ts es)) = named_table (base_of segs) ent ts szs es"
  by (auto simp: named_table_def named_bytes_def get_slice_def get_ptr_def or_zero_def non_zero_def base_of_def
      split: option.splits)

lemma get_ptr_named:
  "map_option (get_ptr segs) (from_last non_zero None (last_val {t} es)) = named_addr (base_of segs) t es"
  by (auto simp: named_addr_def get_ptr_def non_zero_def base_of_def split: option.splits)

lemma got_plt_named:
  "(case from_last non_zero None (last_val {t} es) of None \<Rightarrow> None | Some off \<Rightarrow> non_zero (base + off)) =
     (case named_addr base t es of None \<Rightarrow> None | Some a \<Rightarrow> if a = 0 then None else Some a)"
  by (auto simp: named_addr_def non_zero_def split: option.splits)

lemma bind_now_named:
  "from_last id 0 x AND f \<noteq> 0 \<longleftrightarrow> (\<exists>v. x = Some v \<and> v AND f \<noteq> (0 :: usize))"
  by (cases x) simp_all

lemma hash_tab_named:
  "hash_tab_add (case x of Some off \<Rightarrow> DynGnu off | None \<Rightarrow> DynElf b) base =
     (case x of Some off \<Rightarrow> DynGnu (base + off) | None \<Rightarrow> DynElf (base + b))"
  by (simp add: add.commute split: option.split)

lemma from_last_id: "from_last id z x = (case x of None \<Rightarrow> z | Some v \<Rightarrow> v)"
  by (simp split: option.split)

lemma rel_count_named: "from_last non_zero None (last_val ts es) = named_count ts es"
  by (simp add: named_count_def non_zero_def split: option.split)

section \<open>Concrete inputs\<close>

text \<open>A section with a System V hash table, two tables of relocations, a GOT and an initialiser.\<close>

definition wit_dyn_mem :: mem where
  "wit_dyn_mem = mem_of 0x100
     [4,0,0,0,0,0,0,0, 0x20,0,0,0,0,0,0,0, 23,0,0,0,0,0,0,0, 0,2,0,0,0,0,0,0,
      2,0,0,0,0,0,0,0, 48,0,0,0,0,0,0,0, 7,0,0,0,0,0,0,0, 0,3,0,0,0,0,0,0,
      8,0,0,0,0,0,0,0, 24,0,0,0,0,0,0,0, 3,0,0,0,0,0,0,0, 0,4,0,0,0,0,0,0,
      12,0,0,0,0,0,0,0, 0,5,0,0,0,0,0,0]"

lemmas wit_dyn_mem_simps = wit_dyn_mem_def dyn_at_def read_le_def read_bytes_def
  mem_of_def write_bytes_def upt_rec abi

section \<open>Properties\<close>

text \<open>
  C6. Dynamic section. For a section that ends, uses RELA relocations, names a hash table and has
  consistent version tags, parsing returns exactly what the last entry of each tag says, every
  address moved by the base: the hash table (the GNU one before the System V one), the symbol and
  string tables, the GOT (unless its address comes out null), the functions and function arrays of initialisation and
  finalisation, the PLT relocations of DT_JMPREL with DT_PLTRELSZ, the relocations of DT_RELA with
  DT_RELASZ and those of DT_RELR with DT_RELRSZ, the count of relative relocations and the three
  version tables. The libraries needed are all non-null DT_NEEDED entries in order, the search paths
  are string offsets and stay without the base, and binding is immediate exactly when one of the two
  flags asks for it.
\<close>

theorem dynamic_parse_correct:
  assumes "dyn_section m ptr es"
    and "\<forall>d \<in> set es. d_tag d \<noteq> DT_REL \<and> (d_tag d = DT_PLTREL \<longrightarrow> d_un d = DT_RELA)"
    and "last_val {DT_GNU_HASH} es \<noteq> None \<or> last_val {DT_HASH} es \<noteq> None"
    and "base = base_of segs" and "versions_present base es"
  shows "elf_dynamic_new m ptr segs = Inr
     \<lparr>dyn_ptr = ptr,
      dy_hashtab = (case last_val {DT_GNU_HASH} es of
         Some off \<Rightarrow> DynGnu (base + off)
       | None \<Rightarrow> DynElf (base + the (last_val {DT_HASH} es))),
      dy_symtab = base + (case last_val {DT_SYMTAB} es of None \<Rightarrow> 0 | Some v \<Rightarrow> v),
      dy_strtab = base + (case last_val {DT_STRTAB} es of None \<Rightarrow> 0 | Some v \<Rightarrow> v),
      bind_now = ((\<exists>v. last_val {DT_FLAGS} es = Some v \<and> v AND DF_BIND_NOW \<noteq> 0) \<or>
        (\<exists>v. last_val {DT_FLAGS_1} es = Some v \<and> v AND DF_1_NOW \<noteq> 0)),
      got_plt = (case named_addr base DT_PLTGOT es of None \<Rightarrow> None | Some a \<Rightarrow> if a = 0 then None else Some a),
      init_fn = named_addr base DT_INIT es,
      init_array_fn = named_table base 8 {DT_INIT_ARRAY} {DT_INIT_ARRAYSZ} es,
      fini_fn = named_addr base DT_FINI es,
      fini_array_fn = named_table base 8 {DT_FINI_ARRAY} {DT_FINI_ARRAYSZ} es,
      pltrel = named_table base 24 {DT_JMPREL} {DT_PLTRELSZ} es,
      dynrel = named_table base 24 {DT_RELA, DT_REL} {DT_RELASZ, DT_RELSZ} es,
      relr = named_table base 8 {DT_RELR} {DT_RELRSZ} es,
      rel_count = named_count {DT_RELACOUNT, DT_RELCOUNT} es,
      needed_libs = [d_un d. d \<leftarrow> es, d_tag d = DT_NEEDED \<and> d_un d \<noteq> 0],
      version_idx = (case last_val {DT_VERSYM} es of None \<Rightarrow> None | Some v \<Rightarrow> Some (base + v)),
      verneed = named_versions base DT_VERNEED DT_VERNEEDNUM es,
      verdef = named_versions base DT_VERDEF DT_VERDEFNUM es,
      rpath_off = last_val {DT_RPATH} es, runpath_off = last_val {DT_RUNPATH} es\<rparr>"
proof -
  let ?s = "foldl dyn_entry dyn_init es"
  have rela: "(case is_rela ?s of None \<Rightarrow> Inr () | Some b \<Rightarrow> rust_assert ''relocation format'' b) = Inr ()"
    using parsed_is_rela [OF assms(2)] by (auto split: option.splits)
  have hash: "(case last_val {DT_GNU_HASH} es of
        Some off \<Rightarrow> Inr (DynGnu off)
      | None \<Rightarrow> (case last_val {DT_HASH} es of
          Some off \<Rightarrow> Inr (DynElf off)
        | None \<Rightarrow> Inl (Err (parse_dynamic_error
            ''dynamic section does not have DT_GNU_HASH nor DT_HASH'')))) =
      Inr (case last_val {DT_GNU_HASH} es of Some off \<Rightarrow> DynGnu off | None \<Rightarrow> DynElf (the (last_val {DT_HASH} es)))"
    using assms(3) by (auto split: option.splits)
  have versions:
    "version_range base (last_val {DT_VERNEED} es) (last_val {DT_VERNEEDNUM} es) =
       Inr (named_versions base DT_VERNEED DT_VERNEEDNUM es)"
    "version_range base (last_val {DT_VERDEF} es) (last_val {DT_VERDEFNUM} es) =
       Inr (named_versions base DT_VERDEF DT_VERDEFNUM es)"
    "(case last_val {DT_VERSYM} es of None \<Rightarrow> Inr None
      | Some off \<Rightarrow> res_bind (checked_add off base) (\<lambda>a. Inr (Some a))) =
       Inr (case last_val {DT_VERSYM} es of None \<Rightarrow> None | Some v \<Rightarrow> Some (base + v))"
    using assms(5) version_range_named [of DT_VERNEED es base DT_VERNEEDNUM]
      version_range_named [of DT_VERDEF es base DT_VERDEFNUM]
    by (auto simp: versions_present_def checked_add_def add.commute split: option.splits)
  have libs: "filter (\<lambda>v. v \<noteq> 0) (map d_un (filter (\<lambda>d. d_tag d = DT_NEEDED) es)) =
      [d_un d. d \<leftarrow> es, d_tag d = DT_NEEDED \<and> d_un d \<noteq> 0]"
    by (induction es) auto
  show ?thesis
    unfolding elf_dynamic_new_section [OF assms(1)] dyn_finish_def Let_def parsed assms(4) [symmetric]
      rela hash versions libs res_bind_simps size_rela_def get_slice_named [of segs, folded assms(4)]
      get_ptr_named [of segs, folded assms(4)] got_plt_named bind_now_named hash_tab_named
    by (simp add: from_last_id rel_count_named add.commute)
qed

theorem dynamic_parse_correct_witness:
  "\<exists>d. elf_dynamic_new wit_dyn_mem 0x100 (segments_new 0x8000 0x1000) = Inr d \<and>
     dy_hashtab d = DynElf 0x8020 \<and> got_plt d = Some 0x8400 \<and> init_fn d = Some 0x8500 \<and>
     pltrel d = Some (0x8200, [0x8200, 0x8218]) \<and> dynrel d = Some (0x8300, [0x8300]) \<and> relr d = None"
proof -
  have "dyn_section wit_dyn_mem 0x100
     [\<lparr>d_tag = 4, d_un = 0x20\<rparr>, \<lparr>d_tag = 23, d_un = 0x200\<rparr>, \<lparr>d_tag = 2, d_un = 48\<rparr>, \<lparr>d_tag = 7, d_un = 0x300\<rparr>,
      \<lparr>d_tag = 8, d_un = 24\<rparr>, \<lparr>d_tag = 3, d_un = 0x400\<rparr>, \<lparr>d_tag = 12, d_un = 0x500\<rparr>]"
    by (simp add: dyn_section_def dyn_list_def wit_dyn_mem_simps)
  from dynamic_parse_correct [OF this _ _ refl, of "segments_new 0x8000 0x1000"] show ?thesis
    by (auto simp: abi DT_RELR_def versions_present_def base_of_def segments_new_def named_addr_def named_table_def
        named_bytes_def upt_rec)
qed

text \<open>
  Dynamic section without a hash table. Parsing such a section returns the error that says so.
\<close>

lemma dynamic_without_hash_is_error:
  assumes "dyn_section m ptr es"
    and "\<forall>d \<in> set es. d_tag d \<noteq> DT_REL \<and> (d_tag d = DT_PLTREL \<longrightarrow> d_un d = DT_RELA)"
    and "last_val {DT_GNU_HASH} es = None" and "last_val {DT_HASH} es = None"
  shows "elf_dynamic_new m ptr segs =
     Inl (Err (ParseDynamic ''dynamic section does not have DT_GNU_HASH nor DT_HASH''))"
proof -
  have "(case is_rela (foldl dyn_entry dyn_init es) of None \<Rightarrow> Inr ()
      | Some b \<Rightarrow> rust_assert ''relocation format'' b) = Inr ()"
    using parsed_is_rela [OF assms(2)] by (auto split: option.splits)
  with assms(3,4) show ?thesis
    by (simp add: elf_dynamic_new_section [OF assms(1)] dyn_finish_def Let_def parsed parse_dynamic_error_def)
qed

end
