(* ===== verification/Hash_Lookup.thy ===== *)
theory Hash_Lookup
  imports Version Dynamic
begin

text \<open>
  Symbol lookup: the \<^verbatim>\<open>lookup\<close> and \<^verbatim>\<open>count_syms\<close> of the three hash
  tables (\<^verbatim>\<open>src/src/elf/hash/gnu.rs\<close>, \<^verbatim>\<open>sysv.rs\<close>,
  \<^verbatim>\<open>custom.rs\<close>), the dispatch of \<^verbatim>\<open>HashTable\<close>, and the operations of
  \<^verbatim>\<open>SymbolTable\<close>. The chain walks have no bound of their own and are partial
  functions: a chain that does not end is \<open>Diverges\<close>.
\<close>

text \<open>The value of a loop whose body can fault.\<close>

definition loop_result :: "'a result option \<Rightarrow> 'a result" where
  "loop_result x = (case x of None \<Rightarrow> Inl Diverges | Some r \<Rightarrow> r)"

section \<open>One candidate\<close>

text \<open>\<^verbatim>\<open>sym_name == symbol.name() && table.check_match(idx, symbol.version())\<close>.\<close>

definition sym_match :: "mem \<Rightarrow> symbol_table \<Rightarrow> symbol_info \<Rightarrow> usize \<Rightarrow> usize \<Rightarrow> bool result" where
  "sym_match m T info idx ptr =
     res_bind (get_str m (st_strtab T) (st_name (sym_at m ptr))) (\<lambda>sym_name.
       if sym_name = si_name info then check_match m T idx (si_version info) else Inr False)"

section \<open>GNU hash table\<close>

partial_function (option) gnu_chain ::
  "mem \<Rightarrow> symbol_table \<Rightarrow> symbol_info \<Rightarrow> u32 \<Rightarrow> usize \<Rightarrow> usize \<Rightarrow> usize \<Rightarrow> usize option result option" where
  "gnu_chain m T info hash cur_chain cur_symbol dynsym_idx =
     (let chain_hash = read_u32 m cur_chain in
      case (if hash OR 1 = chain_hash OR 1 then sym_match m T info dynsym_idx cur_symbol else Inr False) of
        Inl e \<Rightarrow> Some (Inl e)
      | Inr found \<Rightarrow>
          if found then Some (Inr (Some cur_symbol))
          else if chain_hash AND 1 \<noteq> 0 then Some (Inr None)
          else gnu_chain m T info hash (cur_chain + 4) (cur_symbol + of_nat size_sym) (dynsym_idx + 1))"

declare gnu_chain.simps [code]

definition gnu_lookup ::
  "mem \<Rightarrow> symbol_table \<Rightarrow> symbol_info \<Rightarrow> pre_compute \<Rightarrow> (usize option \<times> pre_compute) result" where
  "gnu_lookup m T info pc =
     (let hash = pc_gnuhash pc; fofs = pc_fofs pc; fmask = pc_fmask pc in
      res_bind (unwrap ''called `Option::unwrap()` on a `None` value'' (into_gnuhash (st_hashtab T))) (\<lambda>hashtab.
      let bloom_idx = fofs AND ucast (gh_nbloom (g_header hashtab) - 1);
          filter = read_u64 m (g_blooms hashtab + bloom_idx * 8)
      in if filter AND fmask = 0 then Inr (None, pc)
      else let filter2 = drop_bit (unat (drop_bit (unat (gh_nshift (g_header hashtab)) mod 32) hash) mod 64) filter
      in if filter2 AND 1 = 0 then Inr (None, pc)
      else let table_start_idx = ucast (gh_symbias (g_header hashtab))
      in if gh_nbucket (g_header hashtab) = 0
         then Inl (Panic ''attempt to calculate the remainder with a divisor of zero'')
      else let chain_start_idx = ucast (read_u32 m (g_buckets hashtab +
                 (ucast hash mod ucast (gh_nbucket (g_header hashtab))) * 4))
      in if chain_start_idx = 0 then Inr (None, pc)
      else res_bind
        (loop_result (gnu_chain m T info hash (g_chains hashtab + (chain_start_idx - table_start_idx) * 4)
           (sym_ptr T chain_start_idx) chain_start_idx))
        (\<lambda>r. Inr (r, pc))))"

partial_function (option) gnu_count_loop :: "mem \<Rightarrow> usize \<Rightarrow> usize \<Rightarrow> usize option" where
  "gnu_count_loop m val nsym =
     (if read_u32 m val AND 1 = 0 then gnu_count_loop m (val + 4) (nsym + 1) else Some nsym)"

declare gnu_count_loop.simps [code]

definition gnu_max_bucket :: "mem \<Rightarrow> elf_gnu_hash \<Rightarrow> usize" where
  "gnu_max_bucket m h =
     foldl (\<lambda>nsym i. max nsym (ucast (read_u32 m (g_buckets h + of_nat (i * 4))))) 0
       [0..<unat (gh_nbucket (g_header h))]"

definition gnu_count_syms :: "mem \<Rightarrow> elf_gnu_hash \<Rightarrow> usize result" where
  "gnu_count_syms m h =
     (let nsym = gnu_max_bucket m h in
      res_bind
        (if 0 < nsym
         then returned (gnu_count_loop m (g_chains h + (nsym - ucast (gh_symbias (g_header h))) * 4) nsym)
         else Inr nsym)
        (\<lambda>nsym. Inr (nsym + 1)))"

section \<open>System V hash table\<close>

partial_function (option) elf_chain ::
  "mem \<Rightarrow> symbol_table \<Rightarrow> symbol_info \<Rightarrow> elf_hash \<Rightarrow> usize \<Rightarrow> usize option result option" where
  "elf_chain m T info h chain_idx =
     (if chain_idx = 0 then Some (Inr None)
      else case sym_match m T info chain_idx (sym_ptr T chain_idx) of
          Inl e \<Rightarrow> Some (Inl e)
        | Inr found \<Rightarrow>
            if found then Some (Inr (Some (sym_ptr T chain_idx)))
            else elf_chain m T info h (ucast (read_u32 m (h_chains h + chain_idx * 4))))"

declare elf_chain.simps [code]

definition elf_lookup ::
  "mem \<Rightarrow> symbol_table \<Rightarrow> symbol_info \<Rightarrow> pre_compute \<Rightarrow> (usize option \<times> pre_compute) result" where
  "elf_lookup m T info pc =
     (let (hash, pc') = (case pc_hash pc of
            Some h \<Rightarrow> (h, pc)
          | None \<Rightarrow> (let h = ucast (sysv_hash (si_name info)) in (h, pc\<lparr>pc_hash := Some h\<rparr>)))
      in res_bind (unwrap ''called `Option::unwrap()` on a `None` value'' (into_elfhash (st_hashtab T))) (\<lambda>hashtab.
         if h_nbucket hashtab = 0
         then Inl (Panic ''attempt to calculate the remainder with a divisor of zero'')
         else let bucket_idx = ucast hash mod ucast (h_nbucket hashtab);
                  chain_idx = ucast (read_u32 m (h_buckets hashtab + bucket_idx * 4))
              in res_bind (loop_result (elf_chain m T info hashtab chain_idx)) (\<lambda>r. Inr (r, pc'))))"

definition elf_count_syms :: "elf_hash \<Rightarrow> usize" where
  "elf_count_syms h = ucast (h_nchain h)"

section \<open>Custom hash table\<close>

definition custom_insert ::
  "hashbrown \<Rightarrow> mem \<Rightarrow> usize \<Rightarrow> nat \<times> usize \<Rightarrow> custom_hash \<Rightarrow> custom_hash result" where
  "custom_insert HB m strtab entry map_h =
     (let (idx, ptr) = entry; symbol = sym_at m ptr in
      if st_type symbol = STT_FILE then Inr map_h
      else res_bind (get_str m strtab (st_name symbol)) (\<lambda>name.
           Inr (map_h @ [(hb_hash HB name, \<lparr>te_name = name, te_idx = of_nat idx\<rparr>)])))"

definition custom_from_shdr :: "hashbrown \<Rightarrow> mem \<Rightarrow> shdr \<Rightarrow> usize \<Rightarrow> custom_hash result" where
  "custom_from_shdr HB m symtab strtab =
     res_bind (content_mut size_sym symtab) (\<lambda>symbols.
       res_fold (custom_insert HB m strtab) (enumerate 0 symbols) [])"

definition custom_count_syms :: "hashbrown \<Rightarrow> custom_hash \<Rightarrow> usize" where
  "custom_count_syms HB h = hb_len HB h"

text \<open>
  \<^verbatim>\<open>symbol_idx\<close> computes the name and the required version along with the symbol; the
  custom lookup calls it and keeps the symbol only.
\<close>

definition symbol_idx :: "mem \<Rightarrow> symbol_table \<Rightarrow> usize \<Rightarrow> (usize \<times> symbol_info) result" where
  "symbol_idx m T idx =
     (let symbol = sym_ptr T idx in
      res_bind (get_cstr m (st_strtab T) (st_name (sym_at m symbol))) (\<lambda>cname.
      res_bind (get_requirement m T idx) (\<lambda>version.
      Inr (symbol, \<lparr>si_name = cname, si_cname = Some cname, si_version = version\<rparr>))))"

definition custom_lookup ::
  "hashbrown \<Rightarrow> mem \<Rightarrow> symbol_table \<Rightarrow> symbol_info \<Rightarrow> pre_compute \<Rightarrow> (usize option \<times> pre_compute) result" where
  "custom_lookup HB m T info pc =
     res_bind (unwrap ''called `Option::unwrap()` on a `None` value'' (into_customhash (st_hashtab T))) (\<lambda>custom_hash.
     let name = si_name info;
         (hash, pc') = (case pc_custom pc of
            Some h \<Rightarrow> (h, pc)
          | None \<Rightarrow> (let h = hb_hash HB name in (h, pc\<lparr>pc_custom := Some h\<rparr>)))
     in case hb_find HB custom_hash hash (\<lambda>entry. te_name entry = name) of
          None \<Rightarrow> Inr (None, pc')
        | Some entry \<Rightarrow> res_bind (symbol_idx m T (te_idx entry)) (\<lambda>(symbol, _). Inr (Some symbol, pc')))"

section \<open>Hash tables and symbol tables\<close>

definition hash_count_syms :: "hashbrown \<Rightarrow> mem \<Rightarrow> hash_table \<Rightarrow> usize result" where
  "hash_count_syms HB m h =
     (case h of
        Gnu t \<Rightarrow> gnu_count_syms m t
      | Elf t \<Rightarrow> Inr (elf_count_syms t)
      | CustomTab t \<Rightarrow> Inr (custom_count_syms HB t))"

definition hash_lookup ::
  "hashbrown \<Rightarrow> mem \<Rightarrow> symbol_table \<Rightarrow> symbol_info \<Rightarrow> pre_compute \<Rightarrow> (usize option \<times> pre_compute) result" where
  "hash_lookup HB m T info pc =
     (case st_hashtab T of
        Gnu _ \<Rightarrow> gnu_lookup m T info pc
      | Elf _ \<Rightarrow> elf_lookup m T info pc
      | CustomTab _ \<Rightarrow> custom_lookup HB m T info pc)"

definition hash_from_shdr :: "hashbrown \<Rightarrow> mem \<Rightarrow> shdr \<Rightarrow> usize \<Rightarrow> hash_table result" where
  "hash_from_shdr HB m symtab strtab = res_bind (custom_from_shdr HB m symtab strtab) (\<lambda>h. Inr (CustomTab h))"

fun hash_from_dynamic :: "mem \<Rightarrow> elf_dynamic_hash_tab \<Rightarrow> hash_table" where
  "hash_from_dynamic m (DynGnu off) = Gnu (gnu_parse m off)"
| "hash_from_dynamic m (DynElf off) = Elf (elf_hash_parse m off)"

definition symtab_from_dynamic :: "mem \<Rightarrow> elf_dynamic \<Rightarrow> symbol_table result" where
  "symtab_from_dynamic m d =
     (let hashtab = hash_from_dynamic m (dy_hashtab d); symtab = dy_symtab d; strtab = dy_strtab d
      in res_bind (elf_version_new m (version_idx d) (verneed d) (verdef d) strtab) (\<lambda>version.
         Inr \<lparr>st_hashtab = hashtab, st_symtab = symtab, st_strtab = strtab, st_version = version\<rparr>))"

definition symtab_from_shdrs :: "hashbrown \<Rightarrow> mem \<Rightarrow> shdr \<Rightarrow> shdr list \<Rightarrow> symbol_table result" where
  "symtab_from_shdrs HB m symtab shdrs =
     (if length shdrs \<le> unat (sh_link symtab) then Inl (Panic ''index out of bounds'')
      else let strtab = sh_addr (shdrs ! unat (sh_link symtab))
           in res_bind (hash_from_shdr HB m symtab strtab) (\<lambda>hashtab.
              Inr \<lparr>st_hashtab = hashtab, st_symtab = sh_addr symtab, st_strtab = strtab, st_version = None\<rparr>))"

text \<open>\<^verbatim>\<open>SymbolInfo::from_str\<close>.\<close>

definition info_from_str :: "bytes \<Rightarrow> bytes option \<Rightarrow> symbol_info result" where
  "info_from_str name version =
     (case version of
        None \<Rightarrow> Inr \<lparr>si_name = name, si_cname = None, si_version = None\<rparr>
      | Some v \<Rightarrow> res_bind (symbol_version_new v) (\<lambda>sv.
          Inr \<lparr>si_name = name, si_cname = None, si_version = Some sv\<rparr>))"

definition symtab_lookup ::
  "hashbrown \<Rightarrow> mem \<Rightarrow> symbol_table \<Rightarrow> symbol_info \<Rightarrow> pre_compute \<Rightarrow> (usize option \<times> pre_compute) result" where
  "symtab_lookup HB m T info pc = hash_lookup HB m T info pc"

definition lookup_by_name :: "hashbrown \<Rightarrow> mem \<Rightarrow> symbol_table \<Rightarrow> bytes \<Rightarrow> usize option result" where
  "lookup_by_name HB m T name =
     res_bind (info_from_str name None) (\<lambda>info.
     res_bind (symtab_lookup HB m T info (precompute info)) (\<lambda>(r, _). Inr r))"

definition lookup_filter ::
  "hashbrown \<Rightarrow> mem \<Rightarrow> symbol_table \<Rightarrow> symbol_info \<Rightarrow> pre_compute \<Rightarrow> (usize option \<times> pre_compute) result" where
  "lookup_filter HB m T info pc =
     res_bind (symtab_lookup HB m T info pc) (\<lambda>(r, pc').
       case r of
         Some p \<Rightarrow>
           (let s = sym_at m p
            in if \<not> is_undef s \<and> is_ok_bind s \<and> is_ok_type s then Inr (Some p, pc') else Inr (None, pc'))
       | None \<Rightarrow> Inr (None, pc'))"

definition symtab_count_syms :: "hashbrown \<Rightarrow> mem \<Rightarrow> symbol_table \<Rightarrow> usize result" where
  "symtab_count_syms HB m T = hash_count_syms HB m (st_hashtab T)"

section \<open>Lemmas\<close>

lemma loop_result_simps [simp, res_simps]: "loop_result (Some r) = r" "loop_result None = Inl Diverges"
  by (simp_all add: loop_result_def)

lemma gnu_chain_step:
  "gnu_chain m T info hash c p i =
     (case (if hash OR 1 = read_u32 m c OR 1 then sym_match m T info i p else Inr False) of
        Inl e \<Rightarrow> Some (Inl e)
      | Inr b \<Rightarrow> if b then Some (Inr (Some p))
          else if read_u32 m c AND 1 \<noteq> 0 then Some (Inr None)
          else gnu_chain m T info hash (c + 4) (p + of_nat size_sym) (i + 1))"
  by (subst gnu_chain.simps) (simp add: Let_def)

lemma elf_chain_step:
  "elf_chain m T info h i =
     (if i = 0 then Some (Inr None)
      else case sym_match m T info i (sym_ptr T i) of
          Inl e \<Rightarrow> Some (Inl e)
        | Inr b \<Rightarrow> if b then Some (Inr (Some (sym_ptr T i)))
            else elf_chain m T info h (ucast (read_u32 m (h_chains h + i * 4))))"
  by (subst elf_chain.simps) simp

end
