(* ===== verification/Lookup_Correct.thy ===== *)
theory Lookup_Correct
  imports Hash_Lookup
begin

text \<open>
  Correctness of symbol lookup. A symbol \<open>i\<close> matches a request when the candidate test of the chain
  walks accepts it. The interface \<open>symbol_lookup\<close> says what every hash table promises its
  clients: on a well-formed table the lookup returns, what it returns matches, and when it returns
  nothing no symbol of the table matches. The GNU table, the System V table, the table of
  relocatable objects and the dispatch over the three are interpretations of it.
\<close>

section \<open>Requests\<close>

definition sym_name_at :: "mem \<Rightarrow> symbol_table \<Rightarrow> nat \<Rightarrow> bytes option" where
  "sym_name_at m T i = cstr m (st_strtab T + st_name (sym_at m (sym_ptr T (of_nat i))))"

definition matches :: "mem \<Rightarrow> symbol_table \<Rightarrow> symbol_info \<Rightarrow> nat \<Rightarrow> bool" where
  "matches m T info i \<longleftrightarrow> sym_match m T info (of_nat i) (sym_ptr T (of_nat i)) = Inr True"

text \<open>The candidate test faults on no symbol of the table.\<close>

definition decided :: "mem \<Rightarrow> symbol_table \<Rightarrow> symbol_info \<Rightarrow> nat set \<Rightarrow> bool" where
  "decided m T info I \<longleftrightarrow> (\<forall>i \<in> I. \<exists>b. sym_match m T info (of_nat i) (sym_ptr T (of_nat i)) = Inr b)"

text \<open>The hashes carried between lookups are those of the name.\<close>

definition pc_ok :: "hashbrown \<Rightarrow> symbol_info \<Rightarrow> pre_compute \<Rightarrow> bool" where
  "pc_ok HB info pc \<longleftrightarrow>
     pc_gnuhash pc = pc_gnuhash (precompute info) \<and> pc_fofs pc = pc_fofs (precompute info) \<and>
     pc_fmask pc = pc_fmask (precompute info) \<and>
     (pc_hash pc = None \<or> pc_hash pc = Some (ucast (sysv_hash (si_name info)))) \<and>
     (pc_custom pc = None \<or> pc_custom pc = Some (hb_hash HB (si_name info)))"

section \<open>The interface\<close>

locale symbol_lookup =
  fixes table_wf :: "mem \<Rightarrow> symbol_table \<Rightarrow> nat set \<Rightarrow> bool"
    and lookup :: "mem \<Rightarrow> symbol_table \<Rightarrow> symbol_info \<Rightarrow> pre_compute \<Rightarrow> (usize option \<times> pre_compute) result"
    and HB :: hashbrown
  assumes lookup_returns:
    "table_wf m T I \<Longrightarrow> pc_ok HB info pc \<Longrightarrow> decided m T info I \<Longrightarrow>
       \<exists>r pc'. lookup m T info pc = Inr (r, pc') \<and> pc_ok HB info pc'"
    and lookup_Some:
    "table_wf m T I \<Longrightarrow> pc_ok HB info pc \<Longrightarrow> decided m T info I \<Longrightarrow>
       lookup m T info pc = Inr (Some p, pc') \<Longrightarrow> \<exists>i \<in> I. p = sym_ptr T (of_nat i) \<and> matches m T info i"
    and lookup_None:
    "table_wf m T I \<Longrightarrow> pc_ok HB info pc \<Longrightarrow> decided m T info I \<Longrightarrow>
       lookup m T info pc = Inr (None, pc') \<Longrightarrow> i \<in> I \<Longrightarrow> \<not> matches m T info i"
begin

lemma lookup_unique:
  assumes "table_wf m T I" and "pc_ok HB info pc" and "decided m T info I"
    and "i \<in> I" and "matches m T info i" and "\<And>j. j \<in> I \<Longrightarrow> matches m T info j \<Longrightarrow> j = i"
  shows "\<exists>pc'. lookup m T info pc = Inr (Some (sym_ptr T (of_nat i)), pc') \<and> pc_ok HB info pc'"
proof -
  from lookup_returns [OF assms(1-3)] obtain r pc'
    where l: "lookup m T info pc = Inr (r, pc')" "pc_ok HB info pc'" by blast
  have "r \<noteq> None" using lookup_None [OF assms(1-3) _ assms(4)] l(1) assms(5) by auto
  then obtain p where r: "r = Some p" by auto
  have "p = sym_ptr T (of_nat i)" using lookup_Some [OF assms(1-3) l(1) [unfolded r]] assms(6) by auto
  with l r show ?thesis by simp
qed

end

section \<open>The candidate test\<close>

lemma sym_match_alt:
  "sym_match m T info (of_nat i) (sym_ptr T (of_nat i)) =
     (case sym_name_at m T i of
        None \<Rightarrow> Inl Diverges
      | Some name \<Rightarrow> if name = si_name info then check_match m T (of_nat i) (si_version info) else Inr False)"
  by (simp add: sym_match_def sym_name_at_def get_str_def get_cstr_def returned_def split: option.split)

lemma matches_name: "matches m T info i \<Longrightarrow> sym_name_at m T i = Some (si_name info)"
  by (simp add: matches_def sym_match_alt split: option.splits if_splits)

lemma decided_unversioned:
  assumes "si_version info = None" and "\<And>i. i \<in> I \<Longrightarrow> sym_name_at m T i \<noteq> None"
  shows "decided m T info I"
  unfolding decided_def
proof
  fix i assume "i \<in> I"
  with assms(2) obtain name where "sym_name_at m T i = Some name" by blast
  then show "\<exists>b. sym_match m T info (of_nat i) (sym_ptr T (of_nat i)) = Inr b"
    by (cases "name = si_name info") (auto simp: sym_match_alt assms(1) check_match_def)
qed

lemma matches_unversioned:
  "si_version info = None \<Longrightarrow> matches m T info i \<longleftrightarrow> sym_name_at m T i = Some (si_name info)"
  by (simp add: matches_def sym_match_alt check_match_def split: option.splits)

lemma decidedD:
  "decided m T info I \<Longrightarrow> i \<in> I \<Longrightarrow>
     sym_match m T info (of_nat i) (sym_ptr T (of_nat i)) = Inr (matches m T info i)"
  unfolding decided_def matches_def by auto

lemma pc_ok_precompute: "pc_ok HB info (precompute info)"
  by (simp add: pc_ok_def precompute_def Let_def)

lemma sym_ptr_Suc: "sym_ptr T (of_nat i) + of_nat size_sym = sym_ptr T (of_nat (Suc i))"
  by (simp add: sym_ptr_def algebra_simps)

section \<open>GNU tables\<close>

definition gnu_bucket :: "mem \<Rightarrow> elf_gnu_hash \<Rightarrow> nat \<Rightarrow> nat" where
  "gnu_bucket m H b = unat (read_u32 m (g_buckets H + of_nat b * 4))"

text \<open>The chain word of symbol \<open>i\<close>: the array starts at symbol \<^verbatim>\<open>symbias\<close>.\<close>

definition chain_ptr :: "elf_gnu_hash \<Rightarrow> nat \<Rightarrow> usize" where
  "chain_ptr H i = g_chains H + (of_nat i - ucast (gh_symbias (g_header H))) * 4"

definition gnu_chain_word :: "mem \<Rightarrow> elf_gnu_hash \<Rightarrow> nat \<Rightarrow> u32" where
  "gnu_chain_word m H i = read_u32 m (chain_ptr H i)"

definition name_gnu_hash :: "bytes \<Rightarrow> u32" where
  "name_gnu_hash name = ucast (gnu_hash name)"

definition gnu_bloom_word :: "mem \<Rightarrow> elf_gnu_hash \<Rightarrow> u32 \<Rightarrow> u64" where
  "gnu_bloom_word m H h =
     read_u64 m (g_blooms H + (ucast h div 64 AND ucast (gh_nbloom (g_header H) - 1)) * 8)"

text \<open>
  The table of the linker: for every hashed symbol both filter bits are set, its chain word is its
  hash up to the last bit, and the walk from its bucket reaches it; every walk ends in the table.
\<close>

definition gnu_wf :: "mem \<Rightarrow> symbol_table \<Rightarrow> elf_gnu_hash \<Rightarrow> nat \<Rightarrow> bool" where
  "gnu_wf m T H n \<longleftrightarrow>
     (let nb = unat (gh_nbucket (g_header H)); bias = unat (gh_symbias (g_header H)) in
      0 < nb \<and> n < 2 ^ 32 \<and>
      (\<forall>i. bias \<le> i \<and> i < n \<longrightarrow>
         (\<exists>name. sym_name_at m T i = Some name \<and>
            (let h = name_gnu_hash name in
             gnu_chain_word m H i OR 1 = h OR 1 \<and>
             bit (gnu_bloom_word m H h) (unat h mod 64) \<and>
             bit (gnu_bloom_word m H h) (unat (drop_bit (unat (gh_nshift (g_header H)) mod 32) h) mod 64) \<and>
             0 < gnu_bucket m H (unat h mod nb) \<and> gnu_bucket m H (unat h mod nb) \<le> i \<and>
             (\<forall>j. gnu_bucket m H (unat h mod nb) \<le> j \<and> j < i \<longrightarrow> gnu_chain_word m H j AND 1 = 0)))) \<and>
      (\<forall>b < nb. 0 < gnu_bucket m H b \<longrightarrow>
         bias \<le> gnu_bucket m H b \<and> (\<exists>k. gnu_bucket m H b \<le> k \<and> k < n \<and> gnu_chain_word m H k AND 1 \<noteq> 0)))"

definition gnu_table_wf :: "mem \<Rightarrow> symbol_table \<Rightarrow> nat set \<Rightarrow> bool" where
  "gnu_table_wf m T I \<longleftrightarrow>
     (\<exists>H n. st_hashtab T = Gnu H \<and> I = {unat (gh_symbias (g_header H))..<n} \<and> gnu_wf m T H n)"

text \<open>The walk: it returns the first match before the end of the chain.\<close>

lemma gnu_chain_at:
  "gnu_chain m T info hash (chain_ptr H i) (sym_ptr T (of_nat i)) (of_nat i) =
     (case (if hash OR 1 = gnu_chain_word m H i OR 1
            then sym_match m T info (of_nat i) (sym_ptr T (of_nat i)) else Inr False) of
        Inl e \<Rightarrow> Some (Inl e)
      | Inr b \<Rightarrow> if b then Some (Inr (Some (sym_ptr T (of_nat i))))
          else if gnu_chain_word m H i AND 1 \<noteq> 0 then Some (Inr None)
          else gnu_chain m T info hash (chain_ptr H (Suc i)) (sym_ptr T (of_nat (Suc i))) (of_nat (Suc i)))"
proof -
  have "chain_ptr H i + 4 = chain_ptr H (Suc i)" by (simp add: chain_ptr_def algebra_simps)
  moreover have "of_nat i + 1 = (of_nat (Suc i) :: usize)" by simp
  ultimately show ?thesis
    unfolding gnu_chain_step [of m T info hash "chain_ptr H i"] gnu_chain_word_def [symmetric]
    by (simp only: sym_ptr_Suc)
qed

definition walk_result :: "mem \<Rightarrow> symbol_table \<Rightarrow> symbol_info \<Rightarrow> elf_gnu_hash \<Rightarrow> nat \<Rightarrow> nat \<Rightarrow> usize option \<Rightarrow> bool" where
  "walk_result m T info H i k r \<longleftrightarrow>
     (case r of
        Some p \<Rightarrow> \<exists>j. i \<le> j \<and> j \<le> k \<and> p = sym_ptr T (of_nat j) \<and> matches m T info j \<and>
          (\<forall>l. i \<le> l \<and> l < j \<longrightarrow> \<not> matches m T info l)
      | None \<Rightarrow> \<exists>e. i \<le> e \<and> e \<le> k \<and> gnu_chain_word m H e AND 1 \<noteq> 0 \<and>
          (\<forall>l. i \<le> l \<and> l \<le> e \<longrightarrow> \<not> matches m T info l))"

lemma walk_result_step:
  assumes "walk_result m T info H (Suc i) k r" and "\<not> matches m T info i"
  shows "walk_result m T info H i k r"
proof -
  have m: "\<not> matches m T info l" if "i \<le> l" "\<not> Suc i \<le> l" for l
    using that assms(2) by (simp add: le_antisym not_less_eq_eq)
  show ?thesis
  proof (cases r)
    case None
    with assms(1) obtain e where "Suc i \<le> e" "e \<le> k" "gnu_chain_word m H e AND 1 \<noteq> 0"
      "\<forall>l. Suc i \<le> l \<and> l \<le> e \<longrightarrow> \<not> matches m T info l" by (auto simp: walk_result_def)
    with m None show ?thesis by (auto simp: walk_result_def intro!: exI [of _ e])
  next
    case (Some p)
    with assms(1) obtain j where "Suc i \<le> j" "j \<le> k" "p = sym_ptr T (of_nat j)" "matches m T info j"
      "\<forall>l. Suc i \<le> l \<and> l < j \<longrightarrow> \<not> matches m T info l" by (auto simp: walk_result_def)
    with m Some show ?thesis by (auto simp: walk_result_def intro!: exI [of _ j])
  qed
qed

lemma gnu_chain_walk:
  assumes "\<And>j. i \<le> j \<Longrightarrow> j \<le> k \<Longrightarrow>
      sym_match m T info (of_nat j) (sym_ptr T (of_nat j)) = Inr (matches m T info j)"
    and "\<And>j. i \<le> j \<Longrightarrow> j \<le> k \<Longrightarrow> matches m T info j \<Longrightarrow> hash OR 1 = gnu_chain_word m H j OR 1"
    and "i \<le> k" and "gnu_chain_word m H k AND 1 \<noteq> 0"
  shows "\<exists>r. gnu_chain m T info hash (chain_ptr H i) (sym_ptr T (of_nat i)) (of_nat i) = Some (Inr r) \<and>
     walk_result m T info H i k r"
  using assms
proof (induction "k - i" arbitrary: i)
  case base: 0
  then have "i = k" by simp
  with base.prems(1,2) [of k] base.prems(4) show ?case
    by (subst gnu_chain_at) (auto simp: walk_result_def intro!: exI [of _ k])
next
  case step: (Suc d)
  then have lt: "i < k" by simp
  note here = step.prems(1,2) [of i]
  consider (found) "matches m T info i" | (stop) "\<not> matches m T info i" "gnu_chain_word m H i AND 1 \<noteq> 0"
    | (cont) "\<not> matches m T info i" "gnu_chain_word m H i AND 1 = 0" by blast
  then show ?case
  proof cases
    case found
    with here lt show ?thesis
      by (subst gnu_chain_at) (auto simp: walk_result_def intro!: exI [of _ i])
  next
    case stop
    with here lt show ?thesis
      by (subst gnu_chain_at) (auto simp: walk_result_def intro!: exI [of _ i])
  next
    case cont
    have "\<exists>r. gnu_chain m T info hash (chain_ptr H (Suc i)) (sym_ptr T (of_nat (Suc i))) (of_nat (Suc i))
          = Some (Inr r) \<and> walk_result m T info H (Suc i) k r"
      by (rule step.hyps(1)) (use step.hyps(2) step.prems lt in auto)
    with here lt cont show ?thesis
      by (subst gnu_chain_at) (auto intro: walk_result_step)
  qed
qed

lemma unat_u32_less: "unat (x::u32) < 2 ^ 32"
  using unsigned_less [of x] by simp

lemma unat_u32_less_64: "unat (x::u32) < 2 ^ 64"
  by (rule order.strict_trans [OF unat_u32_less]) simp

lemma unat_ucast_u32 [simp]: "unat (ucast (x::u32) :: usize) = unat x"
  using unat_u32_less_64 [of x] by (simp add: unsigned_ucast_eq take_bit_nat_eq_self)

lemma ucast_u32_of_nat: "(ucast (x::u32) :: usize) = of_nat (unat x)"
  by (simp add: word_unat_eq_iff)

lemma ucast_mod_u32: "(ucast (h::u32) mod ucast (nb::u32) :: usize) = of_nat (unat h mod unat nb)"
proof -
  have "unat h mod unat nb < 2 ^ 64"
    using mod_less_eq_dividend [of "unat h" "unat nb"] unat_u32_less_64 [of h] by linarith
  then show ?thesis by (simp add: word_unat_eq_iff unat_mod)
qed

text \<open>The hash of the request, as the filter and the buckets use it.\<close>

lemma pc_gnu:
  assumes "pc_ok HB info pc"
  shows "pc_gnuhash pc = name_gnu_hash (si_name info)"
    and "pc_fofs pc = ucast (name_gnu_hash (si_name info)) div 64"
    and "pc_fmask pc = push_bit (unat (name_gnu_hash (si_name info)) mod 64) 1"
  using assms by (simp_all add: pc_ok_def precompute_def name_gnu_hash_def Let_def unat_mod)

lemma and_push_bit_1: "w AND push_bit n (1::'a::len word) = 0 \<longleftrightarrow> \<not> bit w n"
  using push_bit_1_and [of n w] by (simp only: and.commute) blast

lemma drop_bit_and_1: "drop_bit n (w::'a::len word) AND 1 = 0 \<longleftrightarrow> \<not> bit w n"
  by (simp add: and_one_eq odd_iff_mod_2_eq_one [symmetric] bit_iff_odd_drop_bit mod_2_eq_odd)

definition first_match :: "mem \<Rightarrow> symbol_table \<Rightarrow> symbol_info \<Rightarrow> nat \<Rightarrow> nat \<Rightarrow> usize option \<Rightarrow> bool" where
  "first_match m T info lo n r \<longleftrightarrow>
     (case r of
        Some p \<Rightarrow> \<exists>j. lo \<le> j \<and> j < n \<and> p = sym_ptr T (of_nat j) \<and> matches m T info j \<and>
          (\<forall>l. lo \<le> l \<and> l < j \<longrightarrow> \<not> matches m T info l)
      | None \<Rightarrow> \<forall>l. lo \<le> l \<and> l < n \<longrightarrow> \<not> matches m T info l)"

text \<open>What a match says about the table.\<close>

lemma gnu_wf_match:
  assumes "gnu_wf m T H n" and "unat (gh_symbias (g_header H)) \<le> l" and "l < n" and "matches m T info l"
  defines "h \<equiv> name_gnu_hash (si_name info)"
  defines "b \<equiv> gnu_bucket m H (unat h mod unat (gh_nbucket (g_header H)))"
  shows "gnu_chain_word m H l OR 1 = h OR 1" and "bit (gnu_bloom_word m H h) (unat h mod 64)"
    and "bit (gnu_bloom_word m H h) (unat (drop_bit (unat (gh_nshift (g_header H)) mod 32) h) mod 64)"
    and "0 < b" and "b \<le> l" and "\<And>j. b \<le> j \<Longrightarrow> j < l \<Longrightarrow> gnu_chain_word m H j AND 1 = 0"
  using assms(1-3) matches_name [OF assms(4)] unfolding gnu_wf_def h_def b_def Let_def by auto

lemma gnu_walk_first_match:
  assumes wf: "gnu_wf m T H n" and dec: "decided m T info {unat (gh_symbias (g_header H))..<n}"
  defines "h \<equiv> name_gnu_hash (si_name info)"
  defines "b \<equiv> gnu_bucket m H (unat h mod unat (gh_nbucket (g_header H)))"
  assumes "0 < b"
  shows "\<exists>r. gnu_chain m T info h (chain_ptr H b) (sym_ptr T (of_nat b)) (of_nat b) = Some (Inr r) \<and>
     first_match m T info (unat (gh_symbias (g_header H))) n r"
proof -
  let ?bias = "unat (gh_symbias (g_header H))"
  have "unat h mod unat (gh_nbucket (g_header H)) < unat (gh_nbucket (g_header H))"
    using wf by (simp add: gnu_wf_def Let_def)
  with wf \<open>0 < b\<close> obtain k where lo: "?bias \<le> b" and k: "b \<le> k" "k < n" "gnu_chain_word m H k AND 1 \<noteq> 0"
    unfolding gnu_wf_def b_def Let_def by blast
  have "\<exists>r. gnu_chain m T info h (chain_ptr H b) (sym_ptr T (of_nat b)) (of_nat b) = Some (Inr r) \<and>
     walk_result m T info H b k r"
  proof (rule gnu_chain_walk [OF _ _ k(1,3)])
    fix j assume j: "b \<le> j" "j \<le> k"
    with lo k(2) show "sym_match m T info (of_nat j) (sym_ptr T (of_nat j)) = Inr (matches m T info j)"
      by (intro decidedD [OF dec]) auto
    show "h OR 1 = gnu_chain_word m H j OR 1" if "matches m T info j"
      using gnu_wf_match(1) [OF wf _ _ that] lo k(2) j unfolding h_def by simp
  qed
  then obtain r where r: "gnu_chain m T info h (chain_ptr H b) (sym_ptr T (of_nat b)) (of_nat b) = Some (Inr r)"
    and walk: "walk_result m T info H b k r" by blast
  have below: "b \<le> l" if "?bias \<le> l" "l < n" "matches m T info l" for l
    using gnu_wf_match(5) [OF wf that] unfolding h_def b_def .
  have "first_match m T info ?bias n r"
  proof (cases r)
    case None
    with walk obtain e where e: "b \<le> e" "gnu_chain_word m H e AND 1 \<noteq> 0"
      "\<forall>l. b \<le> l \<and> l \<le> e \<longrightarrow> \<not> matches m T info l" by (auto simp: walk_result_def)
    have "\<not> matches m T info l" if l: "?bias \<le> l" "l < n" for l
    proof
      assume ml: "matches m T info l"
      with e below [OF l] have "e < l" by (meson not_le)
      with gnu_wf_match(6) [OF wf l ml, of e] e show False unfolding h_def b_def by simp
    qed
    with None show ?thesis by (simp add: first_match_def)
  next
    case (Some p)
    with walk obtain j where j: "b \<le> j" "j \<le> k" "p = sym_ptr T (of_nat j)" "matches m T info j"
      "\<forall>l. b \<le> l \<and> l < j \<longrightarrow> \<not> matches m T info l" by (auto simp: walk_result_def)
    have "\<forall>l. ?bias \<le> l \<and> l < j \<longrightarrow> \<not> matches m T info l"
    proof (intro allI impI notI)
      fix l assume l: "?bias \<le> l \<and> l < j" and ml: "matches m T info l"
      with below [of l] j(2) k(2) have "b \<le> l" by simp
      with j(5) l ml show False by blast
    qed
    with j lo k(2) Some show ?thesis by (auto simp: first_match_def intro!: exI [of _ j])
  qed
  with r show ?thesis by blast
qed

lemma gnu_lookup_first_match:
  assumes T: "st_hashtab T = Gnu H" and wf: "gnu_wf m T H n" and pc: "pc_ok HB info pc"
    and dec: "decided m T info {unat (gh_symbias (g_header H))..<n}"
  shows "\<exists>r. gnu_lookup m T info pc = Inr (r, pc) \<and>
     first_match m T info (unat (gh_symbias (g_header H))) n r"
proof -
  let ?bias = "unat (gh_symbias (g_header H))"
  define h where "h = name_gnu_hash (si_name info)"
  let ?bloom = "gnu_bloom_word m H h" and ?s = "unat (drop_bit (unat (gh_nshift (g_header H)) mod 32) h) mod 64"
  let ?b = "gnu_bucket m H (unat h mod unat (gh_nbucket (g_header H)))"
  note pch = pc_gnu [OF pc, folded h_def]
  have nb: "gh_nbucket (g_header H) \<noteq> 0" using wf by (auto simp: gnu_wf_def Let_def)
  have b: "ucast (read_u32 m (g_buckets H + ucast h mod ucast (gh_nbucket (g_header H)) * 4)) = (of_nat ?b :: usize)"
    unfolding gnu_bucket_def ucast_mod_u32 by (rule ucast_u32_of_nat)
  have "?b < 2 ^ 64"
    unfolding gnu_bucket_def by (rule unat_u32_less_64)
  then have b0: "(of_nat ?b :: usize) = 0 \<longleftrightarrow> ?b = 0" by (simp add: word_unat_eq_iff)
  have ptr: "g_chains H + (of_nat ?b - ucast (gh_symbias (g_header H))) * 4 = chain_ptr H ?b"
    by (simp add: chain_ptr_def)
  have bl: "read_u64 m (g_blooms H + (ucast h div 64 AND ucast (gh_nbloom (g_header H) - 1)) * 8) = ?bloom"
    by (simp add: gnu_bloom_word_def)
  have eq: "gnu_lookup m T info pc =
     (if \<not> bit ?bloom (unat h mod 64) \<or> \<not> bit ?bloom ?s \<or> ?b = 0 then Inr (None, pc)
      else res_bind (loop_result (gnu_chain m T info h (chain_ptr H ?b) (sym_ptr T (of_nat ?b)) (of_nat ?b)))
             (\<lambda>r. Inr (r, pc)))"
    unfolding gnu_lookup_def T Let_def pch into_gnuhash.simps unwrap_simps res_bind_simps bl
      and_push_bit_1 drop_bit_and_1 b ptr b0
    using nb by simp
  have none: "first_match m T info ?bias n None"
    if "\<not> bit ?bloom (unat h mod 64) \<or> \<not> bit ?bloom ?s \<or> ?b = 0"
    using gnu_wf_match(2-4) [OF wf, of _ info, folded h_def] that by (auto simp: first_match_def)
  show ?thesis
  proof (cases "\<not> bit ?bloom (unat h mod 64) \<or> \<not> bit ?bloom ?s \<or> ?b = 0")
    case True
    with none show ?thesis by (simp add: eq)
  next
    case False
    with gnu_walk_first_match [OF wf dec, folded h_def] show ?thesis by (auto simp: eq)
  qed
qed

lemma gnu_symbol_lookup: "symbol_lookup gnu_table_wf gnu_lookup HB"
proof
  fix m T I info pc
  assume wf: "gnu_table_wf m T I" and pc: "pc_ok HB info pc" and dec: "decided m T info I"
  then obtain H n where T: "st_hashtab T = Gnu H" and w: "gnu_wf m T H n"
    and I: "I = {unat (gh_symbias (g_header H))..<n}" by (auto simp: gnu_table_wf_def)
  obtain r where r: "gnu_lookup m T info pc = Inr (r, pc)"
    and first: "first_match m T info (unat (gh_symbias (g_header H))) n r"
    using gnu_lookup_first_match [OF T w pc] dec I by blast
  show "\<exists>r pc'. gnu_lookup m T info pc = Inr (r, pc') \<and> pc_ok HB info pc'" using r pc by blast
  show "\<exists>i \<in> I. p = sym_ptr T (of_nat i) \<and> matches m T info i"
    if "gnu_lookup m T info pc = Inr (Some p, pc')" for p pc'
    using that r first by (auto simp: first_match_def I)
  show "\<not> matches m T info i" if "gnu_lookup m T info pc = Inr (None, pc')" "i \<in> I" for pc' i
    using that r first by (auto simp: first_match_def I)
qed

interpretation gnu: symbol_lookup gnu_table_wf gnu_lookup HB for HB
  by (rule gnu_symbol_lookup)

section \<open>System V tables\<close>

definition elf_bucket :: "mem \<Rightarrow> elf_hash \<Rightarrow> nat \<Rightarrow> nat" where
  "elf_bucket m H b = unat (read_u32 m (h_buckets H + of_nat b * 4))"

definition elf_next :: "mem \<Rightarrow> elf_hash \<Rightarrow> nat \<Rightarrow> nat" where
  "elf_next m H i = unat (read_u32 m (h_chains H + of_nat i * 4))"

definition name_sysv_hash :: "bytes \<Rightarrow> u32" where
  "name_sysv_hash name = ucast (sysv_hash name)"

text \<open>The symbols of a chain, when it ends within \<open>k\<close> steps.\<close>

primrec elf_path :: "mem \<Rightarrow> elf_hash \<Rightarrow> nat \<Rightarrow> nat \<Rightarrow> nat list option" where
  "elf_path m H 0 i = (if i = 0 then Some [] else None)"
| "elf_path m H (Suc k) i = (if i = 0 then Some [] else map_option (Cons i) (elf_path m H k (elf_next m H i)))"

definition elf_wf :: "mem \<Rightarrow> symbol_table \<Rightarrow> elf_hash \<Rightarrow> nat \<Rightarrow> bool" where
  "elf_wf m T H n \<longleftrightarrow>
     (let nb = unat (h_nbucket H) in
      0 < nb \<and>
      (\<forall>b < nb. \<exists>p. elf_path m H n (elf_bucket m H b) = Some p \<and> set p \<subseteq> {1..<n}) \<and>
      (\<forall>i \<in> {1..<n}. \<exists>name p. sym_name_at m T i = Some name \<and>
         elf_path m H n (elf_bucket m H (unat (name_sysv_hash name) mod nb)) = Some p \<and> i \<in> set p))"

definition elf_table_wf :: "mem \<Rightarrow> symbol_table \<Rightarrow> nat set \<Rightarrow> bool" where
  "elf_table_wf m T I \<longleftrightarrow> (\<exists>H n. st_hashtab T = Elf H \<and> I = {1..<n} \<and> elf_wf m T H n)"

lemma elf_chain_path:
  assumes "elf_path m H k i = Some p" and "i < 2 ^ 64" and "decided m T info (set p)"
  shows "elf_chain m T info H (of_nat i) =
     Some (Inr (map_option (\<lambda>j. sym_ptr T (of_nat j)) (find (matches m T info) p)))"
  using assms
proof (induction k arbitrary: i p)
  case 0
  then show ?case by (subst elf_chain_step) (simp split: if_splits)
next
  case (Suc k)
  show ?case
  proof (cases "i = 0")
    case True
    with Suc.prems show ?thesis by (subst elf_chain_step) simp
  next
    case False
    with Suc.prems obtain q where q: "elf_path m H k (elf_next m H i) = Some q" and p: "p = i # q" by auto
    have nz: "(of_nat i :: usize) \<noteq> 0" using False Suc.prems(2) by (simp add: word_unat_eq_iff)
    have nx: "ucast (read_u32 m (h_chains H + of_nat i * 4)) = (of_nat (elf_next m H i) :: usize)"
      unfolding elf_next_def by (rule ucast_u32_of_nat)
    have "elf_next m H i < 2 ^ 64" unfolding elf_next_def by (rule unat_u32_less_64)
    moreover have "decided m T info (set q)" using Suc.prems(3) p by (simp add: decided_def)
    ultimately have "elf_chain m T info H (of_nat (elf_next m H i)) =
      Some (Inr (map_option (\<lambda>j. sym_ptr T (of_nat j)) (find (matches m T info) q)))"
      by (rule Suc.IH [OF q])
    with decidedD [OF Suc.prems(3), of i] nz show ?thesis
      by (subst elf_chain_step) (simp add: p nx)
  qed
qed

lemma elf_lookup_path:
  assumes T: "st_hashtab T = Elf H" and wf: "elf_wf m T H n" and pc: "pc_ok HB info pc"
    and dec: "decided m T info {1..<n}"
  obtains p pc' where "elf_path m H n
        (elf_bucket m H (unat (name_sysv_hash (si_name info)) mod unat (h_nbucket H))) = Some p"
    and "set p \<subseteq> {1..<n}" and "pc_ok HB info pc'"
    and "elf_lookup m T info pc =
      Inr (map_option (\<lambda>j. sym_ptr T (of_nat j)) (find (matches m T info) p), pc')"
proof -
  define h where "h = name_sysv_hash (si_name info)"
  have nb: "h_nbucket H \<noteq> 0" using wf by (auto simp: elf_wf_def Let_def)
  have lt: "unat h mod unat (h_nbucket H) < unat (h_nbucket H)" using wf by (simp add: elf_wf_def Let_def)
  let ?b = "elf_bucket m H (unat h mod unat (h_nbucket H))"
  from wf lt obtain p where p: "elf_path m H n ?b = Some p" "set p \<subseteq> {1..<n}"
    unfolding elf_wf_def Let_def by blast
  have "?b < 2 ^ 64" unfolding elf_bucket_def by (rule unat_u32_less_64)
  moreover have "decided m T info (set p)" using dec p(2) by (auto simp: decided_def)
  ultimately have walk: "elf_chain m T info H (of_nat ?b) =
      Some (Inr (map_option (\<lambda>j. sym_ptr T (of_nat j)) (find (matches m T info) p)))"
    by (rule elf_chain_path [OF p(1)])
  have b: "ucast (read_u32 m (h_buckets H + ucast h mod ucast (h_nbucket H) * 4)) = (of_nat ?b :: usize)"
    unfolding elf_bucket_def ucast_mod_u32 by (rule ucast_u32_of_nat)
  let ?pc = "pc\<lparr>pc_hash := Some h\<rparr>"
  have pc': "pc_ok HB info ?pc" using pc by (simp add: pc_ok_def h_def name_sysv_hash_def)
  have "(case pc_hash pc of Some h \<Rightarrow> (h, pc)
      | None \<Rightarrow> (let h = ucast (sysv_hash (si_name info)) in (h, pc\<lparr>pc_hash := Some h\<rparr>))) = (h, ?pc)"
    using pc by (auto simp: pc_ok_def h_def name_sysv_hash_def Let_def)
  then have "elf_lookup m T info pc =
      Inr (map_option (\<lambda>j. sym_ptr T (of_nat j)) (find (matches m T info) p), ?pc)"
    unfolding elf_lookup_def T Let_def by (simp add: nb b walk)
  with that p pc' show ?thesis unfolding h_def by blast
qed

lemma elf_symbol_lookup: "symbol_lookup elf_table_wf elf_lookup HB"
proof
  fix m T I info pc
  assume wf: "elf_table_wf m T I" and pc: "pc_ok HB info pc" and dec: "decided m T info I"
  then obtain H n where T: "st_hashtab T = Elf H" and w: "elf_wf m T H n" and I: "I = {1..<n}"
    by (auto simp: elf_table_wf_def)
  obtain p pc1 where p: "elf_path m H n
        (elf_bucket m H (unat (name_sysv_hash (si_name info)) mod unat (h_nbucket H))) = Some p"
    and sub: "set p \<subseteq> {1..<n}" and pc1: "pc_ok HB info pc1"
    and r: "elf_lookup m T info pc = Inr (map_option (\<lambda>j. sym_ptr T (of_nat j)) (find (matches m T info) p), pc1)"
    using elf_lookup_path [OF T w pc dec [unfolded I]] by blast
  show "\<exists>r pc'. elf_lookup m T info pc = Inr (r, pc') \<and> pc_ok HB info pc'" using r pc1 by blast
  show "\<exists>i \<in> I. q = sym_ptr T (of_nat i) \<and> matches m T info i"
    if "elf_lookup m T info pc = Inr (Some q, pc')" for q pc'
    using that r sub by (auto simp: I find_Some_iff dest: nth_mem)
  show "\<not> matches m T info i" if none: "elf_lookup m T info pc = Inr (None, pc')" and i: "i \<in> I" for pc' i
  proof
    assume mi: "matches m T info i"
    from w i obtain p' where "sym_name_at m T i \<noteq> None" "elf_path m H n
        (elf_bucket m H (unat (name_sysv_hash (the (sym_name_at m T i))) mod unat (h_nbucket H))) = Some p'"
      "i \<in> set p'" unfolding elf_wf_def I Let_def by force
    with p matches_name [OF mi] have "i \<in> set p" by simp
    with mi none r show False by (simp add: find_None_iff)
  qed
qed

interpretation elf: symbol_lookup elf_table_wf elf_lookup HB for HB
  by (rule elf_symbol_lookup)

section \<open>Tables of relocatable objects\<close>

text \<open>
  What \<^verbatim>\<open>hashbrown\<close> documents: \<^verbatim>\<open>find\<close> returns an element that the
  test accepts, and returns none only when the test accepts no element inserted under the hash.
\<close>

definition hashbrown_ok :: "hashbrown \<Rightarrow> bool" where
  "hashbrown_ok HB \<longleftrightarrow>
     (\<forall>hist h eq. case hb_find HB hist h eq of
        Some e \<Rightarrow> e \<in> snd ` set hist \<and> eq e
      | None \<Rightarrow> \<forall>e. (h, e) \<in> set hist \<longrightarrow> \<not> eq e) \<and>
     (\<forall>hist. hb_len HB hist = of_nat (length hist))"

definition custom_table_wf :: "hashbrown \<Rightarrow> mem \<Rightarrow> symbol_table \<Rightarrow> nat set \<Rightarrow> bool" where
  "custom_table_wf HB m T I \<longleftrightarrow>
     hashbrown_ok HB \<and> st_version T = None \<and>
     (\<exists>hist. st_hashtab T = CustomTab hist \<and>
        (\<forall>e \<in> snd ` set hist. \<exists>i \<in> I. te_idx e = of_nat i \<and> sym_name_at m T i = Some (te_name e)) \<and>
        (\<forall>i \<in> I. \<exists>name. sym_name_at m T i = Some name \<and>
           (hb_hash HB name, \<lparr>te_name = name, te_idx = of_nat i\<rparr>) \<in> set hist))"

lemma hashbrown_find:
  "hashbrown_ok HB \<Longrightarrow>
     (case hb_find HB hist h eq of
        Some e \<Rightarrow> e \<in> snd ` set hist \<and> eq e
      | None \<Rightarrow> \<forall>e. (h, e) \<in> set hist \<longrightarrow> \<not> eq e)"
  unfolding hashbrown_ok_def by (elim conjE allE)

lemma hashbrown_find_Some: "hashbrown_ok HB \<Longrightarrow> hb_find HB hist h eq = Some e \<Longrightarrow> e \<in> snd ` set hist \<and> eq e"
  by (drule hashbrown_find [where hist = hist and h = h and eq = eq]) simp

lemma hashbrown_find_None: "hashbrown_ok HB \<Longrightarrow> hb_find HB hist h eq = None \<Longrightarrow> (h, e) \<in> set hist \<Longrightarrow> \<not> eq e"
  by (drule hashbrown_find [where hist = hist and h = h and eq = eq]) simp

lemma symbol_idx_unversioned:
  "st_version T = None \<Longrightarrow> sym_name_at m T i = Some name \<Longrightarrow>
     symbol_idx m T (of_nat i) =
       Inr (sym_ptr T (of_nat i), \<lparr>si_name = name, si_cname = Some name, si_version = None\<rparr>)"
  by (simp add: symbol_idx_def sym_name_at_def get_cstr_def get_requirement_def Let_def)

lemma custom_lookup_cases:
  assumes wf: "custom_table_wf HB m T I" and pc: "pc_ok HB info pc" and dec: "decided m T info I"
  obtains (found) i pc' where "i \<in> I" "matches m T info i" "pc_ok HB info pc'"
      "custom_lookup HB m T info pc = Inr (Some (sym_ptr T (of_nat i)), pc')"
    | (none) pc' where "pc_ok HB info pc'" "custom_lookup HB m T info pc = Inr (None, pc')"
      "\<And>i. i \<in> I \<Longrightarrow> \<not> matches m T info i"
proof -
  from wf obtain hist where ok: "hashbrown_ok HB" and v: "st_version T = None" and T: "st_hashtab T = CustomTab hist"
    and sound: "\<And>e. e \<in> snd ` set hist \<Longrightarrow> \<exists>i \<in> I. te_idx e = of_nat i \<and> sym_name_at m T i = Some (te_name e)"
    and complete: "\<And>i. i \<in> I \<Longrightarrow> \<exists>name. sym_name_at m T i = Some name \<and>
       (hb_hash HB name, \<lparr>te_name = name, te_idx = of_nat i\<rparr>) \<in> set hist"
    unfolding custom_table_wf_def by blast
  let ?h = "hb_hash HB (si_name info)" and ?pc = "pc\<lparr>pc_custom := Some (hb_hash HB (si_name info))\<rparr>"
  let ?find = "hb_find HB hist ?h (\<lambda>entry. te_name entry = si_name info)"
  have pc': "pc_ok HB info ?pc" using pc by (simp add: pc_ok_def)
  have "(case pc_custom pc of Some h \<Rightarrow> (h, pc)
      | None \<Rightarrow> (let h = ?h in (h, pc\<lparr>pc_custom := Some h\<rparr>))) = (?h, ?pc)"
    using pc by (auto simp: pc_ok_def Let_def)
  then have eq: "custom_lookup HB m T info pc =
     (case ?find of None \<Rightarrow> Inr (None, ?pc)
      | Some entry \<Rightarrow> res_bind (symbol_idx m T (te_idx entry)) (\<lambda>(symbol, _). Inr (Some symbol, ?pc)))"
    unfolding custom_lookup_def T Let_def by simp
  show thesis
  proof (cases ?find)
    case None
    have "\<not> matches m T info i" if "i \<in> I" for i
    proof
      assume "matches m T info i"
      with complete [OF that] have "(?h, \<lparr>te_name = si_name info, te_idx = of_nat i\<rparr>) \<in> set hist"
        by (auto dest: matches_name)
      from hashbrown_find_None [OF ok None this] show False by simp
    qed
    with None eq pc' none show thesis by simp
  next
    case (Some e)
    from hashbrown_find_Some [OF ok Some] sound obtain i where i: "i \<in> I" "te_idx e = of_nat i"
      and name: "sym_name_at m T i = Some (si_name info)" by fastforce
    from decidedD [OF dec i(1)] have "matches m T info i"
      using name v by (cases "si_version info") (auto simp: sym_match_alt check_match_def matches_def)
    with i pc' eq Some symbol_idx_unversioned [OF v name] found show thesis by simp
  qed
qed

lemma custom_symbol_lookup: "symbol_lookup (custom_table_wf HB) (custom_lookup HB) HB"
proof
  fix m T I info pc
  assume asm: "custom_table_wf HB m T I" "pc_ok HB info pc" "decided m T info I"
  show "\<exists>r pc'. custom_lookup HB m T info pc = Inr (r, pc') \<and> pc_ok HB info pc'"
    by (rule custom_lookup_cases [OF asm]) auto
  show "\<exists>i \<in> I. p = sym_ptr T (of_nat i) \<and> matches m T info i"
    if "custom_lookup HB m T info pc = Inr (Some p, pc')" for p pc'
    by (rule custom_lookup_cases [OF asm]) (use that in auto)
  show "\<not> matches m T info i"
    if "custom_lookup HB m T info pc = Inr (None, pc')" "i \<in> I" for pc' i
    by (rule custom_lookup_cases [OF asm]) (use that in auto)
qed

interpretation custom: symbol_lookup "custom_table_wf HB" "custom_lookup HB" HB for HB
  by (rule custom_symbol_lookup)

section \<open>All tables\<close>

definition symtab_wf :: "hashbrown \<Rightarrow> mem \<Rightarrow> symbol_table \<Rightarrow> nat set \<Rightarrow> bool" where
  "symtab_wf HB m T I \<longleftrightarrow>
     (case st_hashtab T of
        Gnu _ \<Rightarrow> gnu_table_wf m T I
      | Elf _ \<Rightarrow> elf_table_wf m T I
      | CustomTab _ \<Rightarrow> custom_table_wf HB m T I)"

lemma symtab_symbol_lookup: "symbol_lookup (symtab_wf HB) (symtab_lookup HB) HB"
proof
  fix m T I info pc
  assume asm: "symtab_wf HB m T I" "pc_ok HB info pc" "decided m T info I"
  note defs = symtab_wf_def symtab_lookup_def hash_lookup_def
  show "\<exists>r pc'. symtab_lookup HB m T info pc = Inr (r, pc') \<and> pc_ok HB info pc'"
    using asm gnu.lookup_returns elf.lookup_returns custom.lookup_returns
    by (cases "st_hashtab T") (simp_all add: defs)
  show "\<exists>i \<in> I. p = sym_ptr T (of_nat i) \<and> matches m T info i"
    if "symtab_lookup HB m T info pc = Inr (Some p, pc')" for p pc'
    using that asm gnu.lookup_Some elf.lookup_Some custom.lookup_Some
    by (cases "st_hashtab T") (simp_all add: defs)
  show "\<not> matches m T info i" if "symtab_lookup HB m T info pc = Inr (None, pc')" "i \<in> I" for pc' i
    using that asm gnu.lookup_None elf.lookup_None custom.lookup_None
    by (cases "st_hashtab T") (simp_all add: defs)
qed

interpretation symtab: symbol_lookup "symtab_wf HB" "symtab_lookup HB" HB for HB
  by (rule symtab_symbol_lookup)

end
