(* ===== verification/Lookup_Props.thy ===== *)
theory Lookup_Props
  imports Lookup_Correct
begin

text \<open>
  The properties of symbol lookup: each hash table finds what a linear search of the symbol table
  finds, the formats agree, filtered lookup returns usable definitions only, and the tables that
  the loader builds itself are well formed.
\<close>

section \<open>Linear search\<close>

text \<open>The reference: the first symbol of the range with the name.\<close>

definition linear_search :: "mem \<Rightarrow> symbol_table \<Rightarrow> bytes \<Rightarrow> nat \<Rightarrow> nat \<Rightarrow> usize option" where
  "linear_search m T name lo n =
     map_option (\<lambda>i. sym_ptr T (of_nat i)) (find (\<lambda>i. sym_name_at m T i = Some name) [lo..<n])"

lemma find_upt_Some:
  assumes "lo \<le> j" and "j < n" and "P j" and "\<And>l. lo \<le> l \<Longrightarrow> l < j \<Longrightarrow> \<not> P l"
  shows "find P [lo..<n] = Some j"
  unfolding find_Some_iff by (rule exI [of _ "j - lo"]) (use assms in auto)

lemma first_match_linear_search:
  assumes "first_match m T info lo n r" and "si_version info = None"
  shows "r = linear_search m T (si_name info) lo n"
proof (cases r)
  case None
  with assms have "find (\<lambda>i. sym_name_at m T i = Some (si_name info)) [lo..<n] = None"
    by (auto simp: first_match_def matches_unversioned find_None_iff)
  with None show ?thesis by (simp add: linear_search_def)
next
  case (Some p)
  with assms obtain j where j: "lo \<le> j" "j < n" "p = sym_ptr T (of_nat j)"
    "sym_name_at m T j = Some (si_name info)"
    "\<forall>l. lo \<le> l \<and> l < j \<longrightarrow> sym_name_at m T l \<noteq> Some (si_name info)"
    by (auto simp: first_match_def matches_unversioned)
  with find_upt_Some [of lo j n "\<lambda>i. sym_name_at m T i = Some (si_name info)"] Some show ?thesis
    by (simp add: linear_search_def)
qed

lemma gnu_wf_names: "gnu_wf m T H n \<Longrightarrow> i \<in> {unat (gh_symbias (g_header H))..<n} \<Longrightarrow> sym_name_at m T i \<noteq> None"
  unfolding gnu_wf_def Let_def by force

lemma elf_wf_names: "elf_wf m T H n \<Longrightarrow> i \<in> {1..<n} \<Longrightarrow> sym_name_at m T i \<noteq> None"
  unfolding elf_wf_def Let_def by force

lemma custom_wf_names: "custom_table_wf HB m T I \<Longrightarrow> i \<in> I \<Longrightarrow> sym_name_at m T i \<noteq> None"
  unfolding custom_table_wf_def by force

lemma symtab_wf_names: "symtab_wf HB m T I \<Longrightarrow> i \<in> I \<Longrightarrow> sym_name_at m T i \<noteq> None"
  by (cases "st_hashtab T")
    (auto simp: symtab_wf_def gnu_table_wf_def elf_table_wf_def dest: gnu_wf_names elf_wf_names custom_wf_names)

abbreviation info_of :: "bytes \<Rightarrow> symbol_info" where
  "info_of name \<equiv> \<lparr>si_name = name, si_cname = None, si_version = None\<rparr>"

lemma lookup_by_name_alt:
  "lookup_by_name HB m T name =
     res_bind (symtab_lookup HB m T (info_of name) (precompute (info_of name))) (\<lambda>(r, _). Inr r)"
  by (simp add: lookup_by_name_def info_from_str_def)

section \<open>Counting\<close>

lemma foldl_max_usize:
  fixes f :: "nat \<Rightarrow> usize"
  shows "s \<le> foldl (\<lambda>a i. max a (f i)) s xs \<and> (\<forall>i \<in> set xs. f i \<le> foldl (\<lambda>a i. max a (f i)) s xs) \<and>
     (foldl (\<lambda>a i. max a (f i)) s xs = s \<or> foldl (\<lambda>a i. max a (f i)) s xs \<in> f ` set xs)"
proof (induction xs arbitrary: s)
  case Nil
  then show ?case by simp
next
  case (Cons x xs)
  from Cons.IH [of "max s (f x)"] show ?case by (auto simp: max_def split: if_splits)
qed

lemma gnu_count_loop_ends:
  assumes "\<And>j. i \<le> j \<Longrightarrow> j < e \<Longrightarrow> gnu_chain_word m H j AND 1 = 0" and "gnu_chain_word m H e AND 1 \<noteq> 0" and "i \<le> e"
  shows "gnu_count_loop m (chain_ptr H i) (of_nat i) = Some (of_nat e)"
  using assms
proof (induction "e - i" arbitrary: i)
  case 0
  then have "i = e" by simp
  with 0 show ?case by (subst gnu_count_loop.simps) (simp add: gnu_chain_word_def)
next
  case (Suc d)
  then have lt: "i < e" by simp
  have ptr: "chain_ptr H i + 4 = chain_ptr H (Suc i)" by (simp add: chain_ptr_def algebra_simps)
  have "gnu_count_loop m (chain_ptr H (Suc i)) (of_nat (Suc i)) = Some (of_nat e)"
    by (rule Suc.hyps(1)) (use Suc.hyps(2) Suc.prems lt in auto)
  moreover have "read_u32 m (chain_ptr H i) AND 1 = 0"
    using Suc.prems(1) [of i] lt by (simp add: gnu_chain_word_def)
  ultimately show ?case
    by (subst gnu_count_loop.simps) (simp add: ptr add.commute)
qed

lemma gnu_max_bucket_last:
  assumes wf: "gnu_wf m T H n" and ne: "unat (gh_symbias (g_header H)) < n"
  obtains b where "gnu_max_bucket m H = of_nat b" and "0 < b" and "b < n" and "n < 2 ^ 32"
    and "\<And>j. b \<le> j \<Longrightarrow> j < n - 1 \<Longrightarrow> gnu_chain_word m H j AND 1 = 0"
    and "gnu_chain_word m H (n - 1) AND 1 \<noteq> 0"
proof -
  let ?nb = "unat (gh_nbucket (g_header H))"
  let ?f = "\<lambda>i. ucast (read_u32 m (g_buckets H + of_nat (i * 4))) :: usize"
  have f: "?f i = of_nat (gnu_bucket m H i)" for i
    unfolding gnu_bucket_def by (simp add: ucast_u32_of_nat [symmetric])
  have lt: "gnu_bucket m H i < 2 ^ 64" for i unfolding gnu_bucket_def by (rule unat_u32_less_64)
  let ?mx = "gnu_max_bucket m H"
  note mx = foldl_max_usize [of 0 ?f "[0..<?nb]", folded gnu_max_bucket_def]
  have "unat (gh_symbias (g_header H)) \<le> n - 1 \<and> n - 1 < n" using ne by auto
  moreover have nb: "0 < ?nb" and n32: "n < 2 ^ 32" using wf by (auto simp: gnu_wf_def Let_def)
  ultimately obtain name where
    last: "0 < gnu_bucket m H (unat (name_gnu_hash name) mod ?nb)"
      "gnu_bucket m H (unat (name_gnu_hash name) mod ?nb) \<le> n - 1"
      "\<And>j. gnu_bucket m H (unat (name_gnu_hash name) mod ?nb) \<le> j \<Longrightarrow> j < n - 1 \<Longrightarrow> gnu_chain_word m H j AND 1 = 0"
    using wf unfolding gnu_wf_def Let_def by blast
  let ?b1 = "unat (name_gnu_hash name) mod ?nb"
  have b1: "?b1 \<in> set [0..<?nb]" using nb by simp
  with mx have ge: "of_nat (gnu_bucket m H ?b1) \<le> ?mx" unfolding f by blast
  moreover have "(of_nat (gnu_bucket m H ?b1) :: usize) \<noteq> 0" using last(1) lt [of ?b1] by (simp add: word_unat_eq_iff)
  ultimately have "?mx \<noteq> 0" by auto
  with mx obtain b2 where b2: "b2 < ?nb" "?mx = of_nat (gnu_bucket m H b2)" unfolding f by auto
  let ?b = "gnu_bucket m H b2"
  have pos: "0 < ?b" using b2(2) \<open>?mx \<noteq> 0\<close> by (cases "?b = 0") auto
  have le: "gnu_bucket m H ?b1 \<le> ?b" using ge lt [of ?b1] lt [of b2] unfolding b2(2) by (simp add: word_le_nat_alt)
  from wf b2(1) pos obtain k where k: "?b \<le> k" "k < n" "gnu_chain_word m H k AND 1 \<noteq> 0"
    unfolding gnu_wf_def Let_def by blast
  have even: "gnu_chain_word m H j AND 1 = 0" if "?b \<le> j" "j < n - 1" for j
    using last(3) [of j] le that by simp
  from even [of k] k have "k = n - 1" by (metis One_nat_def Suc_pred less_Suc_eq not_less_zero gr0I)
  with that [OF b2(2) pos _ n32 even] k show thesis by simp
qed

section \<open>Building the table of a relocatable object\<close>

definition entry_name :: "mem \<Rightarrow> usize \<Rightarrow> usize \<Rightarrow> bytes option" where
  "entry_name m strtab ptr = cstr m (strtab + st_name (sym_at m ptr))"

lemma custom_insert_pair:
  "custom_insert HB m strtab (i, p) h =
     (if st_type (sym_at m p) = STT_FILE then Inr h
      else case entry_name m strtab p of
          None \<Rightarrow> Inl Diverges
        | Some name \<Rightarrow> Inr (h @ [(hb_hash HB name, \<lparr>te_name = name, te_idx = of_nat i\<rparr>)]))"
  by (simp add: custom_insert_def get_str_def get_cstr_def entry_name_def returned_def Let_def split: option.split)

lemma custom_insert_fold:
  assumes "\<And>e. e \<in> set xs \<Longrightarrow> st_type (sym_at m (snd e)) \<noteq> STT_FILE \<Longrightarrow> entry_name m strtab (snd e) \<noteq> None"
  shows "res_fold (custom_insert HB m strtab) xs hist =
     Inr (hist @ map (\<lambda>(i, p). (hb_hash HB (the (entry_name m strtab p)),
            \<lparr>te_name = the (entry_name m strtab p), te_idx = of_nat i\<rparr>))
          (filter (\<lambda>e. st_type (sym_at m (snd e)) \<noteq> STT_FILE) xs))"
  using assms
proof (induction xs arbitrary: hist)
  case Nil
  then show ?case by simp
next
  case (Cons e xs)
  obtain i p where e: "e = (i, p)" by fastforce
  have IH: "res_fold (custom_insert HB m strtab) xs h =
     Inr (h @ map (\<lambda>(i, p). (hb_hash HB (the (entry_name m strtab p)),
            \<lparr>te_name = the (entry_name m strtab p), te_idx = of_nat i\<rparr>))
          (filter (\<lambda>e. st_type (sym_at m (snd e)) \<noteq> STT_FILE) xs))" for h
    by (rule Cons.IH) (use Cons.prems in auto)
  show ?case
  proof (cases "st_type (sym_at m p) = STT_FILE")
    case True
    then show ?thesis by (simp add: e custom_insert_pair IH)
  next
    case False
    then obtain name where "entry_name m strtab p = Some name" using Cons.prems [of e] e by auto
    with False show ?thesis
      by (simp add: e custom_insert_pair IH)
  qed
qed

definition entry_count :: "shdr \<Rightarrow> nat" where
  "entry_count sh = unat (sh_size sh div sh_entsize sh)"

definition non_file :: "mem \<Rightarrow> shdr \<Rightarrow> nat set" where
  "non_file m sh = {i. i < entry_count sh \<and> st_type (sym_at m (sh_addr sh + of_nat (i * size_sym))) \<noteq> STT_FILE}"

lemma symtab_from_shdrs_wf:
  assumes "hashbrown_ok HB" and "sh_entsize symtab \<noteq> 0" and link: "unat (sh_link symtab) < length shdrs"
    and names: "\<And>i. i \<in> non_file m symtab \<Longrightarrow>
      entry_name m (sh_addr (shdrs ! unat (sh_link symtab))) (sh_addr symtab + of_nat (i * size_sym)) \<noteq> None"
  shows "\<exists>T. symtab_from_shdrs HB m symtab shdrs = Inr T \<and> symtab_wf HB m T (non_file m symtab)"
proof -
  let ?str = "sh_addr (shdrs ! unat (sh_link symtab))"
  let ?xs = "enumerate 0 (map (\<lambda>i. sh_addr symtab + of_nat (i * size_sym)) [0..<entry_count symtab])"
  let ?hist = "map (\<lambda>(i, p). (hb_hash HB (the (entry_name m ?str p)),
            \<lparr>te_name = the (entry_name m ?str p), te_idx = of_nat i\<rparr>))
          (filter (\<lambda>e. st_type (sym_at m (snd e)) \<noteq> STT_FILE) ?xs)"
  have xs: "(i, p) \<in> set ?xs \<longleftrightarrow> i < entry_count symtab \<and> p = sh_addr symtab + of_nat (i * size_sym)" for i p
    by (auto simp: in_set_enumerate_eq)
  have "res_fold (custom_insert HB m ?str) ?xs [] = Inr ([] @ ?hist)"
    by (rule custom_insert_fold) (use names xs in \<open>force simp: non_file_def\<close>)
  then have run: "custom_from_shdr HB m symtab ?str = Inr ?hist"
    using assms(2) by (simp add: custom_from_shdr_def content_mut_def entry_count_def)
  let ?T = "\<lparr>st_hashtab = CustomTab ?hist, st_symtab = sh_addr symtab, st_strtab = ?str, st_version = None\<rparr>"
  have T: "symtab_from_shdrs HB m symtab shdrs = Inr ?T"
    using link run by (simp add: symtab_from_shdrs_def hash_from_shdr_def Let_def)
  have ptr: "sym_ptr ?T (of_nat i) = sh_addr symtab + of_nat (i * size_sym)" for i
    by (simp add: sym_ptr_def)
  have nm: "sym_name_at m ?T i = entry_name m ?str (sh_addr symtab + of_nat (i * size_sym))" for i
    unfolding sym_name_at_def ptr by (simp add: entry_name_def)
  have "\<exists>i \<in> non_file m symtab. te_idx e = of_nat i \<and> sym_name_at m ?T i = Some (te_name e)"
    if "e \<in> snd ` set ?hist" for e
  proof -
    from that obtain i p where "(i, p) \<in> set ?xs" "st_type (sym_at m p) \<noteq> STT_FILE"
      and e: "e = \<lparr>te_name = the (entry_name m ?str p), te_idx = of_nat i\<rparr>" by auto
    then have i: "i \<in> non_file m symtab" and p: "p = sh_addr symtab + of_nat (i * size_sym)"
      unfolding non_file_def xs by auto
    from names [OF i] have "sym_name_at m ?T i = Some (te_name e)" unfolding nm e p by auto
    with i e show ?thesis by auto
  qed
  moreover have "\<exists>name. sym_name_at m ?T i = Some name \<and>
      (hb_hash HB name, \<lparr>te_name = name, te_idx = of_nat i\<rparr>) \<in> set ?hist" if i: "i \<in> non_file m symtab" for i
  proof -
    let ?p = "sh_addr symtab + of_nat (i * size_sym)"
    from names [OF i] obtain name where n: "entry_name m ?str ?p = Some name" by blast
    have "(i, ?p) \<in> set ?xs" "st_type (sym_at m ?p) \<noteq> STT_FILE" using i unfolding xs non_file_def by auto
    then have "(i, ?p) \<in> set (filter (\<lambda>e. st_type (sym_at m (snd e)) \<noteq> STT_FILE) ?xs)" by simp
    then have "(hb_hash HB name, \<lparr>te_name = name, te_idx = of_nat i\<rparr>) \<in> set ?hist"
      unfolding set_map using n by (intro image_eqI) (auto simp only: prod.case option.sel)
    then show ?thesis by (intro exI [of _ name] conjI) (simp only: nm n)
  qed
  ultimately have "symtab_wf HB m ?T (non_file m symtab)"
    using assms(1) unfolding symtab_wf_def custom_table_wf_def by auto
  with T show ?thesis by blast
qed

section \<open>Concrete inputs\<close>

text \<open>
  One object with two symbols, the null symbol and \<open>a\<close>: a GNU table at 0x100, a System V table at
  0x180, the symbols at 0x200, the strings at 0x300; relocation entries at 0x400, a compact table at 0x500.
\<close>

definition wit_sym_mem :: mem where
  "wit_sym_mem =
     write_bytes (write_bytes (write_bytes (write_bytes (write_bytes (mem_of 0x100
       [1,0,0,0, 1,0,0,0, 1,0,0,0, 6,0,0,0,  0x40,0,0,1,0,0,0,0, 1,0,0,0, 7,0xB6,2,0])
       0x180 [1,0,0,0, 2,0,0,0, 1,0,0,0, 0,0,0,0, 0,0,0,0])
       0x218 [1,0,0,0, 0x12, 0, 1,0, 0x10,0,0,0,0,0,0,0, 4,0,0,0,0,0,0,0])
       0x300 [0, 0x61, 0])
       0x400 [0x20,0,0,0,0,0,0,0, 6,0,0,0,1,0,0,0, 4,0,0,0,0,0,0,0,
              0x28,0,0,0,0,0,0,0, 7,0,0,0,1,0,0,0, 0,0,0,0,0,0,0,0,
              0x30,0,0,0,0,0,0,0, 8,0,0,0,0,0,0,0, 0x40,0,0,0,0,0,0,0,
              0x20,0,0,0,0,0,0,0, 9,0,0,0,1,0,0,0, 0,0,0,0,0,0,0,0])
       0x500 [0x50,0,0,0,0,0,0,0, 0x0B,0,0,0,0,0,0,0]"

definition wit_gnu :: elf_gnu_hash where
  "wit_gnu = gnu_parse wit_sym_mem 0x100"

definition wit_sysv :: elf_hash where
  "wit_sysv = elf_hash_parse wit_sym_mem 0x180"

definition wit_gnu_tab :: symbol_table where
  "wit_gnu_tab = \<lparr>st_hashtab = Gnu wit_gnu, st_symtab = 0x200, st_strtab = 0x300, st_version = None\<rparr>"

definition wit_sysv_tab :: symbol_table where
  "wit_sysv_tab = \<lparr>st_hashtab = Elf wit_sysv, st_symtab = 0x200, st_strtab = 0x300, st_version = None\<rparr>"

definition wit_hb :: hashbrown where
  "wit_hb = \<lparr>hb_hash = (\<lambda>_. 0), hb_find = (\<lambda>hist h eq. find eq (map snd hist)), hb_len = (\<lambda>hist. of_nat (length hist))\<rparr>"

definition wit_symtab_shdr :: shdr where
  "wit_symtab_shdr = shdr_new 0 SHT_SYMTAB 0 0x200 0 48 1 0 8 24"

definition wit_strtab_shdr :: shdr where
  "wit_strtab_shdr = shdr_new 0 3 0 0x300 0 3 0 0 1 0"

lemmas wit_read = read_le_def read_bytes_def mem_of_def write_bytes_def upt_rec wit_sym_mem_def

lemma wit_gnu_simps:
  "g_header wit_gnu = \<lparr>gh_nbucket = 1, gh_symbias = 1, gh_nbloom = 1, gh_nshift = 6\<rparr>"
  "g_blooms wit_gnu = 0x110" "g_buckets wit_gnu = 0x118" "g_chains wit_gnu = 0x11C"
proof -
  have r: "read_u32 wit_sym_mem 0x100 = 1" "read_u32 wit_sym_mem 0x104 = 1"
    "read_u32 wit_sym_mem 0x108 = 1" "read_u32 wit_sym_mem 0x10C = 6"
    by (simp_all add: wit_read)
  then show "g_header wit_gnu = \<lparr>gh_nbucket = 1, gh_symbias = 1, gh_nbloom = 1, gh_nshift = 6\<rparr>"
    "g_blooms wit_gnu = 0x110" "g_buckets wit_gnu = 0x118" "g_chains wit_gnu = 0x11C"
    by (simp_all add: wit_gnu_def gnu_parse_def Let_def)
qed

lemma wit_sysv_simps:
  "h_nbucket wit_sysv = 1" "h_nchain wit_sysv = 2" "h_buckets wit_sysv = 0x188" "h_chains wit_sysv = 0x18C"
proof -
  have r: "read_u32 wit_sym_mem 0x180 = 1" "read_u32 wit_sym_mem 0x184 = 2" by (simp_all add: wit_read)
  then show "h_nbucket wit_sysv = 1" "h_nchain wit_sysv = 2" "h_buckets wit_sysv = 0x188" "h_chains wit_sysv = 0x18C"
    by (simp_all add: wit_sysv_def elf_hash_parse_def Let_def)
qed

lemma wit_names:
  assumes "st_symtab T = 0x200" and "st_strtab T = 0x300"
  shows "sym_name_at wit_sym_mem T 0 = Some []" and "sym_name_at wit_sym_mem T 1 = Some [0x61]"
proof -
  have b: "wit_sym_mem 0x300 = 0" "wit_sym_mem 0x301 = 0x61" "wit_sym_mem 0x302 = 0" by (simp_all add: wit_read)
  have c: "cstr wit_sym_mem 0x300 = Some []" "cstr wit_sym_mem 0x301 = Some [0x61]"
    using b cstr_zero [of wit_sym_mem "0x300"] cstr_zero [of wit_sym_mem "0x302"]
      cstr_step [of wit_sym_mem "0x301"] by simp_all
  have n: "sym_name (sym_at wit_sym_mem 0x200) = 0" "sym_name (sym_at wit_sym_mem 0x218) = 1"
    by (simp_all add: sym_at_def wit_read)
  have p: "sym_ptr T (of_nat 0) = 0x200" "sym_ptr T (of_nat 1) = 0x218"
    by (simp_all add: sym_ptr_def assms(1) size_sym_def)
  show "sym_name_at wit_sym_mem T 0 = Some []" "sym_name_at wit_sym_mem T 1 = Some [0x61]"
    unfolding sym_name_at_def p st_name_def n assms(2) using c by simp_all
qed

lemma range_1_2: "{1..<2::nat} = {1}"
  by auto

lemma wit_gnu_wf: "gnu_wf wit_sym_mem wit_gnu_tab wit_gnu 2"
proof -
  have h: "name_gnu_hash [0x61] = 0x2B606" by (simp add: name_gnu_hash_def gnu_hash_def gnu_hash_step_def)
  have w: "gnu_chain_word wit_sym_mem wit_gnu 1 = 0x2B607"
    by (simp add: gnu_chain_word_def chain_ptr_def wit_gnu_simps wit_read)
  have b: "gnu_bucket wit_sym_mem wit_gnu 0 = 1" by (simp add: gnu_bucket_def wit_gnu_simps wit_read)
  have bl: "gnu_bloom_word wit_sym_mem wit_gnu 0x2B606 = 0x1000040"
    by (simp add: gnu_bloom_word_def wit_gnu_simps wit_read)
  have bits: "bit (0x1000040 :: u64) 6" "bit (0x1000040 :: u64) 24" by simp_all
  have n: "sym_name_at wit_sym_mem wit_gnu_tab 1 = Some [0x61]" by (rule wit_names) (simp_all add: wit_gnu_tab_def)
  show ?thesis
    unfolding gnu_wf_def Let_def
  proof (intro conjI allI impI)
    fix i assume "unat (gh_symbias (g_header wit_gnu)) \<le> i \<and> i < 2"
    then have i: "i = 1" by (simp add: wit_gnu_simps)
    show "\<exists>name. sym_name_at wit_sym_mem wit_gnu_tab i = Some name \<and>
        gnu_chain_word wit_sym_mem wit_gnu i OR 1 = name_gnu_hash name OR 1 \<and>
        bit (gnu_bloom_word wit_sym_mem wit_gnu (name_gnu_hash name)) (unat (name_gnu_hash name) mod 64) \<and>
        bit (gnu_bloom_word wit_sym_mem wit_gnu (name_gnu_hash name))
          (unat (drop_bit (unat (gh_nshift (g_header wit_gnu)) mod 32) (name_gnu_hash name)) mod 64) \<and>
        0 < gnu_bucket wit_sym_mem wit_gnu (unat (name_gnu_hash name) mod unat (gh_nbucket (g_header wit_gnu))) \<and>
        gnu_bucket wit_sym_mem wit_gnu (unat (name_gnu_hash name) mod unat (gh_nbucket (g_header wit_gnu))) \<le> i \<and>
        (\<forall>j. gnu_bucket wit_sym_mem wit_gnu (unat (name_gnu_hash name) mod unat (gh_nbucket (g_header wit_gnu))) \<le> j \<and> j < i \<longrightarrow>
           gnu_chain_word wit_sym_mem wit_gnu j AND 1 = 0)"
      by (rule exI [of _ "[0x61]"]) (simp add: i n [simplified] h w [simplified] b bl bits wit_gnu_simps)
  qed (use w b in \<open>auto simp: wit_gnu_simps intro!: exI [of _ 1]\<close>)
qed

lemma wit_sysv_wf: "elf_wf wit_sym_mem wit_sysv_tab wit_sysv 2"
proof -
  have b: "elf_bucket wit_sym_mem wit_sysv 0 = 1" by (simp add: elf_bucket_def wit_sysv_simps wit_read)
  have nx: "elf_next wit_sym_mem wit_sysv 1 = 0" by (simp add: elf_next_def wit_sysv_simps wit_read)
  have p: "elf_path wit_sym_mem wit_sysv 2 1 = Some [1]" using nx by (simp add: numeral_2_eq_2)
  have n: "sym_name_at wit_sym_mem wit_sysv_tab 1 = Some [0x61]" by (rule wit_names) (simp_all add: wit_sysv_tab_def)
  show ?thesis unfolding elf_wf_def Let_def range_1_2 using b p n by (auto simp: wit_sysv_simps)
qed

lemma wit_hb_ok: "hashbrown_ok wit_hb"
  by (auto simp: hashbrown_ok_def wit_hb_def find_Some_iff find_None_iff split: option.split dest: nth_mem)

section \<open>Properties\<close>

text \<open>
  C4. GNU hash lookup is linear search. On a well-formed GNU table, the lookup with filter, bucket
  and chain returns, for every name, exactly the first symbol of the hashed range that has the name.
\<close>

theorem gnu_lookup_is_linear_search:
  assumes "st_hashtab T = Gnu H" and "gnu_wf m T H n"
  shows "lookup_by_name HB m T name = Inr (linear_search m T name (unat (gh_symbias (g_header H))) n)"
proof -
  let ?info = "info_of name"
  have "decided m T ?info {unat (gh_symbias (g_header H))..<n}"
    using gnu_wf_names [OF assms(2)] by (intro decided_unversioned) simp_all
  from gnu_lookup_first_match [OF assms pc_ok_precompute this] obtain r where
    r: "gnu_lookup m T ?info (precompute ?info) = Inr (r, precompute ?info)"
    "first_match m T ?info (unat (gh_symbias (g_header H))) n r" by blast
  from first_match_linear_search [OF r(2)] r(1) show ?thesis
    by (simp add: lookup_by_name_alt symtab_lookup_def hash_lookup_def assms(1))
qed

theorem gnu_lookup_is_linear_search_witness:
  "lookup_by_name wit_hb wit_sym_mem wit_gnu_tab [0x61] = Inr (linear_search wit_sym_mem wit_gnu_tab [0x61] 1 2)"
  using gnu_lookup_is_linear_search [OF _ wit_gnu_wf, of wit_hb "[0x61]"]
  by (simp add: wit_gnu_tab_def wit_gnu_simps)

text \<open>
  C5. Lookup is sound and complete, for every table format. On a well-formed table the lookup of a
  name returns; a symbol it returns is in the table and has the name, and it returns none only when
  no symbol of the table has the name.
\<close>

theorem lookup_sound_complete:
  assumes "symtab_wf HB m T I"
  shows "\<exists>r. lookup_by_name HB m T name = Inr r \<and>
     (\<forall>p. r = Some p \<longrightarrow> (\<exists>i \<in> I. p = sym_ptr T (of_nat i) \<and> sym_name_at m T i = Some name)) \<and>
     (r = None \<longrightarrow> (\<forall>i \<in> I. sym_name_at m T i \<noteq> Some name))"
proof -
  let ?info = "info_of name"
  have dec: "decided m T ?info I" using symtab_wf_names [OF assms] by (intro decided_unversioned) simp_all
  note hyps = assms pc_ok_precompute dec
  have um: "matches m T ?info i \<longleftrightarrow> sym_name_at m T i = Some name" for i by (simp add: matches_unversioned)
  from symtab.lookup_returns [OF hyps] obtain r pc' where
    l: "symtab_lookup HB m T ?info (precompute ?info) = Inr (r, pc')" by blast
  have "\<exists>i \<in> I. p = sym_ptr T (of_nat i) \<and> sym_name_at m T i = Some name" if "r = Some p" for p
    using symtab.lookup_Some [OF hyps l [unfolded that]] unfolding um .
  moreover have "sym_name_at m T i \<noteq> Some name" if "r = None" "i \<in> I" for i
    using symtab.lookup_None [OF hyps l [unfolded that(1)] that(2)] unfolding um .
  ultimately show ?thesis using l by (auto simp: lookup_by_name_alt)
qed

theorem lookup_sound_complete_witness:
  "\<exists>r. lookup_by_name wit_hb wit_sym_mem wit_sysv_tab [0x61] = Inr r \<and> r \<noteq> None"
proof -
  have "symtab_wf wit_hb wit_sym_mem wit_sysv_tab {1..<2}"
    using wit_sysv_wf by (auto simp: symtab_wf_def elf_table_wf_def wit_sysv_tab_def)
  moreover have "sym_name_at wit_sym_mem wit_sysv_tab 1 = Some [0x61]"
    by (rule wit_names) (simp_all add: wit_sysv_tab_def)
  ultimately show ?thesis
    using lookup_sound_complete [of wit_hb wit_sym_mem wit_sysv_tab "{1..<2}" "[0x61]"] by (auto simp: range_1_2)
qed

text \<open>The answer for a name that exactly one symbol has, and for a name that none has.\<close>

lemma lookup_by_name_unique:
  assumes wf: "symtab_wf HB m T I" and "i \<in> I" "sym_name_at m T i = Some name"
    and "\<And>j. j \<in> I \<Longrightarrow> sym_name_at m T j = Some name \<Longrightarrow> j = i"
  shows "lookup_by_name HB m T name = Inr (Some (sym_ptr T (of_nat i)))"
proof -
  have um: "matches m T (info_of name) i \<longleftrightarrow> sym_name_at m T i = Some name" for i by (simp add: matches_unversioned)
  have dec: "decided m T (info_of name) I" using symtab_wf_names [OF wf] by (intro decided_unversioned) simp_all
  from symtab.lookup_unique [OF wf pc_ok_precompute dec assms(2)] assms(3,4) show ?thesis
    unfolding um by (auto simp: lookup_by_name_alt)
qed

lemma lookup_by_name_absent:
  assumes wf: "symtab_wf HB m T I" and none: "\<And>i. i \<in> I \<Longrightarrow> sym_name_at m T i \<noteq> Some name"
  shows "lookup_by_name HB m T name = Inr None"
proof -
  have dec: "decided m T (info_of name) I" using symtab_wf_names [OF wf] by (intro decided_unversioned) simp_all
  from symtab.lookup_returns [OF wf pc_ok_precompute dec] obtain r pc' where
    l: "symtab_lookup HB m T (info_of name) (precompute (info_of name)) = Inr (r, pc')" by blast
  have "r = None"
    using symtab.lookup_Some [OF wf pc_ok_precompute dec, of _ pc'] l none by (cases r) (auto simp: matches_unversioned)
  with l show ?thesis by (simp add: lookup_by_name_alt)
qed

text \<open>
  The formats agree. Two well-formed tables over the same symbols and strings, of whatever
  formats, give the same answer for every name that at most one symbol has.
\<close>

lemma lookup_formats_agree:
  assumes "symtab_wf HB m T I" and "symtab_wf HB m T' I"
    and "st_symtab T = st_symtab T'" and "st_strtab T = st_strtab T'"
    and "\<forall>i \<in> I. \<forall>j \<in> I. sym_name_at m T i = Some name \<and> sym_name_at m T j = Some name \<longrightarrow> i = j"
  shows "lookup_by_name HB m T name = lookup_by_name HB m T' name"
proof -
  have ptr: "sym_ptr T' i = sym_ptr T i" for i by (simp add: sym_ptr_def assms(3))
  have nm: "sym_name_at m T' i = sym_name_at m T i" for i by (simp add: sym_name_at_def ptr assms(4))
  show ?thesis
  proof (cases "\<exists>i \<in> I. sym_name_at m T i = Some name")
    case True
    then obtain i where i: "i \<in> I" "sym_name_at m T i = Some name" by blast
    have "j = i" if "j \<in> I" "sym_name_at m T j = Some name" for j using that i assms(5) by blast
    with lookup_by_name_unique [OF assms(1) i] lookup_by_name_unique [OF assms(2) i(1), unfolded nm, OF i(2)]
    show ?thesis by (simp add: ptr)
  next
    case False
    then show ?thesis using lookup_by_name_absent [OF assms(1)] lookup_by_name_absent [OF assms(2), unfolded nm] by simp
  qed
qed

text \<open>
  Filtered lookup. What \<^verbatim>\<open>lookup_filter\<close> returns is what the plain lookup
  returns, when that symbol is defined and its binding and type are among those that can be linked
  against; otherwise it returns none.
\<close>

lemma lookup_filter_correct:
  assumes "symtab_lookup HB m T info pc = Inr (r, pc')"
  shows "lookup_filter HB m T info pc =
    Inr (case r of
        None \<Rightarrow> None
      | Some p \<Rightarrow>
          if sym_shndx (sym_at m p) \<noteq> SHN_UNDEF \<and>
             st_bind (sym_at m p) \<in> {STB_GLOBAL, STB_WEAK, STB_GNU_UNIQUE} \<and>
             st_type (sym_at m p) \<in> {STT_NOTYPE, STT_OBJECT, STT_FUNC, STT_COMMON, STT_TLS, STT_GNU_IFUNC}
          then Some p else None, pc')"
proof -
  have "is_undef s \<longleftrightarrow> sym_shndx s = SHN_UNDEF" for s
  proof -
    have "unat (ucast (sym_shndx s) :: usize) = unat (sym_shndx s)"
    proof -
      have "unat (sym_shndx s) < 2 ^ 16" using unsigned_less [of "sym_shndx s"] by simp
      then have "unat (sym_shndx s) < 2 ^ 64" by simp
      then show ?thesis by (simp add: unsigned_ucast_eq take_bit_nat_eq_self)
    qed
    then show ?thesis by (simp add: is_undef_def st_shndx_def SHN_UNDEF_def word_unat_eq_iff)
  qed
  with assms show ?thesis
    by (simp add: lookup_filter_def Let_def is_ok_bind_iff is_ok_type_iff split: option.split)
qed

text \<open>
  C26. Symbols of a relocatable object. For a symbol table section with an entry size and a linked
  string table whose names end, building the symbol table returns, and lookup on it finds, by name,
  exactly the symbols that are not file names.
\<close>

theorem relocatable_symtab_lookup:
  assumes "hashbrown_ok HB" and "sh_entsize symtab \<noteq> 0" and "unat (sh_link symtab) < length shdrs"
    and "\<forall>i \<in> non_file m symtab.
      entry_name m (sh_addr (shdrs ! unat (sh_link symtab))) (sh_addr symtab + of_nat (i * size_sym)) \<noteq> None"
  shows "\<exists>T r. symtab_from_shdrs HB m symtab shdrs = Inr T \<and> lookup_by_name HB m T name = Inr r \<and>
     (\<forall>p. r = Some p \<longrightarrow>
        (\<exists>i \<in> non_file m symtab. p = sym_ptr T (of_nat i) \<and> sym_name_at m T i = Some name)) \<and>
     (r = None \<longrightarrow> (\<forall>i \<in> non_file m symtab. sym_name_at m T i \<noteq> Some name))"
proof -
  from symtab_from_shdrs_wf [OF assms(1-3)] assms(4) obtain T where
    T: "symtab_from_shdrs HB m symtab shdrs = Inr T" and wf: "symtab_wf HB m T (non_file m symtab)" by blast
  let ?info = "info_of name" and ?I = "non_file m symtab"
  have dec: "decided m T ?info ?I" using symtab_wf_names [OF wf] by (intro decided_unversioned) simp_all
  have um: "matches m T ?info i \<longleftrightarrow> sym_name_at m T i = Some name" for i by (simp add: matches_unversioned)
  note hyps = wf pc_ok_precompute dec
  from symtab.lookup_returns [OF hyps] obtain r pc' where
    l: "symtab_lookup HB m T ?info (precompute ?info) = Inr (r, pc')" by blast
  have "\<forall>p. r = Some p \<longrightarrow> (\<exists>i \<in> ?I. p = sym_ptr T (of_nat i) \<and> sym_name_at m T i = Some name)"
    using symtab.lookup_Some [OF hyps] l unfolding um by blast
  moreover have "r = None \<longrightarrow> (\<forall>i \<in> ?I. sym_name_at m T i \<noteq> Some name)"
    using symtab.lookup_None [OF hyps] l unfolding um by blast
  ultimately show ?thesis using T l by (auto simp: lookup_by_name_alt)
qed

theorem relocatable_symtab_lookup_witness:
  "\<exists>T r. symtab_from_shdrs wit_hb wit_sym_mem wit_symtab_shdr [wit_symtab_shdr, wit_strtab_shdr] = Inr T \<and>
     lookup_by_name wit_hb wit_sym_mem T [0x61] = Inr r"
proof -
  let ?sh = "wit_symtab_shdr" and ?T = "wit_gnu_tab\<lparr>st_symtab := 0x200\<rparr>"
  have c: "cstr wit_sym_mem 0x300 = Some []" "cstr wit_sym_mem 0x301 = Some [0x61]"
    using cstr_zero [of wit_sym_mem "0x300"] cstr_zero [of wit_sym_mem "0x302"]
      cstr_step [of wit_sym_mem "0x301"] by (simp_all add: wit_read)
  have n: "st_name (sym_at wit_sym_mem 0x200) = 0" "st_name (sym_at wit_sym_mem 0x218) = 1"
    by (simp_all add: sym_at_def st_name_def wit_read)
  have e: "entry_name wit_sym_mem 0x300 (0x200 + of_nat (i * size_sym)) \<noteq> None" if "i < 2" for i
  proof -
    from that consider "i = 0" | "i = 1" by linarith
    then show ?thesis by cases (simp_all add: entry_name_def size_sym_def n c)
  qed
  have k: "i < 2" if "i \<in> non_file wit_sym_mem ?sh" for i
    using that by (simp add: non_file_def entry_count_def wit_symtab_shdr_def shdr_new_def)
  have "\<exists>T r. symtab_from_shdrs wit_hb wit_sym_mem ?sh [?sh, wit_strtab_shdr] = Inr T \<and>
     lookup_by_name wit_hb wit_sym_mem T [0x61] = Inr r \<and>
     (\<forall>p. r = Some p \<longrightarrow>
        (\<exists>i \<in> non_file wit_sym_mem ?sh. p = sym_ptr T (of_nat i) \<and> sym_name_at wit_sym_mem T i = Some [0x61])) \<and>
     (r = None \<longrightarrow> (\<forall>i \<in> non_file wit_sym_mem ?sh. sym_name_at wit_sym_mem T i \<noteq> Some [0x61]))"
    by (rule relocatable_symtab_lookup [OF wit_hb_ok])
      (use e k in \<open>simp_all add: wit_symtab_shdr_def wit_strtab_shdr_def shdr_new_def\<close>)
  then show ?thesis by blast
qed

lemma gnu_max_bucket_empty:
  assumes "gnu_wf m T H n" and "n \<le> unat (gh_symbias (g_header H))"
  shows "gnu_max_bucket m H = 0"
proof -
  let ?nb = "unat (gh_nbucket (g_header H))"
  have zero: "read_u32 m (g_buckets H + of_nat (i * 4)) = 0" if "i < ?nb" for i
  proof (rule ccontr)
    assume "read_u32 m (g_buckets H + of_nat (i * 4)) \<noteq> 0"
    then have "0 < gnu_bucket m H i" by (simp add: gnu_bucket_def word_unat_eq_iff)
    with assms(1) that obtain k where "unat (gh_symbias (g_header H)) \<le> k" "k < n"
      unfolding gnu_wf_def Let_def by (meson order_trans)
    with assms(2) show False by simp
  qed
  have "foldl (\<lambda>nsym i. max nsym (ucast (read_u32 m (g_buckets H + of_nat (i * 4))))) (0 :: usize) xs = 0"
    if "\<forall>i \<in> set xs. i < ?nb" for xs
    using that zero by (induction xs) simp_all
  then show ?thesis by (simp add: gnu_max_bucket_def)
qed

text \<open>
  C27. Counting. \<^verbatim>\<open>count_syms\<close> of a well-formed GNU table of \<open>n\<close> symbols returns \<open>n\<close>
  when some of them are hashed, found by walking the chain of the highest bucket to its end. When
  none is hashed, all of them being below \<^verbatim>\<open>symbias\<close>, it returns 1, whatever their
  number.
\<close>

theorem gnu_count_syms_correct:
  assumes "gnu_wf m T H n"
  shows "gnu_count_syms m H = Inr (if unat (gh_symbias (g_header H)) < n then of_nat n else 1)"
proof (cases "unat (gh_symbias (g_header H)) < n")
  case True
  obtain b where b: "gnu_max_bucket m H = of_nat b" "0 < b" "b < n" "n < 2 ^ 32"
    and even: "\<And>j. b \<le> j \<Longrightarrow> j < n - 1 \<Longrightarrow> gnu_chain_word m H j AND 1 = 0"
    and odd: "gnu_chain_word m H (n - 1) AND 1 \<noteq> 0"
    using gnu_max_bucket_last [OF assms True] by metis
  have pos: "(0 :: usize) < of_nat b" using b by (simp add: word_less_nat_alt)
  have "gnu_count_loop m (chain_ptr H b) (of_nat b) = Some (of_nat (n - 1))"
    by (rule gnu_count_loop_ends [OF even odd]) (use b in auto)
  with b pos True show ?thesis
    by (simp add: gnu_count_syms_def Let_def chain_ptr_def of_nat_diff)
next
  case False
  with gnu_max_bucket_empty [OF assms] show ?thesis by (simp add: gnu_count_syms_def)
qed

theorem gnu_count_syms_correct_witness:
  "gnu_count_syms wit_sym_mem wit_gnu = Inr 2 \<and>
   gnu_count_syms (\<lambda>_. 0) \<lparr>g_header = \<lparr>gh_nbucket = 1, gh_symbias = 3, gh_nbloom = 1, gh_nshift = 0\<rparr>,
     g_blooms = 0x10, g_buckets = 0x18, g_chains = 0x1C\<rparr> = Inr 1"
proof -
  let ?H = "\<lparr>g_header = \<lparr>gh_nbucket = 1, gh_symbias = 3, gh_nbloom = 1, gh_nshift = 0\<rparr>,
     g_blooms = 0x10, g_buckets = 0x18, g_chains = 0x1C\<rparr>"
  have "gnu_wf (\<lambda>_. 0) wit_gnu_tab ?H 3"
    by (simp add: gnu_wf_def gnu_bucket_def read_le_def read_bytes_def upt_rec)
  from gnu_count_syms_correct [OF this] gnu_count_syms_correct [OF wit_gnu_wf] show ?thesis
    by (simp add: wit_gnu_simps)
qed

end
