(* ===== verification/Reloc_Core.thy ===== *)
theory Reloc_Core
  imports Hash_Lookup
begin

text \<open>
  What the relocators share: the loaded modules of \<^verbatim>\<open>src/src/image/common/core.rs\<close>,
  symbol resolution and relocation values of \<^verbatim>\<open>src/src/relocation/utils.rs\<close>, the
  context and handlers of \<^verbatim>\<open>src/src/relocation/traits.rs\<close>, and the constants of
  \<^verbatim>\<open>src/src/arch/x86_64.rs\<close>. Code of the user of the library and of the loaded
  modules is a parameter: lookup closures, relocation handlers, IFUNC resolvers, constructor
  handlers. They act on a state of their own and on the process image.
\<close>

section \<open>Constants of the target\<close>

definition TLS_DTV_OFFSET :: usize where "TLS_DTV_OFFSET = 0"
definition REL_RELATIVE :: u32 where "REL_RELATIVE = R_X86_64_RELATIVE"
definition REL_GOT :: u32 where "REL_GOT = R_X86_64_GLOB_DAT"
definition REL_DTPMOD :: u32 where "REL_DTPMOD = R_X86_64_DTPMOD64"
definition REL_SYMBOLIC :: u32 where "REL_SYMBOLIC = R_X86_64_64"
definition REL_JUMP_SLOT :: u32 where "REL_JUMP_SLOT = R_X86_64_JUMP_SLOT"
definition REL_DTPOFF :: u32 where "REL_DTPOFF = R_X86_64_DTPOFF64"
definition REL_IRELATIVE :: u32 where "REL_IRELATIVE = R_X86_64_IRELATIVE"
definition REL_COPY :: u32 where "REL_COPY = R_X86_64_COPY"
definition REL_TPOFF :: u32 where "REL_TPOFF = R_X86_64_TPOFF64"
definition REL_NONE :: u32 where "REL_NONE = 0"
definition DYLIB_OFFSET :: usize where "DYLIB_OFFSET = 1"
definition RESOLVE_FUNCTION_OFFSET :: usize where "RESOLVE_FUNCTION_OFFSET = 2"

lemmas rel_consts = REL_RELATIVE_def REL_GOT_def REL_DTPMOD_def REL_SYMBOLIC_def REL_JUMP_SLOT_def
  REL_DTPOFF_def REL_IRELATIVE_def REL_COPY_def REL_TPOFF_def REL_NONE_def abi

definition rel_type_to_str :: "usize \<Rightarrow> string" where
  "rel_type_to_str ty =
     (let t = ucast ty :: u32 in
      if t = R_X86_64_NONE then ''R_X86_64_NONE''
      else if t = R_X86_64_64 then ''R_X86_64_64''
      else if t = R_X86_64_PC32 then ''R_X86_64_PC32''
      else if t = R_X86_64_GOT32 then ''R_X86_64_GOT32''
      else if t = R_X86_64_PLT32 then ''R_X86_64_PLT32''
      else if t = R_X86_64_COPY then ''R_X86_64_COPY''
      else if t = R_X86_64_GLOB_DAT then ''R_X86_64_GLOB_DAT''
      else if t = R_X86_64_JUMP_SLOT then ''R_X86_64_JUMP_SLOT''
      else if t = R_X86_64_RELATIVE then ''R_X86_64_RELATIVE''
      else if t = R_X86_64_GOTPCREL then ''R_X86_64_GOTPCREL''
      else if t = R_X86_64_32 then ''R_X86_64_32''
      else if t = R_X86_64_32S then ''R_X86_64_32S''
      else if t = R_X86_64_IRELATIVE then ''R_X86_64_IRELATIVE''
      else ''UNKNOWN'')"

section \<open>Modules\<close>

text \<open>
  \<open>c_addr\<close> is the address of the shared \<^verbatim>\<open>CoreInner\<close>, which identifies the module.
\<close>

record elf_core =
  c_addr :: usize
  c_name :: string
  c_symtab :: symbol_table
  c_segments :: elf_segments

datatype loaded_core = LoadedCore (lc_core: elf_core) (lc_deps: "loaded_core list")

definition from_core :: "elf_core \<Rightarrow> loaded_core" where
  "from_core c = LoadedCore c []"

definition from_core_deps :: "elf_core \<Rightarrow> loaded_core list \<Rightarrow> loaded_core" where
  "from_core_deps c deps = LoadedCore c deps"

abbreviation core_base :: "elf_core \<Rightarrow> usize" where
  "core_base c \<equiv> base_of (c_segments c)"

text \<open>Bytes of a name as a string.\<close>

definition str_of :: "bytes \<Rightarrow> string" where
  "str_of bs = map (\<lambda>b. char_of (unat b)) bs"

section \<open>The environment and the state of a relocation\<close>

record 's ext =
  x_hb :: hashbrown
  x_mmap :: mmap_ops
  x_ifunc :: "usize \<Rightarrow> 's \<times> vm \<Rightarrow> usize \<times> 's \<times> vm"
  x_pre_find :: "bytes \<Rightarrow> usize option"
  x_post_find :: "bytes \<Rightarrow> usize option"
  x_pre_handler :: "rela \<Rightarrow> elf_core \<Rightarrow> loaded_core list \<Rightarrow> 's \<times> vm \<Rightarrow> usize option result option \<times> 's \<times> vm"
  x_post_handler :: "rela \<Rightarrow> elf_core \<Rightarrow> loaded_core list \<Rightarrow> 's \<times> vm \<Rightarrow> usize option result option \<times> 's \<times> vm"
  x_call :: "usize option \<Rightarrow> slice_ref option \<Rightarrow> 's \<times> vm \<Rightarrow> 's \<times> vm"
  x_resolve :: usize
  x_alive :: "usize \<Rightarrow> bool"

text \<open>\<^verbatim>\<open>LazyScope\<close>: weak references to libraries and the lookup the user supplied.\<close>

record lazy_scope =
  ls_libs :: "elf_core list"
  ls_custom :: "(bytes \<Rightarrow> usize option) option"

record 's rworld =
  rw_ext :: 's
  rw_vm :: vm
  rw_flags :: "bool list"
  rw_is_init :: bool
  rw_lazy_scope :: "lazy_scope option"

abbreviation rw_mem :: "('s, 'a) rworld_scheme \<Rightarrow> mem" where
  "rw_mem w \<equiv> vm_mem (rw_vm w)"

definition set_mem :: "mem \<Rightarrow> ('s, 'a) rworld_scheme \<Rightarrow> ('s, 'a) rworld_scheme" where
  "set_mem m w = w\<lparr>rw_vm := (rw_vm w)\<lparr>vm_mem := m\<rparr>\<rparr>"

text \<open>\<^verbatim>\<open>segments.write(offset, value)\<close> of a 64-bit value.\<close>

definition write64 :: "elf_segments \<Rightarrow> usize \<Rightarrow> u64 \<Rightarrow> ('s, 'a) rworld_scheme \<Rightarrow> ('s, 'a) rworld_scheme" where
  "write64 segs off v w = set_mem (seg_write64 segs (rw_mem w) off v) w"

text \<open>\<^verbatim>\<open>dependency_flags[idx] = true\<close>, when there is an index.\<close>

definition set_flag :: "usize option \<Rightarrow> ('s, 'a) rworld_scheme \<Rightarrow> ('s, 'a) rworld_scheme result" where
  "set_flag idx w =
     (case idx of
        None \<Rightarrow> Inr w
      | Some i \<Rightarrow>
          if unat i < length (rw_flags w) then Inr (w\<lparr>rw_flags := (rw_flags w)[unat i := True]\<rparr>)
          else Inl (Panic ''index out of bounds''))"

section \<open>Handlers\<close>

definition run_handler ::
  "(rela \<Rightarrow> elf_core \<Rightarrow> loaded_core list \<Rightarrow> 's \<times> vm \<Rightarrow> usize option result option \<times> 's \<times> vm) \<Rightarrow>
     rela \<Rightarrow> elf_core \<Rightarrow> loaded_core list \<Rightarrow> 's rworld \<Rightarrow> (bool \<times> 's rworld) result" where
  "run_handler h rel core scope w =
     (let (opt, s, v) = h rel core scope (rw_ext w, rw_vm w);
          w1 = w\<lparr>rw_ext := s, rw_vm := v\<rparr>
      in case opt of
           None \<Rightarrow> Inr (True, w1)
         | Some r \<Rightarrow> res_bind r (\<lambda>idx. res_bind (set_flag idx w1) (\<lambda>w2. Inr (False, w2))))"

definition handle_pre :: "'s ext \<Rightarrow> rela \<Rightarrow> elf_core \<Rightarrow> loaded_core list \<Rightarrow> 's rworld \<Rightarrow> (bool \<times> 's rworld) result" where
  "handle_pre X rel core scope w = run_handler (x_pre_handler X) rel core scope w"

definition handle_post :: "'s ext \<Rightarrow> rela \<Rightarrow> elf_core \<Rightarrow> loaded_core list \<Rightarrow> 's rworld \<Rightarrow> (bool \<times> 's rworld) result" where
  "handle_post X rel core scope w = run_handler (x_post_handler X) rel core scope w"

section \<open>Relocation values\<close>

definition try_i32 :: "usize \<Rightarrow> u32 option" where
  "try_i32 v = (if - (2 ^ 31) \<le> sint v \<and> sint v < 2 ^ 31 then Some (ucast v) else None)"

definition try_u32 :: "usize \<Rightarrow> u32 option" where
  "try_u32 v = (if unat v < 2 ^ 32 then Some (ucast v) else None)"

section \<open>Symbol resolution\<close>

record sym_def =
  sd_sym :: "usize option"
  sd_lib :: elf_core

definition call_ifunc :: "'s ext \<Rightarrow> usize \<Rightarrow> 's rworld \<Rightarrow> usize \<times> 's rworld" where
  "call_ifunc X addr w =
     (let (r, s, v) = x_ifunc X addr (rw_ext w, rw_vm w) in (r, w\<lparr>rw_ext := s, rw_vm := v\<rparr>))"

definition convert :: "'s ext \<Rightarrow> sym_def \<Rightarrow> 's rworld \<Rightarrow> usize \<times> 's rworld" where
  "convert X d w =
     (case sd_sym d of
        Some p \<Rightarrow>
          (let base = core_base (sd_lib d);
               sym = sym_at (rw_mem w) p;
               addr = base + st_value sym
           in if st_type sym \<noteq> STT_GNU_IFUNC then (addr, w) else call_ifunc X addr w)
      | None \<Rightarrow> (0, w))"

definition resolve_ifunc :: "'s ext \<Rightarrow> usize \<Rightarrow> 's rworld \<Rightarrow> usize \<times> 's rworld" where
  "resolve_ifunc X addr w = call_ifunc X addr w"

definition find_weak :: "mem \<Rightarrow> elf_core \<Rightarrow> usize \<Rightarrow> sym_def option result" where
  "find_weak m lib dynsym =
     (let s = sym_at m dynsym in
      if is_weak s \<and> is_undef s
      then res_bind (rust_assert ''assertion failed: dynsym.st_value() == 0'' (st_value s = 0))
             (\<lambda>_. Inr (Some \<lparr>sd_sym = None, sd_lib = lib\<rparr>))
      else if st_value s \<noteq> 0 then Inr (Some \<lparr>sd_sym = Some dynsym, sd_lib = lib\<rparr>)
      else Inr None)"

text \<open>The search through the scope; the precomputed hashes pass from library to library.\<close>

fun scope_find ::
  "hashbrown \<Rightarrow> mem \<Rightarrow> elf_core \<Rightarrow> symbol_info \<Rightarrow> pre_compute \<Rightarrow> nat \<Rightarrow> loaded_core list \<Rightarrow>
     (sym_def \<times> usize option) option result" where
  "scope_find HB m core info pc i [] = Inr None"
| "scope_find HB m core info pc i (lib # libs) =
     res_bind (lookup_filter HB m (c_symtab (lc_core lib)) info pc) (\<lambda>(r, pc').
       case r of
         Some p \<Rightarrow>
           (let same = (c_addr (lc_core lib) = c_addr core)
            in Inr (Some (\<lparr>sd_sym = Some p, sd_lib = lc_core lib\<rparr>, if same then None else Some (of_nat i))))
       | None \<Rightarrow> scope_find HB m core info pc' (Suc i) libs)"

definition find_symdef_impl ::
  "hashbrown \<Rightarrow> mem \<Rightarrow> elf_core \<Rightarrow> loaded_core list \<Rightarrow> usize \<Rightarrow> symbol_info \<Rightarrow> (sym_def \<times> usize option) option result" where
  "find_symdef_impl HB m core scope sptr syminfo =
     (if is_local (sym_at m sptr) then Inr (Some (\<lparr>sd_sym = Some sptr, sd_lib = core\<rparr>, None))
      else res_bind (scope_find HB m core syminfo (precompute syminfo) 0 scope) (\<lambda>r.
        case r of
          Some x \<Rightarrow> Inr (Some x)
        | None \<Rightarrow> res_bind (find_weak m core sptr) (\<lambda>s. Inr (map_option (\<lambda>s. (s, None)) s))))"

text \<open>\<^verbatim>\<open>RelocationContext::find_symdef\<close>.\<close>

definition find_symdef ::
  "hashbrown \<Rightarrow> mem \<Rightarrow> elf_core \<Rightarrow> loaded_core list \<Rightarrow> usize \<Rightarrow> (sym_def \<times> usize option) option result" where
  "find_symdef HB m lib scope r_sym =
     res_bind (symbol_idx m (c_symtab lib) r_sym) (\<lambda>(sptr, syminfo). find_symdef_impl HB m lib scope sptr syminfo)"

definition find_symbol_addr ::
  "'s ext \<Rightarrow> elf_core \<Rightarrow> loaded_core list \<Rightarrow> usize \<Rightarrow> 's rworld \<Rightarrow>
     ((usize \<times> usize option) option \<times> 's rworld) result" where
  "find_symbol_addr X core scope r_sym w =
     res_bind (symbol_idx (rw_mem w) (c_symtab core) r_sym) (\<lambda>(dynsym, syminfo).
       case x_pre_find X (si_name syminfo) of
         Some addr \<Rightarrow> Inr (Some (addr, None), w)
       | None \<Rightarrow>
           res_bind (find_symdef_impl (x_hb X) (rw_mem w) core scope dynsym syminfo) (\<lambda>res.
             case res of
               Some (sdef, idx) \<Rightarrow> (let (a, w') = convert X sdef w in Inr (Some (a, idx), w'))
             | None \<Rightarrow>
                 (case x_post_find X (si_name syminfo) of
                    Some addr \<Rightarrow> Inr (Some (addr, None), w)
                  | None \<Rightarrow> Inr (None, w))))"

section \<open>Errors\<close>

definition reloc_error :: "mem \<Rightarrow> rela \<Rightarrow> string \<Rightarrow> elf_core \<Rightarrow> error result" where
  "reloc_error m rel err lib =
     (let r_type_str = rel_type_to_str (r_type rel); r_sym = r_symbol rel in
      if r_sym = 0
      then Inr (relocate_error (''file: '' @ c_name lib @ '', relocation type: '' @ r_type_str @
             '', no symbol, error: '' @ err))
      else res_bind (symbol_idx m (c_symtab lib) r_sym) (\<lambda>(_, info).
        Inr (relocate_error (''file: '' @ c_name lib @ '', relocation type: '' @ r_type_str @
             '', symbol name: '' @ str_of (si_name info) @ '', error: '' @ err))))"

definition fail_reloc :: "mem \<Rightarrow> rela \<Rightarrow> string \<Rightarrow> elf_core \<Rightarrow> 'a result" where
  "fail_reloc m rel err lib = res_bind (reloc_error m rel err lib) (\<lambda>e. Inl (Err e))"

section \<open>Lookup in a loaded module\<close>

definition loaded_get_info :: "'s ext \<Rightarrow> elf_core \<Rightarrow> symbol_info \<Rightarrow> 's rworld \<Rightarrow> (usize option \<times> 's rworld) result" where
  "loaded_get_info X core syminfo w =
     res_bind (lookup_filter (x_hb X) (rw_mem w) (c_symtab core) syminfo (precompute syminfo)) (\<lambda>(r, _).
       case r of
         None \<Rightarrow> Inr (None, w)
       | Some p \<Rightarrow> (let (a, w') = convert X \<lparr>sd_sym = Some p, sd_lib = core\<rparr> w in Inr (Some a, w')))"

definition loaded_get :: "'s ext \<Rightarrow> elf_core \<Rightarrow> bytes \<Rightarrow> 's rworld \<Rightarrow> (usize option \<times> 's rworld) result" where
  "loaded_get X core name w =
     res_bind (info_from_str name None) (\<lambda>syminfo. loaded_get_info X core syminfo w)"

definition loaded_get_version ::
  "'s ext \<Rightarrow> elf_core \<Rightarrow> bytes \<Rightarrow> bytes \<Rightarrow> 's rworld \<Rightarrow> (usize option \<times> 's rworld) result" where
  "loaded_get_version X core name version w =
     res_bind (info_from_str name (Some version)) (\<lambda>syminfo. loaded_get_info X core syminfo w)"

text \<open>\<^verbatim>\<open>LazyScope::lookup\<close>: the user's lookup first, then the libraries still alive, in order.\<close>

fun lazy_libs_lookup :: "'s ext \<Rightarrow> elf_core list \<Rightarrow> bytes \<Rightarrow> 's rworld \<Rightarrow> (usize option \<times> 's rworld) result" where
  "lazy_libs_lookup X [] name w = Inr (None, w)"
| "lazy_libs_lookup X (lib # libs) name w =
     (if x_alive X (c_addr lib)
      then res_bind (loaded_get X lib name w) (\<lambda>(r, w').
        case r of Some a \<Rightarrow> Inr (Some a, w') | None \<Rightarrow> lazy_libs_lookup X libs name w')
      else lazy_libs_lookup X libs name w)"

definition lazy_lookup :: "'s ext \<Rightarrow> lazy_scope \<Rightarrow> bytes \<Rightarrow> 's rworld \<Rightarrow> (usize option \<times> 's rworld) result" where
  "lazy_lookup X ls name w =
     (case (case ls_custom ls of None \<Rightarrow> None | Some f \<Rightarrow> f name) of
        Some a \<Rightarrow> Inr (Some a, w)
      | None \<Rightarrow> lazy_libs_lookup X (ls_libs ls) name w)"

section \<open>Lemmas\<close>

lemma rw_mem_set_mem [simp]: "rw_mem (set_mem m w) = m"
  by (simp add: set_mem_def)

lemma rw_flags_set_mem [simp]: "rw_flags (set_mem m w) = rw_flags w" "rw_flags (write64 s off v w) = rw_flags w"
  by (simp_all add: set_mem_def write64_def)

lemma rw_mem_write64: "rw_mem (write64 s off v w) = write_u64 (rw_mem w) (base_of s + off) v"
  by (simp add: write64_def seg_write64_def get_ptr_def)

lemma set_flag_spec:
  "set_flag idx w = Inr w' \<Longrightarrow>
     w' = w\<lparr>rw_flags := (case idx of None \<Rightarrow> rw_flags w | Some j \<Rightarrow> (rw_flags w)[unat j := True])\<rparr> \<and>
     (\<forall>j. idx = Some j \<longrightarrow> unat j < length (rw_flags w))"
  by (auto simp: set_flag_def split: option.splits if_splits)

end
