(* ===== verification/Reloc_Dynamic.thy ===== *)
theory Reloc_Dynamic
  imports Reloc_Core
begin

text \<open>
  \<^verbatim>\<open>src/src/relocation/dynamic.rs\<close>: relocation of dynamic images. The entries of a
  table are given by their addresses; an entry is read once, when its turn comes, since the source
  holds it by a shared reference.
\<close>

section \<open>Tables\<close>

datatype relative_rel = Rel "usize list" | Relr "usize list"

fun relative_is_empty :: "relative_rel \<Rightarrow> bool" where
  "relative_is_empty (Rel xs) = (xs = [])"
| "relative_is_empty (Relr xs) = (xs = [])"

record dynamic_relocation =
  dr_relative :: relative_rel
  dr_pltrel :: "usize list"
  dr_dynrel :: "usize list"

text \<open>The address after the last entry of a slice.\<close>

definition slice_end :: "slice_ref \<Rightarrow> usize" where
  "slice_end s = fst s + of_nat (length (snd s) * size_rela)"

text \<open>\<^verbatim>\<open>unwrap_or(&[])\<close>: the pointer of an empty slice literal is the alignment of its type.\<close>

definition or_empty :: "slice_ref option \<Rightarrow> slice_ref" where
  "or_empty x = (case x of None \<Rightarrow> (8, []) | Some s \<Rightarrow> s)"

definition dynamic_relocation_new ::
  "slice_ref option \<Rightarrow> slice_ref option \<Rightarrow> slice_ref option \<Rightarrow> usize option \<Rightarrow> dynamic_relocation result" where
  "dynamic_relocation_new plt_o dyn_o relr_o rela_count =
     (case relr_o of
        Some rs \<Rightarrow> Inr \<lparr>dr_relative = Relr (snd rs), dr_pltrel = snd (or_empty plt_o), dr_dynrel = snd (or_empty dyn_o)\<rparr>
      | None \<Rightarrow>
          (let nrelative = unat (or_zero rela_count); old_dynrel = or_empty dyn_o in
           if length (snd old_dynrel) < nrelative then Inl (Panic ''range end index out of range'')
           else
             let temp_dynrel = drop nrelative (snd old_dynrel); plt = or_empty plt_o in
             if slice_end old_dynrel = slice_end plt
             then if length temp_dynrel < length (snd plt) then Inl (Panic ''range end index out of range'')
                  else Inr \<lparr>dr_relative = Rel (take nrelative (snd old_dynrel)), dr_pltrel = snd plt,
                            dr_dynrel = take (length temp_dynrel - length (snd plt)) temp_dynrel\<rparr>
             else Inr \<lparr>dr_relative = Rel (take nrelative (snd old_dynrel)), dr_pltrel = snd plt,
                       dr_dynrel = temp_dynrel\<rparr>))"

definition reloc_is_empty :: "dynamic_relocation \<Rightarrow> bool" where
  "reloc_is_empty r \<longleftrightarrow> relative_is_empty (dr_relative r) \<and> dr_dynrel r = [] \<and> dr_pltrel r = []"

section \<open>The image\<close>

record dynamic_image =
  di_core :: elf_core
  di_relocation :: dynamic_relocation
  di_lazy :: bool
  di_got :: "usize option"
  di_relro :: "elf_relro option"
  di_needed :: "string list"
  di_pltrel :: "usize option"
  di_init_fn :: "usize option"
  di_init_array :: "slice_ref option"

section \<open>Relative relocations\<close>

definition relative_one :: "elf_segments \<Rightarrow> mem \<Rightarrow> usize \<Rightarrow> mem" where
  "relative_one segs m ptr =
     (let rel = rela_at m ptr; base = base_of segs
      in seg_write64 segs m (r_offset rel) (base + r_addend rel base))"

text \<open>\<^verbatim>\<open>ptr.write(base + ptr.read())\<close>.\<close>

definition add_base :: "usize \<Rightarrow> mem \<Rightarrow> usize \<Rightarrow> mem" where
  "add_base base m ptr = write_u64 m ptr (base + read_u64 m ptr)"

function relr_bitmap :: "usize \<Rightarrow> usize \<Rightarrow> mem \<Rightarrow> usize \<Rightarrow> nat \<Rightarrow> mem" where
  "relr_bitmap base reloc_addr m bitmap idx =
     (if bitmap = 0 then m
      else let bitmap = drop_bit 1 bitmap;
               m' = (if bitmap AND 1 \<noteq> 0 then add_base base m (reloc_addr + of_nat (idx * 8)) else m)
           in relr_bitmap base reloc_addr m' bitmap (Suc idx))"
  by pat_completeness auto
termination
proof (relation "measure (\<lambda>(base, a, m, bitmap, idx). unat bitmap)")
  fix base reloc_addr :: usize and m :: mem and bitmap x :: usize and idx xa
  assume "bitmap \<noteq> 0" and x: "x = drop_bit 1 bitmap"
  have "unat x = unat bitmap div 2"
    unfolding x unat_drop_bit_eq by (simp add: drop_bit_eq_div)
  with \<open>bitmap \<noteq> 0\<close> have "unat x < unat bitmap" by (simp add: unat_gt_0 div_less_dividend)
  then show "((base, reloc_addr, xa, x, Suc idx), base, reloc_addr, m, bitmap, idx)
      \<in> measure (\<lambda>(base, a, m, bitmap, idx). unat bitmap)" by simp
qed simp

declare relr_bitmap.simps [simp del]

definition relr_one :: "elf_segments \<Rightarrow> usize \<times> mem \<Rightarrow> usize \<Rightarrow> usize \<times> mem" where
  "relr_one segs st ptr =
     (let (reloc_addr, m) = st; value = relr_value (read_u64 m ptr); base = base_of segs in
      if value AND 1 = 0
      then let a = get_ptr segs value in (a + 8, add_base base m a)
      else (reloc_addr + 63 * 8, relr_bitmap base reloc_addr m value 0))"

definition relocate_relative :: "elf_core \<Rightarrow> dynamic_relocation \<Rightarrow> mem \<Rightarrow> mem result" where
  "relocate_relative core reloc m =
     (case dr_relative reloc of
        Rel rels \<Rightarrow>
          res_bind (rust_assert ''relative relocations first''
             (rels = [] \<or> r_type (rela_at m (hd rels)) = ucast REL_RELATIVE))
            (\<lambda>_. Inr (foldl (relative_one (c_segments core)) m rels))
      | Relr rs \<Rightarrow> Inr (snd (foldl (relr_one (c_segments core)) (0, m) rs)))"

section \<open>Dynamic relocations\<close>

definition unhandled :: "'s ext \<Rightarrow> rela \<Rightarrow> elf_core \<Rightarrow> loaded_core list \<Rightarrow> 's rworld \<Rightarrow> 's rworld result" where
  "unhandled X rel core scope w =
     res_bind (handle_post X rel core scope w) (\<lambda>(un, w').
       if un then fail_reloc (rw_mem w') rel ''Unhandled relocation'' core else Inr w')"

text \<open>The arms of the \<^verbatim>\<open>match\<close>: the boolean says that the entry is done.\<close>

definition dynrel_symbolic ::
  "'s ext \<Rightarrow> rela \<Rightarrow> elf_core \<Rightarrow> loaded_core list \<Rightarrow> 's rworld \<Rightarrow> (bool \<times> 's rworld) result" where
  "dynrel_symbolic X rel core scope w =
     res_bind (find_symbol_addr X core scope (r_symbol rel) w) (\<lambda>(r, w1).
       case r of
         Some (s, idx) \<Rightarrow> res_bind (set_flag idx w1) (\<lambda>w2.
           Inr (True, write64 (c_segments core) (r_offset rel) (s + r_addend rel (core_base core)) w2))
       | None \<Rightarrow> Inr (False, w1))"

definition dynrel_dtpoff ::
  "'s ext \<Rightarrow> rela \<Rightarrow> elf_core \<Rightarrow> loaded_core list \<Rightarrow> 's rworld \<Rightarrow> (bool \<times> 's rworld) result" where
  "dynrel_dtpoff X rel core scope w =
     res_bind (find_symdef (x_hb X) (rw_mem w) core scope (r_symbol rel)) (\<lambda>r.
       case r of
         Some (d, idx) \<Rightarrow> res_bind (set_flag idx w) (\<lambda>w1.
           res_bind (unwrap ''called `Option::unwrap()` on a `None` value'' (sd_sym d)) (\<lambda>p.
           let tls_val = st_value (sym_at (rw_mem w1) p) + r_addend rel (core_base core) - TLS_DTV_OFFSET
           in Inr (True, write64 (c_segments core) (r_offset rel) tls_val w1)))
       | None \<Rightarrow> Inr (False, w))"

definition dynrel_copy ::
  "'s ext \<Rightarrow> rela \<Rightarrow> elf_core \<Rightarrow> loaded_core list \<Rightarrow> 's rworld \<Rightarrow> (bool \<times> 's rworld) result" where
  "dynrel_copy X rel core scope w =
     res_bind (find_symdef (x_hb X) (rw_mem w) core scope (r_symbol rel)) (\<lambda>r.
       case r of
         Some (d, idx) \<Rightarrow>
           res_bind (symbol_idx (rw_mem w) (c_symtab core) (r_symbol rel)) (\<lambda>(sptr, _).
           let len = st_size (sym_at (rw_mem w) sptr) in
           res_bind (set_flag idx w) (\<lambda>w1.
           res_bind (unwrap ''called `Option::unwrap()` on a `None` value'' (sd_sym d)) (\<lambda>p.
           let dest = get_ptr (c_segments core) (r_offset rel);
               src = read_bytes (unat len) (rw_mem w1)
                       (get_ptr (c_segments (sd_lib d)) (st_value (sym_at (rw_mem w1) p)))
           in Inr (True, set_mem (write_bytes (rw_mem w1) dest src) w1))))
       | None \<Rightarrow> Inr (False, w))"

definition irelative :: "'s ext \<Rightarrow> rela \<Rightarrow> elf_core \<Rightarrow> 's rworld \<Rightarrow> 's rworld" where
  "irelative X rel core w =
     (let addr = core_base core + r_addend rel (core_base core);
          (v, w1) = resolve_ifunc X addr w
      in write64 (c_segments core) (r_offset rel) v w1)"

definition dynrel_arm ::
  "'s ext \<Rightarrow> rela \<Rightarrow> elf_core \<Rightarrow> loaded_core list \<Rightarrow> 's rworld \<Rightarrow> (bool \<times> 's rworld) result" where
  "dynrel_arm X rel core scope w =
     (let ty = ucast (r_type rel) :: u32 in
      if ty = REL_GOT \<or> ty = REL_SYMBOLIC then dynrel_symbolic X rel core scope w
      else if ty = REL_DTPOFF then dynrel_dtpoff X rel core scope w
      else if ty = REL_COPY then dynrel_copy X rel core scope w
      else if ty = REL_IRELATIVE then Inr (True, irelative X rel core w)
      else if ty = REL_NONE then Inr (True, w)
      else Inr (False, w))"

definition dynrel_one :: "'s ext \<Rightarrow> elf_core \<Rightarrow> loaded_core list \<Rightarrow> usize \<Rightarrow> 's rworld \<Rightarrow> 's rworld result" where
  "dynrel_one X core scope ptr w =
     (let rel = rela_at (rw_mem w) ptr in
      res_bind (handle_pre X rel core scope w) (\<lambda>(go, w1).
        if \<not> go then Inr w1
        else res_bind (dynrel_arm X rel core scope w1) (\<lambda>(dn, w2).
          if dn then Inr w2 else unhandled X rel core scope w2)))"

definition relocate_dynrel :: "'s ext \<Rightarrow> elf_core \<Rightarrow> dynamic_relocation \<Rightarrow> loaded_core list \<Rightarrow> 's rworld \<Rightarrow> 's rworld result" where
  "relocate_dynrel X core reloc scope w = res_fold (dynrel_one X core scope) (dr_dynrel reloc) w"

section \<open>PLT relocations\<close>

definition plt_jump_slot ::
  "'s ext \<Rightarrow> bool \<Rightarrow> rela \<Rightarrow> elf_core \<Rightarrow> loaded_core list \<Rightarrow> 's rworld \<Rightarrow> 's rworld result" where
  "plt_jump_slot X is_lazy rel core scope w =
     (if is_lazy
      then let addr = core_base core + r_offset rel;
               origin_val = read_u64 (rw_mem w) addr
           in Inr (set_mem (write_u64 (rw_mem w) addr (origin_val + core_base core)) w)
      else res_bind (find_symbol_addr X core scope (r_symbol rel) w) (\<lambda>(r, w1).
        case r of
          Some (s, idx) \<Rightarrow> res_bind (set_flag idx w1) (\<lambda>w2. Inr (write64 (c_segments core) (r_offset rel) s w2))
        | None \<Rightarrow> Inr w1))"

definition pltrel_one ::
  "'s ext \<Rightarrow> bool \<Rightarrow> elf_core \<Rightarrow> loaded_core list \<Rightarrow> usize \<Rightarrow> 's rworld \<Rightarrow> 's rworld result" where
  "pltrel_one X is_lazy core scope ptr w =
     (let rel = rela_at (rw_mem w) ptr; ty = ucast (r_type rel) :: u32 in
      res_bind (handle_pre X rel core scope w) (\<lambda>(go, w1).
        if \<not> go then Inr w1
        else if ty = REL_JUMP_SLOT then plt_jump_slot X is_lazy rel core scope w1
        else if ty = REL_IRELATIVE then Inr (irelative X rel core w1)
        else unhandled X rel core scope w1))"

definition prepare_lazy_bind :: "'s ext \<Rightarrow> usize \<Rightarrow> usize \<Rightarrow> mem \<Rightarrow> mem" where
  "prepare_lazy_bind X got dylib m =
     write_u64 (write_u64 m (got + DYLIB_OFFSET * 8) dylib) (got + RESOLVE_FUNCTION_OFFSET * 8) (x_resolve X)"

definition relocate_pltrel ::
  "'s ext \<Rightarrow> dynamic_image \<Rightarrow> bool \<Rightarrow> lazy_scope option \<Rightarrow> loaded_core list \<Rightarrow> 's rworld \<Rightarrow> 's rworld result" where
  "relocate_pltrel X img is_lazy lscope scope w =
     (let core = di_core img; reloc = di_relocation img in
      res_bind (res_fold (pltrel_one X is_lazy core scope) (dr_pltrel reloc) w) (\<lambda>w1.
      if is_lazy then
        res_bind (if dr_pltrel reloc \<noteq> []
                  then res_bind (unwrap ''called `Option::unwrap()` on a `None` value'' (di_got img)) (\<lambda>got.
                         Inr (set_mem (prepare_lazy_bind X got (c_addr core) (rw_mem w1)) w1))
                  else Inr w1) (\<lambda>w2.
        res_bind (rust_assert (c_name core @ '': lazy scope is not set'')
                    (dr_pltrel reloc = [] \<or> lscope \<noteq> None)) (\<lambda>_.
        Inr (case lscope of None \<Rightarrow> w2 | Some ls \<Rightarrow> w2\<lparr>rw_lazy_scope := Some ls\<rparr>)))
      else
        (case di_relro img of
           None \<Rightarrow> Inr w1
         | Some r \<Rightarrow> res_bind (relro (x_mmap X) r (rw_vm w1)) (\<lambda>v. Inr (w1\<lparr>rw_vm := v\<rparr>)))))"

section \<open>The whole relocation\<close>

text \<open>\<^verbatim>\<open>DynamicImage::finish\<close>: the module is marked initialised, then its constructors run.\<close>

definition finish :: "'s ext \<Rightarrow> dynamic_image \<Rightarrow> 's rworld \<Rightarrow> 's rworld" where
  "finish X img w =
     (let w1 = w\<lparr>rw_is_init := True\<rparr>;
          (s, v) = x_call X (di_init_fn img) (di_init_array img) (rw_ext w1, rw_vm w1)
      in w1\<lparr>rw_ext := s, rw_vm := v\<rparr>)"

definition make_lazy_scope ::
  "dynamic_image \<Rightarrow> bool \<Rightarrow> (bytes \<Rightarrow> usize option) option \<Rightarrow> loaded_core list \<Rightarrow> lazy_scope option" where
  "make_lazy_scope img is_lazy custom scope =
     (if is_lazy
      then Some \<lparr>ls_libs = (if custom = None
                   then map lc_core (filter (\<lambda>lib. c_name (lc_core lib) \<in> set (di_needed img)) scope) else []),
                 ls_custom = custom\<rparr>
      else None)"

definition collect_deps :: "dynamic_image \<Rightarrow> loaded_core list \<Rightarrow> bool list \<Rightarrow> loaded_core list" where
  "collect_deps img scope flags =
     map fst (filter (\<lambda>(lib, flag). flag \<or> c_name (lc_core lib) \<in> set (di_needed img)) (zip scope flags))"

definition relocate_impl ::
  "'s ext \<Rightarrow> dynamic_image \<Rightarrow> loaded_core list \<Rightarrow> bool option \<Rightarrow> (bytes \<Rightarrow> usize option) option \<Rightarrow> 's rworld \<Rightarrow>
     (loaded_core \<times> 's rworld) result" where
  "relocate_impl X img scope lazy custom w =
     (if reloc_is_empty (di_relocation img) then Inr (from_core (di_core img), w)
      else
        let is_lazy = (case lazy of None \<Rightarrow> di_lazy img | Some b \<Rightarrow> b);
            core = di_core img;
            w0 = w\<lparr>rw_flags := replicate (length scope) False\<rparr>
        in res_bind (relocate_relative core (di_relocation img) (rw_mem w0)) (\<lambda>m.
           res_bind (relocate_dynrel X core (di_relocation img) scope (set_mem m w0)) (\<lambda>w1.
           res_bind (relocate_pltrel X img is_lazy (make_lazy_scope img is_lazy custom scope) scope w1) (\<lambda>w2.
           let w3 = finish X img w2
           in Inr (from_core_deps core (collect_deps img scope (rw_flags w3)), w3)))))"

section \<open>Lazy binding at run time\<close>

definition dl_fixup :: "'s ext \<Rightarrow> dynamic_image \<Rightarrow> usize \<Rightarrow> 's rworld \<Rightarrow> (usize \<times> 's rworld) result" where
  "dl_fixup X img rela_idx w =
     res_bind (unwrap ''called `Option::unwrap()` on a `None` value'' (di_pltrel img)) (\<lambda>p.
     let core = di_core img;
         rel = rela_at (rw_mem w) (p + rela_idx * of_nat size_rela)
     in res_bind (rust_assert ''r_type == REL_JUMP_SLOT && r_sym != 0''
           (r_type rel = ucast REL_JUMP_SLOT \<and> r_symbol rel \<noteq> 0)) (\<lambda>_.
        res_bind (symbol_idx (rw_mem w) (c_symtab core) (r_symbol rel)) (\<lambda>(_, syminfo).
        res_bind (unwrap ''called `Option::unwrap()` on a `None` value'' (rw_lazy_scope w)) (\<lambda>ls.
        res_bind (lazy_lookup X ls (si_name syminfo) w) (\<lambda>(r, w1).
        res_bind (unwrap ''lazy bind fail'' r) (\<lambda>s.
        Inr (s, write64 (c_segments core) (r_offset rel) s w1)))))))"

end
