(* ===== verification/Reloc_Relative.thy ===== *)
theory Reloc_Relative
  imports Reloc_Dynamic
begin

text \<open>
  Relative relocations. The compact RELR table is decoded by a reference definition, the list of
  the addresses it names, and the loop with its bitmaps applies exactly those; a table of RELA
  entries stores base plus addend at every target. Both leave all other bytes as they are.
\<close>

section \<open>Disjoint words\<close>

definition words_apart :: "usize list \<Rightarrow> bool" where
  "words_apart ts \<longleftrightarrow> sorted_wrt (\<lambda>s t. disjoint_ranges s 8 t 8) ts"

lemma disjoint_ranges_sym: "disjoint_ranges a n b k \<longleftrightarrow> disjoint_ranges b k a n"
  by (auto simp: disjoint_ranges_def)

lemma disjoint_if:
  "unat (b - a) \<ge> n \<Longrightarrow> unat (a - b) \<ge> k \<Longrightarrow> n \<le> 2 ^ 63 \<Longrightarrow> k \<le> 2 ^ 63 \<Longrightarrow> disjoint_ranges a n b k"
proof -
  assume nk: "unat (b - a) \<ge> n" "unat (a - b) \<ge> k" "n \<le> 2 ^ 63" "k \<le> 2 ^ 63"
  have False if "in_range a n x" "in_range b k x" for x
  proof -
    define u v where "u = unat (x - a)" and "v = unat (x - b)"
    have uv: "u < n" "v < k" using that by (simp_all add: in_range_def u_def v_def)
    have x: "x = a + of_nat u" "x = b + of_nat v" by (simp_all add: u_def v_def)
    show False
    proof (cases "v \<le> u")
      case True
      with x have "b - a = of_nat (u - v)" by (simp add: of_nat_diff algebra_simps)
      moreover have "u - v < 2 ^ 64" using uv nk by simp
      ultimately show False using nk uv by simp
    next
      case False
      with x have "a - b = of_nat (v - u)" by (simp add: of_nat_diff algebra_simps)
      moreover have "v - u < 2 ^ 64" using uv nk by simp
      ultimately show False using nk uv by simp
    qed
  qed
  then show ?thesis by (auto simp: disjoint_ranges_def)
qed

lemma disjoint_sub:
  assumes "disjoint_ranges a n b k" and "j + l \<le> k" and "k \<le> 2 ^ 64"
  shows "disjoint_ranges a n (b + of_nat j) l"
proof -
  have "in_range b k x" if "in_range (b + of_nat j) l x" for x
    using that assms(2,3) in_range_shift [of j l b x] by (simp add: in_range_def)
  with assms(1) show ?thesis by (auto simp: disjoint_ranges_def)
qed

lemma rela_at_write:
  assumes "disjoint_ranges t 8 p 24"
  shows "rela_at (write_u64 m t v) p = rela_at m p"
proof -
  have d: "disjoint_ranges t 8 (p + of_nat j) 8" if "j + 8 \<le> 24" for j
    by (rule disjoint_sub [OF assms that]) simp
  have "disjoint_ranges t 8 p 8" "disjoint_ranges t 8 (p + 8) 8" "disjoint_ranges t 8 (p + 16) 8"
    using d [of 0] d [of 8] d [of 16] by simp_all
  then show ?thesis by (simp add: rela_at_def read_le_write_le_disjoint)
qed

section \<open>Adding the base\<close>

lemma read_add_base: "read_u64 (add_base base m t) t = base + read_u64 m t"
  by (simp add: add_base_def read_write_le)

lemma read_add_base_other:
  "disjoint_ranges t 8 p 8 \<Longrightarrow> read_u64 (add_base base m t) p = read_u64 m p"
  by (simp add: add_base_def read_le_write_le_disjoint)

lemma add_base_frame: "\<not> in_range t 8 x \<Longrightarrow> add_base base m t x = m x"
  by (simp add: add_base_def write_le_frame)

lemma read_fold_add_base_other:
  "(\<And>t. t \<in> set ts \<Longrightarrow> disjoint_ranges t 8 p 8) \<Longrightarrow> read_u64 (foldl (add_base base) m ts) p = read_u64 m p"
  by (induction ts arbitrary: m) (simp_all add: read_add_base_other)

lemma fold_add_base_frame:
  "(\<And>t. t \<in> set ts \<Longrightarrow> \<not> in_range t 8 x) \<Longrightarrow> foldl (add_base base) m ts x = m x"
  by (induction ts arbitrary: m) (simp_all add: add_base_frame)

lemma read_fold_add_base:
  assumes "words_apart ts" and "t \<in> set ts"
  shows "read_u64 (foldl (add_base base) m ts) t = base + read_u64 m t"
  using assms
proof (induction ts arbitrary: m)
  case Nil
  then show ?case by simp
next
  case (Cons s ts)
  then have apart: "\<And>u. u \<in> set ts \<Longrightarrow> disjoint_ranges s 8 u 8" and rest: "words_apart ts"
    by (auto simp: words_apart_def)
  show ?case
  proof (cases "t \<in> set ts")
    case True
    with Cons.IH [OF rest True] apart show ?thesis by (simp add: read_add_base_other)
  next
    case False
    with Cons.prems(2) have "t = s" by simp
    with apart show ?thesis
      by (simp add: read_fold_add_base_other disjoint_ranges_sym [of _ 8 s 8] read_add_base)
  qed
qed

section \<open>The compact format\<close>

text \<open>The addresses that the words \<open>vs\<close> name, when the running address is \<open>a\<close>.\<close>

fun relr_targets :: "elf_segments \<Rightarrow> usize \<Rightarrow> u64 list \<Rightarrow> usize list" where
  "relr_targets segs a [] = []"
| "relr_targets segs a (v # vs) =
     (if \<not> bit v 0 then get_ptr segs v # relr_targets segs (get_ptr segs v + 8) vs
      else map (\<lambda>i. a + of_nat ((i - 1) * 8)) (filter (bit v) [1..<64]) @ relr_targets segs (a + 63 * 8) vs)"

lemma bits_shift:
  fixes bm :: u64
  shows "filter (bit bm) [1..<64] = (if bit bm 1 then [1] else []) @ map Suc (filter (bit (drop_bit 1 bm)) [1..<64])"
proof -
  have "[1..<64] = 1 # map Suc [1..<63::nat]" by (simp add: map_Suc_upt upt_conv_Cons)
  then have "filter (bit bm) [1..<64] = (if bit bm 1 then [1] else []) @ map Suc (filter (bit bm \<circ> Suc) [1..<63])"
    by (simp only: filter.simps filter_map append.simps if_True if_False split: if_splits) simp
  moreover have "[1..<64] = [1..<63] @ [63::nat]"
    using upt_Suc_append [of 1 63] by (simp del: upt_rec_numeral upt_Suc)
  moreover have "\<not> bit (drop_bit 1 bm) 63" by (auto simp: bit_drop_bit_eq dest: bit_imp_le_length)
  moreover have "bit bm \<circ> Suc = bit (drop_bit 1 bm)" by (simp add: fun_eq_iff bit_drop_bit_eq)
  ultimately show ?thesis by (simp only: filter_append filter.simps if_False append_Nil2)
qed

lemma and_1_bit: "(w::'a::len word) AND 1 = 0 \<longleftrightarrow> \<not> bit w 0"
  by (simp add: and_one_eq bit_0 mod_2_eq_odd)

lemma relr_bitmap_targets:
  "relr_bitmap base a m bm idx =
     foldl (add_base base) m (map (\<lambda>i. a + of_nat ((idx + i - 1) * 8)) (filter (bit bm) [1..<64]))"
proof (induction base a m bm idx rule: relr_bitmap.induct)
  case (1 base a m bm idx)
  show ?case
  proof (cases "bm = 0")
    case True
    then show ?thesis by (simp add: relr_bitmap.simps)
  next
    case False
    let ?bm = "drop_bit 1 bm"
    let ?m = "if ?bm AND 1 \<noteq> 0 then add_base base m (a + of_nat (idx * 8)) else m"
    have b: "?bm AND 1 \<noteq> 0 \<longleftrightarrow> bit bm 1" by (simp only: and_1_bit bit_drop_bit_eq) simp
    have "relr_bitmap base a m bm idx = relr_bitmap base a ?m ?bm (Suc idx)"
      using False by (subst relr_bitmap.simps) (simp only: if_False Let_def)
    also have "\<dots> = foldl (add_base base) ?m (map (\<lambda>i. a + of_nat ((Suc idx + i - 1) * 8)) (filter (bit ?bm) [1..<64]))"
      by (rule 1 [OF False refl refl])
    also have "\<dots> = foldl (add_base base) m (map (\<lambda>i. a + of_nat ((idx + i - 1) * 8)) (filter (bit bm) [1..<64]))"
      unfolding bits_shift [of bm] b by (simp add: comp_def del: upt_rec_numeral)
    finally show ?thesis .
  qed
qed

lemma relr_one_value:
  "relr_one segs (a, m) p =
     (if \<not> bit (read_u64 m p) 0
      then (get_ptr segs (read_u64 m p) + 8, add_base (base_of segs) m (get_ptr segs (read_u64 m p)))
      else (a + 63 * 8, relr_bitmap (base_of segs) a m (read_u64 m p) 0))"
  by (simp add: relr_one_def relr_value_def Let_def and_1_bit)

text \<open>Applying the table is adding the base at its targets, when no target lies in the table.\<close>

lemma relr_fold_targets:
  assumes "\<And>t p. t \<in> set (relr_targets segs a (map (read_u64 m) ps)) \<Longrightarrow> p \<in> set ps \<Longrightarrow> disjoint_ranges t 8 p 8"
  shows "snd (foldl (relr_one segs) (a, m) ps) =
     foldl (add_base (base_of segs)) m (relr_targets segs a (map (read_u64 m) ps))"
  using assms
proof (induction ps arbitrary: a m)
  case Nil
  then show ?case by simp
next
  case (Cons p ps)
  define v where "v = read_u64 m p"
  define ts where "ts = (if \<not> bit v 0 then [get_ptr segs v]
    else map (\<lambda>i. a + of_nat ((i - 1) * 8)) (filter (bit v) [1..<64]))"
  define a' where "a' = (if \<not> bit v 0 then get_ptr segs v + 8 else a + 63 * 8)"
  let ?m = "foldl (add_base (base_of segs)) m ts"
  have one: "relr_one segs (a, m) p = (a', ?m)"
    unfolding relr_one_value v_def [symmetric] relr_bitmap_targets ts_def a'_def by simp
  have targets: "relr_targets segs a (map (read_u64 m) (p # ps)) = ts @ relr_targets segs a' (map (read_u64 m) ps)"
    by (simp add: v_def [symmetric] ts_def a'_def)
  have same: "map (read_u64 ?m) ps = map (read_u64 m) ps"
    using Cons.prems unfolding targets by (auto intro!: read_fold_add_base_other)
  have "snd (foldl (relr_one segs) (a', ?m) ps) =
      foldl (add_base (base_of segs)) ?m (relr_targets segs a' (map (read_u64 ?m) ps))"
    by (rule Cons.IH) (use Cons.prems in \<open>auto simp only: targets same set_append list.set\<close>)
  then show ?case unfolding targets by (simp add: one same)
qed

section \<open>RELA entries\<close>

definition rel_target :: "elf_segments \<Rightarrow> rela \<Rightarrow> usize" where
  "rel_target segs r = base_of segs + rela_offset r"

lemma relative_one_alt:
  "relative_one segs m p =
     write_u64 m (rel_target segs (rela_at m p)) (base_of segs + rela_addend (rela_at m p))"
  by (simp add: relative_one_def seg_write64_def get_ptr_def rel_target_def r_offset_def r_addend_def Let_def)

lemma relative_fold:
  assumes "\<And>p q. p \<in> set ps \<Longrightarrow> q \<in> set ps \<Longrightarrow> disjoint_ranges (rel_target segs (rela_at m p)) 8 q 24"
    and "words_apart (map (rel_target segs \<circ> rela_at m) ps)"
  shows "(\<forall>p \<in> set ps. read_u64 (foldl (relative_one segs) m ps) (rel_target segs (rela_at m p)) =
       base_of segs + rela_addend (rela_at m p)) \<and>
     (\<forall>x. (\<forall>p \<in> set ps. \<not> in_range (rel_target segs (rela_at m p)) 8 x) \<longrightarrow>
       foldl (relative_one segs) m ps x = m x) \<and>
     (\<forall>q. (\<forall>p \<in> set ps. disjoint_ranges (rel_target segs (rela_at m p)) 8 q 8) \<longrightarrow>
       read_u64 (foldl (relative_one segs) m ps) q = read_u64 m q)"
  using assms
proof (induction ps arbitrary: m)
  case Nil
  then show ?case by simp
next
  case (Cons p ps)
  let ?t = "rel_target segs (rela_at m p)" and ?v = "base_of segs + rela_addend (rela_at m p)"
  let ?m = "write_u64 m ?t ?v"
  have entry: "rela_at ?m q = rela_at m q" if "q \<in> set ps" for q
    using Cons.prems(1) [of p q] that by (simp add: rela_at_write)
  then have targets: "map (rel_target segs \<circ> rela_at ?m) ps = map (rel_target segs \<circ> rela_at m) ps" by simp
  have apart: "\<And>q. q \<in> set ps \<Longrightarrow> disjoint_ranges ?t 8 (rel_target segs (rela_at m q)) 8"
    using Cons.prems(2) by (auto simp: words_apart_def)
  have IH: "(\<forall>q \<in> set ps. read_u64 (foldl (relative_one segs) ?m ps) (rel_target segs (rela_at ?m q)) =
       base_of segs + rela_addend (rela_at ?m q)) \<and>
     (\<forall>x. (\<forall>q \<in> set ps. \<not> in_range (rel_target segs (rela_at ?m q)) 8 x) \<longrightarrow>
       foldl (relative_one segs) ?m ps x = ?m x) \<and>
     (\<forall>y. (\<forall>q \<in> set ps. disjoint_ranges (rel_target segs (rela_at ?m q)) 8 y 8) \<longrightarrow>
       read_u64 (foldl (relative_one segs) ?m ps) y = read_u64 ?m y)"
  proof (rule Cons.IH)
    show "words_apart (map (rel_target segs \<circ> rela_at ?m) ps)"
      using Cons.prems(2) unfolding targets by (simp add: words_apart_def comp_def)
  qed (use Cons.prems(1) entry in auto)
  have self: "read_u64 (foldl (relative_one segs) ?m ps) ?t = ?v"
    using IH apart entry by (simp add: read_write_le disjoint_ranges_sym [of _ 8 ?t 8])
  have frame: "?m x = m x" if "\<not> in_range ?t 8 x" for x using that by (rule write_le_frame)
  have reads: "read_u64 ?m q = read_u64 m q" if "disjoint_ranges ?t 8 q 8" for q
    using that by (simp add: read_le_write_le_disjoint)
  show ?case
    unfolding foldl.simps relative_one_alt [of segs m p]
    using IH self frame reads entry by auto
qed

end
