(* ===== verification/Reloc_Resolve.thy ===== *)
theory Reloc_Resolve
  imports Lookup_Props Reloc_Relative
begin

text \<open>
  Symbol resolution during relocation: the hashes that pass from library to library do not change
  any answer, the scope is searched in order, and the index of the library found is an index of the
  scope.
\<close>

section \<open>Precomputed hashes\<close>

definition drop_pc :: "('a \<times> pre_compute) result \<Rightarrow> 'a result" where
  "drop_pc r = res_bind r (\<lambda>(x, _). Inr x)"

lemma drop_pc_simps [simp]: "drop_pc (Inr (x, pc)) = Inr x" "drop_pc (Inl e) = Inl e"
  by (simp_all add: drop_pc_def)

lemma drop_pc_bind [simp]: "drop_pc (res_bind r (\<lambda>x. Inr (f x, pc))) = res_bind r (\<lambda>x. Inr (f x))"
  by (cases r) simp_all

lemma gnu_lookup_pc:
  assumes "pc_ok HB info pc"
  shows "drop_pc (gnu_lookup m T info pc) = drop_pc (gnu_lookup m T info (precompute info))"
  using assms unfolding pc_ok_def gnu_lookup_def by (cases "into_gnuhash (st_hashtab T)") (auto simp: Let_def)

lemma elf_lookup_pc:
  assumes "pc_ok HB info pc"
  shows "drop_pc (elf_lookup m T info pc) = drop_pc (elf_lookup m T info (precompute info))"
  using assms unfolding pc_ok_def elf_lookup_def
  by (cases "into_elfhash (st_hashtab T)") (auto simp: Let_def precompute_def)

lemma custom_lookup_pc:
  assumes "pc_ok HB info pc"
  shows "drop_pc (custom_lookup HB m T info pc) = drop_pc (custom_lookup HB m T info (precompute info))"
proof -
  have "drop_pc (res_bind r (\<lambda>(s, _). Inr (Some s, pc))) = drop_pc (res_bind r (\<lambda>(s, _). Inr (Some s, pc')))"
    for r :: "(usize \<times> symbol_info) result" and pc pc' by (cases r) (auto split: prod.splits)
  with assms show ?thesis unfolding pc_ok_def custom_lookup_def
    by (cases "into_customhash (st_hashtab T)") (auto simp: Let_def precompute_def split: option.splits)
qed

lemma symtab_lookup_pc:
  assumes "pc_ok HB info pc"
  shows "drop_pc (symtab_lookup HB m T info pc) = drop_pc (symtab_lookup HB m T info (precompute info))"
  unfolding symtab_lookup_def hash_lookup_def
  using gnu_lookup_pc [OF assms] elf_lookup_pc [OF assms] custom_lookup_pc [OF assms]
  by (simp split: hash_table.splits)

lemma symtab_lookup_keeps_pc:
  assumes "pc_ok HB info pc" and "symtab_lookup HB m T info pc = Inr (r, pc')"
  shows "pc_ok HB info pc'"
  using assms
  by (auto simp: symtab_lookup_def hash_lookup_def gnu_lookup_def elf_lookup_def custom_lookup_def pc_ok_def
      res_simps Let_def split: hash_table.splits option.splits if_splits)

lemma lookup_filter_alt:
  "lookup_filter HB m T info pc =
     res_bind (symtab_lookup HB m T info pc) (\<lambda>(r, pc').
       Inr (case r of
              Some p \<Rightarrow> if \<not> is_undef (sym_at m p) \<and> is_ok_bind (sym_at m p) \<and> is_ok_type (sym_at m p)
                        then Some p else None
            | None \<Rightarrow> None, pc'))"
  unfolding lookup_filter_def by (cases "symtab_lookup HB m T info pc") (auto simp: Let_def split: option.splits)

lemma lookup_filter_pc:
  assumes "pc_ok HB info pc"
  shows "drop_pc (lookup_filter HB m T info pc) = drop_pc (lookup_filter HB m T info (precompute info))"
  using symtab_lookup_pc [OF assms, of m T] unfolding lookup_filter_alt
  by (cases "symtab_lookup HB m T info pc"; cases "symtab_lookup HB m T info (precompute info)")
    (auto simp: drop_pc_def)

lemma lookup_filter_keeps_pc:
  "pc_ok HB info pc \<Longrightarrow> lookup_filter HB m T info pc = Inr (r, pc') \<Longrightarrow> pc_ok HB info pc'"
  unfolding lookup_filter_alt by (auto simp: res_simps intro: symtab_lookup_keeps_pc)

section \<open>Searching the scope\<close>

text \<open>What a library answers on its own, with freshly computed hashes.\<close>

definition answer :: "hashbrown \<Rightarrow> mem \<Rightarrow> symbol_info \<Rightarrow> loaded_core \<Rightarrow> usize option result" where
  "answer HB m info lib = drop_pc (lookup_filter HB m (c_symtab (lc_core lib)) info (precompute info))"

definition lib_index :: "elf_core \<Rightarrow> loaded_core \<Rightarrow> nat \<Rightarrow> usize option" where
  "lib_index core lib i = (if c_addr (lc_core lib) = c_addr core then None else Some (of_nat i))"

lemma scope_find_Cons:
  assumes "pc_ok HB info pc"
  obtains (fault) e where "answer HB m info lib = Inl e" "scope_find HB m core info pc i (lib # libs) = Inl e"
  | (hit) p where "answer HB m info lib = Inr (Some p)"
      "scope_find HB m core info pc i (lib # libs) =
         Inr (Some (\<lparr>sd_sym = Some p, sd_lib = lc_core lib\<rparr>, lib_index core lib i))"
  | (miss) pc' where "answer HB m info lib = Inr None" "pc_ok HB info pc'"
      "scope_find HB m core info pc i (lib # libs) = scope_find HB m core info pc' (Suc i) libs"
proof -
  let ?l = "lookup_filter HB m (c_symtab (lc_core lib)) info pc"
  have a: "answer HB m info lib = drop_pc ?l" by (simp add: answer_def lookup_filter_pc [OF assms])
  show thesis
  proof (cases ?l)
    case (Inl e)
    with a show thesis by (intro fault) simp_all
  next
    case (Inr x)
    then obtain r pc' where l: "?l = Inr (r, pc')" by (cases x) simp
    show thesis
    proof (cases r)
      case None
      with a l lookup_filter_keeps_pc [OF assms l] show thesis by (intro miss) simp_all
    next
      case (Some p)
      with a l show thesis by (intro hit [of p]) (simp_all add: lib_index_def Let_def)
    qed
  qed
qed

lemma scope_find_first:
  assumes "pc_ok HB info pc" and "i < length libs" and "answer HB m info (libs ! i) = Inr (Some p)"
    and "\<And>j. j < i \<Longrightarrow> answer HB m info (libs ! j) = Inr None"
  shows "scope_find HB m core info pc k libs =
     Inr (Some (\<lparr>sd_sym = Some p, sd_lib = lc_core (libs ! i)\<rparr>, lib_index core (libs ! i) (k + i)))"
  using assms
proof (induction libs arbitrary: i k pc)
  case Nil
  then show ?case by simp
next
  case (Cons lib libs)
  show ?case
  proof (cases i)
    case 0
    with Cons.prems show ?thesis
      by (cases rule: scope_find_Cons [OF Cons.prems(1), of m lib core k libs]) auto
  next
    case (Suc j)
    have "answer HB m info lib = Inr None" using Cons.prems(4) [of 0] Suc by simp
    then obtain pc' where pc': "pc_ok HB info pc'"
      "scope_find HB m core info pc k (lib # libs) = scope_find HB m core info pc' (Suc k) libs"
      by (cases rule: scope_find_Cons [OF Cons.prems(1), of m lib core k libs]) auto
    have "\<And>l. l < j \<Longrightarrow> answer HB m info (libs ! l) = Inr None"
      using Cons.prems(4) [of "Suc l" for l] Suc by simp
    from Cons.IH [OF pc'(1) _ _ this, where k = "Suc k"] Cons.prems(2,3) Suc show ?thesis
      unfolding pc'(2) by simp
  qed
qed

lemma scope_find_none:
  assumes "pc_ok HB info pc" and "\<And>lib. lib \<in> set libs \<Longrightarrow> answer HB m info lib = Inr None"
  shows "scope_find HB m core info pc k libs = Inr None"
  using assms
proof (induction libs arbitrary: k pc)
  case Nil
  then show ?case by simp
next
  case (Cons lib libs)
  have "answer HB m info lib = Inr None" using Cons.prems(2) by simp
  then obtain pc' where pc': "pc_ok HB info pc'"
    "scope_find HB m core info pc k (lib # libs) = scope_find HB m core info pc' (Suc k) libs"
    by (cases rule: scope_find_Cons [OF Cons.prems(1), of m lib core k libs]) auto
  with Cons.IH [OF pc'(1)] Cons.prems(2) show ?case by simp
qed

text \<open>Conversely, a library found is the first that answers.\<close>

lemma scope_find_SomeD:
  assumes "pc_ok HB info pc" and "scope_find HB m core info pc k libs = Inr (Some (d, idx))"
  shows "\<exists>i < length libs. \<exists>p. answer HB m info (libs ! i) = Inr (Some p) \<and>
     d = \<lparr>sd_sym = Some p, sd_lib = lc_core (libs ! i)\<rparr> \<and> idx = lib_index core (libs ! i) (k + i) \<and>
     (\<forall>j < i. answer HB m info (libs ! j) = Inr None)"
  using assms
proof (induction libs arbitrary: k pc)
  case Nil
  then show ?case by simp
next
  case (Cons lib libs)
  show ?case
  proof (rule scope_find_Cons [OF Cons.prems(1), of m lib core k libs])
    fix e assume "scope_find HB m core info pc k (lib # libs) = Inl e"
    with Cons.prems(2) show ?thesis by simp
  next
    fix p assume "answer HB m info lib = Inr (Some p)" and
      "scope_find HB m core info pc k (lib # libs) =
         Inr (Some (\<lparr>sd_sym = Some p, sd_lib = lc_core lib\<rparr>, lib_index core lib k))"
    with Cons.prems(2) show ?thesis by (intro exI [of _ 0]) (simp del: scope_find.simps)
  next
    fix pc' assume miss: "answer HB m info lib = Inr None" "pc_ok HB info pc'"
      "scope_find HB m core info pc k (lib # libs) = scope_find HB m core info pc' (Suc k) libs"
    from Cons.prems(2) have "scope_find HB m core info pc' (Suc k) libs = Inr (Some (d, idx))"
      unfolding miss(3) .
    from Cons.IH [OF miss(2) this] obtain i p where
      "i < length libs" "answer HB m info (libs ! i) = Inr (Some p)"
      "d = \<lparr>sd_sym = Some p, sd_lib = lc_core (libs ! i)\<rparr>" "idx = lib_index core (libs ! i) (Suc k + i)"
      "\<forall>j < i. answer HB m info (libs ! j) = Inr None" by auto
    with miss(1) show ?thesis by (intro exI [of _ "Suc i"]) (auto simp: less_Suc_eq_0_disj)
  qed
qed

lemma find_symdef_impl_index:
  assumes "find_symdef_impl HB m core scope sptr info = Inr (Some (d, Some j))" and "length scope < 2 ^ 64"
  shows "unat j < length scope"
proof -
  have "is_local (sym_at m sptr) = False" using assms(1) by (auto simp: find_symdef_impl_def)
  with assms(1) have "scope_find HB m core info (precompute info) 0 scope = Inr (Some (d, Some j))"
    by (auto simp: find_symdef_impl_def res_simps split: option.splits)
  from scope_find_SomeD [OF pc_ok_precompute this] assms(2) show ?thesis
    by (auto simp: lib_index_def split: if_splits)
qed

lemma find_symbol_addr_index:
  assumes "find_symbol_addr X core scope r w = Inr (Some (s, Some j), w')" and "length scope < 2 ^ 64"
  shows "unat j < length scope"
  using assms by (auto simp: find_symbol_addr_def res_simps case_prod_beta Let_def split: option.splits
      intro: find_symdef_impl_index)

lemma find_symdef_index:
  assumes "find_symdef HB m core scope r = Inr (Some (d, Some j))" and "length scope < 2 ^ 64"
  shows "unat j < length scope"
  using assms by (auto simp: find_symdef_def res_simps split: prod.splits intro: find_symdef_impl_index)

end
