(* ===== verification/Reloc_Props.thy ===== *)
theory Reloc_Props
  imports Loading_Props Reloc_Resolve
begin

text \<open>
  The properties of dynamic relocation: what the tables do to the image, in which order symbols are
  resolved, which libraries a module keeps alive, what happens to symbols that are not found, and
  that binding on the first call writes what binding at load time writes.
\<close>

section \<open>Libraries used by an entry\<close>

text \<open>
  Which library of the scope the turn of an entry uses, by its index: the one that the user's first
  handler names; or, when this handler declines, the one that defines the symbol of the entry, for the
  types that need a symbol; or, when the entry is not done then, the one that the second handler
  names. A library that answered is named by its index, the module itself by none.
\<close>

definition ask ::
  "(rela \<Rightarrow> elf_core \<Rightarrow> loaded_core list \<Rightarrow> 's \<times> vm \<Rightarrow> usize option result option \<times> 's \<times> vm) \<Rightarrow>
     rela \<Rightarrow> elf_core \<Rightarrow> loaded_core list \<Rightarrow> 's rworld \<Rightarrow> usize option result option \<times> 's rworld" where
  "ask h rel core scope w =
     (let (r, s, v) = h rel core scope (rw_ext w, rw_vm w) in (r, w\<lparr>rw_ext := s, rw_vm := v\<rparr>))"

fun named_by :: "usize option result option \<Rightarrow> usize option" where
  "named_by (Some (Inr idx)) = idx"
| "named_by _ = None"

definition addr_library :: "'s ext \<Rightarrow> elf_core \<Rightarrow> loaded_core list \<Rightarrow> rela \<Rightarrow> 's rworld \<Rightarrow> usize option option" where
  "addr_library X core scope rel w =
     (case find_symbol_addr X core scope (r_symbol rel) w of Inr (Some (a, idx), w') \<Rightarrow> Some idx | _ \<Rightarrow> None)"

definition def_library :: "'s ext \<Rightarrow> elf_core \<Rightarrow> loaded_core list \<Rightarrow> rela \<Rightarrow> 's rworld \<Rightarrow> usize option option" where
  "def_library X core scope rel w =
     (case find_symdef (x_hb X) (rw_mem w) core scope (r_symbol rel) of Inr (Some (d, idx)) \<Rightarrow> Some idx | _ \<Rightarrow> None)"

text \<open>The outer option says that the entry is done without the second handler.\<close>

definition dyn_lookup :: "'s ext \<Rightarrow> elf_core \<Rightarrow> loaded_core list \<Rightarrow> rela \<Rightarrow> 's rworld \<Rightarrow> usize option option" where
  "dyn_lookup X core scope rel w =
     (if ucast (r_type rel) \<in> {R_X86_64_GLOB_DAT, R_X86_64_64} then addr_library X core scope rel w
      else if ucast (r_type rel) \<in> {R_X86_64_DTPOFF64, R_X86_64_COPY} then def_library X core scope rel w
      else if ucast (r_type rel) \<in> {R_X86_64_IRELATIVE, R_X86_64_NONE} then Some None
      else None)"

definition plt_lookup ::
  "'s ext \<Rightarrow> bool \<Rightarrow> elf_core \<Rightarrow> loaded_core list \<Rightarrow> rela \<Rightarrow> 's rworld \<Rightarrow> usize option option" where
  "plt_lookup X is_lazy core scope rel w =
     (if ucast (r_type rel) = R_X86_64_JUMP_SLOT
      then Some (if is_lazy then None else Option.bind (addr_library X core scope rel w) id)
      else if ucast (r_type rel) = R_X86_64_IRELATIVE then Some None
      else None)"

definition entry_library ::
  "(rela \<Rightarrow> 's rworld \<Rightarrow> usize option option) \<Rightarrow> 's ext \<Rightarrow> elf_core \<Rightarrow> loaded_core list \<Rightarrow> 's rworld \<Rightarrow> usize \<Rightarrow> usize option" where
  "entry_library lookup X core scope w p =
     (let rel = rela_at (rw_mem w) p; (pre, w1) = ask (x_pre_handler X) rel core scope w in
      if pre \<noteq> None then named_by pre
      else case lookup rel w1 of
          Some idx \<Rightarrow> idx
        | None \<Rightarrow> named_by (fst (ask (x_post_handler X) rel core scope w1)))"

definition dyn_library :: "'s ext \<Rightarrow> elf_core \<Rightarrow> loaded_core list \<Rightarrow> 's rworld \<Rightarrow> usize \<Rightarrow> usize option" where
  "dyn_library X core scope = entry_library (dyn_lookup X core scope) X core scope"

definition plt_library :: "'s ext \<Rightarrow> bool \<Rightarrow> elf_core \<Rightarrow> loaded_core list \<Rightarrow> 's rworld \<Rightarrow> usize \<Rightarrow> usize option" where
  "plt_library X is_lazy core scope = entry_library (plt_lookup X is_lazy core scope) X core scope"

text \<open>Some entry of a table uses library \<open>j\<close> when its turn comes, after the entries before it.\<close>

definition entry_uses ::
  "(usize \<Rightarrow> 's rworld \<Rightarrow> 's rworld result) \<Rightarrow> ('s rworld \<Rightarrow> usize \<Rightarrow> usize option) \<Rightarrow> usize list \<Rightarrow> 's rworld \<Rightarrow> nat \<Rightarrow> bool" where
  "entry_uses step used ps w j \<longleftrightarrow>
     (\<exists>qs p rs w1 k. ps = qs @ p # rs \<and> res_fold step qs w = Inr w1 \<and> used w1 p = Some k \<and> unat k = j)"

lemma entry_uses_Nil [simp]: "\<not> entry_uses step used [] w j"
  by (simp add: entry_uses_def)

lemma entry_uses_Cons:
  "entry_uses step used (p # ps) w j \<longleftrightarrow>
     (\<exists>k. used w p = Some k \<and> unat k = j) \<or> (\<exists>w1. step p w = Inr w1 \<and> entry_uses step used ps w1 j)"
proof
  assume "entry_uses step used (p # ps) w j"
  then obtain qs q rs w1 k where split: "p # ps = qs @ q # rs" and run: "res_fold step qs w = Inr w1"
    and k: "used w1 q = Some k" "unat k = j" by (auto simp: entry_uses_def)
  then show "(\<exists>k. used w p = Some k \<and> unat k = j) \<or> (\<exists>w1. step p w = Inr w1 \<and> entry_uses step used ps w1 j)"
  proof (cases qs)
    case (Cons q' qs')
    with split run obtain w2 where "step p w = Inr w2" "res_fold step qs' w2 = Inr w1" "ps = qs' @ q # rs"
      by (auto simp: res_simps)
    with k show ?thesis unfolding entry_uses_def by blast
  qed auto
next
  assume "(\<exists>k. used w p = Some k \<and> unat k = j) \<or> (\<exists>w1. step p w = Inr w1 \<and> entry_uses step used ps w1 j)"
  then show "entry_uses step used (p # ps) w j"
  proof (elim disjE exE conjE)
    fix k assume "used w p = Some k" "unat k = j"
    then show ?thesis unfolding entry_uses_def by (intro exI [of _ "[]"]) auto
  next
    fix w1 assume "step p w = Inr w1" "entry_uses step used ps w1 j"
    then obtain qs q rs w2 k where "ps = qs @ q # rs" "res_fold step (p # qs) w = Inr w2" "used w2 q = Some k" "unat k = j"
      by (auto simp: entry_uses_def)
    then show ?thesis unfolding entry_uses_def by (intro exI [of _ "p # qs"]) auto
  qed
qed

section \<open>Dependency flags\<close>

text \<open>The flags after a step: one library is added.\<close>

definition flags_add :: "usize option \<Rightarrow> 's rworld \<Rightarrow> 's rworld \<Rightarrow> bool" where
  "flags_add idx w w' \<longleftrightarrow> length (rw_flags w') = length (rw_flags w) \<and>
     (\<forall>j < length (rw_flags w). rw_flags w' ! j \<longleftrightarrow> rw_flags w ! j \<or> (\<exists>k. idx = Some k \<and> unat k = j))"

definition flags_grow :: "'s rworld \<Rightarrow> 's rworld \<Rightarrow> bool" where
  "flags_grow w w' \<longleftrightarrow> length (rw_flags w') = length (rw_flags w) \<and>
     (\<forall>j < length (rw_flags w). rw_flags w ! j \<longrightarrow> rw_flags w' ! j)"

locale flag_step =
  fixes step :: "usize \<Rightarrow> 's rworld \<Rightarrow> 's rworld result" and used :: "'s rworld \<Rightarrow> usize \<Rightarrow> usize option"
  assumes step_adds: "step p w = Inr w' \<Longrightarrow> flags_add (used w p) w w'"
begin

lemma fold_adds:
  "res_fold step ps w = Inr w' \<Longrightarrow> length (rw_flags w') = length (rw_flags w) \<and>
     (\<forall>j < length (rw_flags w). rw_flags w' ! j \<longleftrightarrow> rw_flags w ! j \<or> entry_uses step used ps w j)"
proof (induction ps arbitrary: w)
  case (Cons p ps)
  then obtain w1 where w1: "step p w = Inr w1" and rest: "res_fold step ps w1 = Inr w'" by (auto simp: res_simps)
  from step_adds [OF w1] Cons.IH [OF rest] w1 show ?case by (auto simp: flags_add_def entry_uses_Cons)
qed simp

lemma fold_grows: "res_fold step ps w = Inr w' \<Longrightarrow> flags_grow w w'"
  using fold_adds by (simp add: flags_grow_def)

end

lemma flags_add_none: "rw_flags w' = rw_flags w \<Longrightarrow> flags_add None w w'"
  by (simp add: flags_add_def)

lemma set_flag_adds: "set_flag idx w = Inr w' \<Longrightarrow> flags_add idx w w'"
  by (auto simp: set_flag_def flags_add_def nth_list_update split: option.splits if_splits)

lemma call_ifunc_flags [simp]: "rw_flags (snd (call_ifunc X a w)) = rw_flags w"
  by (simp add: call_ifunc_def Let_def split: prod.splits)

lemma convert_flags [simp]: "rw_flags (snd (convert X d w)) = rw_flags w"
  by (simp add: convert_def Let_def split: option.splits)

lemma ask_flags [simp]: "rw_flags (snd (ask h rel core scope w)) = rw_flags w"
  by (simp add: ask_def split: prod.splits)

lemma irelative_flags [simp]: "rw_flags (irelative X rel core w) = rw_flags w"
  by (simp add: irelative_def resolve_ifunc_def case_prod_beta Let_def)

lemma find_symbol_addr_flags:
  "find_symbol_addr X core scope r w = Inr (res, w') \<Longrightarrow> rw_flags w' = rw_flags w \<and> (res = None \<longrightarrow> w' = w)"
  by (auto simp: find_symbol_addr_def res_simps case_prod_beta Let_def split: option.splits)

lemma run_handler_adds:
  assumes "run_handler h rel core scope w = Inr (go, w')"
  shows "go \<longleftrightarrow> fst (ask h rel core scope w) = None" and "go \<Longrightarrow> w' = snd (ask h rel core scope w)"
    and "\<not> go \<Longrightarrow> flags_add (named_by (fst (ask h rel core scope w))) w w'"
proof -
  obtain r s v where h: "h rel core scope (rw_ext w, rw_vm w) = (r, s, v)" by (cases "h rel core scope (rw_ext w, rw_vm w)")
  let ?w1 = "w\<lparr>rw_ext := s, rw_vm := v\<rparr>"
  have a: "ask h rel core scope w = (r, ?w1)" by (simp add: ask_def h)
  show "go \<longleftrightarrow> fst (ask h rel core scope w) = None" and "go \<Longrightarrow> w' = snd (ask h rel core scope w)"
    using assms by (auto simp: a run_handler_def h Let_def res_simps split: option.splits)
  assume "\<not> go"
  with assms obtain idx where "r = Some (Inr idx)" "set_flag idx ?w1 = Inr w'"
    by (auto simp: run_handler_def h Let_def res_simps split: option.splits)
  with set_flag_adds [of idx ?w1 w'] show "flags_add (named_by (fst (ask h rel core scope w))) w w'"
    by (simp add: a flags_add_def)
qed

lemma unhandled_adds:
  assumes "unhandled X rel core scope w = Inr w'"
  shows "flags_add (named_by (fst (ask (x_post_handler X) rel core scope w))) w w'"
proof -
  from assms have "run_handler (x_post_handler X) rel core scope w = Inr (False, w')"
    by (auto simp: unhandled_def handle_post_def fail_reloc_def res_simps split: if_splits)
  from run_handler_adds(3) [OF this] show ?thesis by simp
qed

lemma addr_library_simps:
  "find_symbol_addr X core scope (r_symbol rel) w = Inr (Some (a, idx), w1) \<Longrightarrow> addr_library X core scope rel w = Some idx"
  "find_symbol_addr X core scope (r_symbol rel) w = Inr (None, w1) \<Longrightarrow> addr_library X core scope rel w = None"
  by (simp_all add: addr_library_def)

lemma flags_add_write [simp]:
  "flags_add idx w (write64 segs off v w') \<longleftrightarrow> flags_add idx w w'" "flags_add idx w (set_mem m w') \<longleftrightarrow> flags_add idx w w'"
  by (simp_all add: flags_add_def)

lemma dynrel_symbolic_adds:
  assumes "dynrel_symbolic X rel core scope w = Inr (dn, w')"
  shows "case addr_library X core scope rel w of Some idx \<Rightarrow> dn \<and> flags_add idx w w' | None \<Rightarrow> \<not> dn \<and> w' = w"
proof -
  from assms obtain r w1 where f: "find_symbol_addr X core scope (r_symbol rel) w = Inr (r, w1)"
    by (auto simp: dynrel_symbolic_def res_simps)
  show ?thesis
  proof (cases r)
    case None
    with f find_symbol_addr_flags [OF f] have n: "find_symbol_addr X core scope (r_symbol rel) w = Inr (None, w)" by simp
    from assms addr_library_simps(2) [OF n] show ?thesis by (simp add: dynrel_symbolic_def n)
  next
    case (Some ai)
    then obtain a idx where ai: "r = Some (a, idx)" by (cases ai) simp
    with assms f obtain w2 where dn: dn and w2: "set_flag idx w1 = Inr w2"
      and w': "w' = write64 (c_segments core) (r_offset rel) (a + r_addend rel (core_base core)) w2"
      by (auto simp: dynrel_symbolic_def res_simps)
    from set_flag_adds [OF w2] find_symbol_addr_flags [OF f] have "flags_add idx w w2" by (simp add: flags_add_def)
    with dn w' addr_library_simps(1) [OF f [unfolded ai]] show ?thesis by simp
  qed
qed

lemma def_library_adds:
  "dynrel_dtpoff X rel core scope w = Inr (dn, w') \<or> dynrel_copy X rel core scope w = Inr (dn, w') \<Longrightarrow>
     (case def_library X core scope rel w of Some idx \<Rightarrow> dn \<and> flags_add idx w w' | None \<Rightarrow> \<not> dn \<and> w' = w)"
  by (auto simp: dynrel_dtpoff_def dynrel_copy_def def_library_def res_simps Let_def split: option.splits
      dest!: set_flag_adds)

lemma dynrel_arm_adds:
  "dynrel_arm X rel core scope w = Inr (dn, w') \<Longrightarrow>
     (case dyn_lookup X core scope rel w of Some idx \<Rightarrow> dn \<and> flags_add idx w w' | None \<Rightarrow> \<not> dn \<and> w' = w)"
  by (auto simp: dynrel_arm_def dyn_lookup_def Let_def rel_consts flags_add_none R_X86_64_NONE_def split: if_splits
      dest!: dynrel_symbolic_adds def_library_adds [OF disjI1] def_library_adds [OF disjI2])

lemma plt_jump_slot_adds:
  assumes "plt_jump_slot X is_lazy rel core scope w = Inr w'"
  shows "flags_add (if is_lazy then None else Option.bind (addr_library X core scope rel w) id) w w'"
proof (cases is_lazy)
  case True
  with assms show ?thesis by (auto simp: plt_jump_slot_def Let_def flags_add_none)
next
  case False
  with assms obtain r w1 where f: "find_symbol_addr X core scope (r_symbol rel) w = Inr (r, w1)"
    by (auto simp: plt_jump_slot_def res_simps)
  show ?thesis
  proof (cases r)
    case None
    with f find_symbol_addr_flags [OF f] have n: "find_symbol_addr X core scope (r_symbol rel) w = Inr (None, w)" by simp
    from assms False addr_library_simps(2) [OF n] show ?thesis by (simp add: plt_jump_slot_def n flags_add_none)
  next
    case (Some ai)
    then obtain a idx where ai: "r = Some (a, idx)" by (cases ai) simp
    with assms False f obtain w2 where w2: "set_flag idx w1 = Inr w2" and w': "w' = write64 (c_segments core) (r_offset rel) a w2"
      by (auto simp: plt_jump_slot_def res_simps)
    from set_flag_adds [OF w2] find_symbol_addr_flags [OF f] have "flags_add idx w w2" by (simp add: flags_add_def)
    with False w' addr_library_simps(1) [OF f [unfolded ai]] show ?thesis by simp
  qed
qed

lemma entry_library_pre:
  assumes "handle_pre X (rela_at (rw_mem w) p) core scope w = Inr (go, w1)"
  defines "rel \<equiv> rela_at (rw_mem w) p"
  shows "\<not> go \<Longrightarrow> flags_add (entry_library lookup X core scope w p) w w1"
    and "go \<Longrightarrow> rw_flags w1 = rw_flags w \<and> entry_library lookup X core scope w p =
      (case lookup rel w1 of Some idx \<Rightarrow> idx | None \<Rightarrow> named_by (fst (ask (x_post_handler X) rel core scope w1)))"
  using run_handler_adds [OF assms(1) [unfolded handle_pre_def]] unfolding rel_def
  by (auto simp: entry_library_def case_prod_beta Let_def)

lemma dynrel_one_adds:
  assumes "dynrel_one X core scope p w = Inr w'"
  shows "flags_add (dyn_library X core scope w p) w w'"
proof -
  let ?rel = "rela_at (rw_mem w) p"
  obtain go w1 where pre: "handle_pre X ?rel core scope w = Inr (go, w1)"
    and rest: "(if \<not> go then Inr w1 else res_bind (dynrel_arm X ?rel core scope w1) (\<lambda>(dn, w2).
       if dn then Inr w2 else unhandled X ?rel core scope w2)) = Inr w'"
    using assms by (auto simp: dynrel_one_def Let_def res_simps)
  note lib = entry_library_pre [OF pre, of "dyn_lookup X core scope", folded dyn_library_def]
  show ?thesis
  proof (cases go)
    case True
    with rest obtain dn w2 where arm: "dynrel_arm X ?rel core scope w1 = Inr (dn, w2)"
      and un: "(if dn then Inr w2 else unhandled X ?rel core scope w2) = Inr w'" by (auto simp: res_simps)
    have "flags_add (dyn_library X core scope w p) w1 w'"
      using dynrel_arm_adds [OF arm] un lib(2) [OF True]
      by (auto split: option.splits if_splits dest: unhandled_adds)
    with lib(2) [OF True] show ?thesis by (simp add: flags_add_def)
  next
    case False
    with rest lib(1) show ?thesis by simp
  qed
qed

lemma pltrel_one_adds:
  assumes "pltrel_one X is_lazy core scope p w = Inr w'"
  shows "flags_add (plt_library X is_lazy core scope w p) w w'"
proof -
  let ?rel = "rela_at (rw_mem w) p"
  let ?ty = "ucast (r_type ?rel) :: u32"
  obtain go w1 where pre: "handle_pre X ?rel core scope w = Inr (go, w1)"
    and rest: "(if \<not> go then Inr w1 else if ?ty = REL_JUMP_SLOT then plt_jump_slot X is_lazy ?rel core scope w1
       else if ?ty = REL_IRELATIVE then Inr (irelative X ?rel core w1) else unhandled X ?rel core scope w1) = Inr w'"
    using assms by (auto simp: pltrel_one_def Let_def res_simps)
  note lib = entry_library_pre [OF pre, of "plt_lookup X is_lazy core scope", folded plt_library_def]
  show ?thesis
  proof (cases go)
    case True
    have "flags_add (plt_library X is_lazy core scope w p) w1 w'"
      using rest True lib(2) [OF True] plt_jump_slot_adds [of X is_lazy ?rel core scope w1 w']
        unhandled_adds [of X ?rel core scope w1 w']
      by (auto simp: plt_lookup_def rel_consts flags_add_none split: if_splits)
    with lib(2) [OF True] show ?thesis by (simp add: flags_add_def)
  next
    case False
    with rest lib(1) show ?thesis by simp
  qed
qed

interpretation dynrel_run: flag_step "dynrel_one X core scope" "dyn_library X core scope" for X core scope
  by unfold_locales (rule dynrel_one_adds)

interpretation pltrel_run: flag_step "pltrel_one X is_lazy core scope" "plt_library X is_lazy core scope"
  for X is_lazy core scope
  by unfold_locales (rule pltrel_one_adds)

section \<open>Tables of words\<close>

text \<open>
  A loop over entries that each store the word \<open>V p\<close> at \<open>T p\<close> and record the library \<open>I p\<close>, whatever
  the memory at the other targets holds.
\<close>

definition mark :: "usize option \<Rightarrow> 's rworld \<Rightarrow> 's rworld" where
  "mark idx w = (case idx of None \<Rightarrow> w | Some j \<Rightarrow> w\<lparr>rw_flags := (rw_flags w)[unat j := True]\<rparr>)"

definition patched :: "usize \<Rightarrow> u64 \<Rightarrow> usize option \<Rightarrow> 's rworld \<Rightarrow> 's rworld" where
  "patched t v idx w = set_mem (write_u64 (rw_mem w) t v) (mark idx w)"

definition agree_off :: "usize set \<Rightarrow> mem \<Rightarrow> mem \<Rightarrow> bool" where
  "agree_off A m m' \<longleftrightarrow> (\<forall>x. (\<forall>t \<in> A. \<not> in_range t 8 x) \<longrightarrow> m' x = m x)"

lemma mark_simps [simp]: "rw_vm (mark idx w) = rw_vm w" "rw_mem (patched t v idx w) = write_u64 (rw_mem w) t v"
  "length (rw_flags (mark idx w)) = length (rw_flags w)" "rw_flags (patched t v idx w) = rw_flags (mark idx w)"
  by (simp_all add: mark_def patched_def split: option.splits)

lemma mark_nth:
  "j < length (rw_flags w) \<Longrightarrow> rw_flags (mark idx w) ! j \<longleftrightarrow> rw_flags w ! j \<or> (\<exists>k. idx = Some k \<and> unat k = j)"
  by (cases "\<exists>k. idx = Some k \<and> unat k = j") (auto simp: mark_def split: option.splits)

lemma set_flag_mark:
  "(\<And>j. idx = Some j \<Longrightarrow> unat j < length (rw_flags w)) \<Longrightarrow> set_flag idx w = Inr (mark idx w)"
  by (auto simp: set_flag_def mark_def split: option.splits)

lemma agree_off_write: "t \<in> A \<Longrightarrow> agree_off A m m' \<Longrightarrow> agree_off A m (write_u64 m' t v)"
  by (simp add: agree_off_def write_le_frame)

lemma patch_fold:
  assumes step: "\<And>p w. p \<in> set ps \<Longrightarrow> agree_off A m (rw_mem w) \<Longrightarrow> length (rw_flags w) = n \<Longrightarrow>
      step p w = Inr (patched (T p) (V p) (I p) w)"
    and "words_apart (map T ps)" and "T ` set ps \<subseteq> A" and "agree_off A m (rw_mem w)" and "length (rw_flags w) = n"
  shows "\<exists>w'. res_fold step ps w = Inr w' \<and>
     (\<forall>p \<in> set ps. read_u64 (rw_mem w') (T p) = V p) \<and>
     (\<forall>x. (\<forall>p \<in> set ps. \<not> in_range (T p) 8 x) \<longrightarrow> rw_mem w' x = rw_mem w x) \<and>
     (\<forall>q. (\<forall>p \<in> set ps. disjoint_ranges (T p) 8 q 8) \<longrightarrow> read_u64 (rw_mem w') q = read_u64 (rw_mem w) q) \<and>
     (\<forall>j < n. rw_flags w' ! j \<longleftrightarrow> rw_flags w ! j \<or> (\<exists>p \<in> set ps. \<exists>k. I p = Some k \<and> unat k = j))"
  using assms
proof (induction ps arbitrary: w)
  case Nil
  then show ?case by simp
next
  case (Cons p ps)
  let ?w = "patched (T p) (V p) (I p) w"
  have one: "step p w = Inr ?w" using Cons.prems(1,4,5) by simp
  have apart: "disjoint_ranges (T p) 8 (T q) 8" if "q \<in> set ps" for q
    using Cons.prems(2) that by (simp add: words_apart_def)
  have "\<exists>w'. res_fold step ps ?w = Inr w' \<and>
     (\<forall>p \<in> set ps. read_u64 (rw_mem w') (T p) = V p) \<and>
     (\<forall>x. (\<forall>p \<in> set ps. \<not> in_range (T p) 8 x) \<longrightarrow> rw_mem w' x = rw_mem ?w x) \<and>
     (\<forall>q. (\<forall>p \<in> set ps. disjoint_ranges (T p) 8 q 8) \<longrightarrow> read_u64 (rw_mem w') q = read_u64 (rw_mem ?w) q) \<and>
     (\<forall>j < n. rw_flags w' ! j \<longleftrightarrow> rw_flags ?w ! j \<or> (\<exists>p \<in> set ps. \<exists>k. I p = Some k \<and> unat k = j))"
  proof (rule Cons.IH)
    show "\<And>q w. q \<in> set ps \<Longrightarrow> agree_off A m (rw_mem w) \<Longrightarrow> length (rw_flags w) = n \<Longrightarrow>
        step q w = Inr (patched (T q) (V q) (I q) w)" by (rule Cons.prems(1)) simp_all
    show "agree_off A m (rw_mem ?w)" using Cons.prems(3,4) by (simp add: agree_off_write)
  qed (use Cons.prems in \<open>simp_all add: words_apart_def\<close>)
  then obtain w' where w': "res_fold step ps ?w = Inr w'"
    and vals: "\<forall>p \<in> set ps. read_u64 (rw_mem w') (T p) = V p"
    and frame: "\<forall>x. (\<forall>p \<in> set ps. \<not> in_range (T p) 8 x) \<longrightarrow> rw_mem w' x = rw_mem ?w x"
    and reads: "\<forall>q. (\<forall>p \<in> set ps. disjoint_ranges (T p) 8 q 8) \<longrightarrow> read_u64 (rw_mem w') q = read_u64 (rw_mem ?w) q"
    and flags: "\<forall>j < n. rw_flags w' ! j \<longleftrightarrow> rw_flags ?w ! j \<or> (\<exists>p \<in> set ps. \<exists>k. I p = Some k \<and> unat k = j)"
    by blast
  have "read_u64 (rw_mem w') (T p) = V p"
    using reads apart by (simp add: disjoint_ranges_sym [of _ 8 "T p" 8] read_write_le)
  moreover have "rw_mem w' x = rw_mem w x" if "\<forall>q \<in> set (p # ps). \<not> in_range (T q) 8 x" for x
    using that frame by (simp add: write_le_frame)
  moreover have "read_u64 (rw_mem w') q = read_u64 (rw_mem w) q"
    if "\<forall>r \<in> set (p # ps). disjoint_ranges (T r) 8 q 8" for q
    using that reads by (simp add: read_le_write_le_disjoint)
  moreover have "rw_flags w' ! j \<longleftrightarrow> rw_flags w ! j \<or> (\<exists>r \<in> set (p # ps). \<exists>k. I r = Some k \<and> unat k = j)"
    if "j < n" for j
    using that flags Cons.prems(5) by (auto simp: mark_nth)
  ultimately show ?case using one w' vals by simp
qed

section \<open>Concrete modules\<close>

text \<open>
  A module at 0x1000 that refers to the symbol of the object above, a library at 0x5000 that defines
  it, and an environment without handlers, lookups and constructors.
\<close>

definition wit_ext :: "unit ext" where
  "wit_ext = \<lparr>x_hb = wit_hb, x_mmap = bare_metal wit_heap, x_ifunc = (\<lambda>a s. (a, s)), x_pre_find = (\<lambda>_. None),
     x_post_find = (\<lambda>_. None), x_pre_handler = (\<lambda>_ _ _ s. (None, s)), x_post_handler = (\<lambda>_ _ _ s. (None, s)),
     x_call = (\<lambda>_ _ s. s), x_resolve = 0x6000, x_alive = (\<lambda>_. True)\<rparr>"

definition wit_core :: elf_core where
  "wit_core = \<lparr>c_addr = 0x9000, c_name = ''main'', c_symtab = wit_gnu_tab,
     c_segments = \<lparr>memory = 0x1000, seg_offset = 0, space_len = 0x1000\<rparr>\<rparr>"

definition wit_lib :: loaded_core where
  "wit_lib = from_core \<lparr>c_addr = 0x9100, c_name = ''liba'', c_symtab = wit_gnu_tab,
     c_segments = \<lparr>memory = 0x5000, seg_offset = 0, space_len = 0x1000\<rparr>\<rparr>"

definition wit_world :: "unit rworld" where
  "wit_world = \<lparr>rw_ext = (), rw_vm = wit_vm\<lparr>vm_mem := wit_sym_mem\<rparr>, rw_flags = [False], rw_is_init = False,
     rw_lazy_scope = None\<rparr>"

lemma wit_base [simp]: "core_base wit_core = 0x1000"
  by (simp add: wit_core_def base_of_def)

lemma wit_world_mem [simp]: "rw_mem wit_world = wit_sym_mem"
  by (simp add: wit_world_def)

section \<open>Properties\<close>

text \<open>
  C29. Compact relative relocations. Let the targets of the table be the addresses that its address
  words and bitmaps name, by the reference decoding \<open>relr_targets\<close>. When they are pairwise disjoint
  and outside the table, relocation adds the base to the word at every target and changes nothing else.
\<close>

theorem relr_table_correct:
  assumes "dr_relative reloc = Relr ps"
    and "words_apart (relr_targets (c_segments core) 0 (map (read_u64 m) ps))"
    and "\<forall>t \<in> set (relr_targets (c_segments core) 0 (map (read_u64 m) ps)). \<forall>p \<in> set ps. disjoint_ranges t 8 p 8"
  shows "\<exists>m'. relocate_relative core reloc m = Inr m' \<and>
     (\<forall>t \<in> set (relr_targets (c_segments core) 0 (map (read_u64 m) ps)).
        read_u64 m' t = core_base core + read_u64 m t) \<and>
     (\<forall>x. (\<forall>t \<in> set (relr_targets (c_segments core) 0 (map (read_u64 m) ps)). \<not> in_range t 8 x) \<longrightarrow> m' x = m x)"
proof -
  have "snd (foldl (relr_one (c_segments core)) (0, m) ps) =
      foldl (add_base (core_base core)) m (relr_targets (c_segments core) 0 (map (read_u64 m) ps))"
    by (rule relr_fold_targets) (use assms(3) in blast)
  with assms(1) show ?thesis
    by (simp add: relocate_relative_def read_fold_add_base [OF assms(2)] fold_add_base_frame)
qed

lemma wit_relr:
  "map (read_u64 wit_sym_mem) [0x500, 0x508] = [0x50, 0x0B]"
  "relr_targets (c_segments wit_core) 0 [0x50, 0x0B] = [0x1050, 0x1058, 0x1068]"
proof -
  show "map (read_u64 wit_sym_mem) [0x500, 0x508] = [0x50, 0x0B]" by (simp add: wit_read)
  have b: "filter (bit (0x0B :: u64)) [1..<64] = [1, 3]" by (simp add: upt_rec bit_numeral_rec)
  show "relr_targets (c_segments wit_core) 0 [0x50, 0x0B] = [0x1050, 0x1058, 0x1068]"
    by (simp add: b [unfolded One_nat_def] get_ptr_def del: upt_rec_numeral)
qed

theorem relr_table_correct_witness:
  "\<exists>m'. relocate_relative wit_core \<lparr>dr_relative = Relr [0x500, 0x508], dr_pltrel = [], dr_dynrel = []\<rparr> wit_sym_mem
     = Inr m' \<and> (\<forall>t \<in> {0x1050, 0x1058, 0x1068}. read_u64 m' t = 0x1000 + read_u64 wit_sym_mem t)"
proof -
  let ?r = "\<lparr>dr_relative = Relr [0x500, 0x508], dr_pltrel = [], dr_dynrel = []\<rparr>"
  have "words_apart (relr_targets (c_segments wit_core) 0 (map (read_u64 wit_sym_mem) [0x500, 0x508]))"
    unfolding wit_relr by (simp add: words_apart_def disjoint_if)
  moreover have "\<forall>t \<in> set (relr_targets (c_segments wit_core) 0 (map (read_u64 wit_sym_mem) [0x500, 0x508])).
      \<forall>p \<in> set [0x500, 0x508]. disjoint_ranges t 8 p 8"
    unfolding wit_relr by (simp add: disjoint_if)
  ultimately show ?thesis
    using relr_table_correct [of ?r "[0x500, 0x508]" wit_core wit_sym_mem] unfolding wit_relr by auto
qed

text \<open>
  Relative RELA relocations. For a table whose first entry has the relative type and whose
  targets are pairwise disjoint and outside the table, relocation stores base plus addend at every
  target and changes nothing else.
\<close>

lemma rela_relative_correct:
  assumes "dr_relative reloc = Rel ps" and "ps = [] \<or> r_type (rela_at m (hd ps)) = ucast REL_RELATIVE"
    and "words_apart (map (rel_target (c_segments core) \<circ> rela_at m) ps)"
    and "\<forall>p \<in> set ps. \<forall>q \<in> set ps. disjoint_ranges (rel_target (c_segments core) (rela_at m p)) 8 q 24"
  shows "\<exists>m'. relocate_relative core reloc m = Inr m' \<and>
     (\<forall>p \<in> set ps. read_u64 m' (core_base core + r_offset (rela_at m p)) =
        core_base core + r_addend (rela_at m p) (core_base core)) \<and>
     (\<forall>x. (\<forall>p \<in> set ps. \<not> in_range (core_base core + r_offset (rela_at m p)) 8 x) \<longrightarrow> m' x = m x)"
  using assms relative_fold [of ps "c_segments core" m]
  by (simp add: relocate_relative_def rel_target_def r_offset_def r_addend_def)

lemma wit_rela:
  "rela_at wit_sym_mem 0x400 = \<lparr>rela_offset = 0x20, rela_info = 0x100000006, rela_addend = 4\<rparr>"
  "rela_at wit_sym_mem 0x418 = \<lparr>rela_offset = 0x28, rela_info = 0x100000007, rela_addend = 0\<rparr>"
  "rela_at wit_sym_mem 0x430 = \<lparr>rela_offset = 0x30, rela_info = 8, rela_addend = 0x40\<rparr>"
  "rela_at wit_sym_mem 0x448 = \<lparr>rela_offset = 0x20, rela_info = 0x100000009, rela_addend = 0\<rparr>"
  by (simp_all add: rela_at_def wit_read)

lemmas wit_rela_simps = wit_rela r_type_def r_symbol_def r_offset_def r_addend_def REL_MASK_def REL_BIT_def

text \<open>
  C30. Order of resolution. The symbol of a relocation is taken from the user's first lookup; else,
  for a symbol that is not local, from the first library of the scope that answers, whose index is
  reported unless it is the module itself; else a weak undefined symbol is null and a symbol with a
  value is the module's own; else the user's second lookup decides. The second lookup is therefore
  not asked for a weak undefined symbol or one that the module itself defines, even when no library
  of the scope has it, a step that the comments of \<^verbatim>\<open>utils.rs\<close> leave out.
\<close>

theorem symbol_resolution_order:
  assumes "symbol_idx (rw_mem w) (c_symtab core) r = Inr (sptr, info)"
    and "\<not> is_local (sym_at (rw_mem w) sptr)"
  shows "(\<forall>a. x_pre_find X (si_name info) = Some a \<longrightarrow> find_symbol_addr X core scope r w = Inr (Some (a, None), w)) \<and>
     (x_pre_find X (si_name info) = None \<longrightarrow>
       (\<forall>i p. i < length scope \<and> answer (x_hb X) (rw_mem w) info (scope ! i) = Inr (Some p) \<and>
          (\<forall>j < i. answer (x_hb X) (rw_mem w) info (scope ! j) = Inr None) \<longrightarrow>
          find_symbol_addr X core scope r w =
            (let (a, w') = convert X \<lparr>sd_sym = Some p, sd_lib = lc_core (scope ! i)\<rparr> w
             in Inr (Some (a, lib_index core (scope ! i) i), w'))) \<and>
       ((\<forall>lib \<in> set scope. answer (x_hb X) (rw_mem w) info lib = Inr None) \<longrightarrow>
          find_symbol_addr X core scope r w =
            (if is_weak (sym_at (rw_mem w) sptr) \<and> is_undef (sym_at (rw_mem w) sptr)
             then if st_value (sym_at (rw_mem w) sptr) = 0 then Inr (Some (0, None), w)
                  else Inl (Panic ''assertion failed: dynsym.st_value() == 0'')
             else if st_value (sym_at (rw_mem w) sptr) \<noteq> 0
             then let (a, w') = convert X \<lparr>sd_sym = Some sptr, sd_lib = core\<rparr> w in Inr (Some (a, None), w')
             else Inr (map_option (\<lambda>a. (a, None)) (x_post_find X (si_name info)), w))))"
proof -
  have first: "find_symdef_impl (x_hb X) (rw_mem w) core scope sptr info =
      Inr (Some (\<lparr>sd_sym = Some p, sd_lib = lc_core (scope ! i)\<rparr>, lib_index core (scope ! i) i))"
    if "i < length scope" "answer (x_hb X) (rw_mem w) info (scope ! i) = Inr (Some p)"
      "\<forall>j < i. answer (x_hb X) (rw_mem w) info (scope ! j) = Inr None" for i p
    using scope_find_first [OF pc_ok_precompute that(1,2), of core 0] that(3) assms(2)
    by (simp add: find_symdef_impl_def)
  have none: "find_symdef_impl (x_hb X) (rw_mem w) core scope sptr info =
      res_bind (find_weak (rw_mem w) core sptr) (\<lambda>s. Inr (map_option (\<lambda>s. (s, None)) s))"
    if "\<forall>lib \<in> set scope. answer (x_hb X) (rw_mem w) info lib = Inr None"
    using scope_find_none [OF pc_ok_precompute, of scope "x_hb X" "rw_mem w" info core 0] that assms(2)
    by (simp add: find_symdef_impl_def)
  show ?thesis
    by (auto simp: find_symbol_addr_def assms(1) first none find_weak_def Let_def convert_def
        split: option.splits)
qed

definition wit_info :: symbol_info where
  "wit_info = \<lparr>si_name = [0x61], si_cname = Some [0x61], si_version = None\<rparr>"

lemma wit_sym:
  "sym_at wit_sym_mem 0x218 = \<lparr>sym_name = 1, sym_info = 0x12, sym_other = 0, sym_shndx = 1, sym_value = 0x10, sym_size = 4\<rparr>"
  by (simp add: sym_at_def wit_read)

lemma wit_lookup:
  assumes "si_name info = [0x61]" and "si_version info = None"
  shows "drop_pc (lookup_filter wit_hb wit_sym_mem wit_gnu_tab info (precompute info)) = Inr (Some 0x218)"
proof -
  have wf: "symtab_wf wit_hb wit_sym_mem wit_gnu_tab {1..<2}"
    using wit_gnu_wf by (auto simp: symtab_wf_def gnu_table_wf_def wit_gnu_tab_def wit_gnu_simps)
  have n: "sym_name_at wit_sym_mem wit_gnu_tab 1 = Some [0x61]" by (rule wit_names) (simp_all add: wit_gnu_tab_def)
  have "decided wit_sym_mem wit_gnu_tab info {1..<2}"
    using symtab_wf_names [OF wf] assms by (intro decided_unversioned) simp_all
  from symtab.lookup_unique [OF wf pc_ok_precompute this, of 1] n assms obtain pc' where
    "symtab_lookup wit_hb wit_sym_mem wit_gnu_tab info (precompute info) = Inr (Some 0x218, pc')"
    by (auto simp: matches_unversioned sym_ptr_def wit_gnu_tab_def size_sym_def)
  then show ?thesis
    by (simp add: lookup_filter_alt wit_sym is_undef_def is_ok_bind_def is_ok_type_def st_bind_def st_type_def
        st_shndx_def OK_BINDS_def OK_TYPES_def abi)
qed

lemma wit_answer: "answer wit_hb wit_sym_mem wit_info wit_lib = Inr (Some 0x218)"
  using wit_lookup [of wit_info] by (simp add: answer_def wit_lib_def from_core_def wit_info_def)

lemma wit_symbol_idx: "symbol_idx wit_sym_mem (c_symtab wit_core) 1 = Inr (0x218, wit_info)"
proof -
  have "wit_sym_mem 0x301 = 0x61" "wit_sym_mem 0x302 = 0" by (simp_all add: wit_read)
  then have "cstr wit_sym_mem 0x301 = Some [0x61]" by (simp add: cstr_step cstr_zero)
  then show ?thesis
    by (simp add: symbol_idx_def sym_ptr_def wit_core_def wit_gnu_tab_def size_sym_def wit_sym st_name_def
        get_cstr_def get_requirement_def wit_info_def)
qed

lemma wit_not_local: "\<not> is_local (sym_at wit_sym_mem 0x218)"
  by (simp add: wit_sym is_local_def st_bind_def abi)

theorem symbol_resolution_order_witness:
  "find_symbol_addr wit_ext wit_core [wit_lib] 1 wit_world = Inr (Some (0x5010, Some 0), wit_world)"
proof -
  have "symbol_idx (rw_mem wit_world) (c_symtab wit_core) 1 = Inr (0x218, wit_info)"
    using wit_symbol_idx by simp
  moreover have "\<not> is_local (sym_at (rw_mem wit_world) 0x218)" using wit_not_local by simp
  moreover have "answer (x_hb wit_ext) (rw_mem wit_world) wit_info wit_lib = Inr (Some 0x218)"
    using wit_answer by (simp add: wit_ext_def)
  moreover have "x_pre_find wit_ext (si_name wit_info) = None" by (simp add: wit_ext_def)
  ultimately have "find_symbol_addr wit_ext wit_core [wit_lib] 1 wit_world =
      (let (a, w') = convert wit_ext \<lparr>sd_sym = Some 0x218, sd_lib = lc_core wit_lib\<rparr> wit_world
       in Inr (Some (a, lib_index wit_core wit_lib 0), w'))"
    using symbol_resolution_order [of wit_world wit_core 1 "0x218" wit_info wit_ext "[wit_lib]"] by auto
  then show ?thesis
    by (simp add: convert_def wit_sym st_value_def st_type_def abi lib_index_def wit_lib_def wit_core_def
        from_core_def base_of_def)
qed

section \<open>Symbolic tables\<close>

definition no_handlers :: "'s ext \<Rightarrow> bool" where
  "no_handlers X \<longleftrightarrow> (\<forall>rel core scope s. x_pre_handler X rel core scope s = (None, s)) \<and>
     (\<forall>rel core scope s. x_post_handler X rel core scope s = (None, s))"

lemma no_handlers_simps:
  assumes "no_handlers X"
  shows "handle_pre X rel core scope w = Inr (True, w)" "handle_post X rel core scope w = Inr (True, w)"
  using assms by (simp_all add: handle_pre_def handle_post_def run_handler_def no_handlers_def)

lemma wit_no_handlers: "no_handlers wit_ext"
  by (simp add: no_handlers_def wit_ext_def)

text \<open>
  The symbol of the entry at \<open>p\<close> resolves to \<open>S p\<close> in library \<open>I p\<close>, in every memory that differs from
  \<open>m\<close> at the targets of the table only.
\<close>

definition resolves ::
  "'s ext \<Rightarrow> elf_core \<Rightarrow> loaded_core list \<Rightarrow> mem \<Rightarrow> usize list \<Rightarrow> (usize \<Rightarrow> usize) \<Rightarrow> (usize \<Rightarrow> usize option) \<Rightarrow> bool" where
  "resolves X core scope m ps S I \<longleftrightarrow>
     (\<forall>p \<in> set ps. \<forall>w. agree_off ((\<lambda>p. rel_target (c_segments core) (rela_at m p)) ` set ps) m (rw_mem w) \<longrightarrow>
        find_symbol_addr X core scope (r_symbol (rela_at m p)) w = Inr (Some (S p, I p), w))"

definition table_ok :: "elf_core \<Rightarrow> mem \<Rightarrow> usize list \<Rightarrow> u32 set \<Rightarrow> bool" where
  "table_ok core m ps types \<longleftrightarrow>
     words_apart (map (\<lambda>p. rel_target (c_segments core) (rela_at m p)) ps) \<and>
     (\<forall>p \<in> set ps. ucast (r_type (rela_at m p)) \<in> types) \<and>
     (\<forall>p \<in> set ps. \<forall>q \<in> set ps. disjoint_ranges (rel_target (c_segments core) (rela_at m p)) 8 q 24)"

lemma rela_at_agree:
  assumes "agree_off A m m'" and "\<And>t. t \<in> A \<Longrightarrow> disjoint_ranges t 8 q 24"
  shows "rela_at m' q = rela_at m q"
proof -
  have eq: "m' (q + of_nat i) = m (q + of_nat i)" if "i < 24" for i
  proof -
    have "in_range q 24 (q + of_nat i)" by (rule in_range_add_of_nat) (use that in simp_all)
    with assms show ?thesis by (auto simp: agree_off_def disjoint_ranges_def)
  qed
  have "read_u64 m' (q + of_nat j) = read_u64 m (q + of_nat j)" if "j + 8 \<le> 24" for j
    by (rule read_le_cong) (use eq [of "j + i" for i] that in \<open>simp add: ac_simps\<close>)
  from this [of 0] this [of 8] this [of 16] show ?thesis by (simp add: rela_at_def)
qed

text \<open>One entry that resolves, with room for its flag.\<close>

lemma symbolic_entry:
  assumes "no_handlers X" and "length (rw_flags w) = length scope" and "length scope < 2 ^ 64"
    and "rela_at (rw_mem w) p = rel" and "find_symbol_addr X core scope (r_symbol rel) w = Inr (Some (s, idx), w)"
  shows "ucast (r_type rel) \<in> {REL_GOT, REL_SYMBOLIC} \<Longrightarrow>
      dynrel_one X core scope p w =
        Inr (patched (rel_target (c_segments core) rel) (s + r_addend rel (core_base core)) idx w)"
    and "ucast (r_type rel) = REL_JUMP_SLOT \<Longrightarrow>
      pltrel_one X False core scope p w = Inr (patched (rel_target (c_segments core) rel) s idx w)"
proof -
  have "set_flag idx w = Inr (mark idx w)"
    by (rule set_flag_mark) (use find_symbol_addr_index assms(2,3,5) in force)
  moreover have "write64 (c_segments core) (r_offset rel) v (mark idx w) = patched (rel_target (c_segments core) rel) v idx w" for v
    by (simp add: write64_def patched_def seg_write64_def get_ptr_def rel_target_def r_offset_def)
  ultimately show "ucast (r_type rel) \<in> {REL_GOT, REL_SYMBOLIC} \<Longrightarrow>
      dynrel_one X core scope p w =
        Inr (patched (rel_target (c_segments core) rel) (s + r_addend rel (core_base core)) idx w)"
    and "ucast (r_type rel) = REL_JUMP_SLOT \<Longrightarrow>
      pltrel_one X False core scope p w = Inr (patched (rel_target (c_segments core) rel) s idx w)"
    using assms(4,5) by (simp_all add: dynrel_one_def dynrel_arm_def dynrel_symbolic_def pltrel_one_def
        plt_jump_slot_def no_handlers_simps [OF assms(1)] Let_def)
qed

lemma symbolic_fold:
  assumes ok: "table_ok core (rw_mem w) ps types" and len: "length (rw_flags w) = n"
    and entry: "\<And>p v. p \<in> set ps \<Longrightarrow> length (rw_flags v) = n \<Longrightarrow> rela_at (rw_mem v) p = rela_at (rw_mem w) p \<Longrightarrow>
      agree_off ((\<lambda>p. rel_target (c_segments core) (rela_at (rw_mem w) p)) ` set ps) (rw_mem w) (rw_mem v) \<Longrightarrow>
      step p v = Inr (patched (rel_target (c_segments core) (rela_at (rw_mem w) p)) (V p) (I p) v)"
  shows "\<exists>w'. res_fold step ps w = Inr w' \<and>
     (\<forall>p \<in> set ps. read_u64 (rw_mem w') (core_base core + r_offset (rela_at (rw_mem w) p)) = V p) \<and>
     (\<forall>x. (\<forall>p \<in> set ps. \<not> in_range (core_base core + r_offset (rela_at (rw_mem w) p)) 8 x) \<longrightarrow>
        rw_mem w' x = rw_mem w x) \<and>
     (\<forall>j < n. rw_flags w' ! j \<longleftrightarrow> rw_flags w ! j \<or> (\<exists>p \<in> set ps. \<exists>k. I p = Some k \<and> unat k = j))"
proof -
  let ?T = "\<lambda>p. rel_target (c_segments core) (rela_at (rw_mem w) p)"
  have target: "core_base core + r_offset (rela_at (rw_mem w) p) = ?T p" for p
    by (simp add: rel_target_def r_offset_def)
  have "step p v = Inr (patched (?T p) (V p) (I p) v)"
    if "p \<in> set ps" "agree_off (?T ` set ps) (rw_mem w) (rw_mem v)" "length (rw_flags v) = n" for p v
  proof (rule entry)
    show "rela_at (rw_mem v) p = rela_at (rw_mem w) p"
      by (rule rela_at_agree [OF that(2)]) (use ok that(1) in \<open>auto simp: table_ok_def\<close>)
  qed (use that in simp_all)
  moreover have "words_apart (map ?T ps)" using ok by (simp add: table_ok_def)
  moreover have "agree_off (?T ` set ps) (rw_mem w) (rw_mem w)" by (simp add: agree_off_def)
  ultimately show ?thesis
    unfolding target using patch_fold [of ps "?T ` set ps" "rw_mem w" n step ?T V I w, OF _ _ subset_refl _ len] by blast
qed

text \<open>
  C31. Symbolic relocations. Over a table of GOT and symbolic entries whose targets are disjoint and
  outside the table and whose symbols resolve, relocation returns; every target then holds the
  address of its symbol plus the addend, every other byte is unchanged, and exactly the libraries
  bound to are flagged.
\<close>

theorem dynrel_table_correct:
  assumes "no_handlers X" and "length (rw_flags w) = length scope" and "length scope < 2 ^ 64"
    and "table_ok core (rw_mem w) (dr_dynrel reloc) {REL_GOT, REL_SYMBOLIC}"
    and "resolves X core scope (rw_mem w) (dr_dynrel reloc) S I"
  shows "\<exists>w'. relocate_dynrel X core reloc scope w = Inr w' \<and>
     (\<forall>p \<in> set (dr_dynrel reloc). let rel = rela_at (rw_mem w) p in
        read_u64 (rw_mem w') (core_base core + r_offset rel) = S p + r_addend rel (core_base core)) \<and>
     (\<forall>x. (\<forall>p \<in> set (dr_dynrel reloc). \<not> in_range (core_base core + r_offset (rela_at (rw_mem w) p)) 8 x) \<longrightarrow>
        rw_mem w' x = rw_mem w x) \<and>
     (\<forall>j < length scope. rw_flags w' ! j \<longleftrightarrow>
        rw_flags w ! j \<or> (\<exists>p \<in> set (dr_dynrel reloc). \<exists>k. I p = Some k \<and> unat k = j))"
proof -
  have "dynrel_one X core scope p v =
      Inr (patched (rel_target (c_segments core) (rela_at (rw_mem w) p))
        (S p + r_addend (rela_at (rw_mem w) p) (core_base core)) (I p) v)"
    if "p \<in> set (dr_dynrel reloc)" "length (rw_flags v) = length scope" "rela_at (rw_mem v) p = rela_at (rw_mem w) p"
      "agree_off ((\<lambda>p. rel_target (c_segments core) (rela_at (rw_mem w) p)) ` set (dr_dynrel reloc)) (rw_mem w) (rw_mem v)"
    for p v
  proof (rule symbolic_entry(1) [OF assms(1) that(2) assms(3) that(3)])
    show "find_symbol_addr X core scope (r_symbol (rela_at (rw_mem w) p)) v = Inr (Some (S p, I p), v)"
      using assms(5) that(1,4) unfolding resolves_def by blast
    show "ucast (r_type (rela_at (rw_mem w) p)) \<in> {REL_GOT, REL_SYMBOLIC}"
      using assms(4) that(1) unfolding table_ok_def by blast
  qed
  then show ?thesis unfolding relocate_dynrel_def Let_def by (rule symbolic_fold [OF assms(4,2)])
qed

definition wit_image :: dynamic_image where
  "wit_image = \<lparr>di_core = wit_core,
     di_relocation = \<lparr>dr_relative = Rel [], dr_pltrel = [0x418], dr_dynrel = [0x400]\<rparr>, di_lazy = False,
     di_got = Some 0x1000, di_relro = None, di_needed = [], di_pltrel = Some 0x418, di_init_fn = None,
     di_init_array = None\<rparr>"

lemma wit_symbol_idx_agree:
  assumes "agree_off A wit_sym_mem m" and "A \<subseteq> {0x1020, 0x1028}"
  shows "symbol_idx m (c_symtab wit_core) 1 = Inr (0x218, wit_info)"
proof -
  have eq: "m x = wit_sym_mem x" if "x < 0x1000" for x
  proof -
    have "unat x < 0x1000" using that by (simp add: word_less_nat_alt)
    then have "\<not> in_range 0x1020 8 x" "\<not> in_range 0x1028 8 x"
      using that by (auto simp: in_range_def unat_sub_if_size word_size word_less_nat_alt)
    with assms show ?thesis unfolding agree_off_def by blast
  qed
  have s: "sym_at m 0x218 = sym_at wit_sym_mem 0x218"
    by (simp add: sym_at_def read_le_def read_bytes_def upt_rec eq word_less_nat_alt)
  have "wit_sym_mem 0x301 = 0x61" "wit_sym_mem 0x302 = 0" by (simp_all add: wit_read)
  then have "m 0x301 = 0x61" "m 0x302 = 0" by (simp_all add: eq word_less_nat_alt)
  then have "cstr m 0x301 = Some [0x61]" by (simp add: cstr_step cstr_zero)
  then show ?thesis
    by (simp add: symbol_idx_def sym_ptr_def wit_core_def wit_gnu_tab_def size_sym_def s wit_sym st_name_def
        get_cstr_def get_requirement_def wit_info_def)
qed

lemma wit_resolves:
  assumes "p \<in> {0x400, 0x418}"
  shows "resolves (wit_ext\<lparr>x_pre_find := \<lambda>_. Some 0x7000\<rparr>) wit_core [wit_lib] wit_sym_mem [p] (\<lambda>_. 0x7000) (\<lambda>_. None)"
  unfolding resolves_def
proof (intro ballI allI impI)
  fix q and w :: "unit rworld" assume q: "q \<in> set [p]"
    and ag: "agree_off ((\<lambda>p. rel_target (c_segments wit_core) (rela_at wit_sym_mem p)) ` set [p]) wit_sym_mem (rw_mem w)"
  have "symbol_idx (rw_mem w) (c_symtab wit_core) 1 = Inr (0x218, wit_info)"
    by (rule wit_symbol_idx_agree [OF ag]) (use assms in \<open>auto simp: wit_rela rel_target_def\<close>)
  moreover have "r_symbol (rela_at wit_sym_mem q) = 1" using assms q by (auto simp: wit_rela_simps)
  ultimately show "find_symbol_addr (wit_ext\<lparr>x_pre_find := \<lambda>_. Some 0x7000\<rparr>) wit_core [wit_lib]
      (r_symbol (rela_at wit_sym_mem q)) w = Inr (Some (0x7000, None), w)"
    by (simp add: find_symbol_addr_def)
qed

lemma wit_pre_no_handlers: "no_handlers (wit_ext\<lparr>x_pre_find := f\<rparr>)"
  by (simp add: no_handlers_def wit_ext_def)

theorem dynrel_table_correct_witness:
  "\<exists>w'. relocate_dynrel (wit_ext\<lparr>x_pre_find := \<lambda>_. Some 0x7000\<rparr>) wit_core (di_relocation wit_image) [wit_lib] wit_world
     = Inr w' \<and> read_u64 (rw_mem w') 0x1020 = 0x7004"
proof -
  have "table_ok wit_core wit_sym_mem [0x400] {REL_GOT, REL_SYMBOLIC}"
    by (simp add: table_ok_def words_apart_def wit_rela_simps rel_consts rel_target_def disjoint_if)
  then show ?thesis
    using dynrel_table_correct [OF wit_pre_no_handlers, of wit_world "[wit_lib]" wit_core "di_relocation wit_image"
        "\<lambda>_. Some 0x7000" "\<lambda>_. 0x7000" "\<lambda>_. None"] wit_resolves [of "0x400"]
    by (auto simp: wit_image_def wit_world_def wit_rela_simps Let_def)
qed

text \<open>
  Jump slots at load time. The same for the PLT table without lazy binding: every slot holds
  the address of its function.
\<close>

lemma plt_table_correct:
  assumes "no_handlers X" and "length (rw_flags w) = length scope" and "length scope < 2 ^ 64"
    and "table_ok (di_core img) (rw_mem w) (dr_pltrel (di_relocation img)) {REL_JUMP_SLOT}"
    and "resolves X (di_core img) scope (rw_mem w) (dr_pltrel (di_relocation img)) S I"
    and "di_relro img = None"
  shows "\<exists>w'. relocate_pltrel X img False lscope scope w = Inr w' \<and>
     (\<forall>p \<in> set (dr_pltrel (di_relocation img)).
        read_u64 (rw_mem w') (core_base (di_core img) + r_offset (rela_at (rw_mem w) p)) = S p) \<and>
     (\<forall>x. (\<forall>p \<in> set (dr_pltrel (di_relocation img)).
           \<not> in_range (core_base (di_core img) + r_offset (rela_at (rw_mem w) p)) 8 x) \<longrightarrow>
        rw_mem w' x = rw_mem w x) \<and>
     (\<forall>j < length scope. rw_flags w' ! j \<longleftrightarrow>
        rw_flags w ! j \<or> (\<exists>p \<in> set (dr_pltrel (di_relocation img)). \<exists>k. I p = Some k \<and> unat k = j))"
proof -
  have "pltrel_one X False (di_core img) scope p v =
      Inr (patched (rel_target (c_segments (di_core img)) (rela_at (rw_mem w) p)) (S p) (I p) v)"
    if "p \<in> set (dr_pltrel (di_relocation img))" "length (rw_flags v) = length scope"
      "rela_at (rw_mem v) p = rela_at (rw_mem w) p"
      "agree_off ((\<lambda>p. rel_target (c_segments (di_core img)) (rela_at (rw_mem w) p)) `
         set (dr_pltrel (di_relocation img))) (rw_mem w) (rw_mem v)" for p v
  proof (rule symbolic_entry(2) [OF assms(1) that(2) assms(3) that(3)])
    show "find_symbol_addr X (di_core img) scope (r_symbol (rela_at (rw_mem w) p)) v = Inr (Some (S p, I p), v)"
      using assms(5) that(1,4) unfolding resolves_def by blast
    show "ucast (r_type (rela_at (rw_mem w) p)) = REL_JUMP_SLOT"
      using assms(4) that(1) unfolding table_ok_def by blast
  qed
  moreover have "relocate_pltrel X img False lscope scope w =
      res_fold (pltrel_one X False (di_core img) scope) (dr_pltrel (di_relocation img)) w"
    unfolding relocate_pltrel_def
    by (cases "res_fold (pltrel_one X False (di_core img) scope) (dr_pltrel (di_relocation img)) w")
      (simp_all add: Let_def assms(6))
  ultimately show ?thesis by (simp only:) (rule symbolic_fold [OF assms(4,2)])
qed

section \<open>The whole run\<close>

lemma relocate_pltrel_entries:
  assumes "relocate_pltrel X img is_lazy ls scope w = Inr w'"
  obtains w1 where "res_fold (pltrel_one X is_lazy (di_core img) scope) (dr_pltrel (di_relocation img)) w = Inr w1"
    and "rw_flags w' = rw_flags w1"
  using assms
  by (auto simp: relocate_pltrel_def res_simps Let_def split: option.splits if_splits)

lemma relocate_pltrel_grows: "relocate_pltrel X img l ls scope w = Inr w' \<Longrightarrow> flags_grow w w'"
  by (erule relocate_pltrel_entries) (auto simp: flags_grow_def dest!: pltrel_run.fold_grows)

lemma finish_flags [simp]: "rw_flags (finish X img w) = rw_flags w" "rw_is_init (finish X img w)"
  by (simp_all add: finish_def Let_def split: prod.splits)

lemma collect_deps_nth:
  assumes "length flags = length scope"
  shows "collect_deps img scope flags =
     map (\<lambda>j. scope ! j)
       (filter (\<lambda>j. flags ! j \<or> c_name (lc_core (scope ! j)) \<in> set (di_needed img)) [0..<length scope])"
proof -
  have "zip scope flags = map (\<lambda>j. (scope ! j, flags ! j)) [0..<length scope]"
    by (rule nth_equalityI) (simp_all add: assms)
  then show ?thesis by (simp add: collect_deps_def filter_map comp_def)
qed

text \<open>The worlds between the stages of a run.\<close>

lemma relocate_impl_stages:
  assumes "relocate_impl X img scope lazy custom w = Inr (lc, w')" and "\<not> reloc_is_empty (di_relocation img)"
  obtains m w1 w2 where
    "relocate_relative (di_core img) (di_relocation img) (rw_mem w) = Inr m"
    and "relocate_dynrel X (di_core img) (di_relocation img) scope
           (set_mem m (w\<lparr>rw_flags := replicate (length scope) False\<rparr>)) = Inr w1"
    and "flags_grow w1 w2" and "w' = finish X img w2"
    and "lc = LoadedCore (di_core img) (collect_deps img scope (rw_flags w2))"
    and "length (rw_flags w2) = length scope"
    and "relocate_pltrel X img (case lazy of None \<Rightarrow> di_lazy img | Some b \<Rightarrow> b)
       (make_lazy_scope img (case lazy of None \<Rightarrow> di_lazy img | Some b \<Rightarrow> b) custom scope) scope w1 = Inr w2"
proof -
  from assms obtain m w1 w2 where
    s: "relocate_relative (di_core img) (di_relocation img) (rw_mem w) = Inr m"
    "relocate_dynrel X (di_core img) (di_relocation img) scope
       (set_mem m (w\<lparr>rw_flags := replicate (length scope) False\<rparr>)) = Inr w1"
    and p: "relocate_pltrel X img (case lazy of None \<Rightarrow> di_lazy img | Some b \<Rightarrow> b)
       (make_lazy_scope img (case lazy of None \<Rightarrow> di_lazy img | Some b \<Rightarrow> b) custom scope) scope w1 = Inr w2"
    and r: "w' = finish X img w2" "lc = LoadedCore (di_core img) (collect_deps img scope (rw_flags w2))"
    by (auto simp: relocate_impl_def res_simps Let_def from_core_deps_def)
  note g = relocate_pltrel_grows [OF p]
  from s(2) have "length (rw_flags w1) = length scope"
    by (auto simp: relocate_dynrel_def flags_grow_def dest!: dynrel_run.fold_grows)
  with g have "length (rw_flags w2) = length scope" by (simp add: flags_grow_def)
  with s g r show thesis using p by (rule that)
qed







lemma wit_got_type: "ucast (r_type (rela_at wit_sym_mem 0x400)) = REL_GOT" "r_symbol (rela_at wit_sym_mem 0x400) = 1"
  by (simp_all add: wit_rela_simps rel_consts)



text \<open>
  Libraries in use stay alive. When, during a run that returns, an entry of the dynamic table
  was bound to a library of the scope, that library is among the dependencies of the result.
\<close>

lemma bound_library_is_dependency:
  assumes "relocate_impl X img scope lazy custom w = Inr (lc, w')" and "length scope < 2 ^ 64"
    and "dr_dynrel (di_relocation img) = ps @ p # qs"
    and "relocate_relative (di_core img) (di_relocation img) (rw_mem w) = Inr m"
    and "res_fold (dynrel_one X (di_core img) scope) ps
           (set_mem m (w\<lparr>rw_flags := replicate (length scope) False\<rparr>)) = Inr w1"
    and "handle_pre X (rela_at (rw_mem w1) p) (di_core img) scope w1 = Inr (True, w2)"
    and "ucast (r_type (rela_at (rw_mem w1) p)) \<in> {REL_GOT, REL_SYMBOLIC}"
    and "find_symbol_addr X (di_core img) scope (r_symbol (rela_at (rw_mem w1) p)) w2 = Inr (Some (s, Some j), w3)"
  shows "scope ! unat j \<in> set (lc_deps lc)"
proof -
  let ?core = "di_core img" and ?rel = "rela_at (rw_mem w1) p"
  have "\<not> reloc_is_empty (di_relocation img)" by (simp add: reloc_is_empty_def assms(3))
  from relocate_impl_stages [OF assms(1) this] obtain w4 w5 where
    "relocate_dynrel X ?core (di_relocation img) scope
       (set_mem m (w\<lparr>rw_flags := replicate (length scope) False\<rparr>)) = Inr w4"
    and late: "flags_grow w4 w5" "lc = LoadedCore ?core (collect_deps img scope (rw_flags w5))"
    "length (rw_flags w5) = length scope" using assms(4) by (metis sum.inject(2))
  then obtain w6 where entry: "dynrel_one X ?core scope p w1 = Inr w6"
    and rest: "res_fold (dynrel_one X ?core scope) qs w6 = Inr w4"
    by (auto simp: relocate_dynrel_def assms(3,5) res_fold_append res_simps)
  have j: "unat j < length scope" by (rule find_symbol_addr_index [OF assms(8,2)])
  note grow = dynrel_run.fold_grows [OF rest] late(1)
  have len: "length (rw_flags w6) = length scope" using grow late(3) by (simp add: flags_grow_def)
  have "rw_flags w6 ! unat j"
    using entry assms(7) len j
    by (auto simp: dynrel_one_def assms(6,8) dynrel_arm_def dynrel_symbolic_def set_flag_def res_simps Let_def
        split: if_splits)
  with grow len j have "rw_flags w5 ! unat j" by (simp add: flags_grow_def)
  with late(2,3) j show ?thesis by (auto simp: collect_deps_nth)
qed

text \<open>
  C33. Symbols that are not found. Without handlers, a GOT or symbolic entry whose symbol no lookup
  finds is the error that names the file, the relocation type and the symbol; a jump slot that is
  bound at load time is left as it is, without an error.
\<close>

theorem unresolved_symbols:
  assumes "no_handlers X" and "rela_at (rw_mem w) p = rel" and "r_symbol rel \<noteq> 0"
    and "symbol_idx (rw_mem w) (c_symtab core) (r_symbol rel) = Inr (sptr, info)"
    and "find_symbol_addr X core scope (r_symbol rel) w = Inr (None, w)"
  shows "(ucast (r_type rel) \<in> {REL_GOT, REL_SYMBOLIC} \<longrightarrow>
       dynrel_one X core scope p w = Inl (Err (Relocation (''file: '' @ c_name core @ '', relocation type: '' @
         rel_type_to_str (r_type rel) @ '', symbol name: '' @ str_of (si_name info) @
         '', error: Unhandled relocation'')))) \<and>
     (ucast (r_type rel) = REL_JUMP_SLOT \<longrightarrow> pltrel_one X False core scope p w = Inr w)"
  using assms(2-5)
  by (simp add: dynrel_one_def dynrel_arm_def dynrel_symbolic_def pltrel_one_def plt_jump_slot_def unhandled_def
      fail_reloc_def reloc_error_def relocate_error_def no_handlers_simps [OF assms(1)] Let_def)

definition wit_und_mem :: mem where
  "wit_und_mem = write_bytes wit_sym_mem 0x220 [0]"

lemma wit_und:
  "rela_at wit_und_mem 0x400 = rela_at wit_sym_mem 0x400"
  "sym_at wit_und_mem 0x218 = \<lparr>sym_name = 1, sym_info = 0x12, sym_other = 0, sym_shndx = 1, sym_value = 0, sym_size = 4\<rparr>"
  "symbol_idx wit_und_mem (c_symtab wit_core) 1 = Inr (0x218, wit_info)"
proof -
  show "rela_at wit_und_mem 0x400 = rela_at wit_sym_mem 0x400" by (simp add: rela_at_def wit_und_mem_def wit_read)
  show s: "sym_at wit_und_mem 0x218 = \<lparr>sym_name = 1, sym_info = 0x12, sym_other = 0, sym_shndx = 1, sym_value = 0, sym_size = 4\<rparr>"
    by (simp add: sym_at_def wit_und_mem_def wit_read)
  have "wit_und_mem 0x301 = 0x61" "wit_und_mem 0x302 = 0" by (simp_all add: wit_und_mem_def wit_read)
  then have "cstr wit_und_mem 0x301 = Some [0x61]" by (simp add: cstr_step cstr_zero)
  then show "symbol_idx wit_und_mem (c_symtab wit_core) 1 = Inr (0x218, wit_info)"
    by (simp add: symbol_idx_def sym_ptr_def wit_core_def wit_gnu_tab_def size_sym_def s st_name_def
        get_cstr_def get_requirement_def wit_info_def)
qed

theorem unresolved_symbols_witness:
  "dynrel_one wit_ext wit_core [] 0x400 (set_mem wit_und_mem wit_world) =
     Inl (Err (Relocation ''file: main, relocation type: R_X86_64_GLOB_DAT, symbol name: a, error: Unhandled relocation''))"
proof -
  let ?w = "set_mem wit_und_mem wit_world" and ?rel = "rela_at wit_sym_mem 0x400"
  have "find_symbol_addr wit_ext wit_core [] 1 ?w = Inr (None, ?w)"
    by (simp add: find_symbol_addr_def wit_und find_symdef_impl_def find_weak_def is_local_def is_weak_def is_undef_def
        st_bind_def st_value_def st_shndx_def abi wit_ext_def)
  then have "dynrel_one wit_ext wit_core [] 0x400 ?w = Inl (Err (Relocation (''file: '' @ c_name wit_core @
      '', relocation type: '' @ rel_type_to_str (r_type ?rel) @ '', symbol name: '' @ str_of (si_name wit_info) @
      '', error: Unhandled relocation'')))"
    using unresolved_symbols [OF wit_no_handlers, of ?w "0x400" ?rel wit_core "0x218" wit_info "[]"]
    by (simp add: wit_und wit_got_type)
  moreover have "char_of (97 :: nat) = CHR ''a''" by (simp add: char_of_def bit_0)
  ultimately show ?thesis
    by (simp add: rel_type_to_str_def wit_rela_simps abi str_of_def wit_info_def Let_def) (simp add: wit_core_def)
qed

text \<open>
  C35. Binding on the first call. The fix-up of a jump slot whose symbol the lazy scope finds returns
  the address found and stores it in the slot, so that later calls go there directly; nothing else
  changes.
\<close>

theorem dl_fixup_binds:
  assumes "di_pltrel img = Some p" and "rela_at (rw_mem w) (p + rela_idx * 24) = rel"
    and "r_type rel = ucast REL_JUMP_SLOT" and "r_symbol rel \<noteq> 0"
    and "symbol_idx (rw_mem w) (c_symtab (di_core img)) (r_symbol rel) = Inr (sptr, info)"
    and "rw_lazy_scope w = Some ls" and "lazy_lookup X ls (si_name info) w = Inr (Some s, w1)"
  shows "\<exists>w'. dl_fixup X img rela_idx w = Inr (s, w') \<and>
     read_u64 (rw_mem w') (core_base (di_core img) + r_offset rel) = s \<and>
     (\<forall>x. \<not> in_range (core_base (di_core img) + r_offset rel) 8 x \<longrightarrow> rw_mem w' x = rw_mem w1 x) \<and>
     rw_flags w' = rw_flags w1"
  using assms by (simp add: dl_fixup_def size_rela_def Let_def rw_mem_write64 read_write_le write_le_frame)

theorem dl_fixup_binds_witness:
  "\<exists>w'. dl_fixup wit_ext wit_image 0 (wit_world\<lparr>rw_lazy_scope := Some \<lparr>ls_libs = [], ls_custom = Some (\<lambda>_. Some 0x7000)\<rparr>\<rparr>)
     = Inr (0x7000, w') \<and> read_u64 (rw_mem w') 0x1028 = 0x7000"
proof -
  let ?ls = "\<lparr>ls_libs = [], ls_custom = Some (\<lambda>_. Some 0x7000)\<rparr>"
  let ?w = "wit_world\<lparr>rw_lazy_scope := Some ?ls\<rparr>"
  have "rw_mem ?w = wit_sym_mem" by simp
  moreover have "lazy_lookup wit_ext ?ls (si_name wit_info) ?w = Inr (Some 0x7000, ?w)" by (simp add: lazy_lookup_def)
  ultimately show ?thesis
    using dl_fixup_binds [of wit_image "0x418" ?w 0 "rela_at wit_sym_mem 0x418" "0x218" wit_info ?ls wit_ext "0x7000" ?w]
      wit_symbol_idx
    by (auto simp: wit_image_def wit_rela_simps rel_consts)
qed

text \<open>
  Order of lazy lookup. On the first call the user's lookup is asked first, then the libraries
  of the lazy scope that are still alive, in order, by the plain name: the first that answers decides.
\<close>

lemma lazy_lookup_order:
  "(\<forall>f a. ls_custom ls = Some f \<and> f name = Some a \<longrightarrow> lazy_lookup X ls name w = Inr (Some a, w)) \<and>
   (Option.bind (ls_custom ls) (\<lambda>f. f name) = None \<longrightarrow>
     (\<forall>i p. i < length (ls_libs ls) \<and> x_alive X (c_addr (ls_libs ls ! i)) \<and>
        answer (x_hb X) (rw_mem w) (info_of name) (from_core (ls_libs ls ! i)) = Inr (Some p) \<and>
        (\<forall>j < i. x_alive X (c_addr (ls_libs ls ! j)) \<longrightarrow>
           answer (x_hb X) (rw_mem w) (info_of name) (from_core (ls_libs ls ! j)) = Inr None) \<longrightarrow>
        lazy_lookup X ls name w =
          (let (a, w') = convert X \<lparr>sd_sym = Some p, sd_lib = ls_libs ls ! i\<rparr> w in Inr (Some a, w'))))"
proof -
  have get: "loaded_get X lib name w =
      res_bind (answer (x_hb X) (rw_mem w) (info_of name) (from_core lib)) (\<lambda>r. case r of
          None \<Rightarrow> Inr (None, w)
        | Some p \<Rightarrow> let (a, w') = convert X \<lparr>sd_sym = Some p, sd_lib = lib\<rparr> w in Inr (Some a, w'))" for lib
    by (cases "lookup_filter (x_hb X) (rw_mem w) (c_symtab lib) (info_of name) (precompute (info_of name))")
      (auto simp: loaded_get_def info_from_str_def loaded_get_info_def answer_def from_core_def Let_def split: option.splits)
  have first: "lazy_libs_lookup X libs name w =
      (let (a, w') = convert X \<lparr>sd_sym = Some p, sd_lib = libs ! i\<rparr> w in Inr (Some a, w'))"
    if "i < length libs" "x_alive X (c_addr (libs ! i))"
      "answer (x_hb X) (rw_mem w) (info_of name) (from_core (libs ! i)) = Inr (Some p)"
      "\<And>j. j < i \<Longrightarrow> x_alive X (c_addr (libs ! j)) \<Longrightarrow>
         answer (x_hb X) (rw_mem w) (info_of name) (from_core (libs ! j)) = Inr None" for libs i p
    using that
  proof (induction libs arbitrary: i)
    case Nil
    then show ?case by simp
  next
    case (Cons lib libs)
    show ?case
    proof (cases i)
      case 0
      with Cons.prems show ?thesis by (simp add: get case_prod_beta Let_def)
    next
      case (Suc j)
      with Cons.prems(4) [of 0] have "lazy_libs_lookup X (lib # libs) name w = lazy_libs_lookup X libs name w"
        by (simp add: get)
      moreover have "lazy_libs_lookup X libs name w =
          (let (a, w') = convert X \<lparr>sd_sym = Some p, sd_lib = libs ! j\<rparr> w in Inr (Some a, w'))"
        by (rule Cons.IH) (use Cons.prems Suc Cons.prems(4) [of "Suc k" for k] in auto)
      ultimately show ?thesis using Suc by simp
    qed
  qed
  show ?thesis
    by (cases "ls_custom ls") (auto simp: lazy_lookup_def first simp del: lazy_libs_lookup.simps split: option.splits)
qed

section \<open>Lazy tables\<close>

lemma lazy_fold:
  assumes "no_handlers X" and "table_ok core (rw_mem w) ps {REL_JUMP_SLOT}"
  shows "res_fold (pltrel_one X True core scope) ps w =
     Inr (set_mem (foldl (add_base (core_base core)) (rw_mem w)
       (map (\<lambda>p. rel_target (c_segments core) (rela_at (rw_mem w) p)) ps)) w)"
  using assms(2)
proof (induction ps arbitrary: w)
  case Nil
  then show ?case by (simp add: set_mem_def)
next
  case (Cons p ps)
  let ?t = "rel_target (c_segments core) (rela_at (rw_mem w) p)"
  let ?w = "set_mem (add_base (core_base core) (rw_mem w) ?t) w"
  have one: "pltrel_one X True core scope p w = Inr ?w"
    using Cons.prems by (simp add: pltrel_one_def plt_jump_slot_def table_ok_def no_handlers_simps [OF assms(1)] add_base_def
        rel_target_def r_offset_def Let_def ac_simps)
  have same: "rela_at (rw_mem ?w) q = rela_at (rw_mem w) q" if "q \<in> set ps" for q
    using Cons.prems that by (simp add: add_base_def rela_at_write table_ok_def)
  then have eq: "map (\<lambda>p. rel_target (c_segments core) (rela_at (rw_mem ?w) p)) ps =
      map (\<lambda>p. rel_target (c_segments core) (rela_at (rw_mem w) p)) ps" by simp
  have "table_ok core (rw_mem ?w) ps {REL_JUMP_SLOT}"
    unfolding table_ok_def eq using Cons.prems same by (simp add: table_ok_def words_apart_def)
  from Cons.IH [OF this, unfolded eq] one show ?case by (simp add: set_mem_def)
qed

text \<open>
  C36. Lazy tables. With lazy binding, every jump slot of the table is moved by the base, so that the
  first call goes through the module's own PLT; the second and third word of the GOT hold the module
  and the resolver, and the lazy scope is installed.
\<close>

theorem lazy_table_prepared:
  assumes "no_handlers X" and "table_ok (di_core img) (rw_mem w) (dr_pltrel (di_relocation img)) {REL_JUMP_SLOT}"
    and "dr_pltrel (di_relocation img) \<noteq> []" and "di_got img = Some got"
    and "\<forall>p \<in> set (dr_pltrel (di_relocation img)).
      disjoint_ranges (got + 8) 16 (core_base (di_core img) + r_offset (rela_at (rw_mem w) p)) 8"
  shows "\<exists>w'. relocate_pltrel X img True (Some ls) scope w = Inr w' \<and> rw_lazy_scope w' = Some ls \<and>
     read_u64 (rw_mem w') (got + 8) = c_addr (di_core img) \<and> read_u64 (rw_mem w') (got + 16) = x_resolve X \<and>
     (\<forall>p \<in> set (dr_pltrel (di_relocation img)). let slot = core_base (di_core img) + r_offset (rela_at (rw_mem w) p) in
        read_u64 (rw_mem w') slot = core_base (di_core img) + read_u64 (rw_mem w) slot)"
proof -
  let ?ps = "dr_pltrel (di_relocation img)" and ?b = "core_base (di_core img)"
  let ?T = "\<lambda>p. rel_target (c_segments (di_core img)) (rela_at (rw_mem w) p)"
  let ?m = "foldl (add_base ?b) (rw_mem w) (map ?T ?ps)"
  let ?m' = "write_u64 (write_u64 ?m (got + 8) (c_addr (di_core img))) (got + 16) (x_resolve X)"
  have target: "?b + r_offset (rela_at (rw_mem w) p) = ?T p" for p by (simp add: rel_target_def r_offset_def)
  have run: "relocate_pltrel X img True (Some ls) scope w = Inr ((set_mem ?m' w)\<lparr>rw_lazy_scope := Some ls\<rparr>)"
    using lazy_fold [OF assms(1,2), of scope] assms(3,4)
    by (simp add: relocate_pltrel_def prepare_lazy_bind_def DYLIB_OFFSET_def RESOLVE_FUNCTION_OFFSET_def set_mem_def Let_def)
  have d: "disjoint_ranges (got + 16) 8 (got + 8) 8" by (rule disjoint_if) simp_all
  have slots: "read_u64 ?m' (?T p) = ?b + read_u64 (rw_mem w) (?T p)" if "p \<in> set ?ps" for p
  proof -
    have "disjoint_ranges (?T p) 8 (got + 8) 16" using assms(5) that by (simp add: target disjoint_ranges_sym)
    from disjoint_sub [OF this, of 0 8] disjoint_sub [OF this, of 8 8]
    have "disjoint_ranges (got + 8) 8 (?T p) 8" "disjoint_ranges (got + 16) 8 (?T p) 8"
      by (simp_all add: disjoint_ranges_sym [of "?T p"] add.assoc)
    moreover have "read_u64 ?m (?T p) = ?b + read_u64 (rw_mem w) (?T p)"
      by (rule read_fold_add_base) (use assms(2) that in \<open>auto simp: table_ok_def\<close>)
    ultimately show ?thesis by (simp add: read_le_write_le_disjoint)
  qed
  let ?w' = "(set_mem ?m' w)\<lparr>rw_lazy_scope := Some ls\<rparr>"
  have mem: "rw_mem ?w' = ?m'" and scope: "rw_lazy_scope ?w' = Some ls" by (simp_all add: set_mem_def)
  have words: "read_u64 ?m' (got + 8) = c_addr (di_core img)" "read_u64 ?m' (got + 16) = x_resolve X"
    by (simp_all add: read_write_le read_le_write_le_disjoint d)
  show ?thesis unfolding run target Let_def
    by (intro exI [of _ ?w'] conjI ballI) (simp_all only: mem scope words slots)
qed

theorem lazy_table_prepared_witness:
  "\<exists>w'. relocate_pltrel wit_ext wit_image True (Some \<lparr>ls_libs = [], ls_custom = None\<rparr>) [] wit_world = Inr w' \<and>
     read_u64 (rw_mem w') 0x1008 = 0x9000 \<and> read_u64 (rw_mem w') 0x1010 = 0x6000"
proof -
  have "table_ok wit_core wit_sym_mem [0x418] {REL_JUMP_SLOT}"
    by (simp add: table_ok_def words_apart_def wit_rela_simps rel_consts rel_target_def disjoint_if)
  then show ?thesis
    using lazy_table_prepared [OF wit_no_handlers, of wit_image wit_world "0x1000"
        "\<lparr>ls_libs = [], ls_custom = None\<rparr>" "[]"]
    by (auto simp: wit_image_def wit_rela_simps disjoint_if wit_ext_def [THEN arg_cong, of x_resolve]
        wit_core_def [THEN arg_cong, of c_addr])
qed

text \<open>
  Splitting the tables. Without a compact table, the first entries up to the relative count are
  the relative relocations; when the PLT table is the tail of the dynamic table, the relative,
  dynamic and PLT entries together are the table, in order, so every entry is processed once; when
  the tables end at different addresses, the dynamic table is used to its end. A count larger than
  the table is a panic.
\<close>

lemma relocation_tables_partition:
  "(length (snd d) < unat (or_zero count) \<longrightarrow>
      dynamic_relocation_new (Some p) (Some d) None count = Inl (Panic ''range end index out of range'')) \<and>
   (\<forall>xs. unat (or_zero count) \<le> length xs \<and> snd d = xs @ snd p \<and> slice_end d = slice_end p \<longrightarrow>
      (\<exists>r rs. dynamic_relocation_new (Some p) (Some d) None count = Inr r \<and> dr_relative r = Rel rs \<and>
         length rs = unat (or_zero count) \<and> rs @ dr_dynrel r @ dr_pltrel r = snd d)) \<and>
   (unat (or_zero count) \<le> length (snd d) \<and> slice_end d \<noteq> slice_end p \<longrightarrow>
      (\<exists>r rs. dynamic_relocation_new (Some p) (Some d) None count = Inr r \<and> dr_relative r = Rel rs \<and>
         length rs = unat (or_zero count) \<and> rs @ dr_dynrel r = snd d \<and> dr_pltrel r = snd p))"
  by (auto simp: dynamic_relocation_new_def or_empty_def Let_def)

text \<open>
  Narrow values. A relocation value is accepted as a signed 32-bit field exactly when sign
  extension of the field gives the value back, and as an unsigned one exactly when zero extension does.
\<close>

lemma narrow_values_roundtrip:
  "(try_i32 v = Some f \<longleftrightarrow> scast f = v) \<and> (try_u32 v = Some g \<longleftrightarrow> ucast g = v)"
proof
  show "try_i32 v = Some f \<longleftrightarrow> scast f = v"
  proof
    assume "try_i32 v = Some f"
    then have f: "f = ucast v" and r: "- (2 ^ 31) \<le> sint v" "sint v < 2 ^ 31" by (auto simp: try_i32_def split: if_splits)
    have "sint f = signed_take_bit 31 (sint v)"
      unfolding f sint_uint unsigned_ucast_eq by (simp add: signed_take_bit_take_bit)
    also have "\<dots> = sint v" using r by (simp add: signed_take_bit_int_eq_self)
    finally have "sint f = sint v" .
    then have "sint (scast f :: u64) = sint v" by (simp add: signed_scast_eq) (simp add: sint_uint)
    then show "scast f = v" by (simp add: signed_word_eqI)
  next
    assume v: "scast f = v"
    have "sint v = sint f" unfolding v [symmetric] by (simp add: signed_scast_eq) (simp add: sint_uint)
    moreover have "- (2 ^ 31) \<le> sint f" "sint f < 2 ^ 31" using sint_range_size [of f] by (simp_all add: word_size)
    moreover have "ucast v = f" unfolding v [symmetric] by (rule bit_word_eqI) (simp add: bit_simps)
    ultimately show "try_i32 v = Some f" by (simp add: try_i32_def)
  qed
  show "try_u32 v = Some g \<longleftrightarrow> ucast g = v"
  proof
    assume "try_u32 v = Some g"
    then have "g = ucast v" "unat v < 2 ^ 32" by (auto simp: try_u32_def split: if_splits)
    then have "unat (ucast g :: u64) = unat v" by (simp add: unsigned_ucast_eq unsigned_take_bit_eq take_bit_nat_eq_self)
    then show "ucast g = v" by (simp add: word_eq_iff_unsigned [where ?'a = nat])
  next
    assume v: "ucast g = v"
    have "unat v = unat g" unfolding v [symmetric] by simp
    moreover have "unat g < 2 ^ 32" using unsigned_less [of g] by simp
    moreover have "ucast v = g" unfolding v [symmetric] by (rule bit_word_eqI) (simp add: bit_simps)
    ultimately show "try_u32 v = Some g" by (simp add: try_u32_def)
  qed
qed

end
