(* ===== verification/Section.thy ===== *)
theory Section
  imports Segment
begin

text \<open>
  \<^verbatim>\<open>src/src/segment/section.rs\<close>: the layout of relocatable objects. Sections are
  grouped by protection into four units, each unit becomes one segment, and a GOT and a PLT are
  added whose sizes come from a scan of the relocation sections. The units hold mutable references
  to section headers; here they hold indices into one list of headers, the two added ones last.
  The hash maps and sets of \<^verbatim>\<open>hashbrown\<close> are parameters, their state is the history of insertions.
\<close>

section \<open>The target\<close>

definition needs_got :: "u32 \<Rightarrow> bool" where
  "needs_got ty \<longleftrightarrow> ty = R_X86_64_GOTPCREL \<or> ty = R_X86_64_PLT32"

definition needs_plt :: "u32 \<Rightarrow> bool" where
  "needs_plt ty \<longleftrightarrow> ty = R_X86_64_PLT32"

definition PLT_ENTRY_SIZE :: usize where "PLT_ENTRY_SIZE = 16"

definition PLT_ENTRY :: bytes where
  "PLT_ENTRY = [0xf3, 0x0f, 0x1e, 0xfa, 0xff, 0x25, 0, 0, 0, 0, 0xcc, 0xcc, 0xcc, 0xcc, 0xcc, 0xcc]"

section \<open>Protection\<close>

definition section_prot :: "u64 \<Rightarrow> u32" where
  "section_prot fl =
     (let prot = PROT_READ;
          prot = (if fl AND SHF_WRITE \<noteq> 0 then prot OR PROT_WRITE else prot)
      in if fl AND SHF_EXECINSTR \<noteq> 0 then prot OR PROT_EXEC else prot)"

definition prot_to_idx :: "u32 \<Rightarrow> nat" where
  "prot_to_idx prot =
     (let idx = 0;
          idx = (if flags_contain prot PROT_WRITE then idx OR 1 else idx)
      in if flags_contain prot PROT_EXEC then idx OR 2 else idx)"

definition flags_to_idx :: "u64 \<Rightarrow> nat" where
  "flags_to_idx fl = prot_to_idx (section_prot fl)"

section \<open>Containers\<close>

record containers =
  hs_len :: "usize list \<Rightarrow> usize"
  hm_get :: "(usize \<times> usize) list \<Rightarrow> usize \<Rightarrow> usize option"

text \<open>A set of so many elements; a map that returns the last value inserted under a key.\<close>

definition containers_ok :: "containers \<Rightarrow> bool" where
  "containers_ok C \<longleftrightarrow>
     (\<forall>xs. hs_len C xs = of_nat (card (set xs))) \<and> (\<forall>h k. hm_get C h k = map_of (rev h) k)"

section \<open>GOT and PLT\<close>

record plt_got_section =
  got_base :: usize
  plt_base :: usize
  got_idx :: usize
  plt_idx :: usize
  got_map :: "(usize \<times> usize) list"
  plt_map :: "(usize \<times> usize) list"

text \<open>A vacant entry is the address it will be written to.\<close>

datatype got_entry = GotOccupied usize | GotVacant usize

datatype plt_entry = PltOccupied usize | PltVacant (vacant_plt: usize) (vacant_got: usize)

text \<open>One chunk of a relocation section; an entry that reaches past the buffer is not initialised.\<close>

definition count_chunk :: "bytes \<Rightarrow> nat \<Rightarrow> nat \<Rightarrow> usize list \<times> usize list \<Rightarrow> (usize list \<times> usize list) result" where
  "count_chunk buf ent i st =
     (let (got_set, plt_set) = st in
      if length buf < i * ent + size_rela then Inl Uninitialised
      else let rel = rela_at (mem_of 0 buf) (of_nat (i * ent));
               ty = ucast (r_type rel) :: u32; r_sym = r_symbol rel
           in Inr (if needs_got ty then got_set @ [r_sym] else got_set,
                   if needs_plt ty then plt_set @ [r_sym] else plt_set))"

definition count_shdr :: "elf_reader \<Rightarrow> shdr \<Rightarrow> usize list \<times> usize list \<Rightarrow> (usize list \<times> usize list) result" where
  "count_shdr R sh st =
     (if \<not> (sh_type sh = SHT_REL \<or> sh_type sh = SHT_RELA) then Inr st
      else if sh_size sh = 0 \<or> sh_entsize sh = 0 then Inr st
      else case rd_read R (unat (sh_size sh)) (sh_offset sh) of
          Inl (Err e) \<Rightarrow> Inr st
        | Inl f \<Rightarrow> Inl f
        | Inr buf \<Rightarrow> res_fold (count_chunk buf (unat (sh_entsize sh)))
            [0..<unat (sh_size sh) div unat (sh_entsize sh)] st)"

definition count_needed_entries :: "containers \<Rightarrow> shdr list \<Rightarrow> elf_reader \<Rightarrow> (usize \<times> usize) result" where
  "count_needed_entries C shdrs R =
     res_bind (res_fold (count_shdr R) shdrs ([], [])) (\<lambda>(got_set, plt_set).
       Inr (hs_len C got_set + hs_len C plt_set, hs_len C plt_set))"

definition create_got_shdr :: "usize \<Rightarrow> shdr" where
  "create_got_shdr elem_cnt = shdr_new 0 SHT_NOBITS (SHF_ALLOC OR SHF_WRITE) 0 0 (elem_cnt * 8) 0 0 16 8"

definition create_plt_shdr :: "usize \<Rightarrow> shdr" where
  "create_plt_shdr elem_cnt =
     shdr_new 0 SHT_NOBITS (SHF_ALLOC OR SHF_EXECINSTR) 0 0 (elem_cnt * PLT_ENTRY_SIZE) 0 0 8 PLT_ENTRY_SIZE"

definition plt_got_new :: "shdr \<Rightarrow> shdr \<Rightarrow> plt_got_section" where
  "plt_got_new got plt = \<lparr>got_base = sh_addr got, plt_base = sh_addr plt, got_idx = 0, plt_idx = 0,
     got_map = [], plt_map = []\<rparr>"

definition plt_got_rebase :: "usize \<Rightarrow> plt_got_section \<Rightarrow> plt_got_section" where
  "plt_got_rebase base g = g\<lparr>got_base := got_base g + base, plt_base := plt_base g + base\<rparr>"

definition add_got_entry :: "containers \<Rightarrow> usize \<Rightarrow> plt_got_section \<Rightarrow> got_entry \<times> plt_got_section" where
  "add_got_entry C r_sym g =
     (let base = got_base g in
      case hm_get C (got_map g) r_sym of
        Some idx \<Rightarrow> (GotOccupied (idx * 8 + base), g)
      | None \<Rightarrow>
          (let idx = got_idx g
           in (GotVacant (idx * 8 + base), g\<lparr>got_map := got_map g @ [(r_sym, idx)], got_idx := got_idx g + 1\<rparr>)))"

text \<open>A new PLT entry is the template, with a GOT entry of its own.\<close>

definition add_plt_entry ::
  "containers \<Rightarrow> usize \<Rightarrow> plt_got_section \<Rightarrow> mem \<Rightarrow> (plt_entry \<times> plt_got_section) \<times> mem" where
  "add_plt_entry C r_sym g m =
     (case hm_get C (plt_map g) r_sym of
        Some idx \<Rightarrow> ((PltOccupied (idx * PLT_ENTRY_SIZE + plt_base g), g), m)
      | None \<Rightarrow>
          (let idx = plt_idx g; gidx = got_idx g;
               plt = idx * PLT_ENTRY_SIZE + plt_base g
           in ((PltVacant plt (gidx * 8 + got_base g),
                g\<lparr>plt_map := plt_map g @ [(r_sym, idx)], plt_idx := plt_idx g + 1, got_idx := got_idx g + 1\<rparr>),
               write_bytes m plt PLT_ENTRY)))"

section \<open>Section units\<close>

record section_unit =
  content_sections :: "nat list"
  zero_sectons :: "nat list"

definition unit_new :: section_unit where
  "unit_new = \<lparr>content_sections = [], zero_sectons = []\<rparr>"

definition add_section :: "shdr list \<Rightarrow> nat \<Rightarrow> section_unit \<Rightarrow> section_unit" where
  "add_section shs i u =
     (if sh_type (shs ! i) = SHT_NOBITS then u\<lparr>zero_sectons := zero_sectons u @ [i]\<rparr>
      else u\<lparr>content_sections := content_sections u @ [i]\<rparr>)"

definition set_sh_addr :: "nat \<Rightarrow> usize \<Rightarrow> shdr list \<Rightarrow> shdr list" where
  "set_sh_addr i a shs = shs[i := (shs ! i)\<lparr>sh_addr := a\<rparr>]"

text \<open>The cursor of \<^verbatim>\<open>create_segment\<close> is its position; the start is the offset of the unit.\<close>

definition place_content ::
  "usize \<Rightarrow> usize \<times> file_map_info list \<times> shdr list \<Rightarrow> nat \<Rightarrow> usize \<times> file_map_info list \<times> shdr list" where
  "place_content start st i =
     (let (cur, infos, shs) = st; sh = shs ! i in
      if sh_size sh = 0 then st
      else let cur = roundup cur (sh_addralign sh)
           in (cur + sh_size sh,
               infos @ [\<lparr>fmi_start = cur - start, fmi_filesz = sh_size sh, fmi_offset = sh_offset sh\<rparr>],
               set_sh_addr i cur shs))"

definition place_zero :: "usize \<times> shdr list \<Rightarrow> nat \<Rightarrow> usize \<times> shdr list" where
  "place_zero st i =
     (let (cur, shs) = st; sh = shs ! i; cur = roundup cur (sh_addralign sh)
      in (cur + sh_size sh, set_sh_addr i cur shs))"

text \<open>A single section is mapped from its page in the file, so its address moves by the rest of the offset.\<close>

definition single_content ::
  "section_unit \<Rightarrow> usize \<times> file_map_info list \<times> shdr list \<Rightarrow> (usize \<times> file_map_info list \<times> shdr list) result" where
  "single_content u st =
     (let (cur, infos, shs) = st in
      case infos of
        [info] \<Rightarrow>
          res_bind (unwrap ''called `Option::unwrap()` on a `None` value''
             (find (\<lambda>i. sh_offset (shs ! i) = fmi_offset info) (content_sections u))) (\<lambda>i.
          let file_offset = rounddown (fmi_offset info) PAGE_SIZE;
              align_len = fmi_offset info - file_offset
          in Inr (cur + align_len,
                  [info\<lparr>fmi_filesz := fmi_filesz info + align_len, fmi_offset := file_offset\<rparr>],
                  set_sh_addr i (sh_addr (shs ! i) + align_len) shs))
      | _ \<Rightarrow> Inr st)"

definition unit_create_segment ::
  "section_unit \<Rightarrow> shdr list \<Rightarrow> usize \<Rightarrow> (elf_segment option \<times> shdr list \<times> usize) result" where
  "unit_create_segment u shs off =
     (case content_sections u @ zero_sectons u of
        [] \<Rightarrow> Inr (None, shs, off)
      | i # _ \<Rightarrow>
          (let prot = section_prot (sh_flags (shs ! i)) in
           res_bind (single_content u (foldl (place_content off) (off, [], shs) (content_sections u)))
             (\<lambda>(cur, infos, shs1).
           let content_size = cur - off;
               (cur2, shs2) = foldl place_zero (cur, shs1) (zero_sectons u);
               zero_size = cur2 - off - content_size;
               len = roundup (content_size + zero_size) PAGE_SIZE
           in if len = 0 then Inr (None, shs2, off)
              else Inr (Some \<lparr>seg_addr = Relative off, seg_prot = prot,
                       seg_flags = MAP_PRIVATE OR MAP_FIXED, seg_len = len, zero_size = zero_size,
                       content_size = content_size, map_info = infos, need_copy = False,
                       from_relocatable = True\<rparr>, shs2, off + len))))"

section \<open>The segments of an object\<close>

record section_segments =
  ss_segments :: "elf_segment list"
  ss_total_size :: usize
  ss_pltgot :: "plt_got_section option"

definition group_section :: "shdr list \<Rightarrow> section_unit list \<Rightarrow> nat \<Rightarrow> section_unit list" where
  "group_section shs us i =
     (let k = flags_to_idx (sh_flags (shs ! i)) in us[k := add_section shs i (us ! k)])"

definition unit_segment ::
  "section_unit \<Rightarrow> elf_segment list \<times> shdr list \<times> usize \<Rightarrow> (elf_segment list \<times> shdr list \<times> usize) result" where
  "unit_segment u st =
     (let (segs, shs, off) = st in
      res_bind (unit_create_segment u shs off) (\<lambda>(seg, shs', off').
        case seg of
          None \<Rightarrow> Inr (segs, shs', off')
        | Some s \<Rightarrow> Inr (segs @ [s], shs', roundup off' PAGE_SIZE)))"

text \<open>The result carries the section headers with their new addresses.\<close>

definition section_segments_new ::
  "containers \<Rightarrow> shdr list \<Rightarrow> elf_reader \<Rightarrow> (section_segments \<times> shdr list) result" where
  "section_segments_new C shdrs R =
     res_bind (count_needed_entries C shdrs R) (\<lambda>(got_cnt, plt_cnt).
     let n = length shdrs;
         shs = shdrs @ [create_got_shdr got_cnt, create_plt_shdr plt_cnt];
         units = foldl (group_section shs) (replicate 4 unit_new) [0..<n + 2]
     in res_bind (res_fold unit_segment units ([], shs, 0)) (\<lambda>(segs, shs', off).
        Inr (\<lparr>ss_segments = segs, ss_total_size = off, ss_pltgot = Some (plt_got_new (shs' ! n) (shs' ! (n + 1)))\<rparr>,
             take n shs')))"

definition take_pltgot :: "section_segments \<Rightarrow> (plt_got_section \<times> section_segments) result" where
  "take_pltgot s =
     res_bind (unwrap ''called `Option::unwrap()` on a `None` value'' (ss_pltgot s)) (\<lambda>g.
       Inr (g, s\<lparr>ss_pltgot := None\<rparr>))"

definition section_create_space :: "mmap_ops \<Rightarrow> section_segments \<Rightarrow> vm \<Rightarrow> (elf_segments \<times> vm) result" where
  "section_create_space M s w =
     res_bind (op_mmap_reserve M None (ss_total_size s) False w)
       (\<lambda>(p, w'). Inr (\<lparr>memory = p, seg_offset = 0, space_len = ss_total_size s\<rparr>, w'))"

text \<open>\<^verbatim>\<open>load_segments\<close> of the trait, for sections: the segments are there already.\<close>

definition section_load_segments ::
  "mmap_ops \<Rightarrow> elf_reader \<Rightarrow> section_segments \<Rightarrow> vm \<Rightarrow> ((elf_segments \<times> section_segments) \<times> vm) result" where
  "section_load_segments M R s w =
     res_bind (section_create_space M s w) (\<lambda>(space, w1).
     res_bind (load_segment_list M R (base_of space) (ss_segments s) w1) (\<lambda>(segs, w2).
     Inr ((space, s\<lparr>ss_segments := segs\<rparr>), w2)))"

end
