(* ===== verification/Static_Reloc.thy ===== *)
theory Static_Reloc
  imports Section Reloc_Core
begin

text \<open>
  \<^verbatim>\<open>src/src/relocation/static.rs\<close> and the relocator of
  \<^verbatim>\<open>src/src/arch/x86_64.rs\<close>: relocation of relocatable objects. A call that does not
  reach its target goes through a PLT stub and a GOT slot of its own.
\<close>

section \<open>One relocation\<close>

type_synonym 's sworld = "plt_got_section \<times> 's rworld"

definition write32 :: "elf_segments \<Rightarrow> usize \<Rightarrow> u32 \<Rightarrow> ('s, 'a) rworld_scheme \<Rightarrow> ('s, 'a) rworld_scheme" where
  "write32 segs off v w = set_mem (seg_write32 segs (rw_mem w) off v) w"

text \<open>\<^verbatim>\<open>let Some(sym) = find_symbol(r_sym) else return Err(boxed_error())\<close>.\<close>

definition find_symbol :: "'s ext \<Rightarrow> elf_core \<Rightarrow> rela \<Rightarrow> loaded_core list \<Rightarrow> 's rworld \<Rightarrow> (usize \<times> 's rworld) result" where
  "find_symbol X core rel scope w =
     res_bind (find_symbol_addr X core scope (r_symbol rel) w) (\<lambda>(r, w1).
       case r of
         Some (symv, _) \<Rightarrow> Inr (symv, w1)
       | None \<Rightarrow> fail_reloc (rw_mem w1) rel ''unknown symbol'' core)"

text \<open>A value that must fit: out of range is an error, or a panic behind \<^verbatim>\<open>unwrap\<close>.\<close>

definition fits :: "mem \<Rightarrow> elf_core \<Rightarrow> rela \<Rightarrow> u32 option \<Rightarrow> u32 result" where
  "fits m core rel v =
     (case v of
        Some x \<Rightarrow> Inr x
      | None \<Rightarrow> fail_reloc m rel ''out of range integral type conversion attempted'' core)"

definition must_fit :: "u32 option \<Rightarrow> u32 result" where
  "must_fit v = unwrap ''called `Result::unwrap()` on an `Err` value'' v"

text \<open>
  The stub of a call: an existing one, or the template with the slot \<open>got\<close> set to the symbol and the
  displacement from the end of the jump, ten bytes into the stub, to the slot.
\<close>

definition plt_stub :: "containers \<Rightarrow> usize \<Rightarrow> usize \<Rightarrow> 's sworld \<Rightarrow> (usize \<times> 's sworld) result" where
  "plt_stub C r_sym symv st =
     (let (g, w) = st; ((e, g1), m1) = add_plt_entry C r_sym g (rw_mem w) in
      case e of
        PltOccupied a \<Rightarrow> Inr (a, g1, w)
      | PltVacant plt got \<Rightarrow>
          (let m2 = write_u64 m1 got symv; call_offset = got - plt - 10 in
           res_bind (must_fit (try_i32 call_offset)) (\<lambda>d.
             Inr (plt, g1, set_mem (write_u32 m2 (plt + 6) d) w))))"

definition got_slot :: "containers \<Rightarrow> usize \<Rightarrow> usize \<Rightarrow> 's sworld \<Rightarrow> usize \<times> 's sworld" where
  "got_slot C r_sym symv st =
     (let (g, w) = st; (e, g1) = add_got_entry C r_sym g in
      case e of
        GotOccupied a \<Rightarrow> (a, g1, w)
      | GotVacant a \<Rightarrow> (a, g1, set_mem (write_u64 (rw_mem w) a symv) w))"

definition static_relocate ::
  "containers \<Rightarrow> 's ext \<Rightarrow> elf_core \<Rightarrow> rela \<Rightarrow> loaded_core list \<Rightarrow> 's sworld \<Rightarrow> 's sworld result" where
  "static_relocate C X core rel scope st =
     (let (g, w) = st; ty = ucast (r_type rel) :: u32; segs = c_segments core; base = core_base core;
          append = r_addend rel base; offset = r_offset rel; p = base + r_offset rel
      in
      if ty = R_X86_64_64 then
        res_bind (find_symbol X core rel scope w) (\<lambda>(symv, w1).
          Inr (g, write64 segs offset (symv + append) w1))
      else if ty = R_X86_64_PC32 then
        res_bind (find_symbol X core rel scope w) (\<lambda>(symv, w1).
        res_bind (fits (rw_mem w1) core rel (try_i32 (symv + append - p))) (\<lambda>v.
          Inr (g, write32 segs offset v w1)))
      else if ty = R_X86_64_PLT32 then
        res_bind (find_symbol X core rel scope w) (\<lambda>(symv, w1).
          case try_i32 (symv + append - p) of
            Some v \<Rightarrow> Inr (g, write32 segs offset v w1)
          | None \<Rightarrow>
              res_bind (plt_stub C (r_symbol rel) symv (g, w1)) (\<lambda>(plt, g2, w2).
              res_bind (must_fit (try_i32 (plt + append - p))) (\<lambda>v.
                Inr (g2, write32 segs offset v w2))))
      else if ty = R_X86_64_GOTPCREL then
        res_bind (find_symbol X core rel scope w) (\<lambda>(symv, w1).
          let (got, g2, w2) = got_slot C (r_symbol rel) symv (g, w1)
          in res_bind (must_fit (try_i32 (got + append - p))) (\<lambda>v. Inr (g2, write32 segs offset v w2)))
      else if ty = R_X86_64_32 then
        res_bind (find_symbol X core rel scope w) (\<lambda>(symv, w1).
        res_bind (fits (rw_mem w1) core rel (try_u32 (symv + append))) (\<lambda>v.
          Inr (g, write32 segs offset v w1)))
      else if ty = R_X86_64_32S then
        res_bind (find_symbol X core rel scope w) (\<lambda>(symv, w1).
        res_bind (fits (rw_mem w1) core rel (try_i32 (symv + append))) (\<lambda>v.
          Inr (g, write32 segs offset v w1)))
      else fail_reloc (rw_mem w) rel ''unknown symbol'' core)"

section \<open>The whole object\<close>

record raw_object =
  ro_core :: elf_core
  ro_relocation :: "usize list list"
  ro_pltgot :: plt_got_section
  ro_segments :: "elf_segment list"
  ro_init_array :: "slice_ref option"

definition static_one ::
  "containers \<Rightarrow> 's ext \<Rightarrow> elf_core \<Rightarrow> loaded_core list \<Rightarrow> usize \<Rightarrow> 's sworld \<Rightarrow> 's sworld result" where
  "static_one C X core scope ptr st = static_relocate C X core (rela_at (rw_mem (snd st)) ptr) scope st"

text \<open>All entries of all tables, then the final protection, then the constructors.\<close>

definition object_relocate ::
  "containers \<Rightarrow> 's ext \<Rightarrow> raw_object \<Rightarrow> loaded_core list \<Rightarrow> 's rworld \<Rightarrow> (loaded_core \<times> 's rworld) result" where
  "object_relocate C X obj scope w =
     res_bind (res_fold (\<lambda>ptrs. res_fold (static_one C X (ro_core obj) scope) ptrs) (ro_relocation obj)
         (ro_pltgot obj, w)) (\<lambda>(g, w1).
     res_bind (mprotect_all (x_mmap X) (ro_segments obj) (rw_vm w1)) (\<lambda>v.
     let w2 = w1\<lparr>rw_vm := v\<rparr>;
         (s, v2) = x_call X None (ro_init_array obj) (rw_ext w2, rw_vm w2)
     in Inr (from_core (ro_core obj), w2\<lparr>rw_ext := s, rw_vm := v2\<rparr>)))"

end
