(* ===== verification/Static_Props.thy ===== *)
theory Static_Props
  imports Reloc_Props Static_Reloc
begin

text \<open>
  The properties of relocatable objects: the fields that static relocations write, calls through the
  PLT, and the capacity of the GOT and the PLT.
\<close>

section \<open>Entries of the GOT and the PLT\<close>

lemma hm_get_fresh:
  "containers_ok C \<Longrightarrow> hm_get C h k = None \<longleftrightarrow> k \<notin> fst ` set h"
  by (auto simp: containers_ok_def map_of_eq_None_iff)

lemma hm_get_append [simp]:
  "containers_ok C \<Longrightarrow> hm_get C (h @ [(k, v)]) j = (if j = k then Some v else hm_get C h j)"
  by (auto simp: containers_ok_def)

text \<open>
  The states that the tables go through, when GOT entries are asked for the symbols in \<open>G\<close> and PLT
  entries for those in \<open>P\<close>.
\<close>

inductive pg_reach :: "containers \<Rightarrow> usize set \<Rightarrow> usize set \<Rightarrow> plt_got_section \<Rightarrow> plt_got_section \<Rightarrow> bool"
  for C G P g0 where
  start: "pg_reach C G P g0 g0"
| got: "pg_reach C G P g0 g \<Longrightarrow> s \<in> G \<Longrightarrow> pg_reach C G P g0 (snd (add_got_entry C s g))"
| plt: "pg_reach C G P g0 g \<Longrightarrow> s \<in> P \<Longrightarrow> pg_reach C G P g0 (snd (fst (add_plt_entry C s g m)))"

text \<open>One entry per symbol, counted by the indices, the bases fixed.\<close>

definition pg_inv :: "usize set \<Rightarrow> usize set \<Rightarrow> plt_got_section \<Rightarrow> plt_got_section \<Rightarrow> bool" where
  "pg_inv G P g0 g \<longleftrightarrow>
     got_base g = got_base g0 \<and> plt_base g = plt_base g0 \<and>
     distinct (map fst (got_map g)) \<and> fst ` set (got_map g) \<subseteq> G \<and>
     distinct (map fst (plt_map g)) \<and> fst ` set (plt_map g) \<subseteq> P \<and>
     got_idx g = of_nat (length (got_map g) + length (plt_map g)) \<and> plt_idx g = of_nat (length (plt_map g))"

lemma pg_inv_reach:
  assumes "containers_ok C" and "pg_reach C G P g0 g"
    and "got_map g0 = []" and "plt_map g0 = []" and "got_idx g0 = 0" and "plt_idx g0 = 0"
  shows "pg_inv G P g0 g"
  using assms(2)
proof induction
  case start
  with assms(3-6) show ?case by (simp add: pg_inv_def)
next
  case (got g s)
  then show ?case
    using hm_get_fresh [OF assms(1), of "got_map g" s]
    by (auto simp: pg_inv_def add_got_entry_def Let_def split: option.splits)
next
  case (plt g s m)
  then show ?case
    using hm_get_fresh [OF assms(1), of "plt_map g" s]
    by (auto simp: pg_inv_def add_plt_entry_def Let_def split: option.splits)
qed

lemma pg_inv_lengths:
  assumes "pg_inv G P g0 g" and "finite G" and "finite P"
  shows "length (got_map g) \<le> card G" and "length (plt_map g) \<le> card P"
  using assms card_mono [of G "fst ` set (got_map g)"] card_mono [of P "fst ` set (plt_map g)"]
  by (auto simp: pg_inv_def distinct_card simp flip: set_map)

lemma pg_inv_fresh:
  assumes "pg_inv G P g0 g" and "finite G" and "finite P"
  shows "s \<in> G - fst ` set (got_map g) \<Longrightarrow> length (got_map g) < card G"
    and "s \<in> P - fst ` set (plt_map g) \<Longrightarrow> length (plt_map g) < card P"
proof -
  have "card (fst ` set (got_map g)) = length (got_map g)" "card (fst ` set (plt_map g)) = length (plt_map g)"
    using assms(1) by (simp_all add: pg_inv_def distinct_card flip: set_map)
  then show "s \<in> G - fst ` set (got_map g) \<Longrightarrow> length (got_map g) < card G"
    and "s \<in> P - fst ` set (plt_map g) \<Longrightarrow> length (plt_map g) < card P"
    using assms psubset_card_mono [of G "fst ` set (got_map g)"] psubset_card_mono [of P "fst ` set (plt_map g)"]
    by (auto simp: pg_inv_def)
qed

text \<open>
  C37. Capacity. Starting from empty tables, whatever entries are asked for, in whatever order, for
  the symbols \<open>G\<close> in the GOT and \<open>P\<close> in the PLT: a new GOT slot lies among the first
  \<open>card G + card P\<close> words of the GOT, a new PLT stub among the first \<open>card P\<close> stubs of the PLT, and
  the slot of a stub again in the GOT.
\<close>

theorem got_plt_capacity:
  assumes "containers_ok C" and "finite G" and "finite P" and "card G + card P < 2 ^ 60"
    and "pg_reach C G P (plt_got_new got plt) g"
  shows "(\<forall>s \<in> G. \<forall>a g'. add_got_entry C s g = (GotVacant a, g') \<longrightarrow>
       (\<exists>i < card G + card P. a = sh_addr got + of_nat (8 * i))) \<and>
     (\<forall>s \<in> P. \<forall>m a b g' m'. add_plt_entry C s g m = ((PltVacant a b, g'), m') \<longrightarrow>
       (\<exists>i < card P. a = sh_addr plt + of_nat (16 * i)) \<and>
       (\<exists>j < card G + card P. b = sh_addr got + of_nat (8 * j)))"
proof -
  let ?n = "length (got_map g)" and ?k = "length (plt_map g)"
  have inv: "pg_inv G P (plt_got_new got plt) g"
    by (rule pg_inv_reach [OF assms(1,5)]) (simp_all add: plt_got_new_def)
  note le = pg_inv_lengths [OF inv assms(2,3)] and fresh = pg_inv_fresh [OF inv assms(2,3)]
  have idx: "got_idx g = of_nat (?n + ?k)" "plt_idx g = of_nat ?k"
    "got_base g = sh_addr got" "plt_base g = sh_addr plt"
    using inv by (simp_all add: pg_inv_def plt_got_new_def)
  show ?thesis
  proof (intro conjI ballI allI impI)
    fix s a g' assume s: "s \<in> G" and e: "add_got_entry C s g = (GotVacant a, g')"
    then have "s \<notin> fst ` set (got_map g)" and a: "a = got_idx g * 8 + got_base g"
      using hm_get_fresh [OF assms(1), of "got_map g" s] by (auto simp: add_got_entry_def Let_def split: option.splits)
    with fresh(1) s have "?n < card G" by blast
    with le a show "\<exists>i < card G + card P. a = sh_addr got + of_nat (8 * i)"
      by (intro exI [of _ "?n + ?k"]) (auto simp: idx algebra_simps)
  next
    fix s m a b g' m' assume s: "s \<in> P" and e: "add_plt_entry C s g m = ((PltVacant a b, g'), m')"
    then have new: "s \<notin> fst ` set (plt_map g)"
      and ab: "a = plt_idx g * PLT_ENTRY_SIZE + plt_base g" "b = got_idx g * 8 + got_base g"
      using hm_get_fresh [OF assms(1), of "plt_map g" s] by (auto simp: add_plt_entry_def Let_def split: option.splits)
    from fresh(2) s new have k: "?k < card P" by blast
    then show "\<exists>i < card P. a = sh_addr plt + of_nat (16 * i)"
      by (intro exI [of _ ?k]) (simp add: ab idx PLT_ENTRY_SIZE_def algebra_simps)
    from k le show "\<exists>j < card G + card P. b = sh_addr got + of_nat (8 * j)"
      by (intro exI [of _ "?n + ?k"]) (auto simp: ab idx algebra_simps)
  qed
qed

definition wit_containers :: containers where
  "wit_containers = \<lparr>hs_len = (\<lambda>xs. of_nat (card (set xs))), hm_get = (\<lambda>h k. map_of (rev h) k)\<rparr>"

lemma wit_containers_ok: "containers_ok wit_containers"
  by (simp add: containers_ok_def wit_containers_def)

theorem got_plt_capacity_witness:
  "\<exists>i < 1. \<exists>g'. add_got_entry wit_containers 5 (plt_got_new (create_got_shdr 1) (create_plt_shdr 0)) =
     (GotVacant (of_nat (8 * i)), g')"
proof -
  let ?g = "plt_got_new (create_got_shdr 1) (create_plt_shdr 0)"
  have "pg_reach wit_containers {5} {} ?g ?g" by (rule pg_reach.start)
  from got_plt_capacity [OF wit_containers_ok _ _ _ this] show ?thesis
    by (auto simp: add_got_entry_def plt_got_new_def wit_containers_def create_got_shdr_def shdr_new_def)
qed

section \<open>Counting\<close>

text \<open>The entries of the relocation sections of a file, read from the file.\<close>

definition rel_entries :: "elf_reader \<Rightarrow> shdr \<Rightarrow> rela list" where
  "rel_entries R sh =
     (if (sh_type sh = SHT_REL \<or> sh_type sh = SHT_RELA) \<and> sh_size sh \<noteq> 0
      then (case rd_read R (unat (sh_size sh)) (sh_offset sh) of
              Inl _ \<Rightarrow> []
            | Inr buf \<Rightarrow> map (\<lambda>i. rela_at (mem_of 0 buf) (of_nat (i * size_rela))) [0..<unat (sh_size sh) div size_rela])
      else [])"

text \<open>The symbols of the entries of the given types.\<close>

definition syms_of :: "u32 set \<Rightarrow> rela list \<Rightarrow> usize list" where
  "syms_of tys rs = map r_symbol (filter (\<lambda>r. ucast (r_type r) \<in> tys) rs)"

lemma syms_of_simps [simp]:
  "syms_of tys [] = []" "syms_of tys (r # rs) = (if ucast (r_type r) \<in> tys then r_symbol r # syms_of tys rs else syms_of tys rs)"
  "syms_of tys (rs @ rs') = syms_of tys rs @ syms_of tys rs'"
  by (simp_all add: syms_of_def)

abbreviation "got_syms \<equiv> syms_of {R_X86_64_GOTPCREL, R_X86_64_PLT32}"

abbreviation "plt_syms \<equiv> syms_of {R_X86_64_PLT32}"

lemma count_chunks:
  assumes "\<And>i. i \<in> set is \<Longrightarrow> i * ent + size_rela \<le> length buf"
  shows "res_fold (count_chunk buf ent) is (gs, ps) =
     Inr (gs @ got_syms (map (\<lambda>i. rela_at (mem_of 0 buf) (of_nat (i * ent))) is),
          ps @ plt_syms (map (\<lambda>i. rela_at (mem_of 0 buf) (of_nat (i * ent))) is))"
  using assms
proof (induction "is" arbitrary: gs ps)
  case Nil
  then show ?case by simp
next
  case (Cons i "is")
  have "\<not> length buf < i * ent + size_rela" using Cons.prems [of i] by simp
  with Cons.IH [of "fst x" "snd x" for x] Cons.prems show ?case
    by (simp add: count_chunk_def needs_got_def needs_plt_def Let_def)
qed

definition rel_section_ok :: "elf_reader \<Rightarrow> shdr \<Rightarrow> bool" where
  "rel_section_ok R sh \<longleftrightarrow> (sh_type sh = SHT_REL \<or> sh_type sh = SHT_RELA) \<and> sh_size sh \<noteq> 0 \<longrightarrow>
     sh_entsize sh = of_nat size_rela \<and>
     (\<exists>buf. rd_read R (unat (sh_size sh)) (sh_offset sh) = Inr buf \<and> length buf = unat (sh_size sh))"

lemma count_shdr_entries:
  assumes "rel_section_ok R sh"
  shows "count_shdr R sh (gs, ps) = Inr (gs @ got_syms (rel_entries R sh), ps @ plt_syms (rel_entries R sh))"
proof (cases "(sh_type sh = SHT_REL \<or> sh_type sh = SHT_RELA) \<and> sh_size sh \<noteq> 0")
  case True
  with assms obtain buf where ent: "sh_entsize sh = of_nat size_rela"
    and rd: "rd_read R (unat (sh_size sh)) (sh_offset sh) = Inr buf" and len: "length buf = unat (sh_size sh)"
    by (auto simp: rel_section_ok_def)
  have ent': "unat (sh_entsize sh) = size_rela" "sh_entsize sh \<noteq> 0" using ent by (simp_all add: size_rela_def)
  have "i * size_rela + size_rela \<le> length buf" if "i < unat (sh_size sh) div size_rela" for i
  proof -
    have "Suc i * size_rela \<le> unat (sh_size sh) div size_rela * size_rela" using that by (intro mult_le_mono1) simp
    also have "\<dots> \<le> unat (sh_size sh)" by (rule div_times_less_eq_dividend)
    finally show ?thesis by (simp add: len)
  qed
  then have "res_fold (count_chunk buf size_rela) [0..<unat (sh_size sh) div size_rela] (gs, ps) =
      Inr (gs @ got_syms (map (\<lambda>i. rela_at (mem_of 0 buf) (of_nat (i * size_rela))) [0..<unat (sh_size sh) div size_rela]),
           ps @ plt_syms (map (\<lambda>i. rela_at (mem_of 0 buf) (of_nat (i * size_rela))) [0..<unat (sh_size sh) div size_rela]))"
    by (intro count_chunks) simp
  moreover have "rel_entries R sh =
      map (\<lambda>i. rela_at (mem_of 0 buf) (of_nat (i * size_rela))) [0..<unat (sh_size sh) div size_rela]"
    using True by (simp add: rel_entries_def rd)
  moreover have "count_shdr R sh (gs, ps) =
      res_fold (count_chunk buf size_rela) [0..<unat (sh_size sh) div size_rela] (gs, ps)"
    using True ent' by (simp add: count_shdr_def rd)
  ultimately show ?thesis by simp
next
  case False
  then have "rel_entries R sh = []" unfolding rel_entries_def by (simp only: if_False)
  moreover have "count_shdr R sh (gs, ps) = Inr (gs, ps)"
    using False by (cases "sh_size sh = 0") (simp_all add: count_shdr_def)
  ultimately show ?thesis by simp
qed

lemma count_shdrs:
  assumes "\<And>sh. sh \<in> set shdrs \<Longrightarrow> rel_section_ok R sh"
  shows "res_fold (count_shdr R) shdrs (gs, ps) =
     Inr (gs @ got_syms (concat (map (rel_entries R) shdrs)), ps @ plt_syms (concat (map (rel_entries R) shdrs)))"
  using assms
proof (induction shdrs arbitrary: gs ps)
  case Nil
  then show ?case by simp
next
  case (Cons sh shdrs)
  then show ?case by (simp add: count_shdr_entries)
qed

text \<open>What one relocation asks of the tables.\<close>

lemma static_relocate_tables:
  assumes "static_relocate C X core rel scope (g, w) = Inr (g', w')"
  shows "g' = g \<or>
     ucast (r_type rel) = R_X86_64_PLT32 \<and> (\<exists>m. g' = snd (fst (add_plt_entry C (r_symbol rel) g m))) \<or>
     ucast (r_type rel) = R_X86_64_GOTPCREL \<and> g' = snd (add_got_entry C (r_symbol rel) g)"
proof -
  have plt: "\<exists>m. g2 = snd (fst (add_plt_entry C s g m))" if "plt_stub C s v (g, w1) = Inr (p, g2, w2)" for s v w1 p g2 w2
  proof -
    obtain e g1 m1 where a: "add_plt_entry C s g (rw_mem w1) = ((e, g1), m1)" by (metis prod.collapse)
    with that have "g2 = g1" by (auto simp: plt_stub_def Let_def res_simps split: plt_entry.splits)
    with a show ?thesis by (metis fst_conv snd_conv)
  qed
  have got: "fst (snd (got_slot C s v (g, w1))) = snd (add_got_entry C s g)" for s v w1
    by (auto simp: got_slot_def Let_def split: prod.splits got_entry.splits)
  show ?thesis
    using assms unfolding static_relocate_def
    by (auto simp: fail_reloc_def Let_def res_simps case_prod_beta got split: if_splits option.splits dest!: plt)
qed

text \<open>
  A run over the entries \<open>ps\<close> in which every entry, when its turn comes, has the type and the symbol of
  one of the entries \<open>rs\<close>.
\<close>

definition turns_from ::
  "containers \<Rightarrow> 's ext \<Rightarrow> elf_core \<Rightarrow> loaded_core list \<Rightarrow> rela list \<Rightarrow> usize list \<Rightarrow> 's sworld \<Rightarrow> bool" where
  "turns_from C X core scope rs ps st \<longleftrightarrow>
     (\<forall>qs p qs' st'. ps = qs @ p # qs' \<and> res_fold (static_one C X core scope) qs st = Inr st' \<longrightarrow>
        (\<exists>r \<in> set rs. r_type (rela_at (rw_mem (snd st')) p) = r_type r \<and>
           r_symbol (rela_at (rw_mem (snd st')) p) = r_symbol r))"

lemma turns_from_Cons:
  assumes "turns_from C X core scope rs (p # ps) st" and "static_one C X core scope p st = Inr st'"
  shows "turns_from C X core scope rs ps st'"
  unfolding turns_from_def
proof (intro allI impI)
  fix qs q qs' st'' assume "ps = qs @ q # qs' \<and> res_fold (static_one C X core scope) qs st' = Inr st''"
  with assms(2) have "p # ps = (p # qs) @ q # qs'" "res_fold (static_one C X core scope) (p # qs) st = Inr st''"
    by simp_all
  with assms(1) show "\<exists>r \<in> set rs. r_type (rela_at (rw_mem (snd st'')) q) = r_type r \<and>
      r_symbol (rela_at (rw_mem (snd st'')) q) = r_symbol r"
    unfolding turns_from_def by blast
qed

lemma static_run_reach:
  assumes "turns_from C X core scope rs ps (g, w)" and "res_fold (static_one C X core scope) ps (g, w) = Inr (g', w')"
    and "pg_reach C (set (got_syms rs)) (set (plt_syms rs)) g0 g"
  shows "pg_reach C (set (got_syms rs)) (set (plt_syms rs)) g0 g'"
  using assms
proof (induction ps arbitrary: g w)
  case (Cons p ps)
  from Cons.prems(2) obtain g1 w1 where one: "static_one C X core scope p (g, w) = Inr (g1, w1)"
    and rest: "res_fold (static_one C X core scope) ps (g1, w1) = Inr (g', w')" by (auto simp: res_simps)
  let ?rel = "rela_at (rw_mem w) p"
  from Cons.prems(1) obtain r where r: "r \<in> set rs" "r_type ?rel = r_type r" "r_symbol ?rel = r_symbol r"
    unfolding turns_from_def by (metis append_Nil res_fold.simps(1) snd_conv)
  have "pg_reach C (set (got_syms rs)) (set (plt_syms rs)) g0 g1"
    using static_relocate_tables [OF one [unfolded static_one_def snd_conv]] r Cons.prems(3)
    by (auto simp: syms_of_def intro: pg_reach.intros)
  from Cons.IH [OF turns_from_Cons [OF Cons.prems(1) one] rest this] show ?case .
qed simp

text \<open>The indices recorded in the tables.\<close>

lemma pg_reach_indices:
  assumes "containers_ok C" and "pg_reach C G P g0 g"
    and "got_map g0 = []" and "plt_map g0 = []" and "got_idx g0 = 0" and "plt_idx g0 = 0"
  shows "(\<forall>p \<in> set (got_map g). \<exists>i < length (got_map g) + length (plt_map g). snd p = of_nat i) \<and>
     (\<forall>p \<in> set (plt_map g). \<exists>i < length (plt_map g). snd p = of_nat i)"
  using assms(2)
proof induction
  case start
  with assms(3,4) show ?case by simp
next
  case (got g s)
  from pg_inv_reach [OF assms(1) got.hyps(1) assms(3-6)] have "got_idx g = of_nat (length (got_map g) + length (plt_map g))"
    by (simp add: pg_inv_def)
  with got.IH show ?case by (auto simp: add_got_entry_def Let_def less_Suc_eq split: option.splits)
next
  case (plt g s m)
  from pg_inv_reach [OF assms(1) plt.hyps(1) assms(3-6)] have "plt_idx g = of_nat (length (plt_map g))"
    by (simp add: pg_inv_def)
  with plt.IH show ?case by (auto simp: add_plt_entry_def Let_def less_Suc_eq split: option.splits)
qed

lemma res_fold_concat: "res_fold (\<lambda>xs. res_fold f xs) xss s = res_fold f (concat xss) s"
  by (induction xss arbitrary: s) (simp_all add: res_fold_append, metis)

text \<open>
  C38. The reserved entries are those that relocation uses. Take relocation sections that can be read,
  with entries of the size of the format, and the sets of the symbols of their GOTPCREL and PLT32
  entries, \<open>G\<close>, and of their PLT32 entries, \<open>P\<close>. The scan reserves \<open>card P\<close> stubs in the PLT and
  \<open>card G + card P\<close> words in the GOT, and the sections made for them have that size. The loop that relocates
  the object, over tables whose entries have the types and symbols of the file when their turn comes, then
  stays inside: no more words and stubs are given out, and every index recorded for a symbol is below the number reserved.
\<close>

theorem reserved_entries_suffice:
  assumes "containers_ok C" and "\<forall>sh \<in> set shdrs. rel_section_ok R sh"
    and "rs = concat (map (rel_entries R) shdrs)" and "length rs < 2 ^ 58"
    and "G = r_symbol ` {r \<in> set rs. ucast (r_type r) \<in> {R_X86_64_GOTPCREL, R_X86_64_PLT32}}"
    and "P = r_symbol ` {r \<in> set rs. ucast (r_type r) = R_X86_64_PLT32}"
    and "turns_from C X core scope rs (concat tables) (plt_got_rebase base (plt_got_new got plt), w)"
    and "res_fold (\<lambda>ptrs. res_fold (static_one C X core scope) ptrs) tables (plt_got_rebase base (plt_got_new got plt), w) =
      Inr (g, w')"
  shows "count_needed_entries C shdrs R = Inr (of_nat (card G + card P), of_nat (card P)) \<and>
     unat (sh_size (create_got_shdr (of_nat (card G + card P)))) = 8 * (card G + card P) \<and>
     unat (sh_size (create_plt_shdr (of_nat (card P)))) = 16 * card P \<and>
     unat (got_idx g) \<le> card G + card P \<and> unat (plt_idx g) \<le> card P \<and>
     (\<forall>(s, i) \<in> set (got_map g). unat i < card G + card P) \<and>
     (\<forall>(s, i) \<in> set (plt_map g). unat i < card P)"
proof -
  let ?g0 = "plt_got_rebase base (plt_got_new got plt)"
  have GP: "G = set (got_syms rs)" "P = set (plt_syms rs)" by (auto simp: syms_of_def assms(5,6))
  have "length (syms_of tys rs) \<le> length rs" for tys by (simp add: syms_of_def)
  then have le: "card G \<le> length rs" "card P \<le> length rs"
    unfolding GP using card_length order_trans by blast+
  have small: "unat (of_nat k :: usize) = k" if "k \<le> 32 * length rs" for k
    using that assms(4) by (intro unat_of_nat_usize) simp
  have cnt: "count_needed_entries C shdrs R = Inr (of_nat (card G + card P), of_nat (card P))"
    using assms(1,2) count_shdrs [of shdrs R "[]" "[]"]
    by (simp add: count_needed_entries_def containers_ok_def GP assms(3))
  have size: "unat (sh_size (create_got_shdr (of_nat (card G + card P)))) = 8 * (card G + card P)"
    "unat (sh_size (create_plt_shdr (of_nat (card P)))) = 16 * card P"
    using small [of "8 * (card G + card P)"] small [of "16 * card P"] le
    by (simp_all add: create_got_shdr_def create_plt_shdr_def shdr_new_def PLT_ENTRY_SIZE_def algebra_simps)
  have zero: "got_map ?g0 = []" "plt_map ?g0 = []" "got_idx ?g0 = 0" "plt_idx ?g0 = 0"
    by (simp_all add: plt_got_rebase_def plt_got_new_def)
  have reach: "pg_reach C G P ?g0 g"
    unfolding GP by (rule static_run_reach [OF assms(7) assms(8) [unfolded res_fold_concat] pg_reach.start])
  note inv = pg_inv_reach [OF assms(1) reach zero] and ix = pg_reach_indices [OF assms(1) reach zero]
  have len: "length (got_map g) \<le> card G" "length (plt_map g) \<le> card P"
    using pg_inv_lengths [OF inv] by (simp_all add: GP)
  then have "unat (got_idx g) = length (got_map g) + length (plt_map g)" "unat (plt_idx g) = length (plt_map g)"
    using inv le small [of "length (got_map g) + length (plt_map g)"] small [of "length (plt_map g)"]
    by (simp_all add: pg_inv_def)
  moreover have "unat i < card G + card P" if "(s, i) \<in> set (got_map g)" for s i
    using bspec [OF conjunct1 [OF ix] that] len le by (auto simp: small)
  moreover have "unat i < card P" if "(s, i) \<in> set (plt_map g)" for s i
    using bspec [OF conjunct2 [OF ix] that] len le by (auto simp: small)
  ultimately show ?thesis using cnt size len by auto
qed

lemma find_symbol_found:
  "find_symbol_addr X core scope (r_symbol rel) w = Inr (Some (s, idx), w1) \<Longrightarrow>
     find_symbol X core rel scope w = Inr (s, w1)"
  by (simp add: find_symbol_def)

definition wit_obj_bytes :: bytes where
  "wit_obj_bytes = [0x20,0,0,0,0,0,0,0, 9,0,0,0,1,0,0,0, 0,0,0,0,0,0,0,0]"

lemma wit_pre_find:
  "find_symbol_addr (wit_ext\<lparr>x_pre_find := \<lambda>_. Some a\<rparr>) wit_core [] 1 wit_world = Inr (Some (a, None), wit_world)"
  using wit_symbol_idx by (simp add: find_symbol_addr_def)

lemma try_i32_of_int:
  "- (2 ^ 31) \<le> k \<Longrightarrow> k < 2 ^ 31 \<Longrightarrow> try_i32 (word_of_int k) = Some (word_of_int k)"
  "2 ^ 31 \<le> k \<Longrightarrow> k < 2 ^ 63 \<Longrightarrow> try_i32 (word_of_int k) = None"
proof -
  have "sint (word_of_int k :: usize) = k" if "- (2 ^ 63) \<le> k" "k < 2 ^ 63"
    using that by (simp add: signed_of_int signed_take_bit_int_eq_self)
  moreover have "ucast (word_of_int k :: usize) = (word_of_int k :: u32)" by (rule bit_word_eqI) (simp add: bit_simps)
  ultimately show "- (2 ^ 31) \<le> k \<Longrightarrow> k < 2 ^ 31 \<Longrightarrow> try_i32 (word_of_int k) = Some (word_of_int k)"
    "2 ^ 31 \<le> k \<Longrightarrow> k < 2 ^ 63 \<Longrightarrow> try_i32 (word_of_int k) = None" by (simp_all add: try_i32_def)
qed

theorem reserved_entries_suffice_witness:
  "\<exists>g w'. count_needed_entries wit_containers [shdr_new 0 SHT_RELA 0 0 0 24 0 0 8 24] (elf_binary ''x'' wit_obj_bytes) =
       Inr (1, 0) \<and>
     res_fold (\<lambda>ptrs. res_fold (static_one wit_containers (wit_ext\<lparr>x_pre_find := \<lambda>_. Some 0x7000\<rparr>) wit_core []) ptrs) [[0x448]]
       (plt_got_rebase 0x1000 (plt_got_new (create_got_shdr 1) (create_plt_shdr 0)), wit_world) = Inr (g, w') \<and>
     got_map g = [(1, 0)] \<and> unat (got_idx g) \<le> 1"
proof -
  let ?sh = "shdr_new 0 SHT_RELA 0 0 0 24 0 0 8 24" and ?R = "elf_binary ''x'' wit_obj_bytes"
  let ?X = "wit_ext\<lparr>x_pre_find := \<lambda>_. Some 0x7000\<rparr>" and ?rel = "rela_at wit_sym_mem 0x448"
  let ?g0 = "plt_got_rebase 0x1000 (plt_got_new (create_got_shdr 1) (create_plt_shdr 0))"
  have rd: "rd_read ?R 24 0 = Inr wit_obj_bytes"
    by (simp add: elf_binary_def elf_binary_read_def slice_def wit_obj_bytes_def)
  have r: "rela_at (mem_of 0 wit_obj_bytes) 0 = ?rel"
    unfolding wit_rela(4)
    by (simp add: rela_at_def wit_obj_bytes_def read_le_def read_bytes_def mem_of_def write_bytes_def upt_rec)
  have ok: "\<forall>sh \<in> set [?sh]. rel_section_ok ?R sh"
    by (simp add: rel_section_ok_def shdr_new_def size_rela_def rd) (simp add: wit_obj_bytes_def)
  have rs: "[?rel] = concat (map (rel_entries ?R) [?sh])"
    by (simp add: rel_entries_def shdr_new_def size_rela_def rd r abi)
  have rel: "r_symbol ?rel = 1" "r_type ?rel = 9" "r_offset ?rel = 0x20" "r_addend ?rel b = 0" for b
    by (simp_all add: wit_rela_simps)
  have fit: "try_i32 (- 0x20) = Some (- 0x20)" using try_i32_of_int(1) [of "- 0x20"] by simp
  have f: "find_symbol ?X wit_core ?rel [] wit_world = Inr (0x7000, wit_world)"
    using find_symbol_found [of ?X wit_core "[]" ?rel wit_world "0x7000" None wit_world] wit_pre_find [of "0x7000"]
    by (simp add: rel)
  have "\<exists>g w'. static_relocate wit_containers ?X wit_core ?rel [] (?g0, wit_world) = Inr (g, w') \<and> got_map g = [(1, 0)]"
    by (simp add: static_relocate_def f rel got_slot_def add_got_entry_def wit_containers_def plt_got_rebase_def plt_got_new_def
        create_got_shdr_def shdr_new_def must_fit_def fit Let_def abi)
  then obtain g w' where run: "res_fold (\<lambda>ptrs. res_fold (static_one wit_containers ?X wit_core []) ptrs) [[0x448]]
       (?g0, wit_world) = Inr (g, w')" and gm: "got_map g = [(1, 0)]" by (auto simp: static_one_def)
  have turns: "turns_from wit_containers ?X wit_core [] [?rel] (concat [[0x448]]) (?g0, wit_world)"
    by (auto simp: turns_from_def Cons_eq_append_conv)
  have G: "{1} = r_symbol ` {r \<in> set [?rel]. ucast (r_type r) \<in> {R_X86_64_GOTPCREL, R_X86_64_PLT32}}"
    "{} = r_symbol ` {r \<in> set [?rel]. ucast (r_type r) = R_X86_64_PLT32}"
    by (auto simp: rel abi)
  from reserved_entries_suffice [OF wit_containers_ok ok rs _ G turns run] run gm show ?thesis by auto
qed

section \<open>Fields\<close>

lemma try_i32_Some: "try_i32 v = Some f \<Longrightarrow> scast f = v"
proof -
  assume "try_i32 v = Some f"
  then have f: "f = ucast v" and r: "- (2 ^ 31) \<le> sint v" "sint v < 2 ^ 31" by (auto simp: try_i32_def split: if_splits)
  have "sint f = signed_take_bit 31 (sint v)"
    unfolding f sint_uint unsigned_ucast_eq by (simp add: signed_take_bit_take_bit)
  also have "\<dots> = sint v" using r by (simp add: signed_take_bit_int_eq_self)
  finally have "sint (scast f :: u64) = sint v" by (simp add: signed_scast_eq) (simp add: sint_uint)
  then show "scast f = v" by (simp add: signed_word_eqI)
qed

lemma try_u32_Some: "try_u32 v = Some f \<Longrightarrow> ucast f = v"
proof -
  assume "try_u32 v = Some f"
  then have "f = ucast v" "unat v < 2 ^ 32" by (auto simp: try_u32_def split: if_splits)
  then have "unat (ucast f :: u64) = unat v"
    by (simp add: unsigned_ucast_eq unsigned_take_bit_eq take_bit_nat_eq_self)
  then show "ucast f = v" by (simp add: word_eq_iff_unsigned [where ?'a = nat])
qed

lemma read_write32: "read_u32 (rw_mem (write32 segs off v w)) (base_of segs + off) = v"
  by (simp add: write32_def seg_write32_def get_ptr_def read_write_le)

lemma write32_frame: "\<not> in_range (base_of segs + off) 4 x \<Longrightarrow> rw_mem (write32 segs off v w) x = rw_mem w x"
  by (simp add: write32_def seg_write32_def get_ptr_def write_le_frame)

lemma fail_bind: "res_bind (fail_reloc m rel msg core) f = fail_reloc m rel msg core"
  by (cases "reloc_error m rel msg core") (simp_all add: fail_reloc_def)

text \<open>
  C39. Static relocations. With S the address found for the symbol, A the addend and P the address of
  the field: a 64-bit relocation stores S + A; a PC-relative one that returns stores a field whose
  sign extension is S + A - P; the 32-bit ones store fields whose zero and sign extension is S + A.
  No other byte changes, and no table entry is used. A value that does not fit is the error that says so.
\<close>

theorem static_fields_correct:
  assumes "find_symbol_addr X core scope (r_symbol rel) w = Inr (Some (s, idx), w1)"
    and "v = s + r_addend rel (core_base core)" and "P = core_base core + r_offset rel" and "ty = ucast (r_type rel)"
  shows "(ty = R_X86_64_64 \<longrightarrow>
       (\<exists>w'. static_relocate C X core rel scope (g, w) = Inr (g, w') \<and> read_u64 (rw_mem w') P = v \<and>
          (\<forall>x. \<not> in_range P 8 x \<longrightarrow> rw_mem w' x = rw_mem w1 x))) \<and>
     (ty = R_X86_64_PC32 \<and> try_i32 (v - P) \<noteq> None \<longrightarrow>
       (\<exists>w'. static_relocate C X core rel scope (g, w) = Inr (g, w') \<and> scast (read_u32 (rw_mem w') P) = v - P \<and>
          (\<forall>x. \<not> in_range P 4 x \<longrightarrow> rw_mem w' x = rw_mem w1 x))) \<and>
     (ty = R_X86_64_32 \<and> try_u32 v \<noteq> None \<longrightarrow>
       (\<exists>w'. static_relocate C X core rel scope (g, w) = Inr (g, w') \<and> ucast (read_u32 (rw_mem w') P) = v \<and>
          (\<forall>x. \<not> in_range P 4 x \<longrightarrow> rw_mem w' x = rw_mem w1 x))) \<and>
     (ty = R_X86_64_32S \<and> try_i32 v \<noteq> None \<longrightarrow>
       (\<exists>w'. static_relocate C X core rel scope (g, w) = Inr (g, w') \<and> scast (read_u32 (rw_mem w') P) = v \<and>
          (\<forall>x. \<not> in_range P 4 x \<longrightarrow> rw_mem w' x = rw_mem w1 x))) \<and>
     (ty = R_X86_64_PC32 \<and> try_i32 (v - P) = None \<or> ty = R_X86_64_32 \<and> try_u32 v = None \<or>
        ty = R_X86_64_32S \<and> try_i32 v = None \<longrightarrow>
       static_relocate C X core rel scope (g, w) =
         fail_reloc (rw_mem w1) rel ''out of range integral type conversion attempted'' core)"
proof -
  note found = find_symbol_found [OF assms(1)]
  have w64: "rw_mem (write64 (c_segments core) (r_offset rel) u w1) = write_u64 (rw_mem w1) P u" for u
    by (simp add: rw_mem_write64 assms(3))
  have c: "R_X86_64_64 \<noteq> R_X86_64_PC32" "R_X86_64_32 \<noteq> R_X86_64_64" "R_X86_64_32 \<noteq> R_X86_64_PC32"
    "R_X86_64_32 \<noteq> R_X86_64_PLT32" "R_X86_64_32 \<noteq> R_X86_64_GOTPCREL" "R_X86_64_32S \<noteq> R_X86_64_64"
    "R_X86_64_32S \<noteq> R_X86_64_PC32" "R_X86_64_32S \<noteq> R_X86_64_PLT32" "R_X86_64_32S \<noteq> R_X86_64_GOTPCREL"
    "R_X86_64_32S \<noteq> R_X86_64_32" by (simp_all add: abi)
  show ?thesis
  proof (intro conjI impI)
    assume "ty = R_X86_64_64"
    with assms(2,4) show "\<exists>w'. static_relocate C X core rel scope (g, w) = Inr (g, w') \<and> read_u64 (rw_mem w') P = v \<and>
        (\<forall>x. \<not> in_range P 8 x \<longrightarrow> rw_mem w' x = rw_mem w1 x)"
      by (simp add: static_relocate_def found w64 read_write_le write_le_frame Let_def)
  next
    assume "ty = R_X86_64_PC32 \<and> try_i32 (v - P) \<noteq> None"
    then obtain f where "try_i32 (v - P) = Some f" "ty = R_X86_64_PC32" by blast
    with assms(2-4) c show "\<exists>w'. static_relocate C X core rel scope (g, w) = Inr (g, w') \<and>
        scast (read_u32 (rw_mem w') P) = v - P \<and> (\<forall>x. \<not> in_range P 4 x \<longrightarrow> rw_mem w' x = rw_mem w1 x)"
      by (simp add: static_relocate_def found fits_def read_write32 write32_frame try_i32_Some Let_def)
  next
    assume "ty = R_X86_64_32 \<and> try_u32 v \<noteq> None"
    then obtain f where "try_u32 v = Some f" "ty = R_X86_64_32" by blast
    with assms(2-4) c show "\<exists>w'. static_relocate C X core rel scope (g, w) = Inr (g, w') \<and>
        ucast (read_u32 (rw_mem w') P) = v \<and> (\<forall>x. \<not> in_range P 4 x \<longrightarrow> rw_mem w' x = rw_mem w1 x)"
      by (simp add: static_relocate_def found fits_def read_write32 write32_frame try_u32_Some Let_def)
  next
    assume "ty = R_X86_64_32S \<and> try_i32 v \<noteq> None"
    then obtain f where "try_i32 v = Some f" "ty = R_X86_64_32S" by blast
    with assms(2-4) c show "\<exists>w'. static_relocate C X core rel scope (g, w) = Inr (g, w') \<and>
        scast (read_u32 (rw_mem w') P) = v \<and> (\<forall>x. \<not> in_range P 4 x \<longrightarrow> rw_mem w' x = rw_mem w1 x)"
      by (simp add: static_relocate_def found fits_def read_write32 write32_frame try_i32_Some Let_def)
  next
    assume "ty = R_X86_64_PC32 \<and> try_i32 (v - P) = None \<or> ty = R_X86_64_32 \<and> try_u32 v = None \<or>
        ty = R_X86_64_32S \<and> try_i32 v = None"
    with assms(2-4) c show "static_relocate C X core rel scope (g, w) =
        fail_reloc (rw_mem w1) rel ''out of range integral type conversion attempted'' core"
      by (auto simp: static_relocate_def found fits_def fail_bind Let_def)
  qed
qed

definition wit_abs_rel :: rela where
  "wit_abs_rel = \<lparr>rela_offset = 0x20, rela_info = 0x100000001, rela_addend = 4\<rparr>"

theorem static_fields_correct_witness:
  "\<exists>w'. static_relocate wit_containers (wit_ext\<lparr>x_pre_find := \<lambda>_. Some 0x7000\<rparr>) wit_core wit_abs_rel []
       (plt_got_new (create_got_shdr 1) (create_plt_shdr 1), wit_world)
     = Inr (plt_got_new (create_got_shdr 1) (create_plt_shdr 1), w') \<and> read_u64 (rw_mem w') 0x1020 = 0x7004"
proof -
  have "r_symbol wit_abs_rel = 1" "r_offset wit_abs_rel = 0x20" "r_addend wit_abs_rel b = 4" "r_type wit_abs_rel = 1" for b
    by (simp_all add: wit_abs_rel_def r_symbol_def r_offset_def r_addend_def r_type_def REL_BIT_def REL_MASK_def)
  then show ?thesis
    using static_fields_correct [of "wit_ext\<lparr>x_pre_find := \<lambda>_. Some 0x7000\<rparr>" wit_core "[]" wit_abs_rel wit_world "0x7000"
        None wit_world "0x7004" "0x1020" 1 wit_containers "plt_got_new (create_got_shdr 1) (create_plt_shdr 1)"]
      wit_pre_find [of "0x7000"]
    by (auto simp: abi)
qed

text \<open>
  C40. Calls through the PLT. When the target of a call is out of reach and the symbol has no stub
  yet, a relocation that returns leaves this code: the field of the call leads to the new stub, the
  stub is the template, the displacement of its indirect jump, counted from the end of the jump,
  leads to the GOT slot of the stub, and the slot holds the address of the symbol.
\<close>

theorem plt_call_reaches_symbol:
  assumes "find_symbol_addr X core scope (r_symbol rel) w = Inr (Some (s, idx), w1)"
    and "ucast (r_type rel) = R_X86_64_PLT32" and "P = core_base core + r_offset rel" and "A = r_addend rel (core_base core)"
    and "try_i32 (s + A - P) = None" and "hm_get C (plt_map g) (r_symbol rel) = None"
    and "plt = plt_idx g * PLT_ENTRY_SIZE + plt_base g" and "got = got_idx g * 8 + got_base g"
    and "disjoint_ranges plt 16 got 8" and "disjoint_ranges P 4 plt 16" and "disjoint_ranges P 4 got 8"
    and "static_relocate C X core rel scope (g, w) = Inr (g', w')"
  shows "P + scast (read_u32 (rw_mem w') P) - A = plt \<and>
     read_bytes 6 (rw_mem w') plt = take 6 PLT_ENTRY \<and>
     plt + 10 + scast (read_u32 (rw_mem w') (plt + 6)) = got \<and> read_u64 (rw_mem w') got = s"
proof -
  let ?m = "write_u64 (write_bytes (rw_mem w1) plt PLT_ENTRY) got s"
  have "R_X86_64_PLT32 \<noteq> R_X86_64_64" "R_X86_64_PLT32 \<noteq> R_X86_64_PC32" by (simp_all add: abi)
  with assms(12) obtain d v where d: "try_i32 (got - plt - 10) = Some d" and v: "try_i32 (plt + A - P) = Some v"
    and mem: "rw_mem w' = write_u32 (write_u32 ?m (plt + 6) d) P v"
    unfolding static_relocate_def
    by (auto simp: find_symbol_found [OF assms(1)] assms(2) plt_stub_def add_plt_entry_def assms(5,6) must_fit_def
        write32_def seg_write32_def get_ptr_def res_simps Let_def
        simp flip: assms(3,4,7,8))
  have plt6: "disjoint_ranges P 4 (plt + 6) 4" using disjoint_sub [OF assms(10), of 6 4] by simp
  have got6: "disjoint_ranges (plt + 6) 4 got 8"
    using disjoint_sub [of got 8 plt 16 6 4] assms(9) by (simp add: disjoint_ranges_sym)
  have byte: "rw_mem w' (plt + of_nat i) = PLT_ENTRY ! i" if "i < 6" for i
  proof -
    have r: "in_range plt 16 (plt + of_nat i)" by (rule in_range_add_of_nat) (use that in simp_all)
    have "\<not> in_range P 4 (plt + of_nat i)" "\<not> in_range got 8 (plt + of_nat i)"
      using r assms(9,10) by (auto simp: disjoint_ranges_def)
    moreover have "\<not> in_range (plt + 6) 4 (plt + of_nat i)"
      using in_range_shift [of 6 4 plt "plt + of_nat i"] that by simp
    ultimately show ?thesis
      using that by (simp add: mem write_le_frame write_bytes_def PLT_ENTRY_def)
  qed
  have "read_bytes 6 (rw_mem w') plt = take 6 PLT_ENTRY"
    by (rule nth_equalityI) (simp_all add: byte, simp add: PLT_ENTRY_def)
  moreover have "read_u32 (rw_mem w') P = v" "read_u32 (rw_mem w') (plt + 6) = d" "read_u64 (rw_mem w') got = s"
    by (simp_all add: mem read_write_le read_le_write_le_disjoint plt6 got6 assms(11))
  moreover have "scast v = plt + A - P" "scast d = got - plt - 10" by (simp_all add: try_i32_Some v d)
  ultimately show ?thesis by simp
qed

definition wit_call_rel :: rela where
  "wit_call_rel = \<lparr>rela_offset = 0x20, rela_info = 0x100000004, rela_addend = - 4\<rparr>"

definition wit_pltgot :: plt_got_section where
  "wit_pltgot = \<lparr>got_base = 0x1100, plt_base = 0x1200, got_idx = 0, plt_idx = 0, got_map = [], plt_map = []\<rparr>"

lemma wit_call_fields:
  "r_symbol wit_call_rel = 1" "r_offset wit_call_rel = 0x20" "r_addend wit_call_rel b = - 4"
  "ucast (r_type wit_call_rel) = R_X86_64_PLT32"
  by (simp_all add: wit_call_rel_def r_symbol_def r_offset_def r_addend_def r_type_def REL_BIT_def REL_MASK_def abi)

theorem plt_call_reaches_symbol_witness:
  "\<exists>g' w'. static_relocate wit_containers (wit_ext\<lparr>x_pre_find := \<lambda>_. Some 0x7FFF00000000\<rparr>) wit_core wit_call_rel []
       (wit_pltgot, wit_world) = Inr (g', w') \<and> read_u64 (rw_mem w') 0x1100 = 0x7FFF00000000"
proof -
  let ?X = "wit_ext\<lparr>x_pre_find := \<lambda>_. Some 0x7FFF00000000\<rparr>"
  have t: "try_i32 0x7FFEFFFFEFDC = None" "try_i32 0x1DC = Some 0x1DC" "try_i32 (- 0x10A) = Some (- 0x10A)"
    using try_i32_of_int(2) [of "0x7FFEFFFFEFDC"] try_i32_of_int(1) [of "0x1DC"] try_i32_of_int(1) [of "- 0x10A"]
    by simp_all
  have "\<exists>g' w'. static_relocate wit_containers ?X wit_core wit_call_rel [] (wit_pltgot, wit_world) = Inr (g', w')"
    using find_symbol_found [of ?X wit_core "[]" wit_call_rel wit_world "0x7FFF00000000" None wit_world]
      wit_pre_find [of "0x7FFF00000000"] t
    by (simp add: static_relocate_def wit_call_fields plt_stub_def add_plt_entry_def wit_containers_def wit_pltgot_def
        must_fit_def Let_def abi)
  then obtain g' w' where run: "static_relocate wit_containers ?X wit_core wit_call_rel [] (wit_pltgot, wit_world) = Inr (g', w')"
    by blast
  have addr: "0x1020 = core_base wit_core + r_offset wit_call_rel" "- 4 = r_addend wit_call_rel (core_base wit_core)"
    "0x1200 = plt_idx wit_pltgot * PLT_ENTRY_SIZE + plt_base wit_pltgot" "0x1100 = got_idx wit_pltgot * 8 + got_base wit_pltgot"
    "hm_get wit_containers (plt_map wit_pltgot) (r_symbol wit_call_rel) = None"
    "try_i32 (0x7FFF00000000 + - 4 - 0x1020) = None"
    using t(1) by (simp_all add: wit_call_fields wit_pltgot_def wit_containers_def)
  have d: "disjoint_ranges (0x1200 :: usize) 16 0x1100 8" "disjoint_ranges (0x1020 :: usize) 4 0x1200 16"
    "disjoint_ranges (0x1020 :: usize) 4 0x1100 8" by (rule disjoint_if; simp)+
  have f: "find_symbol_addr ?X wit_core [] (r_symbol wit_call_rel) wit_world = Inr (Some (0x7FFF00000000, None), wit_world)"
    using wit_pre_find [of "0x7FFF00000000"] by (simp add: wit_call_fields)
  note plt_call_reaches_symbol [OF f wit_call_fields(4) addr(1,2,6,5,3,4) d run]
  then have "read_u64 (rw_mem w') 0x1100 = 0x7FFF00000000" by (elim conjE)
  with run show ?thesis by blast
qed

text \<open>
  Asking again for the GOT or PLT entry of a symbol returns the entry made
  before, and changes neither the tables nor the memory.
\<close>

lemma entries_shared:
  assumes "containers_ok C"
  shows "(add_got_entry C s g = (GotVacant a, g') \<longrightarrow> add_got_entry C s g' = (GotOccupied a, g')) \<and>
     (add_plt_entry C s g m = ((PltVacant p b, g'), m') \<longrightarrow>
        add_plt_entry C s g' m'' = ((PltOccupied p, g'), m''))"
  using assms by (auto simp: add_got_entry_def add_plt_entry_def Let_def split: option.splits)

end
