(* ===== verification/Section_Layout.thy ===== *)
theory Section_Layout
  imports Section Segment_Load "HOL-Library.Multiset"
begin

text \<open>
  The layout that \<^verbatim>\<open>SectionSegments::new\<close> gives the sections of an object: every section that is
  not empty, the added GOT and PLT included, is aligned and lies inside the reserved size, and no two
  of them overlap. Addresses are compared as natural numbers, so nothing wraps.
\<close>

section \<open>Placed sections\<close>

abbreviation addr_of :: "shdr list \<Rightarrow> nat \<Rightarrow> nat" where
  "addr_of shs i \<equiv> unat (sh_addr (shs ! i))"

abbreviation size_of :: "shdr list \<Rightarrow> nat \<Rightarrow> nat" where
  "size_of shs i \<equiv> unat (sh_size (shs ! i))"

text \<open>An alignment the ELF specification allows, up to a page; zero is none.\<close>

definition align_ok :: "shdr \<Rightarrow> bool" where
  "align_ok sh \<longleftrightarrow> sh_addralign sh = 0 \<or> (\<exists>k \<le> 12. sh_addralign sh = 2 ^ k)"

definition aligned :: "shdr \<Rightarrow> nat \<Rightarrow> bool" where
  "aligned sh a \<longleftrightarrow> sh_addralign sh = 0 \<or> unat (sh_addralign sh) dvd a"

text \<open>The sections of the list that are not empty lie in \<open>[lo, hi)\<close>, in order, aligned.\<close>

definition laid :: "nat \<Rightarrow> nat \<Rightarrow> shdr list \<Rightarrow> nat list \<Rightarrow> bool" where
  "laid lo hi shs ks \<longleftrightarrow>
     (\<forall>i \<in> set ks. 0 < size_of shs i \<longrightarrow>
        lo \<le> addr_of shs i \<and> addr_of shs i + size_of shs i \<le> hi \<and> aligned (shs ! i) (addr_of shs i)) \<and>
     sorted_wrt (\<lambda>i j. 0 < size_of shs i \<and> 0 < size_of shs j \<longrightarrow> addr_of shs i + size_of shs i \<le> addr_of shs j) ks"

text \<open>Only addresses changed, and only those of the sections in \<open>K\<close>.\<close>

definition moved :: "nat set \<Rightarrow> shdr list \<Rightarrow> shdr list \<Rightarrow> bool" where
  "moved K shs shs' \<longleftrightarrow> length shs' = length shs \<and>
     (\<forall>i < length shs. shs' ! i = (shs ! i)\<lparr>sh_addr := sh_addr (shs' ! i)\<rparr> \<and> (i \<notin> K \<longrightarrow> shs' ! i = shs ! i))"

lemma laid_Nil [simp]: "laid lo hi shs []"
  by (simp add: laid_def)

lemma laid_append:
  "laid lo mid shs ks \<Longrightarrow> laid mid hi shs ls \<Longrightarrow> lo \<le> mid \<Longrightarrow> mid \<le> hi \<Longrightarrow> laid lo hi shs (ks @ ls)"
  unfolding laid_def sorted_wrt_append by (auto dest: order_trans)

lemma laid_cong:
  assumes "laid lo hi shs ks" and "\<And>i. i \<in> set ks \<Longrightarrow> shs' ! i = shs ! i"
  shows "laid lo hi shs' ks"
  using assms unfolding laid_def by (auto elim!: sorted_wrt_mono_rel [rotated])

lemma laid_mono: "laid lo hi shs ks \<Longrightarrow> lo' \<le> lo \<Longrightarrow> hi \<le> hi' \<Longrightarrow> laid lo' hi' shs ks"
  unfolding laid_def by (meson order_trans)

lemma moved_refl [simp]: "moved K shs shs"
  by (simp add: moved_def)

lemma moved_trans: "moved K a b \<Longrightarrow> moved L b c \<Longrightarrow> moved (K \<union> L) a c"
  unfolding moved_def by (auto, metis shdr.surjective shdr.update_convs(4))

lemma moved_fields:
  assumes "moved K shs shs'" and "i < length shs"
  shows "sh_size (shs' ! i) = sh_size (shs ! i)" "sh_addralign (shs' ! i) = sh_addralign (shs ! i)"
    "sh_offset (shs' ! i) = sh_offset (shs ! i)" "sh_type (shs' ! i) = sh_type (shs ! i)"
    "sh_flags (shs' ! i) = sh_flags (shs ! i)"
proof -
  from assms have e: "shs' ! i = (shs ! i)\<lparr>sh_addr := sh_addr (shs' ! i)\<rparr>" by (simp add: moved_def)
  show "sh_size (shs' ! i) = sh_size (shs ! i)" "sh_addralign (shs' ! i) = sh_addralign (shs ! i)"
    "sh_offset (shs' ! i) = sh_offset (shs ! i)" "sh_type (shs' ! i) = sh_type (shs ! i)"
    "sh_flags (shs' ! i) = sh_flags (shs ! i)"
    by (subst e, simp)+
qed

lemma moved_set: "i < length shs \<Longrightarrow> i \<in> K \<Longrightarrow> moved K shs (set_sh_addr i a shs)"
  by (auto simp: moved_def set_sh_addr_def nth_list_update)

lemma unat_pow2: "k < 64 \<Longrightarrow> unat (2 ^ k :: usize) = 2 ^ k"
  using unat_of_nat_usize [of "2 ^ k"] power_strict_increasing [of k 64 "2 :: nat"] by simp

text \<open>Alignment moves the cursor by less than a page.\<close>

lemma roundup_align:
  assumes "align_ok sh" and "unat cur + 4096 \<le> 2 ^ 64"
  shows "unat cur \<le> unat (roundup cur (sh_addralign sh)) \<and>
    unat (roundup cur (sh_addralign sh)) < unat cur + 4096 \<and> aligned sh (unat (roundup cur (sh_addralign sh)))"
proof (cases "sh_addralign sh = 0")
  case True
  then show ?thesis by (simp add: roundup_def aligned_def)
next
  case False
  then obtain k where k: "k \<le> 12" "sh_addralign sh = 2 ^ k" using assms(1) by (auto simp: align_ok_def)
  have p: "(2::nat) ^ k \<le> 2 ^ 12" using k(1) by (rule power_increasing) simp
  let ?n = "2 ^ k :: nat"
  have u: "unat (roundup cur (sh_addralign sh)) = (unat cur + (?n - 1)) div ?n * ?n"
    unfolding k(2) by (rule unat_roundup_pow2) (use k(1) p assms(2) in simp_all)
  have a: "unat (sh_addralign sh) = ?n" unfolding k(2) using k(1) unat_pow2 [of k] by simp
  have m: "(unat cur + (?n - 1)) mod ?n < ?n" by simp
  have d: "(unat cur + (?n - 1)) div ?n * ?n + (unat cur + (?n - 1)) mod ?n = unat cur + (?n - 1)"
    by (rule div_mult_mod_eq)
  from m d u have "unat cur \<le> unat (roundup cur (sh_addralign sh))" by linarith
  moreover from d u p have "unat (roundup cur (sh_addralign sh)) < unat cur + 4096" by simp
  moreover have "aligned sh (unat (roundup cur (sh_addralign sh)))" unfolding aligned_def a u by simp
  ultimately show ?thesis by blast
qed

lemma align_ok_page: "align_ok sh \<Longrightarrow> aligned sh 4096"
proof -
  assume "align_ok sh"
  then consider "sh_addralign sh = 0" | k where "k \<le> 12" "sh_addralign sh = 2 ^ k" by (auto simp: align_ok_def)
  then show "aligned sh 4096"
  proof cases
    case 2
    then have "unat (sh_addralign sh) = 2 ^ k" using unat_pow2 [of k] by simp
    moreover have "(2::nat) ^ k dvd 2 ^ 12" using 2(1) by (rule le_imp_power_dvd)
    ultimately show ?thesis by (simp add: aligned_def)
  qed (simp add: aligned_def)
qed

section \<open>The loops over sections\<close>

definition room :: "shdr list \<Rightarrow> nat list \<Rightarrow> nat" where
  "room shs ks = (\<Sum>i\<leftarrow>ks. size_of shs i + 4096)"

lemma room_Cons [simp]: "room shs (i # ks) = size_of shs i + 4096 + room shs ks"
  by (simp add: room_def)

lemma room_Nil [simp]: "room shs [] = 0"
  by (simp add: room_def)

lemma room_append: "room shs (ks @ ls) = room shs ks + room shs ls"
  by (simp add: room_def)

lemma room_moved: "moved K shs shs' \<Longrightarrow> \<forall>i \<in> set ks. i < length shs \<Longrightarrow> room shs' ks = room shs ks"
  by (induction ks) (simp_all add: moved_fields)

text \<open>One section is placed at the aligned cursor.\<close>

lemma place_step:
  assumes i: "i < length shs" "align_ok (shs ! i)" and rm: "unat cur + (size_of shs i + 4096) < 2 ^ 64"
  defines "c \<equiv> roundup cur (sh_addralign (shs ! i))"
  shows "unat cur \<le> unat (c + sh_size (shs ! i))"
    and "unat (c + sh_size (shs ! i)) \<le> unat cur + (size_of shs i + 4096)"
    and "moved {i} shs (set_sh_addr i c shs)"
    and "laid (unat cur) (unat (c + sh_size (shs ! i))) (set_sh_addr i c shs) [i]"
proof -
  have c4: "unat cur + 4096 \<le> 2 ^ 64" using rm by linarith
  have r: "unat cur \<le> unat c" "unat c < unat cur + 4096" "aligned (shs ! i) (unat c)"
    using roundup_align [OF i(2) c4] by (simp_all add: c_def)
  have u: "unat (c + sh_size (shs ! i)) = unat c + size_of shs i"
    using r(2) rm by (simp add: unat_word_ariths)
  show "unat cur \<le> unat (c + sh_size (shs ! i))" unfolding u using r(1) by simp
  show "unat (c + sh_size (shs ! i)) \<le> unat cur + (size_of shs i + 4096)" unfolding u using r(2) by simp
  show "moved {i} shs (set_sh_addr i c shs)" using i(1) by (rule moved_set) simp
  show "laid (unat cur) (unat (c + sh_size (shs ! i))) (set_sh_addr i c shs) [i]"
    unfolding u using i(1) r(1,3) by (simp add: laid_def set_sh_addr_def aligned_def)
qed

lemma laid_Cons:
  assumes "laid lo mid shs1 [i]" and "moved (set ks) shs1 shs'" and "i \<notin> set ks" and "i < length shs1"
    and "laid mid hi shs' ks" and "lo \<le> mid" and "mid \<le> hi"
  shows "laid lo hi shs' (i # ks)"
proof -
  have "laid lo mid shs' [i]" by (rule laid_cong [OF assms(1)]) (use assms(2-4) in \<open>simp add: moved_def\<close>)
  from laid_append [OF this assms(5-7)] show ?thesis by simp
qed

lemma laid_skip:
  assumes "laid lo hi shs ks" and "size_of shs i = 0"
  shows "laid lo hi shs (i # ks)"
  using assms by (simp add: laid_def)

definition content_info :: "usize \<Rightarrow> shdr list \<Rightarrow> nat \<Rightarrow> file_map_info" where
  "content_info start shs i =
     \<lparr>fmi_start = sh_addr (shs ! i) - start, fmi_filesz = sh_size (shs ! i), fmi_offset = sh_offset (shs ! i)\<rparr>"

lemma place_content_empty: "sh_size (shs ! i) = 0 \<Longrightarrow> place_content start (cur, infos, shs) i = (cur, infos, shs)"
  by (simp add: place_content_def)

lemma place_content_some:
  assumes "sh_size (shs ! i) \<noteq> 0" and "i < length shs" and "c = roundup cur (sh_addralign (shs ! i))"
  shows "place_content start (cur, infos, shs) i =
    (c + sh_size (shs ! i), infos @ [content_info start (set_sh_addr i c shs) i], set_sh_addr i c shs)"
  using assms by (simp add: place_content_def Let_def content_info_def set_sh_addr_def)

lemma place_zero_eq:
  "place_zero (cur, shs) i = (roundup cur (sh_addralign (shs ! i)) + sh_size (shs ! i),
     set_sh_addr i (roundup cur (sh_addralign (shs ! i))) shs)"
  by (simp add: place_zero_def Let_def)

lemma place_content_fold:
  assumes "foldl (place_content start) (cur, infos, shs) ks = (cur', infos', shs')"
    and "distinct ks" and "\<forall>i \<in> set ks. i < length shs \<and> (sh_size (shs ! i) \<noteq> 0 \<longrightarrow> align_ok (shs ! i))"
    and "unat cur + room shs ks < 2 ^ 64"
  shows "unat cur \<le> unat cur' \<and> unat cur' \<le> unat cur + room shs ks \<and> moved (set ks) shs shs' \<and>
     laid (unat cur) (unat cur') shs' ks \<and>
     infos' = infos @ map (content_info start shs') (filter (\<lambda>i. sh_size (shs' ! i) \<noteq> 0) ks)"
  using assms
proof (induction ks arbitrary: cur infos shs)
  case Nil
  then show ?case by simp
next
  case (Cons i ks)
  show ?case
  proof (cases "sh_size (shs ! i) = 0")
    case True
    have run: "foldl (place_content start) (cur, infos, shs) ks = (cur', infos', shs')"
      using Cons.prems(1) by (simp add: place_content_empty [of shs, OF True])
    note IH = Cons.IH [OF run]
    have "unat cur \<le> unat cur' \<and> unat cur' \<le> unat cur + room shs ks \<and> moved (set ks) shs shs' \<and>
        laid (unat cur) (unat cur') shs' ks \<and>
        infos' = infos @ map (content_info start shs') (filter (\<lambda>i. sh_size (shs' ! i) \<noteq> 0) ks)"
      using Cons.prems(2-4) by (intro IH) auto
    moreover from this have "sh_size (shs' ! i) = 0" using True Cons.prems(3) moved_fields(1) by (metis list.set_intros(1))
    moreover have "moved (set (i # ks)) shs shs'"
      using calculation(1) by (auto simp: moved_def)
    ultimately show ?thesis by (simp add: laid_skip)
  next
    case False
    let ?c = "roundup cur (sh_addralign (shs ! i))" and ?shs = "set_sh_addr i (roundup cur (sh_addralign (shs ! i))) shs"
    let ?cur = "?c + sh_size (shs ! i)"
    have run: "foldl (place_content start) (?cur, infos @ [content_info start ?shs i], ?shs) ks = (cur', infos', shs')"
      using Cons.prems(1,3) by (simp add: place_content_some [of shs, OF False _ refl])
    have i: "i < length shs" "align_ok (shs ! i)" and rm: "unat cur + (size_of shs i + 4096) < 2 ^ 64"
      using Cons.prems False by auto
    note st = place_step [OF i rm]
    have ln: "length ?shs = length shs" by (simp add: set_sh_addr_def)
    have rk: "room ?shs ks = room shs ks" using Cons.prems(3) by (intro room_moved [OF st(3)]) simp
    have ok: "\<forall>j \<in> set ks. j < length ?shs \<and> (sh_size (?shs ! j) \<noteq> 0 \<longrightarrow> align_ok (?shs ! j))"
      using Cons.prems(2,3) by (auto simp: set_sh_addr_def nth_list_update)
    have "unat ?cur + room ?shs ks < 2 ^ 64" using st(2) rk Cons.prems(4) by simp
    from Cons.IH [OF run _ ok this] Cons.prems(2)
    have IH: "unat ?cur \<le> unat cur'" "unat cur' \<le> unat ?cur + room shs ks" "moved (set ks) ?shs shs'"
        "laid (unat ?cur) (unat cur') shs' ks"
        "infos' = (infos @ [content_info start ?shs i]) @ map (content_info start shs') (filter (\<lambda>i. sh_size (shs' ! i) \<noteq> 0) ks)"
      by (simp_all add: rk)
    have same: "shs' ! i = ?shs ! i" using IH(3) Cons.prems(2) i(1) ln by (simp add: moved_def)
    have "laid (unat cur) (unat cur') shs' (i # ks)"
      by (rule laid_Cons [OF st(4) IH(3) _ _ IH(4) st(1) IH(1)]) (use Cons.prems(2) i(1) ln in auto)
    moreover have "moved (set (i # ks)) shs shs'" using moved_trans [OF st(3) IH(3)] by simp
    moreover have "content_info start ?shs i = content_info start shs' i" "sh_size (shs' ! i) \<noteq> 0"
      using same False i(1) by (simp_all add: content_info_def set_sh_addr_def)
    ultimately show ?thesis using IH(1,2,5) st(1,2) by simp
  qed
qed

lemma place_zero_fold:
  assumes "foldl place_zero (cur, shs) ks = (cur', shs')"
    and "distinct ks" and "\<forall>i \<in> set ks. i < length shs \<and> align_ok (shs ! i)"
    and "unat cur + room shs ks < 2 ^ 64"
  shows "unat cur \<le> unat cur' \<and> unat cur' \<le> unat cur + room shs ks \<and> moved (set ks) shs shs' \<and>
     laid (unat cur) (unat cur') shs' ks"
  using assms
proof (induction ks arbitrary: cur shs)
  case Nil
  then show ?case by simp
next
  case (Cons i ks)
  let ?shs = "set_sh_addr i (roundup cur (sh_addralign (shs ! i))) shs"
  let ?cur = "roundup cur (sh_addralign (shs ! i)) + sh_size (shs ! i)"
  have run: "foldl place_zero (?cur, ?shs) ks = (cur', shs')"
    using Cons.prems(1) by (simp add: place_zero_eq)
  have i: "i < length shs" "align_ok (shs ! i)" and rm: "unat cur + (size_of shs i + 4096) < 2 ^ 64"
    using Cons.prems by auto
  note st = place_step [OF i rm]
  have ln: "length ?shs = length shs" by (simp add: set_sh_addr_def)
  have rk: "room ?shs ks = room shs ks" using Cons.prems(3) by (intro room_moved [OF st(3)]) simp
  have ok: "\<forall>j \<in> set ks. j < length ?shs \<and> align_ok (?shs ! j)"
    using Cons.prems(2,3) by (auto simp: set_sh_addr_def nth_list_update)
  have "unat ?cur + room ?shs ks < 2 ^ 64" using st(2) rk Cons.prems(4) by simp
  from Cons.IH [OF run _ ok this] Cons.prems(2)
  have IH: "unat ?cur \<le> unat cur'" "unat cur' \<le> unat ?cur + room shs ks" "moved (set ks) ?shs shs'"
      "laid (unat ?cur) (unat cur') shs' ks"
    by (simp_all add: rk)
  have "laid (unat cur) (unat cur') shs' (i # ks)"
    by (rule laid_Cons [OF st(4) IH(3) _ _ IH(4) st(1) IH(1)]) (use Cons.prems(2) i(1) ln in auto)
  moreover have "moved (set (i # ks)) shs shs'" using moved_trans [OF st(3) IH(3)] by simp
  ultimately show ?case using IH(1,2) st(1,2) by simp
qed

section \<open>One unit\<close>

lemma laid_filter: "laid lo hi shs ks \<longleftrightarrow> laid lo hi shs (filter (\<lambda>i. sh_size (shs ! i) \<noteq> 0) ks)"
proof (induction ks)
  case (Cons i ks)
  then show ?case by (auto simp: laid_def unat_eq_zero unat_gt_0)
qed simp

lemma moved_filter:
  assumes "moved K shs shs'" and "\<forall>i \<in> set ks. i < length shs"
  shows "filter (\<lambda>i. sh_size (shs' ! i) \<noteq> 0) ks = filter (\<lambda>i. sh_size (shs ! i) \<noteq> 0) ks"
  using assms by (intro filter_cong refl) (simp add: moved_fields)

text \<open>The bytes of the section are the part of the file range that ends up at its address.\<close>

definition info_backs :: "usize \<Rightarrow> file_map_info \<Rightarrow> shdr \<Rightarrow> bool" where
  "info_backs off info sh \<longleftrightarrow>
     (let d = unat (sh_offset sh) - unat (fmi_offset info) in
      fmi_offset info \<le> sh_offset sh \<and> sh_addr sh = off + fmi_start info + of_nat d \<and>
      d + unat (sh_size sh) \<le> unat (fmi_filesz info))"

lemma content_info_backs: "info_backs off (content_info off shs i) (shs ! i)"
  by (simp add: info_backs_def content_info_def)

text \<open>An empty section with the file offset of another one would be moved in its place.\<close>

definition offsets_apart :: "shdr list \<Rightarrow> nat list \<Rightarrow> bool" where
  "offsets_apart shs ks \<longleftrightarrow> (\<forall>i \<in> set ks. \<forall>j \<in> set ks.
     sh_size (shs ! i) = 0 \<longrightarrow> sh_size (shs ! j) \<noteq> 0 \<longrightarrow> sh_offset (shs ! i) \<noteq> sh_offset (shs ! j))"

lemma laid_moved_single:
  assumes "laid lo hi shs ks" and "filter (\<lambda>i. sh_size (shs ! i) \<noteq> 0) ks = [j]" and "j < length shs"
    and "align_ok (shs ! j)" and "aligned (shs ! j) (unat a)" and "unat a < 4096" and "hi + 4096 \<le> 2 ^ 64"
    and "\<forall>i \<in> set ks. i < length shs" and "i \<in> set ks"
  shows "laid lo (hi + unat a) (set_sh_addr i (sh_addr (shs ! i) + a) shs) ks"
proof -
  let ?shs = "set_sh_addr i (sh_addr (shs ! i) + a) shs"
  have mv: "moved (set ks) shs ?shs" using assms(8,9) by (intro moved_set) auto
  have f: "filter (\<lambda>i. sh_size (?shs ! i) \<noteq> 0) ks = [j]" using moved_filter [OF mv assms(8)] assms(2) by simp
  have lj: "laid lo hi shs [j]" using assms(1) laid_filter [of lo hi shs ks] assms(2) by simp
  have "j \<in> set (filter (\<lambda>i. sh_size (shs ! i) \<noteq> 0) ks)" unfolding assms(2) by simp
  then have nz: "sh_size (shs ! j) \<noteq> 0" by simp
  have bnd: "lo \<le> addr_of shs j" "addr_of shs j + size_of shs j \<le> hi" "aligned (shs ! j) (addr_of shs j)"
    using lj nz by (simp_all add: laid_def unat_gt_0)
  have "laid lo (hi + unat a) ?shs [j]"
  proof (cases "i = j")
    case True
    have u: "unat (sh_addr (shs ! j) + a) = addr_of shs j + unat a"
      using bnd(2) assms(6,7) by (simp add: unat_word_ariths)
    have sh: "?shs ! j = (shs ! j)\<lparr>sh_addr := sh_addr (shs ! j) + a\<rparr>"
      using True assms(3) by (simp add: set_sh_addr_def)
    have al: "aligned (shs ! j) (addr_of shs j + unat a)"
      using bnd(3) assms(5) unfolding aligned_def by (auto intro: dvd_add)
    show ?thesis using bnd(1,2) al u by (simp add: laid_def sh aligned_def)
  next
    case False
    then have e: "?shs ! j = shs ! j" by (simp add: set_sh_addr_def)
    have "laid lo hi ?shs [j]" by (rule laid_cong [OF lj]) (use e in simp)
    then show ?thesis by (rule laid_mono) simp_all
  qed
  then show ?thesis using laid_filter [of lo "hi + unat a" ?shs ks] f by simp
qed

definition backed :: "usize \<Rightarrow> file_map_info list \<Rightarrow> shdr list \<Rightarrow> nat list \<Rightarrow> bool" where
  "backed off infos shs ks \<longleftrightarrow> (\<forall>i \<in> set ks. sh_size (shs ! i) \<noteq> 0 \<longrightarrow> (\<exists>info \<in> set infos. info_backs off info (shs ! i)))"

definition content_ok :: "shdr \<Rightarrow> bool" where
  "content_ok sh \<longleftrightarrow> sh_size sh \<noteq> 0 \<longrightarrow> align_ok sh \<and> aligned sh (unat (sh_offset sh))"

lemma backed_content: "backed off (map (content_info off shs) (filter (\<lambda>i. sh_size (shs ! i) \<noteq> 0) ks)) shs ks"
  unfolding backed_def by (auto intro: content_info_backs)

text \<open>The range that is extended down to the start of its page still backs the section that moved up.\<close>

lemma extended_info_backs:
  fixes sh :: shdr
  defines "a \<equiv> sh_offset sh - rounddown (sh_offset sh) PAGE_SIZE"
  assumes "info = \<lparr>fmi_start = sh_addr sh - off, fmi_filesz = sh_size sh, fmi_offset = sh_offset sh\<rparr>"
    and "unat (sh_size sh) + 4096 \<le> 2 ^ 64"
  shows "info_backs off (info\<lparr>fmi_filesz := fmi_filesz info + a, fmi_offset := rounddown (sh_offset sh) PAGE_SIZE\<rparr>)
    (sh\<lparr>sh_addr := sh_addr sh + a\<rparr>)"
proof -
  let ?r = "rounddown (sh_offset sh) PAGE_SIZE"
  have le: "unat ?r \<le> unat (sh_offset sh)" by (simp add: unat_rounddown_page)
  have ua: "unat a = unat (sh_offset sh) - unat ?r" unfolding a_def using le by (simp add: unat_sub word_le_nat_alt)
  have am: "unat a < 4096" unfolding a_def by (simp add: unat_minus_rounddown)
  have oa: "of_nat (unat (sh_offset sh) - unat ?r) = a" unfolding ua [symmetric] by simp
  have "unat (sh_size sh + a) = unat (sh_size sh) + unat a"
    using am assms(3) by (simp add: unat_word_ariths)
  then show ?thesis using le oa ua by (simp add: info_backs_def assms(2) Let_def word_le_nat_alt)
qed

lemma single_content_ok:
  assumes laid: "laid (unat off) (unat cur) shs (content_sections u)"
    and infos: "infos = map (content_info off shs) (filter (\<lambda>i. sh_size (shs ! i) \<noteq> 0) (content_sections u))"
    and ok: "\<forall>i \<in> set (content_sections u). i < length shs \<and> content_ok (shs ! i)"
    and room: "unat cur + 4096 < 2 ^ 64"
  shows "\<exists>cur' infos' shs'. single_content u (cur, infos, shs) = Inr (cur', infos', shs') \<and>
    unat cur \<le> unat cur' \<and> unat cur' < unat cur + 4096 \<and> moved (set (content_sections u)) shs shs' \<and>
    laid (unat off) (unat cur') shs' (content_sections u) \<and>
    (offsets_apart shs (content_sections u) \<longrightarrow> backed off infos' shs' (content_sections u))"
proof (cases "\<exists>info. infos = [info]")
  case False
  then have "single_content u (cur, infos, shs) = Inr (cur, infos, shs)"
    by (auto simp: single_content_def split: list.split)
  then show ?thesis using laid backed_content [of off shs "content_sections u"] infos by auto
next
  case True
  let ?ks = "content_sections u"
  from True infos obtain j where f: "filter (\<lambda>i. sh_size (shs ! i) \<noteq> 0) ?ks = [j]"
    and ij: "infos = [content_info off shs j]" by auto
  have j: "j \<in> set ?ks" "sh_size (shs ! j) \<noteq> 0"
    using arg_cong [OF f, of set] by auto
  have only: "i = j" if "i \<in> set ?ks" "sh_size (shs ! i) \<noteq> 0" for i
    using arg_cong [OF f, of set] that by auto
  let ?o = "sh_offset (shs ! j)"
  let ?a = "?o - rounddown ?o PAGE_SIZE"
  obtain i where fd: "find (\<lambda>i. sh_offset (shs ! i) = ?o) ?ks = Some i"
    using j(1) find_None_iff [of "\<lambda>i. sh_offset (shs ! i) = ?o" ?ks] by blast
  then have i: "i \<in> set ?ks" "sh_offset (shs ! i) = ?o" by (auto simp: find_Some_iff)
  let ?shs = "set_sh_addr i (sh_addr (shs ! i) + ?a) shs"
  let ?info = "(content_info off shs j)\<lparr>fmi_filesz := sh_size (shs ! j) + ?a, fmi_offset := rounddown ?o PAGE_SIZE\<rparr>"
  have run: "single_content u (cur, infos, shs) = Inr (cur + ?a, [?info], ?shs)"
    using fd by (simp add: single_content_def ij content_info_def Let_def unwrap_def)
  have ua: "unat ?a = unat ?o mod 4096" by (rule unat_minus_rounddown)
  have uc: "unat (cur + ?a) = unat cur + unat ?a" using room ua by (simp add: unat_word_ariths)
  have okj: "align_ok (shs ! j)" "aligned (shs ! j) (unat ?o)" "j < length shs"
    using ok j by (auto simp: content_ok_def)
  have al: "aligned (shs ! j) (unat ?a)"
    using okj(2) align_ok_page [OF okj(1)] unfolding ua aligned_def by (auto intro: dvd_mod)
  have mv: "moved (set ?ks) shs ?shs" using i(1) ok by (intro moved_set) auto
  have "laid (unat off) (unat (cur + ?a)) ?shs ?ks"
    unfolding uc by (rule laid_moved_single [OF laid f okj(3,1) al]) (use ua room ok i(1) in auto)
  moreover have "backed off [?info] ?shs ?ks" if "offsets_apart shs ?ks"
  proof -
    have "sh_size (shs ! i) \<noteq> 0" using that i j unfolding offsets_apart_def by blast
    with only i(1) have "i = j" by simp
    then have sh: "?shs ! j = (shs ! j)\<lparr>sh_addr := sh_addr (shs ! j) + ?a\<rparr>"
      using okj(3) by (simp add: set_sh_addr_def)
    have "size_of shs j \<le> unat cur" using laid j by (auto simp: laid_def unat_gt_0)
    then have "info_backs off ?info (?shs ! j)"
      unfolding sh using extended_info_backs [OF refl, of "shs ! j" off] room by (simp add: content_info_def)
    moreover have "k = j" if "k \<in> set ?ks" "sh_size (?shs ! k) \<noteq> 0" for k
      using that only [of k] moved_fields(1) [OF mv, of k] ok by auto
    ultimately show ?thesis unfolding backed_def by auto
  qed
  ultimately show ?thesis using run uc ua mv by auto
qed

abbreviation unit_idx :: "section_unit \<Rightarrow> nat list" where
  "unit_idx u \<equiv> content_sections u @ zero_sectons u"

definition unit_ok :: "shdr list \<Rightarrow> section_unit \<Rightarrow> bool" where
  "unit_ok shs u \<longleftrightarrow> distinct (unit_idx u) \<and> (\<forall>i \<in> set (content_sections u). i < length shs \<and> content_ok (shs ! i)) \<and>
     (\<forall>i \<in> set (zero_sectons u). i < length shs \<and> align_ok (shs ! i))"

lemma align_ok_cong: "sh_addralign sh = sh_addralign sh' \<Longrightarrow> align_ok sh = align_ok sh'"
  by (simp add: align_ok_def)

lemma moved_align_ok: "moved K shs shs' \<Longrightarrow> i < length shs \<Longrightarrow> align_ok (shs' ! i) = align_ok (shs ! i)"
  by (rule align_ok_cong) (rule moved_fields)

lemma moved_content_ok: "moved K shs shs' \<Longrightarrow> i < length shs \<Longrightarrow> content_ok (shs' ! i) = content_ok (shs ! i)"
  by (simp add: content_ok_def aligned_def moved_fields moved_align_ok)

lemma moved_length: "moved K shs shs' \<Longrightarrow> length shs' = length shs"
  by (simp add: moved_def)

lemma moved_mono: "moved K shs shs' \<Longrightarrow> K \<subseteq> L \<Longrightarrow> moved L shs shs'"
  by (auto simp: moved_def)

lemma moved_same: "moved K shs shs' \<Longrightarrow> i < length shs \<Longrightarrow> i \<notin> K \<Longrightarrow> shs' ! i = shs ! i"
  by (simp add: moved_def)

lemma offsets_apart_moved:
  assumes "moved K shs shs'" and "\<forall>i \<in> set ks. i < length shs"
  shows "offsets_apart shs' ks = offsets_apart shs ks"
  using assms by (simp add: offsets_apart_def moved_fields)

lemma backed_cong: "backed off infos shs ks \<Longrightarrow> (\<And>i. i \<in> set ks \<Longrightarrow> shs' ! i = shs ! i) \<Longrightarrow> backed off infos shs' ks"
  by (simp add: backed_def)

lemma unit_content:
  assumes "distinct ks" and ks: "ks = content_sections u"
    and ci: "\<forall>i \<in> set ks. i < length shs \<and> content_ok (shs ! i)"
    and room: "unat off + room shs ks + 4096 < 2 ^ 64"
  shows "\<exists>cur infos shs1. single_content u (foldl (place_content off) (off, [], shs) ks) = Inr (cur, infos, shs1) \<and>
    unat off \<le> unat cur \<and> unat cur \<le> unat off + room shs ks + 4096 \<and> moved (set ks) shs shs1 \<and>
    laid (unat off) (unat cur) shs1 ks \<and> (offsets_apart shs ks \<longrightarrow> backed off infos shs1 ks)"
proof -
  obtain cur0 infos0 shs0 where f0: "foldl (place_content off) (off, [], shs) ks = (cur0, infos0, shs0)"
    by (cases "foldl (place_content off) (off, [], shs) ks") auto
  have "unat off \<le> unat cur0 \<and> unat cur0 \<le> unat off + room shs ks \<and> moved (set ks) shs shs0 \<and>
     laid (unat off) (unat cur0) shs0 ks \<and>
     infos0 = [] @ map (content_info off shs0) (filter (\<lambda>i. sh_size (shs0 ! i) \<noteq> 0) ks)"
    by (rule place_content_fold [OF f0 assms(1)]) (use ci room in \<open>auto simp: content_ok_def\<close>)
  then have p0: "unat off \<le> unat cur0" "unat cur0 \<le> unat off + room shs ks" "moved (set ks) shs shs0"
    "laid (unat off) (unat cur0) shs0 ks"
    "infos0 = map (content_info off shs0) (filter (\<lambda>i. sh_size (shs0 ! i) \<noteq> 0) ks)" by simp_all
  have ci0: "\<forall>i \<in> set ks. i < length shs0 \<and> content_ok (shs0 ! i)"
    using ci p0(3) by (simp add: moved_length moved_content_ok)
  have "unat cur0 + 4096 < 2 ^ 64" using p0(2) room by simp
  from single_content_ok [OF p0(4,5) [unfolded ks] ci0 [unfolded ks] this] obtain cur infos shs1
    where sc: "single_content u (cur0, infos0, shs0) = Inr (cur, infos, shs1)"
      and p1: "unat cur0 \<le> unat cur" "unat cur < unat cur0 + 4096" "moved (set ks) shs0 shs1"
        "laid (unat off) (unat cur) shs1 ks" "offsets_apart shs0 ks \<longrightarrow> backed off infos shs1 ks"
    unfolding ks by blast
  have "offsets_apart shs0 ks = offsets_apart shs ks" using ci by (intro offsets_apart_moved [OF p0(3)]) simp
  moreover have "moved (set ks) shs shs1" using moved_trans [OF p0(3) p1(3)] by simp
  moreover have "unat off \<le> unat cur" "unat cur \<le> unat off + room shs ks + 4096" using p0(1,2) p1(1,2) by simp_all
  ultimately show ?thesis using sc p1(4,5) unfolding f0 by blast
qed

text \<open>The loops of \<^verbatim>\<open>create_segment\<close> together, up to the cursor after the zero sections.\<close>

lemma unit_loops:
  assumes u: "unit_ok shs u" and room: "unat off + room shs (unit_idx u) + 8192 < 2 ^ 64"
  obtains cur infos shs1 cur2 shs2 where
    "single_content u (foldl (place_content off) (off, [], shs) (content_sections u)) = Inr (cur, infos, shs1)"
    and "foldl place_zero (cur, shs1) (zero_sectons u) = (cur2, shs2)"
    and "unat off \<le> unat cur2" and "unat cur2 \<le> unat off + room shs (unit_idx u) + 4096"
    and "moved (set (unit_idx u)) shs shs2" and "laid (unat off) (unat cur2) shs2 (unit_idx u)"
    and "offsets_apart shs (content_sections u) \<longrightarrow> backed off infos shs2 (content_sections u)"
proof -
  let ?c = "content_sections u" and ?z = "zero_sectons u"
  have uc: "distinct ?c" "distinct ?z" "set ?c \<inter> set ?z = {}" using u by (auto simp: unit_ok_def)
  have ci: "\<forall>i \<in> set ?c. i < length shs \<and> content_ok (shs ! i)" and zi: "\<forall>i \<in> set ?z. i < length shs \<and> align_ok (shs ! i)"
    using u by (auto simp: unit_ok_def)
  have "unat off + room shs ?c + 4096 < 2 ^ 64" using room by (simp add: room_append)
  from unit_content [OF uc(1) refl ci this] obtain cur infos shs1
    where sc: "single_content u (foldl (place_content off) (off, [], shs) ?c) = Inr (cur, infos, shs1)"
      and p1: "unat off \<le> unat cur" "unat cur \<le> unat off + room shs ?c + 4096" "moved (set ?c) shs shs1"
        "laid (unat off) (unat cur) shs1 ?c" "offsets_apart shs ?c \<longrightarrow> backed off infos shs1 ?c" by blast
  obtain cur2 shs2 where f2: "foldl place_zero (cur, shs1) ?z = (cur2, shs2)"
    by (cases "foldl place_zero (cur, shs1) ?z") auto
  have r1: "room shs1 ?z = room shs ?z" by (rule room_moved [OF p1(3)]) (use zi in simp)
  have "unat cur \<le> unat cur2 \<and> unat cur2 \<le> unat cur + room shs1 ?z \<and> moved (set ?z) shs1 shs2 \<and>
     laid (unat cur) (unat cur2) shs2 ?z"
    by (rule place_zero_fold [OF f2 uc(2)])
      (use zi p1(2,3) room in \<open>simp_all add: moved_length moved_align_ok r1 room_append\<close>)
  then have p2: "unat cur \<le> unat cur2" "unat cur2 \<le> unat cur + room shs ?z" "moved (set ?z) shs1 shs2"
    "laid (unat cur) (unat cur2) shs2 ?z" by (simp_all add: r1)
  have same: "shs2 ! i = shs1 ! i" if "i \<in> set ?c" for i
    using that uc(3) ci p1(3) by (intro moved_same [OF p2(3)]) (auto simp: moved_length)
  show thesis
  proof (rule that [OF sc f2])
    show "unat off \<le> unat cur2" using p1(1) p2(1) by simp
    show "unat cur2 \<le> unat off + room shs (unit_idx u) + 4096" using p1(2) p2(2) by (simp add: room_append)
    show "moved (set (unit_idx u)) shs shs2" using moved_trans [OF p1(3) p2(3)] by simp
    show "laid (unat off) (unat cur2) shs2 (unit_idx u)"
      by (rule laid_append [OF laid_cong [OF p1(4) same] p2(4) p1(1) p2(1)])
    show "offsets_apart shs ?c \<longrightarrow> backed off infos shs2 ?c" using p1(5) backed_cong [OF _ same] by blast
  qed
qed

text \<open>The unit ends at a page; a unit without bytes is no segment.\<close>

definition seg_backs :: "elf_segment list \<Rightarrow> shdr \<Rightarrow> bool" where
  "seg_backs segs sh \<longleftrightarrow> (\<exists>s \<in> set segs. \<exists>off. seg_addr s = Relative off \<and> (\<exists>info \<in> set (map_info s). info_backs off info sh))"

lemma laid_empty:
  assumes "laid a a shs ks" and "i \<in> set ks"
  shows "sh_size (shs ! i) = 0"
proof (rule ccontr)
  assume "sh_size (shs ! i) \<noteq> 0"
  then have "0 < size_of shs i" by (simp add: unat_gt_0)
  moreover from this have "a \<le> addr_of shs i" "addr_of shs i + size_of shs i \<le> a"
    using assms by (simp_all add: laid_def)
  ultimately show False by linarith
qed

lemma unit_create_segment_ok:
  assumes u: "unit_ok shs u" and page: "unat off mod 4096 = 0" and room: "unat off + room shs (unit_idx u) + 8192 < 2 ^ 64"
  obtains seg shs' off' where "unit_create_segment u shs off = Inr (seg, shs', off')"
    and "unat off \<le> unat off'" and "unat off' \<le> unat off + room shs (unit_idx u) + 8192" and "unat off' mod 4096 = 0"
    and "moved (set (unit_idx u)) shs shs'" and "laid (unat off) (unat off') shs' (unit_idx u)"
    and "offsets_apart shs (content_sections u) \<longrightarrow>
      (\<forall>i \<in> set (content_sections u). sh_size (shs' ! i) \<noteq> 0 \<longrightarrow> (\<exists>s. seg = Some s \<and> seg_backs [s] (shs' ! i)))"
proof (cases "unit_idx u")
  case Nil
  show thesis by (rule that [of None shs off]) (use Nil page in \<open>simp_all add: unit_create_segment_def\<close>)
next
  case (Cons h t)
  from u room obtain cur infos shs1 cur2 shs2 where
    sc: "single_content u (foldl (place_content off) (off, [], shs) (content_sections u)) = Inr (cur, infos, shs1)"
    and f2: "foldl place_zero (cur, shs1) (zero_sectons u) = (cur2, shs2)"
    and lo: "unat off \<le> unat cur2" and hi: "unat cur2 \<le> unat off + room shs (unit_idx u) + 4096"
    and mv: "moved (set (unit_idx u)) shs shs2" and ld: "laid (unat off) (unat cur2) shs2 (unit_idx u)"
    and bk: "offsets_apart shs (content_sections u) \<longrightarrow> backed off infos shs2 (content_sections u)"
    by (rule unit_loops)
  let ?len = "roundup (cur2 - off) PAGE_SIZE"
  have d: "unat (cur2 - off) = unat cur2 - unat off" using lo by (simp add: unat_sub word_le_nat_alt)
  have ul: "unat ?len = page_up (unat cur2 - unat off)"
    using hi room by (subst unat_roundup_page) (simp_all add: d)
  have pu: "unat cur2 - unat off \<le> page_up (unat cur2 - unat off)"
    "page_up (unat cur2 - unat off) < unat cur2 - unat off + 4096" by (rule page_up_ge page_up_less)+
  have uo: "unat (off + ?len) = unat off + unat ?len"
    using pu(2) hi lo room by (simp add: unat_word_ariths ul)
  have sz: "(cur - off) + (cur2 - off - (cur - off)) = cur2 - off" by simp
  note run = unit_create_segment_def [of u shs off] Cons sc f2 Let_def sz res_simps
  show thesis
  proof (cases "?len = 0")
    case True
    then have e: "cur2 = off" using ul pu(1) lo by (simp add: word_unat_eq_iff)
    have "\<forall>i \<in> set (content_sections u). sh_size (shs2 ! i) = 0"
      using laid_empty [OF ld [unfolded e]] by simp
    then show thesis
      by (intro that [of None shs2 off]) (use True page mv ld e in \<open>simp_all add: run\<close>)
  next
    case False
    show thesis
    proof (rule that)
      show "unit_create_segment u shs off = Inr (Some \<lparr>seg_addr = Relative off, seg_prot = section_prot (sh_flags (shs ! h)),
          seg_flags = MAP_PRIVATE OR MAP_FIXED, seg_len = ?len, zero_size = cur2 - off - (cur - off),
          content_size = cur - off, map_info = infos, need_copy = False, from_relocatable = True\<rparr>, shs2, off + ?len)"
        using False by (simp add: run)
      show "unat off \<le> unat (off + ?len)" unfolding uo by simp
      show "unat (off + ?len) \<le> unat off + room shs (unit_idx u) + 8192" unfolding uo ul using pu(2) hi lo by linarith
      show "unat (off + ?len) mod 4096 = 0" unfolding uo ul using page by (simp add: mod_add_eq [symmetric])
      show "laid (unat off) (unat (off + ?len)) shs2 (unit_idx u)"
        by (rule laid_mono [OF ld order_refl]) (use pu(1) lo in \<open>simp add: uo ul\<close>)
    qed (use mv bk in \<open>auto simp: seg_backs_def backed_def\<close>)
  qed
qed

section \<open>All units\<close>

lemma roundup_page_fix:
  assumes "unat (x :: usize) mod 4096 = 0"
  shows "roundup x PAGE_SIZE = x"
proof -
  from assms obtain q where q: "unat x = 4096 * q" by (auto elim: dvdE simp: mod_eq_0_iff_dvd)
  have "unat x < 2 ^ 64" using unsigned_less [of x] by simp
  with q have "unat x + 4096 \<le> 2 ^ 64" by simp
  moreover have "page_up (unat x) = unat x" by (simp add: page_up_def q)
  ultimately show ?thesis by (simp add: word_unat_eq_iff unat_roundup_page)
qed

lemma unit_ok_moved:
  assumes "moved K shs shs'" and "unit_ok shs u"
  shows "unit_ok shs' u"
  using assms unfolding unit_ok_def by (simp add: moved_length moved_content_ok moved_align_ok)

abbreviation all_idx :: "section_unit list \<Rightarrow> nat list" where
  "all_idx us \<equiv> concat (map unit_idx us)"

definition units_backed :: "elf_segment list \<Rightarrow> shdr list \<Rightarrow> section_unit list \<Rightarrow> bool" where
  "units_backed segs shs us \<longleftrightarrow> (\<forall>u \<in> set us. offsets_apart shs (content_sections u) \<longrightarrow>
     (\<forall>i \<in> set (content_sections u). sh_size (shs ! i) \<noteq> 0 \<longrightarrow> seg_backs segs (shs ! i)))"

lemma seg_backs_mono: "seg_backs segs sh \<Longrightarrow> set segs \<subseteq> set segs' \<Longrightarrow> seg_backs segs' sh"
  by (auto simp: seg_backs_def)

lemma unit_segment_ok:
  assumes u: "unit_ok shs u" and page: "unat off mod 4096 = 0" and room: "unat off + room shs (unit_idx u) + 8192 < 2 ^ 64"
  obtains more shs' off' where "unit_segment u (segs, shs, off) = Inr (segs @ more, shs', off')"
    and "unat off \<le> unat off'" and "unat off' \<le> unat off + room shs (unit_idx u) + 8192" and "unat off' mod 4096 = 0"
    and "moved (set (unit_idx u)) shs shs'" and "laid (unat off) (unat off') shs' (unit_idx u)"
    and "units_backed more shs' [u]"
proof -
  from assms obtain seg shs' off' where r: "unit_create_segment u shs off = Inr (seg, shs', off')"
    and b: "unat off \<le> unat off'" "unat off' \<le> unat off + room shs (unit_idx u) + 8192" "unat off' mod 4096 = 0"
    and mv: "moved (set (unit_idx u)) shs shs'" and ld: "laid (unat off) (unat off') shs' (unit_idx u)"
    and bk: "offsets_apart shs (content_sections u) \<longrightarrow>
      (\<forall>i \<in> set (content_sections u). sh_size (shs' ! i) \<noteq> 0 \<longrightarrow> (\<exists>s. seg = Some s \<and> seg_backs [s] (shs' ! i)))"
    by (rule unit_create_segment_ok)
  note rf = roundup_page_fix [OF b(3)]
  have oa: "offsets_apart shs' (content_sections u) = offsets_apart shs (content_sections u)"
    by (rule offsets_apart_moved [OF mv]) (use u in \<open>auto simp: unit_ok_def\<close>)
  show thesis
  proof (cases seg)
    case None
    show thesis by (rule that [of "[]" shs' off']) (use None r b mv ld bk oa in \<open>auto simp: unit_segment_def res_simps units_backed_def\<close>)
  next
    case (Some s)
    show thesis by (rule that [of "[s]" shs' off']) (use Some r rf b mv ld bk oa in \<open>auto simp: unit_segment_def res_simps units_backed_def\<close>)
  qed
qed

lemma units_backed_cong:
  assumes "units_backed segs shs us" and "set segs \<subseteq> set segs'" and "\<And>i. i \<in> set (all_idx us) \<Longrightarrow> shs' ! i = shs ! i"
  shows "units_backed segs' shs' us"
proof -
  have same: "shs' ! i = shs ! i" if "u \<in> set us" "i \<in> set (content_sections u)" for u i
    using that by (intro assms(3)) auto
  then have "offsets_apart shs' (content_sections u) = offsets_apart shs (content_sections u)" if "u \<in> set us" for u
    using that by (simp add: offsets_apart_def)
  with same assms(1) show ?thesis unfolding units_backed_def by (auto intro: seg_backs_mono [OF _ assms(2)])
qed

lemma units_fold:
  assumes "distinct (all_idx us)" and "\<forall>u \<in> set us. unit_ok shs u" and "unat off mod 4096 = 0"
    and "unat off + room shs (all_idx us) + 8192 * length us < 2 ^ 64"
  shows "\<exists>more shs' off'. res_fold unit_segment us (segs, shs, off) = Inr (segs @ more, shs', off') \<and> unat off \<le> unat off' \<and>
    moved (set (all_idx us)) shs shs' \<and> laid (unat off) (unat off') shs' (all_idx us) \<and> units_backed more shs' us"
  using assms
proof (induction us arbitrary: segs shs off)
  case Nil
  then show ?case by (simp add: units_backed_def)
next
  case (Cons u us)
  have u: "unit_ok shs u" using Cons.prems(2) by simp
  have "unat off + room shs (unit_idx u) + 8192 < 2 ^ 64" using Cons.prems(4) by (simp add: room_append)
  from u Cons.prems(3) this obtain more shs1 off1 where s: "unit_segment u (segs, shs, off) = Inr (segs @ more, shs1, off1)"
    and b: "unat off \<le> unat off1" "unat off1 \<le> unat off + room shs (unit_idx u) + 8192" "unat off1 mod 4096 = 0"
    and mv: "moved (set (unit_idx u)) shs shs1" and ld: "laid (unat off) (unat off1) shs1 (unit_idx u)"
    and bk: "units_backed more shs1 [u]"
    by (rule unit_segment_ok [where segs = segs])
  have idx: "\<forall>i \<in> set (all_idx us). i < length shs" using Cons.prems(2) by (auto simp: unit_ok_def)
  have ok: "\<forall>v \<in> set us. unit_ok shs1 v" using Cons.prems(2) unit_ok_moved [OF mv] by simp
  have "unat off1 + room shs1 (all_idx us) + 8192 * length us < 2 ^ 64"
    using room_moved [OF mv idx] b(2) Cons.prems(4) by (simp add: room_append)
  from Cons.IH [OF _ ok b(3) this, of "segs @ more"] Cons.prems(1)
  obtain more' shs' off' where r: "res_fold unit_segment us (segs @ more, shs1, off1) = Inr (segs @ more @ more', shs', off')"
    and o: "unat off1 \<le> unat off'" and mv': "moved (set (all_idx us)) shs1 shs'"
    and ld': "laid (unat off1) (unat off') shs' (all_idx us)" and bk': "units_backed more' shs' us" by auto
  have same: "shs' ! i = shs1 ! i" if "i \<in> set (unit_idx u)" for i
    using that Cons.prems(1) u mv by (intro moved_same [OF mv']) (auto simp: unit_ok_def moved_length)
  have "laid (unat off) (unat off') shs' (all_idx (u # us))"
    using laid_append [OF laid_cong [OF ld same] ld' b(1) o] by simp
  moreover have "units_backed (more @ more') shs' [u]" using units_backed_cong [OF bk] same by simp
  moreover have "units_backed (more @ more') shs' us" using units_backed_cong [OF bk'] by simp
  moreover have "moved (set (all_idx (u # us))) shs shs'" using moved_trans [OF mv mv'] by (simp add: Un_assoc)
  ultimately show ?case using s r b(1) o by (auto simp: res_simps units_backed_def)
qed

section \<open>Grouping by protection\<close>

lemma flags_to_idx_less: "flags_to_idx fl < 4"
  unfolding flags_to_idx_def prot_to_idx_def by (simp add: Let_def)

definition kinds_apart :: "shdr list \<Rightarrow> nat \<Rightarrow> section_unit \<Rightarrow> bool" where
  "kinds_apart shs k u \<longleftrightarrow> (\<forall>i \<in> set (content_sections u). sh_type (shs ! i) \<noteq> SHT_NOBITS) \<and>
     (\<forall>i \<in> set (zero_sectons u). sh_type (shs ! i) = SHT_NOBITS) \<and>
     (\<forall>i \<in> set (unit_idx u). flags_to_idx (sh_flags (shs ! i)) = k)"

lemma mset_all_idx_update:
  assumes "k < length us" and "mset (unit_idx v) = add_mset i (mset (unit_idx (us ! k)))"
  shows "mset (all_idx (us[k := v])) = add_mset i (mset (all_idx us))"
  using assms
proof (induction us arbitrary: k)
  case (Cons w us)
  then show ?case by (cases k) simp_all
qed simp

lemma group_section_step:
  assumes "length us = 4"
  shows "length (group_section shs us i) = 4"
    and "mset (all_idx (group_section shs us i)) = add_mset i (mset (all_idx us))"
    and "\<forall>k < 4. kinds_apart shs k (us ! k) \<Longrightarrow> \<forall>k < 4. kinds_apart shs k (group_section shs us i ! k)"
proof -
  have k: "flags_to_idx (sh_flags (shs ! i)) < length us" using flags_to_idx_less assms by simp
  have add: "kinds_apart shs (flags_to_idx (sh_flags (shs ! i))) u \<Longrightarrow>
      kinds_apart shs (flags_to_idx (sh_flags (shs ! i))) (add_section shs i u)" for u
    by (simp add: kinds_apart_def add_section_def)
  show "length (group_section shs us i) = 4" using assms by (simp add: group_section_def Let_def)
  show "mset (all_idx (group_section shs us i)) = add_mset i (mset (all_idx us))"
    unfolding group_section_def Let_def by (rule mset_all_idx_update [OF k]) (simp add: add_section_def)
  show "\<forall>k < 4. kinds_apart shs k (us ! k) \<Longrightarrow> \<forall>k < 4. kinds_apart shs k (group_section shs us i ! k)"
    using k assms add by (simp add: group_section_def Let_def nth_list_update)
qed

lemma group_sections:
  "length us = 4 \<Longrightarrow> \<forall>k < 4. kinds_apart shs k (us ! k) \<Longrightarrow>
   length (foldl (group_section shs) us ks) = 4 \<and>
   mset (all_idx (foldl (group_section shs) us ks)) = mset ks + mset (all_idx us) \<and>
   (\<forall>k < 4. kinds_apart shs k (foldl (group_section shs) us ks ! k))"
proof (induction ks arbitrary: us)
  case (Cons i ks)
  from Cons.IH [OF group_section_step(1) [OF Cons.prems(1)] group_section_step(3) [OF Cons.prems]]
  show ?case by (simp add: group_section_step(2) [OF Cons.prems(1)])
qed simp

section \<open>The layout of an object\<close>

definition section_ok :: "shdr \<Rightarrow> bool" where
  "section_ok sh \<longleftrightarrow> (if sh_type sh = SHT_NOBITS then align_ok sh else content_ok sh)"

text \<open>No empty section of a unit shares the file offset of another one of it.\<close>

definition offsets_ok :: "shdr list \<Rightarrow> bool" where
  "offsets_ok shs \<longleftrightarrow> (\<forall>a \<in> set shs. \<forall>b \<in> set shs.
     sh_type a \<noteq> SHT_NOBITS \<and> sh_type b \<noteq> SHT_NOBITS \<and> flags_to_idx (sh_flags a) = flags_to_idx (sh_flags b) \<and>
     sh_size a = 0 \<and> sh_size b \<noteq> 0 \<longrightarrow> sh_offset a \<noteq> sh_offset b)"

definition well_placed :: "nat \<Rightarrow> shdr list \<Rightarrow> bool" where
  "well_placed len shs \<longleftrightarrow>
     (\<forall>i < length shs. 0 < size_of shs i \<longrightarrow> addr_of shs i + size_of shs i \<le> len \<and> aligned (shs ! i) (addr_of shs i)) \<and>
     (\<forall>i < length shs. \<forall>j < length shs. i \<noteq> j \<longrightarrow> 0 < size_of shs i \<longrightarrow> 0 < size_of shs j \<longrightarrow>
        addr_of shs i + size_of shs i \<le> addr_of shs j \<or> addr_of shs j + size_of shs j \<le> addr_of shs i)"

lemma sorted_wrt_either:
  "sorted_wrt P xs \<Longrightarrow> x \<in> set xs \<Longrightarrow> y \<in> set xs \<Longrightarrow> x \<noteq> y \<Longrightarrow> P x y \<or> P y x"
  by (induction xs) auto

lemma laid_well_placed:
  assumes "laid 0 len shs ks" and "set ks = {..<length shs}"
  shows "well_placed len shs"
proof -
  from assms(1) have b: "\<forall>i \<in> set ks. 0 < size_of shs i \<longrightarrow>
        0 \<le> addr_of shs i \<and> addr_of shs i + size_of shs i \<le> len \<and> aligned (shs ! i) (addr_of shs i)"
    and s: "sorted_wrt (\<lambda>i j. 0 < size_of shs i \<and> 0 < size_of shs j \<longrightarrow> addr_of shs i + size_of shs i \<le> addr_of shs j) ks"
    by (simp_all add: laid_def)
  show ?thesis unfolding well_placed_def
  proof (intro conjI allI impI)
    fix i j
    assume "i < length shs" "j < length shs" "i \<noteq> j" "0 < size_of shs i" "0 < size_of shs j"
    then show "addr_of shs i + size_of shs i \<le> addr_of shs j \<or> addr_of shs j + size_of shs j \<le> addr_of shs i"
      using sorted_wrt_either [OF s, of i j] assms(2) by simp
  qed (use b assms(2) in simp_all)
qed

text \<open>The grouping starts from four empty units and takes every index once.\<close>

lemma grouped_units:
  fixes shs :: "shdr list"
  defines "us \<equiv> foldl (group_section shs) (replicate 4 unit_new) [0..<length shs]"
  shows "length us = 4" and "mset (all_idx us) = mset [0..<length shs]"
    and "u \<in> set us \<Longrightarrow> \<exists>k. kinds_apart shs k u"
proof -
  have "\<forall>k < 4. kinds_apart shs k (replicate 4 unit_new ! k)" by (simp add: kinds_apart_def unit_new_def)
  from group_sections [OF _ this, of "[0..<length shs]"]
  have g: "length us = 4" "mset (all_idx us) = mset [0..<length shs]" "\<forall>k < 4. kinds_apart shs k (us ! k)"
    by (simp_all add: us_def unit_new_def)
  then show "length us = 4" "mset (all_idx us) = mset [0..<length shs]" by simp_all
  show "\<exists>k. kinds_apart shs k u" if "u \<in> set us"
    using that g(1,3) by (metis in_set_conv_nth)
qed

lemma unit_ok_grouped:
  assumes "distinct (all_idx us)" and "u \<in> set us" and "set (all_idx us) = {..<length shs}"
    and "kinds_apart shs k u" and "\<forall>sh \<in> set shs. section_ok sh"
  shows "unit_ok shs u"
proof -
  have idx: "i < length shs" if "i \<in> set (unit_idx u)" for i using that assms(2,3) by auto
  have "\<forall>ys \<in> set (map unit_idx us). distinct ys" using assms(1) by (simp only: distinct_concat_iff) blast
  then have "distinct (unit_idx u)" by (rule bspec) (unfold set_map, rule imageI, rule assms(2))
  moreover have "section_ok (shs ! i)" if "i \<in> set (unit_idx u)" for i using idx [OF that] assms(5) by simp
  ultimately show ?thesis using idx assms(4) by (simp add: unit_ok_def kinds_apart_def section_ok_def)
qed

lemma room_mset: "mset ks = mset ls \<Longrightarrow> room shs ks = room shs ls"
proof -
  assume "mset ks = mset ls"
  then have "mset (map (\<lambda>i. size_of shs i + 4096) ks) = mset (map (\<lambda>i. size_of shs i + 4096) ls)" by simp
  then show "room shs ks = room shs ls" unfolding room_def by (metis sum_mset_sum_list)
qed

lemma grouped_backed:
  assumes "units_backed segs shs' us" and "moved K shs shs'" and "offsets_ok shs"
    and "\<And>u. u \<in> set us \<Longrightarrow> \<exists>k. kinds_apart shs k u" and "set (all_idx us) = {..<length shs}"
    and "i < length shs" and "sh_type (shs ! i) \<noteq> SHT_NOBITS" and "sh_size (shs ! i) \<noteq> 0"
  shows "seg_backs segs (shs' ! i)"
proof -
  have "i \<in> set (all_idx us)" using assms(5,6) by simp
  then obtain u where u: "u \<in> set us" "i \<in> set (unit_idx u)" by auto
  obtain k where k: "kinds_apart shs k u" using assms(4) u(1) by blast
  have c: "i \<in> set (content_sections u)" using u(2) k assms(7) by (auto simp: kinds_apart_def)
  have idx: "\<forall>j \<in> set (content_sections u). j < length shs" using u(1) assms(5) by auto
  have "offsets_apart shs (content_sections u)"
    using assms(3) k idx unfolding offsets_apart_def offsets_ok_def kinds_apart_def by (auto dest: nth_mem)
  then have "offsets_apart shs' (content_sections u)" using offsets_apart_moved [OF assms(2) idx] by simp
  moreover have "sh_size (shs' ! i) \<noteq> 0" using moved_fields(1) [OF assms(2,6)] assms(8) by simp
  ultimately show ?thesis using assms(1) u(1) c unfolding units_backed_def by blast
qed

lemma layout:
  assumes ok: "\<forall>sh \<in> set shs. section_ok sh"
    and room: "(\<Sum>sh\<leftarrow>shs. unat (sh_size sh) + 4096) + 8 * 4096 < 2 ^ 64"
  shows "\<exists>segs shs' off. res_fold unit_segment (foldl (group_section shs) (replicate 4 unit_new) [0..<length shs]) ([], shs, 0) =
      Inr (segs, shs', off) \<and> moved UNIV shs shs' \<and> well_placed (unat off) shs' \<and>
    (offsets_ok shs \<longrightarrow> (\<forall>i < length shs. sh_type (shs ! i) \<noteq> SHT_NOBITS \<and> sh_size (shs ! i) \<noteq> 0 \<longrightarrow> seg_backs segs (shs' ! i)))"
proof -
  let ?us = "foldl (group_section shs) (replicate 4 unit_new) [0..<length shs]"
  note g = grouped_units [where shs = shs]
  have st: "set (all_idx ?us) = {..<length shs}" using mset_eq_setD [OF g(2)] by auto
  have di: "distinct (all_idx ?us)" using mset_eq_imp_distinct_iff [OF g(2)] by simp
  have un: "\<forall>u \<in> set ?us. unit_ok shs u" using unit_ok_grouped [OF di _ st _ ok] g(3) by blast
  have "room shs (all_idx ?us) = (\<Sum>sh\<leftarrow>shs. unat (sh_size sh) + 4096)"
    unfolding room_mset [OF g(2)] by (unfold room_def, rule arg_cong [where f = sum_list], rule nth_equalityI) simp_all
  then have rm: "unat (0 :: usize) + room shs (all_idx ?us) + 8192 * length ?us < 2 ^ 64" using room g(1) by simp
  from units_fold [OF di un _ rm, of "[]"] obtain segs shs' off
    where r: "res_fold unit_segment ?us ([], shs, 0) = Inr (segs, shs', off)" and mv: "moved (set (all_idx ?us)) shs shs'"
      and ld: "laid 0 (unat off) shs' (all_idx ?us)" and bk: "units_backed segs shs' ?us" by auto
  have "well_placed (unat off) shs'" by (rule laid_well_placed [OF ld]) (use st moved_length [OF mv] in simp)
  moreover have "moved UNIV shs shs'" using moved_mono [OF mv] by simp
  moreover note grouped_backed [OF bk mv _ g(3) st]
  ultimately show ?thesis using r by blast
qed

text \<open>
  C13. Layout of objects. Let the sections have alignments of at most a page, in memory and, where they
  have file content, in the file, and let their sizes, with a page each, fit into the address space. Then
  the layout succeeds, changes nothing of a section header but its address, and every section that is
  not empty, the added GOT and PLT included, is aligned and inside the reserved size, no two of them
  overlapping. The bytes of a section with file content are those a mapping of its segment puts at its
  address, if no empty section has its file offset.
\<close>

theorem sections_laid_out:
  assumes "count_needed_entries C shdrs R = Inr (got_cnt, plt_cnt)" and "\<forall>sh \<in> set shdrs. section_ok sh"
    and "(\<Sum>sh\<leftarrow>shdrs @ [create_got_shdr got_cnt, create_plt_shdr plt_cnt]. unat (sh_size sh) + 4096) + 8 * 4096 < 2 ^ 64"
  shows "\<exists>ss shdrs' pg. section_segments_new C shdrs R = Inr (ss, shdrs') \<and> ss_pltgot ss = Some pg \<and>
    length shdrs' = length shdrs \<and>
    (\<forall>i < length shdrs. shdrs' ! i = (shdrs ! i)\<lparr>sh_addr := sh_addr (shdrs' ! i)\<rparr>) \<and>
    well_placed (unat (ss_total_size ss)) (shdrs' @ [(create_got_shdr got_cnt)\<lparr>sh_addr := got_base pg\<rparr>,
      (create_plt_shdr plt_cnt)\<lparr>sh_addr := plt_base pg\<rparr>]) \<and>
    (offsets_ok shdrs \<longrightarrow> (\<forall>i < length shdrs.
      sh_type (shdrs ! i) \<noteq> SHT_NOBITS \<and> sh_size (shdrs ! i) \<noteq> 0 \<longrightarrow> seg_backs (ss_segments ss) (shdrs' ! i)))"
proof -
  let ?n = "length shdrs" and ?got = "create_got_shdr got_cnt" and ?plt = "create_plt_shdr plt_cnt"
  let ?shs = "shdrs @ [?got, ?plt]"
  have "\<exists>k \<le> 12. (16 :: usize) = 2 ^ k" "\<exists>k \<le> 12. (8 :: usize) = 2 ^ k"
    by (rule exI [of _ 4], simp) (rule exI [of _ 3], simp)
  then have gp: "section_ok ?got" "section_ok ?plt" "sh_type ?got = SHT_NOBITS" "sh_type ?plt = SHT_NOBITS"
    by (simp_all add: section_ok_def create_got_shdr_def create_plt_shdr_def shdr_new_def align_ok_def)
  from layout [OF _ assms(3)] assms(2) gp obtain segs shs' off
    where r: "res_fold unit_segment (foldl (group_section ?shs) (replicate 4 unit_new) [0..<?n + 2]) ([], ?shs, 0) = Inr (segs, shs', off)"
      and mv: "moved UNIV ?shs shs'" and wp: "well_placed (unat off) shs'"
      and bk: "offsets_ok ?shs \<longrightarrow> (\<forall>i < ?n + 2. sh_type (?shs ! i) \<noteq> SHT_NOBITS \<and> sh_size (?shs ! i) \<noteq> 0 \<longrightarrow> seg_backs segs (shs' ! i))"
    by auto
  have len: "length shs' = ?n + 2" using moved_length [OF mv] by simp
  have fld: "shs' ! i = (?shs ! i)\<lparr>sh_addr := sh_addr (shs' ! i)\<rparr>" if "i < ?n + 2" for i
    using mv that by (simp add: moved_def)
  have new: "section_segments_new C shdrs R = Inr (\<lparr>ss_segments = segs, ss_total_size = off,
      ss_pltgot = Some (plt_got_new (shs' ! ?n) (shs' ! (?n + 1)))\<rparr>, take ?n shs')"
    by (simp add: section_segments_new_def assms(1) r [simplified] res_simps Let_def)
  have "shs' = take ?n shs' @ [shs' ! ?n, shs' ! (?n + 1)]"
    by (rule nth_equalityI) (use len in \<open>auto simp: nth_append nth_Cons' less_Suc_eq\<close>)
  also have "\<dots> = take ?n shs' @ [?got\<lparr>sh_addr := sh_addr (shs' ! ?n)\<rparr>, ?plt\<lparr>sh_addr := sh_addr (shs' ! (?n + 1))\<rparr>]"
    using fld [of ?n] fld [of "?n + 1"] by (simp add: nth_append)
  finally have wp': "well_placed (unat off)
      (take ?n shs' @ [?got\<lparr>sh_addr := sh_addr (shs' ! ?n)\<rparr>, ?plt\<lparr>sh_addr := sh_addr (shs' ! (?n + 1))\<rparr>])"
    by (rule subst) (rule wp)
  have pg: "got_base (plt_got_new a b) = sh_addr a" "plt_base (plt_got_new a b) = sh_addr b" for a b
    by (simp_all add: plt_got_new_def)
  have oo: "offsets_ok ?shs" if "offsets_ok shdrs" using that gp(3,4) by (auto simp: offsets_ok_def)
  show ?thesis
  proof (intro exI conjI, rule new)
    show "\<forall>i < ?n. take ?n shs' ! i = (shdrs ! i)\<lparr>sh_addr := sh_addr (take ?n shs' ! i)\<rparr>"
    proof (intro allI impI)
      fix i assume "i < ?n"
      then show "take ?n shs' ! i = (shdrs ! i)\<lparr>sh_addr := sh_addr (take ?n shs' ! i)\<rparr>" using fld [of i] by (simp add: nth_append)
    qed
    show "offsets_ok shdrs \<longrightarrow> (\<forall>i < ?n. sh_type (shdrs ! i) \<noteq> SHT_NOBITS \<and> sh_size (shdrs ! i) \<noteq> 0 \<longrightarrow>
        seg_backs (ss_segments \<lparr>ss_segments = segs, ss_total_size = off,
          ss_pltgot = Some (plt_got_new (shs' ! ?n) (shs' ! (?n + 1)))\<rparr>) (take ?n shs' ! i))"
      using bk oo by (simp add: nth_append)
    show "well_placed (unat (ss_total_size \<lparr>ss_segments = segs, ss_total_size = off,
          ss_pltgot = Some (plt_got_new (shs' ! ?n) (shs' ! (?n + 1)))\<rparr>))
        (take ?n shs' @ [?got\<lparr>sh_addr := got_base (plt_got_new (shs' ! ?n) (shs' ! (?n + 1)))\<rparr>,
          ?plt\<lparr>sh_addr := plt_base (plt_got_new (shs' ! ?n) (shs' ! (?n + 1)))\<rparr>])"
      unfolding pg section_segments.simps by (rule wp')
  qed (use len in simp_all)
qed

definition wit_text :: shdr where
  "wit_text = shdr_new 1 1 (SHF_ALLOC OR SHF_EXECINSTR) 0 0x40 0x123 0 0 16 0"

theorem sections_laid_out_witness:
  "\<exists>ss shdrs'. section_segments_new \<lparr>hs_len = (\<lambda>xs. of_nat (card (set xs))), hm_get = (\<lambda>h k. map_of (rev h) k)\<rparr>
      [wit_text] (elf_binary ''x'' []) = Inr (ss, shdrs') \<and> seg_backs (ss_segments ss) (shdrs' ! 0)"
proof -
  let ?C = "\<lparr>hs_len = (\<lambda>xs. of_nat (card (set xs))), hm_get = (\<lambda>h k. map_of (rev h) k)\<rparr> :: containers"
  have c: "count_needed_entries ?C [wit_text] (elf_binary ''x'' []) = Inr (0, 0)"
    by (simp add: count_needed_entries_def count_shdr_def wit_text_def shdr_new_def abi res_simps)
  have "\<exists>k \<le> 12. (16 :: usize) = 2 ^ k" by (rule exI [of _ 4]) simp
  then have "section_ok wit_text"
    by (simp add: section_ok_def content_ok_def align_ok_def aligned_def wit_text_def shdr_new_def abi)
  moreover have "offsets_ok [wit_text]" by (simp add: offsets_ok_def)
  ultimately show ?thesis
    using sections_laid_out [OF c]
    by (auto simp: create_got_shdr_def create_plt_shdr_def wit_text_def shdr_new_def abi)
qed

text \<open>
  The condition on file offsets is needed: of an empty section followed by one of the same offset, the
  empty one is moved, and the bytes of the other are not at its address.
\<close>

lemma shared_offset_misplaced:
  "\<exists>s shs' off. unit_create_segment \<lparr>content_sections = [0, 1], zero_sectons = []\<rparr> [wit_text\<lparr>sh_size := 0\<rparr>, wit_text] 0 =
     Inr (Some s, shs', off) \<and> \<not> seg_backs [s] (shs' ! 1)"
  by (simp add: unit_create_segment_def place_content_def single_content_def wit_text_def shdr_new_def set_sh_addr_def
      roundup_def rounddown_def PAGE_SIZE_def unwrap_def res_simps Let_def seg_backs_def info_backs_def)

end
