(* ===== verification/Image.thy ===== *)
theory Image
  imports Reloc_Dynamic
begin

text \<open>
  \<^verbatim>\<open>src/src/image/builder.rs\<close>, \<^verbatim>\<open>src/src/image/common\<close> and
  \<^verbatim>\<open>src/src/elf/phdrs.rs\<close>: from loaded segments to an image. The builder reads the
  program headers, calling the user's hook on each; the image it makes parses its dynamic section on
  the first access, and its core runs the destructors when it is dropped. The hook, the handlers of
  constructors and destructors, the default of the user's data and the address of a new shared
  allocation are parameters.
\<close>

section \<open>Data\<close>

datatype elf_phdrs = PhdrsMmap slice_ref | PhdrsVec "phdr list"

fun phdrs_as_slice :: "mem \<Rightarrow> elf_phdrs \<Rightarrow> phdr list" where
  "phdrs_as_slice m (PhdrsMmap s) = map (phdr_at m) (snd s)"
| "phdrs_as_slice m (PhdrsVec phs) = phs"

type_synonym 's fn_handler = "usize option \<Rightarrow> slice_ref option \<Rightarrow> 's \<times> vm \<Rightarrow> 's \<times> vm"

text \<open>
  \<^verbatim>\<open>LoadHook::call\<close> on the fields of the context, of which the user's data is mutable.
\<close>

type_synonym ('d, 's) load_hook =
  "string \<Rightarrow> phdr \<Rightarrow> elf_segments \<Rightarrow> 'd \<Rightarrow> 's \<times> vm \<Rightarrow> unit result \<times> 'd \<times> 's \<times> vm"

record ('d, 's) image_builder =
  ib_phdr_mmap :: "slice_ref option"
  ib_name :: string
  ib_ehdr :: ehdr
  ib_relro :: "elf_relro option"
  ib_dynamic_ptr :: "usize option"
  ib_user_data :: 'd
  ib_segments :: elf_segments
  ib_init_fn :: "'s fn_handler"
  ib_fini_fn :: "'s fn_handler"
  ib_interp :: "usize option"

record dynamic_info =
  info_dynamic_ptr :: usize
  info_pltrel :: "usize option"
  info_phdrs :: elf_phdrs

record ('d, 's) core_inner =
  ci_is_init :: bool
  ci_name :: string
  ci_symtab :: symbol_table
  ci_fini :: "usize option"
  ci_fini_array :: "slice_ref option"
  ci_fini_handler :: "'s fn_handler"
  ci_user_data :: 'd
  ci_dynamic_info :: "dynamic_info option"
  ci_segments :: elf_segments

text \<open>The constructor call that \<^verbatim>\<open>init\<close> captured: the handler and its arguments.\<close>

record 's elf_extra_data =
  ex_lazy :: bool
  ex_got_plt :: "usize option"
  ex_relocation :: dynamic_relocation
  ex_relro :: "elf_relro option"
  ex_init :: "'s fn_handler"
  ex_init_fn :: "usize option"
  ex_init_array :: "slice_ref option"
  ex_rpath :: "string option"
  ex_runpath :: "string option"
  ex_needed_libs :: "string list"

text \<open>\<open>ld_addr\<close> is the address of the shared allocation that holds the module.\<close>

record ('d, 's) lazy_data =
  ld_addr :: usize
  ld_module :: "('d, 's) core_inner"
  ld_extra :: "'s elf_extra_data"

record ('d, 's) uninit =
  un_phdrs :: elf_phdrs
  un_init_handler :: "'s fn_handler"
  un_fini_handler :: "'s fn_handler"
  un_name :: string
  un_dynamic_ptr :: usize
  un_segments :: elf_segments
  un_relro :: "elf_relro option"
  un_user_data :: 'd

datatype ('d, 's) state = Empty | Uninit "('d, 's) uninit" | Init "('d, 's) lazy_data"

record ('d, 's) raw_image =
  im_entry :: usize
  im_interp :: "bytes option"
  im_name :: string
  im_phdrs :: elf_phdrs
  im_state :: "('d, 's) state"

record 'd static_image =
  si_entry :: usize
  si_image_name :: string
  si_user_data :: 'd
  si_segments :: elf_segments

section \<open>The builder\<close>

definition image_builder_new ::
  "'d \<Rightarrow> elf_segments \<Rightarrow> string \<Rightarrow> ehdr \<Rightarrow> 's fn_handler \<Rightarrow> 's fn_handler \<Rightarrow> ('d, 's) image_builder" where
  "image_builder_new dflt segments name h ini fin =
     \<lparr>ib_phdr_mmap = None, ib_name = name, ib_ehdr = h, ib_relro = None, ib_dynamic_ptr = None,
      ib_user_data = dflt, ib_segments = segments, ib_init_fn = ini, ib_fini_fn = fin, ib_interp = None\<rparr>"

text \<open>\<^verbatim>\<open>NonNull::new(segments.get_mut_ptr(off)).unwrap()\<close>.\<close>

definition non_null_ptr :: "elf_segments \<Rightarrow> usize \<Rightarrow> usize result" where
  "non_null_ptr segs off =
     unwrap ''called `Option::unwrap()` on a `None` value'' (non_zero (get_ptr segs off))"

definition parse_phdr ::
  "('d, 's) load_hook \<Rightarrow> phdr \<Rightarrow> ('d, 's) image_builder \<times> 's \<times> vm \<Rightarrow>
     (('d, 's) image_builder \<times> 's \<times> vm) result" where
  "parse_phdr hook ph st =
     (let (b, w) = st; (r, d, w1) = hook (ib_name b) ph (ib_segments b) (ib_user_data b) w;
          b1 = b\<lparr>ib_user_data := d\<rparr>; segs = ib_segments b; ty = p_type ph
      in res_bind r (\<lambda>_.
        if ty = PT_DYNAMIC then
          res_bind (non_null_ptr segs (p_paddr ph)) (\<lambda>p. Inr (b1\<lparr>ib_dynamic_ptr := Some p\<rparr>, w1))
        else if ty = PT_GNU_RELRO then Inr (b1\<lparr>ib_relro := Some (relro_new ph (base_of segs))\<rparr>, w1)
        else if ty = PT_PHDR then
          Inr (b1\<lparr>ib_phdr_mmap := Some (get_slice segs size_phdr (p_vaddr ph) (p_memsz ph))\<rparr>, w1)
        else if ty = PT_INTERP then
          res_bind (non_null_ptr segs (p_vaddr ph)) (\<lambda>p. Inr (b1\<lparr>ib_interp := Some p\<rparr>, w1))
        else Inr (b1, w1)))"

definition range_contains :: "usize \<Rightarrow> usize \<Rightarrow> usize \<Rightarrow> bool" where
  "range_contains s e x \<longleftrightarrow> s \<le> x \<and> x < e"

text \<open>\<^verbatim>\<open>find_map\<close> over the loadable headers.\<close>

fun phdrs_in_load :: "elf_segments \<Rightarrow> ehdr \<Rightarrow> phdr list \<Rightarrow> slice_ref option" where
  "phdrs_in_load segs h [] = None"
| "phdrs_in_load segs h (ph # phs) =
     (let (phdr_start, phdr_end) = phdr_range h; s = p_offset ph; e = p_offset ph + p_filesz ph in
      if p_type ph = PT_LOAD \<and> range_contains s e phdr_start \<and> range_contains s e phdr_end
      then Some (get_slice segs size_phdr (p_vaddr ph + phdr_start - s)
             (ucast (e_phnum h) * of_nat size_phdr))
      else phdrs_in_load segs h phs)"

definition create_phdrs :: "('d, 's) image_builder \<Rightarrow> phdr list \<Rightarrow> elf_phdrs" where
  "create_phdrs b phs =
     (case (case ib_phdr_mmap b of
              Some s \<Rightarrow> Some s
            | None \<Rightarrow> phdrs_in_load (ib_segments b) (ib_ehdr b) phs) of
        Some s \<Rightarrow> PhdrsMmap s
      | None \<Rightarrow> PhdrsVec phs)"

section \<open>Strings\<close>

text \<open>\<^verbatim>\<open>CStr::to_str\<close> accepts the well-formed byte sequences of the Unicode standard.\<close>

definition between :: "u8 \<Rightarrow> u8 \<Rightarrow> u8 \<Rightarrow> bool" where
  "between lo hi b \<longleftrightarrow> lo \<le> b \<and> b \<le> hi"

fun utf8_valid :: "bytes \<Rightarrow> bool" where
  "utf8_valid [] = True"
| "utf8_valid (b # bs) =
     (if b < 0x80 then utf8_valid bs
      else if between 0xC2 0xDF b then
        (case bs of c # r \<Rightarrow> between 0x80 0xBF c \<and> utf8_valid r | _ \<Rightarrow> False)
      else if between 0xE0 0xEF b then
        (case bs of
           c # d # r \<Rightarrow> between (if b = 0xE0 then 0xA0 else 0x80) (if b = 0xED then 0x9F else 0xBF) c \<and>
             between 0x80 0xBF d \<and> utf8_valid r
         | _ \<Rightarrow> False)
      else if between 0xF0 0xF4 b then
        (case bs of
           c # d # e # r \<Rightarrow> between (if b = 0xF0 then 0x90 else 0x80) (if b = 0xF4 then 0x8F else 0xBF) c \<and>
             between 0x80 0xBF d \<and> between 0x80 0xBF e \<and> utf8_valid r
         | _ \<Rightarrow> False)
      else False)"

definition to_str :: "bytes \<Rightarrow> bytes result" where
  "to_str bs =
     (if utf8_valid bs then Inr bs else Inl (Panic ''called `Result::unwrap()` on an `Err` value''))"

section \<open>Images\<close>

definition build_dynamic ::
  "('d, 's) load_hook \<Rightarrow> ('d, 's) image_builder \<Rightarrow> phdr list \<Rightarrow> 's \<times> vm \<Rightarrow>
     (('d, 's) raw_image \<times> 's \<times> vm) result" where
  "build_dynamic hook b phs w =
     res_bind (res_fold (parse_phdr hook) phs (b, w)) (\<lambda>(b1, s1, v1).
     res_bind (unwrap ''dynamic section not found'' (ib_dynamic_ptr b1)) (\<lambda>dynamic_ptr.
     let phdrs = create_phdrs b1 phs; h = ib_ehdr b1 in
     res_bind (case ib_interp b1 of
                 None \<Rightarrow> Inr None
               | Some p \<Rightarrow> res_bind (returned (cstr (vm_mem v1) p)) (\<lambda>bs.
                   res_bind (to_str bs) (\<lambda>t. Inr (Some t)))) (\<lambda>interp.
     Inr (\<lparr>im_entry = e_entry h + (if is_dylib h then base_of (ib_segments b1) else 0),
           im_interp = interp, im_name = ib_name b1, im_phdrs = phdrs,
           im_state = Uninit \<lparr>un_phdrs = phdrs, un_init_handler = ib_init_fn b1,
             un_fini_handler = ib_fini_fn b1, un_name = ib_name b1, un_dynamic_ptr = dynamic_ptr,
             un_segments = ib_segments b1, un_relro = ib_relro b1, un_user_data = ib_user_data b1\<rparr>\<rparr>,
          s1, v1))))"

definition build_static ::
  "('d, 's) load_hook \<Rightarrow> ('d, 's) image_builder \<Rightarrow> phdr list \<Rightarrow> 's \<times> vm \<Rightarrow> ('d static_image \<times> 's \<times> vm) result" where
  "build_static hook b phs w =
     res_bind (res_fold (parse_phdr hook) phs (b, w)) (\<lambda>(b1, w1).
     Inr (\<lparr>si_entry = e_entry (ib_ehdr b1), si_image_name = ib_name b1, si_user_data = ib_user_data b1,
           si_segments = ib_segments b1\<rparr>, w1))"

section \<open>Parsing on first access\<close>

text \<open>\<^verbatim>\<open>symtab.strtab().get_str(off)\<close>, as text.\<close>

definition strtab_str :: "mem \<Rightarrow> symbol_table \<Rightarrow> usize \<Rightarrow> string result" where
  "strtab_str m symtab off = res_bind (get_str m (st_strtab symtab) off) (\<lambda>bs. Inr (str_of bs))"

definition push_str :: "mem \<Rightarrow> symbol_table \<Rightarrow> usize \<Rightarrow> string list \<Rightarrow> string list result" where
  "push_str m symtab off acc = res_bind (strtab_str m symtab off) (\<lambda>s. Inr (acc @ [s]))"

definition opt_str :: "mem \<Rightarrow> symbol_table \<Rightarrow> usize option \<Rightarrow> string option result" where
  "opt_str m symtab off =
     (case off of None \<Rightarrow> Inr None | Some v \<Rightarrow> res_bind (strtab_str m symtab v) (\<lambda>s. Inr (Some s)))"

text \<open>An error of \<^verbatim>\<open>ElfDynamic::new\<close> meets \<^verbatim>\<open>unwrap\<close> and becomes a panic.\<close>

definition result_unwrap :: "'a result \<Rightarrow> 'a result" where
  "result_unwrap r =
     (case r of
        Inl (Err e) \<Rightarrow> Inl (Panic ''called `Result::unwrap()` on an `Err` value'')
      | _ \<Rightarrow> r)"

definition state_init :: "usize \<Rightarrow> mem \<Rightarrow> ('d, 's) uninit \<Rightarrow> ('d, 's) lazy_data result" where
  "state_init addr m u =
     res_bind (result_unwrap (elf_dynamic_new m (un_dynamic_ptr u) (un_segments u))) (\<lambda>dynamic.
     res_bind (dynamic_relocation_new (pltrel dynamic) (dynrel dynamic) (relr dynamic) (rel_count dynamic)) (\<lambda>relocation.
     res_bind (symtab_from_dynamic m dynamic) (\<lambda>symtab.
     res_bind (res_fold (push_str m symtab) (needed_libs dynamic) []) (\<lambda>needed.
     res_bind (opt_str m symtab (rpath_off dynamic)) (\<lambda>rpath.
     res_bind (opt_str m symtab (runpath_off dynamic)) (\<lambda>runpath.
     res_bind (unwrap ''called `Option::unwrap()` on a `None` value'' (non_zero (dyn_ptr dynamic))) (\<lambda>dptr.
     Inr \<lparr>ld_addr = addr,
       ld_module = \<lparr>ci_is_init = False, ci_name = un_name u, ci_symtab = symtab,
         ci_fini = fini_fn dynamic, ci_fini_array = fini_array_fn dynamic,
         ci_fini_handler = un_fini_handler u, ci_user_data = un_user_data u,
         ci_dynamic_info = Some \<lparr>info_dynamic_ptr = dptr,
           info_pltrel = Option.bind (pltrel dynamic) (\<lambda>s. non_zero (fst s)), info_phdrs = un_phdrs u\<rparr>,
         ci_segments = un_segments u\<rparr>,
       ld_extra = \<lparr>ex_lazy = (\<not> bind_now dynamic), ex_got_plt = got_plt dynamic,
         ex_relocation = relocation, ex_relro = un_relro u, ex_init = un_init_handler u,
         ex_init_fn = init_fn dynamic, ex_init_array = init_array_fn dynamic, ex_rpath = rpath,
         ex_runpath = runpath, ex_needed_libs = needed\<rparr>\<rparr>)))))))"

text \<open>
  \<^verbatim>\<open>LazyParse::force\<close> (and \<^verbatim>\<open>force_mut\<close>). The state is replaced by
  \<^verbatim>\<open>Empty\<close> while \<^verbatim>\<open>init\<close> runs, and stays so when it panics.
\<close>

fun force :: "usize \<Rightarrow> mem \<Rightarrow> ('d, 's) state \<Rightarrow> ('d, 's) lazy_data result \<times> ('d, 's) state" where
  "force addr m (Init d) = (Inr d, Init d)"
| "force addr m (Uninit u) =
     (case state_init addr m u of Inl f \<Rightarrow> (Inl f, Empty) | Inr d \<Rightarrow> (Inr d, Init d))"
| "force addr m Empty = (Inl (Panic ''internal error: entered unreachable code''), Empty)"

section \<open>The relocator's view\<close>

text \<open>The accessors through which the relocator reads the parsed data.\<close>

definition core_of :: "usize \<Rightarrow> ('d, 's) core_inner \<Rightarrow> elf_core" where
  "core_of addr c = \<lparr>c_addr = addr, c_name = ci_name c, c_symtab = ci_symtab c, c_segments = ci_segments c\<rparr>"

definition dynamic_image_of :: "('d, 's) lazy_data \<Rightarrow> dynamic_image" where
  "dynamic_image_of d =
     \<lparr>di_core = core_of (ld_addr d) (ld_module d), di_relocation = ex_relocation (ld_extra d),
      di_lazy = ex_lazy (ld_extra d), di_got = ex_got_plt (ld_extra d), di_relro = ex_relro (ld_extra d),
      di_needed = ex_needed_libs (ld_extra d),
      di_pltrel = Option.bind (ci_dynamic_info (ld_module d)) info_pltrel,
      di_init_fn = ex_init_fn (ld_extra d), di_init_array = ex_init_array (ld_extra d)\<rparr>"

text \<open>
  Relocation of an image: the first access parses it, the constructors run through the handler the
  loader was given, and the core keeps the flag that \<^verbatim>\<open>finish\<close> sets.
\<close>

definition image_relocate ::
  "'s ext \<Rightarrow> usize \<Rightarrow> ('d, 's) raw_image \<Rightarrow> loaded_core list \<Rightarrow> bool option \<Rightarrow>
     (bytes \<Rightarrow> usize option) option \<Rightarrow> 's rworld \<Rightarrow>
     ((loaded_core \<times> ('d, 's) core_inner) \<times> 's rworld) result" where
  "image_relocate X addr img scope lazy custom w =
     res_bind (fst (force addr (rw_mem w) (im_state img))) (\<lambda>d.
     res_bind (relocate_impl (X\<lparr>x_call := ex_init (ld_extra d)\<rparr>) (dynamic_image_of d) scope lazy custom
        (w\<lparr>rw_is_init := ci_is_init (ld_module d), rw_lazy_scope := None\<rparr>)) (\<lambda>(lc, w').
     Inr ((lc, (ld_module d)\<lparr>ci_is_init := rw_is_init w'\<rparr>), w')))"

section \<open>Cores\<close>

text \<open>
  The last reference to a core goes away: destructors first, then the segments are unmapped.
\<close>

definition core_drop :: "mmap_ops \<Rightarrow> ('d, 's) core_inner \<Rightarrow> 's \<times> vm \<Rightarrow> ('s \<times> vm) result" where
  "core_drop M c st =
     (let (s, v) = (if ci_is_init c then ci_fini_handler c (ci_fini c) (ci_fini_array c) st else st)
      in res_bind (drop_segments M (ci_segments c) v) (\<lambda>v'. Inr (s, v')))"

text \<open>\<^verbatim>\<open>ElfCore::from_raw\<close> and \<^verbatim>\<open>LoadedCore::new_unchecked\<close>: a module that something else loaded.\<close>

definition from_raw ::
  "mem \<Rightarrow> string \<Rightarrow> usize \<Rightarrow> usize \<Rightarrow> slice_ref \<Rightarrow> elf_segments \<Rightarrow> 'd \<Rightarrow> ('d, 's) core_inner result" where
  "from_raw m name base dynamic_ptr phdrs segs user_data =
     (let segs1 = segs\<lparr>seg_offset := memory segs - base\<rparr> in
      res_bind (result_unwrap (elf_dynamic_new m dynamic_ptr segs1)) (\<lambda>dynamic.
      res_bind (symtab_from_dynamic m dynamic) (\<lambda>symtab.
      res_bind (unwrap ''called `Option::unwrap()` on a `None` value'' (non_zero (dyn_ptr dynamic))) (\<lambda>dptr.
      Inr \<lparr>ci_is_init = True, ci_name = name, ci_symtab = symtab, ci_fini = None, ci_fini_array = None,
        ci_fini_handler = (\<lambda>_ _ st. st), ci_user_data = user_data,
        ci_dynamic_info = Some \<lparr>info_dynamic_ptr = dptr, info_pltrel = None, info_phdrs = PhdrsMmap phdrs\<rparr>,
        ci_segments = segs1\<rparr>))))"

definition new_unchecked ::
  "mem \<Rightarrow> usize \<Rightarrow> string \<Rightarrow> usize \<Rightarrow> usize \<Rightarrow> slice_ref \<Rightarrow> usize \<times> usize \<Rightarrow> 'd \<Rightarrow>
     (loaded_core \<times> ('d, 's) core_inner) result" where
  "new_unchecked m addr name base dynamic_ptr phdrs area user_data =
     res_bind (from_raw m name base dynamic_ptr phdrs (segments_new (fst area) (snd area)) user_data) (\<lambda>c.
     Inr (LoadedCore (core_of addr c) [], c))"

end
