(* ===== verification/Object_Image.thy ===== *)
theory Object_Image
  imports Static_Reloc Image
begin

text \<open>
  \<^verbatim>\<open>ObjectBuilder\<close> of \<^verbatim>\<open>src/src/image/builder.rs\<close> and
  \<^verbatim>\<open>src/src/image/kinds/object.rs\<close>: the sections of a loaded relocatable object
  become a symbol table, relocation tables and an array of constructors. The tables lie in the loaded
  image and are changed there: symbol values and relocation offsets, relative to a section in the
  file, become relative to the base.
\<close>

definition shdr_rebase :: "usize \<Rightarrow> shdr \<Rightarrow> shdr" where
  "shdr_rebase base sh = sh\<lparr>sh_addr := sh_addr sh + base\<rparr>"

text \<open>\<^verbatim>\<open>shdrs[i].sh_addr\<close>, with the check of the index.\<close>

definition shdr_addr :: "shdr list \<Rightarrow> nat \<Rightarrow> usize result" where
  "shdr_addr shs i =
     (if i < length shs then Inr (sh_addr (shs ! i)) else Inl (Panic ''index out of bounds''))"

text \<open>The value is at offset 8 of a symbol, the offset of a relocation at its start.\<close>

definition symbol_rebase :: "usize \<Rightarrow> shdr list \<Rightarrow> usize \<Rightarrow> mem \<Rightarrow> mem result" where
  "symbol_rebase base shs ptr m =
     (let symv = sym_at m ptr in
      if st_type symv = STT_FILE \<or> st_shndx symv = ucast SHN_UNDEF then Inr m
      else res_bind (shdr_addr shs (unat (st_shndx symv))) (\<lambda>a.
        Inr (write_u64 m (ptr + 8) (sym_value (sym_set_value symv (a - base + st_value symv))))))"

definition rel_rebase :: "usize \<Rightarrow> usize \<Rightarrow> usize \<Rightarrow> mem \<Rightarrow> mem" where
  "rel_rebase base section_base ptr m =
     (let rel = rela_at m ptr
      in write_u64 m ptr (rela_offset (rela_set_offset rel (section_base + r_offset rel - base))))"

text \<open>The local variables of \<^verbatim>\<open>ObjectBuilder::new\<close> that its loop updates.\<close>

record object_parts =
  op_symtab :: "symbol_table option"
  op_relocation :: "usize list list"
  op_init_array :: "slice_ref option"
  op_mem :: mem

definition object_symtab :: "hashbrown \<Rightarrow> usize \<Rightarrow> shdr list \<Rightarrow> shdr \<Rightarrow> object_parts \<Rightarrow> object_parts result" where
  "object_symtab HB base shs sh p =
     res_bind (content_mut size_sym sh) (\<lambda>ptrs.
     res_bind (res_fold (symbol_rebase base shs) ptrs (op_mem p)) (\<lambda>m.
     res_bind (symtab_from_shdrs HB m sh shs) (\<lambda>T. Inr (p\<lparr>op_symtab := Some T, op_mem := m\<rparr>))))"

definition object_rels :: "usize \<Rightarrow> shdr list \<Rightarrow> shdr \<Rightarrow> object_parts \<Rightarrow> object_parts result" where
  "object_rels base shs sh p =
     res_bind (content_mut size_rela sh) (\<lambda>ptrs.
     res_bind (shdr_addr shs (unat (sh_info sh))) (\<lambda>section_base.
     Inr (p\<lparr>op_mem := fold (rel_rebase base section_base) ptrs (op_mem p),
            op_relocation := op_relocation p @ [ptrs]\<rparr>)))"

definition object_shdr :: "hashbrown \<Rightarrow> usize \<Rightarrow> shdr list \<Rightarrow> shdr \<Rightarrow> object_parts \<Rightarrow> object_parts result" where
  "object_shdr HB base shs sh p =
     (if sh_type sh = SHT_SYMTAB then object_symtab HB base shs sh p
      else if sh_type sh = SHT_RELA \<or> sh_type sh = SHT_REL then object_rels base shs sh p
      else if sh_type sh = SHT_INIT_ARRAY then
        res_bind (content_mut 8 sh) (\<lambda>ptrs. Inr (p\<lparr>op_init_array := Some (sh_addr sh, ptrs)\<rparr>))
      else Inr p)"

record 's object_builder =
  ob_name :: string
  ob_symtab :: symbol_table
  ob_init_array :: "slice_ref option"
  ob_init_fn :: "'s fn_handler"
  ob_fini_fn :: "'s fn_handler"
  ob_segments :: elf_segments
  ob_relocation :: "usize list list"
  ob_mprotect :: "elf_segment list"
  ob_pltgot :: plt_got_section

text \<open>The closure \<^verbatim>\<open>mprotect\<close> is the list of segments it protects. The rebased headers are part of the result.\<close>

definition object_builder_new ::
  "hashbrown \<Rightarrow> string \<Rightarrow> shdr list \<Rightarrow> 's fn_handler \<Rightarrow> 's fn_handler \<Rightarrow> elf_segments \<Rightarrow> elf_segment list \<Rightarrow>
     plt_got_section \<Rightarrow> mem \<Rightarrow> (('s object_builder \<times> shdr list) \<times> mem) result" where
  "object_builder_new HB name shdrs ini fin segments prot pltgot m =
     (let base = base_of segments; shs = map (shdr_rebase base) shdrs; pltgot1 = plt_got_rebase base pltgot in
      res_bind (res_fold (object_shdr HB base shs) shs
          \<lparr>op_symtab = None, op_relocation = [], op_init_array = None, op_mem = m\<rparr>) (\<lambda>p.
      res_bind (unwrap ''called `Option::unwrap()` on a `None` value'' (op_symtab p)) (\<lambda>T.
      Inr ((\<lparr>ob_name = name, ob_symtab = T, ob_init_array = op_init_array p, ob_init_fn = ini,
             ob_fini_fn = fin, ob_segments = segments, ob_relocation = op_relocation p,
             ob_mprotect = prot, ob_pltgot = pltgot1\<rparr>, shs), op_mem p))))"

text \<open>\<^verbatim>\<open>build\<close>: the object with its core; \<open>addr\<close> is the address of the core.\<close>

definition object_core :: "'s object_builder \<Rightarrow> (unit, 's) core_inner" where
  "object_core b =
     \<lparr>ci_is_init = False, ci_name = ob_name b, ci_symtab = ob_symtab b, ci_fini = None,
      ci_fini_array = None, ci_fini_handler = ob_fini_fn b, ci_user_data = (), ci_dynamic_info = None,
      ci_segments = ob_segments b\<rparr>"

record 's raw_obj =
  rob_core :: "(unit, 's) core_inner"
  rob_init :: "'s fn_handler"
  rob_object :: raw_object

definition object_build :: "usize \<Rightarrow> 's object_builder \<Rightarrow> 's raw_obj" where
  "object_build addr b =
     \<lparr>rob_core = object_core b, rob_init = ob_init_fn b,
      rob_object = \<lparr>ro_core = core_of addr (object_core b), ro_relocation = ob_relocation b,
        ro_pltgot = ob_pltgot b, ro_segments = ob_mprotect b, ro_init_array = ob_init_array b\<rparr>\<rparr>"

text \<open>\<^verbatim>\<open>Relocatable for RawObject\<close>: handlers, laziness and lazy scope are ignored.\<close>

definition raw_object_relocate ::
  "containers \<Rightarrow> 's ext \<Rightarrow> 's raw_obj \<Rightarrow> loaded_core list \<Rightarrow> 's rworld \<Rightarrow>
     ((loaded_core \<times> (unit, 's) core_inner) \<times> 's rworld) result" where
  "raw_object_relocate C X ob scope w =
     res_bind (object_relocate C (X\<lparr>x_call := rob_init ob\<rparr>) (rob_object ob) scope w) (\<lambda>(lc, w').
       Inr ((lc, rob_core ob), w'))"

end
