(* ===== verification/Loader.thy ===== *)
theory Loader
  imports Object_Image
begin

text \<open>
  \<^verbatim>\<open>src/src/loader.rs\<close> and the loading entry points of
  \<^verbatim>\<open>src/src/image/mod.rs\<close> and \<^verbatim>\<open>src/src/image/kinds\<close>: a reusable
  buffer for headers, the three ways to load, the choice between them, and the dispatch of
  relocation. Every operation on the loader returns the buffer it leaves behind, since the loader is
  used again.
\<close>

section \<open>The buffer\<close>

definition elf_buf_new :: bytes where
  "elf_buf_new = replicate EHDR_SIZE 0"

text \<open>\<^verbatim>\<open>object.read(&mut buf[..n], off)\<close>: the first \<open>n\<close> bytes are replaced.\<close>

definition read_into :: "elf_reader \<Rightarrow> bytes \<Rightarrow> nat \<Rightarrow> usize \<Rightarrow> bytes result" where
  "read_into R buf n off =
     (if length buf < n then Inl (Panic ''range end index out of range'')
      else res_bind (rd_read R n off) (\<lambda>bs. Inr (bs @ drop n buf)))"

text \<open>\<^verbatim>\<open>if size > buf.len() { buf.resize(size, 0) }\<close>.\<close>

definition grow :: "nat \<Rightarrow> bytes \<Rightarrow> bytes" where
  "grow n buf = (if length buf < n then buf @ replicate (n - length buf) 0 else buf)"

definition prepare_ehdr :: "bytes \<Rightarrow> elf_reader \<Rightarrow> (ehdr \<times> bytes) result" where
  "prepare_ehdr buf R =
     res_bind (read_into R buf EHDR_SIZE 0) (\<lambda>buf1.
     res_bind (ehdr_new buf1) (\<lambda>h. Inr (h, buf1)))"

definition prepare_phdrs :: "bytes \<Rightarrow> ehdr \<Rightarrow> elf_reader \<Rightarrow> (phdr list \<times> bytes) result" where
  "prepare_phdrs buf h R =
     (let (phdr_start, phdr_end) = phdr_range h; size = unat (phdr_end - phdr_start) in
      res_bind (read_into R (grow size buf) size phdr_start) (\<lambda>buf1.
      Inr (map (\<lambda>i. phdr_at (mem_of 0 buf1) (of_nat (i * size_phdr))) [0..<size div size_phdr], buf1)))"

definition prepare_shdrs_mut :: "bytes \<Rightarrow> ehdr \<Rightarrow> elf_reader \<Rightarrow> (shdr list \<times> bytes) result" where
  "prepare_shdrs_mut buf h R =
     (let (shdr_start, shdr_end) = shdr_range h; size = unat (shdr_end - shdr_start) in
      res_bind (read_into R (grow size buf) size shdr_start) (\<lambda>buf1.
      Inr (map (\<lambda>i. shdr_at (mem_of 0 buf1) (of_nat (i * size_shdr))) [0..<size div size_shdr], buf1)))"

text \<open>The mutable section headers lie in the buffer; their addresses (bytes 16 to 23 of each) are what the code changes.\<close>

definition store_shdrs :: "shdr list \<Rightarrow> bytes \<Rightarrow> bytes" where
  "store_shdrs shs buf =
     map (\<lambda>k. if k div size_shdr < length shs \<and> 16 \<le> k mod size_shdr \<and> k mod size_shdr < 24
            then ucast (drop_bit (8 * (k mod size_shdr - 16)) (sh_addr (shs ! (k div size_shdr))))
            else buf ! k) [0..<length buf]"

section \<open>The loader\<close>

text \<open>\<open>ldr_default\<close> is \<^verbatim>\<open>D::default()\<close>, \<open>ldr_mmap\<close> the type parameter \<^verbatim>\<open>M\<close>.\<close>

record ('d, 's) loader =
  ldr_buf :: bytes
  ldr_init_fn :: "'s fn_handler"
  ldr_fini_fn :: "'s fn_handler"
  ldr_hook :: "('d, 's) load_hook"
  ldr_mmap :: mmap_ops
  ldr_default :: 'd

text \<open>
  The default handler: the function, then the array in order. \<open>call\<close> runs the code at an address;
  the pointers of the array are read when their turn comes.
\<close>

definition c_abi :: "(usize \<Rightarrow> 's \<times> vm \<Rightarrow> 's \<times> vm) \<Rightarrow> 's fn_handler" where
  "c_abi call func arr st =
     (let st1 = (case func of None \<Rightarrow> st | Some f \<Rightarrow> call f st)
      in foldl (\<lambda>st p. call (read_u64 (vm_mem (snd st)) p) st) st1
           (case arr of None \<Rightarrow> [] | Some a \<Rightarrow> snd a))"

definition unit_hook :: "(unit, 's) load_hook" where
  "unit_hook name ph segs d st = (Inr (), d, st)"

definition loader_new :: "(usize \<Rightarrow> 's \<times> vm \<Rightarrow> 's \<times> vm) \<Rightarrow> mmap_ops \<Rightarrow> (unit, 's) loader" where
  "loader_new call M =
     \<lparr>ldr_buf = elf_buf_new, ldr_init_fn = c_abi call, ldr_fini_fn = c_abi call, ldr_hook = unit_hook,
      ldr_mmap = M, ldr_default = ()\<rparr>"

definition with_init :: "'s fn_handler \<Rightarrow> ('d, 's) loader \<Rightarrow> ('d, 's) loader" where
  "with_init f L = L\<lparr>ldr_init_fn := f\<rparr>"

definition with_fini :: "'s fn_handler \<Rightarrow> ('d, 's) loader \<Rightarrow> ('d, 's) loader" where
  "with_fini f L = L\<lparr>ldr_fini_fn := f\<rparr>"

definition with_hook :: "('e, 's) load_hook \<Rightarrow> 'e \<Rightarrow> ('d, 's) loader \<Rightarrow> ('e, 's) loader" where
  "with_hook h dflt L =
     \<lparr>ldr_buf = ldr_buf L, ldr_init_fn = ldr_init_fn L, ldr_fini_fn = ldr_fini_fn L, ldr_hook = h,
      ldr_mmap = ldr_mmap L, ldr_default = dflt\<rparr>"

definition with_mmap :: "mmap_ops \<Rightarrow> ('d, 's) loader \<Rightarrow> ('d, 's) loader" where
  "with_mmap M L = L\<lparr>ldr_mmap := M\<rparr>"

section \<open>Loading\<close>

text \<open>What \<^verbatim>\<open>load_static_impl\<close> and \<^verbatim>\<open>load_dynamic_impl\<close> do before they build.\<close>

definition load_program ::
  "('d, 's) loader \<Rightarrow> ehdr \<Rightarrow> phdr list \<Rightarrow> elf_reader \<Rightarrow> 's \<times> vm \<Rightarrow> (('d, 's) image_builder \<times> 's \<times> vm) result" where
  "load_program L h phs R st =
     res_bind (load_segments (ldr_mmap L) R phs (is_dylib h) (snd st)) (\<lambda>((space, segs), v1).
     res_bind (mprotect_all (ldr_mmap L) segs v1) (\<lambda>v2.
     Inr (image_builder_new (ldr_default L) space (shortname R) h (ldr_init_fn L) (ldr_fini_fn L), fst st, v2)))"

definition load_static_impl ::
  "('d, 's) loader \<Rightarrow> ehdr \<Rightarrow> phdr list \<Rightarrow> elf_reader \<Rightarrow> 's \<times> vm \<Rightarrow> ('d static_image \<times> 's \<times> vm) result" where
  "load_static_impl L h phs R st =
     res_bind (load_program L h phs R st) (\<lambda>(b, st1). build_static (ldr_hook L) b phs st1)"

definition load_dynamic_impl ::
  "('d, 's) loader \<Rightarrow> ehdr \<Rightarrow> phdr list \<Rightarrow> elf_reader \<Rightarrow> 's \<times> vm \<Rightarrow> (('d, 's) raw_image \<times> 's \<times> vm) result" where
  "load_dynamic_impl L h phs R st =
     res_bind (load_program L h phs R st) (\<lambda>(b, st1). build_dynamic (ldr_hook L) b phs st1)"

record obj_env =
  oe_containers :: containers
  oe_hb :: hashbrown
  oe_addr :: usize

text \<open>Objects call no hook. The headers in the buffer end with their rebased addresses.\<close>

definition load_object_impl ::
  "obj_env \<Rightarrow> ('d, 's) loader \<Rightarrow> bytes \<Rightarrow> ehdr \<Rightarrow> elf_reader \<Rightarrow> 's \<times> vm \<Rightarrow>
     (('s raw_obj \<times> bytes) \<times> 's \<times> vm) result" where
  "load_object_impl E L buf h R st =
     res_bind (result_unwrap (prepare_shdrs_mut buf h R)) (\<lambda>(shdrs, buf1).
     res_bind (section_segments_new (oe_containers E) shdrs R) (\<lambda>(ss, shdrs1).
     res_bind (section_load_segments (ldr_mmap L) R ss (snd st)) (\<lambda>((space, ss1), v1).
     res_bind (take_pltgot ss1) (\<lambda>(pltgot, ss2).
     res_bind (object_builder_new (oe_hb E) (shortname R) shdrs1 (ldr_init_fn L) (ldr_fini_fn L) space
         (ss_segments ss2) pltgot (vm_mem v1)) (\<lambda>((b, shdrs2), m).
     Inr ((object_build (oe_addr E) b, store_shdrs shdrs2 buf1), fst st, v1\<lparr>vm_mem := m\<rparr>))))))"

datatype ('d, 's) exec_image = ExecDynamic "('d, 's) raw_image" | ExecStatic "'d static_image"

datatype ('d, 's) raw_elf =
    RawDylib "('d, 's) raw_image"
  | RawExec "('d, 's) exec_image"
  | RawObj "'s raw_obj"

definition file_type_mismatch :: "'a result" where
  "file_type_mismatch = Inl (Err (parse_ehdr_error ''file type mismatch''))"

definition has_type :: "u32 \<Rightarrow> phdr list \<Rightarrow> bool" where
  "has_type ty phs \<longleftrightarrow> (\<exists>ph \<in> set phs. p_type ph = ty)"

definition load_dylib_internal ::
  "('d, 's) loader \<Rightarrow> bytes \<Rightarrow> elf_reader \<Rightarrow> 's \<times> vm \<Rightarrow> ((('d, 's) raw_image \<times> bytes) \<times> 's \<times> vm) result" where
  "load_dylib_internal L buf R st =
     res_bind (prepare_ehdr buf R) (\<lambda>(h, buf1).
     if \<not> is_dylib h then file_type_mismatch
     else res_bind (prepare_phdrs buf1 h R) (\<lambda>(phs, buf2).
       res_bind (load_dynamic_impl L h phs R st) (\<lambda>(img, st1). Inr ((img, buf2), st1))))"

definition load_exec_internal ::
  "('d, 's) loader \<Rightarrow> bytes \<Rightarrow> elf_reader \<Rightarrow> 's \<times> vm \<Rightarrow> ((('d, 's) exec_image \<times> bytes) \<times> 's \<times> vm) result" where
  "load_exec_internal L buf R st =
     res_bind (prepare_ehdr buf R) (\<lambda>(h, buf1).
     if \<not> is_executable h then file_type_mismatch
     else res_bind (prepare_phdrs buf1 h R) (\<lambda>(phs, buf2).
       if has_type PT_DYNAMIC phs
       then res_bind (load_dynamic_impl L h phs R st) (\<lambda>(img, st1). Inr ((ExecDynamic img, buf2), st1))
       else res_bind (load_static_impl L h phs R st) (\<lambda>(img, st1). Inr ((ExecStatic img, buf2), st1))))"

definition load_object_internal ::
  "obj_env \<Rightarrow> ('d, 's) loader \<Rightarrow> bytes \<Rightarrow> elf_reader \<Rightarrow> 's \<times> vm \<Rightarrow> (('s raw_obj \<times> bytes) \<times> 's \<times> vm) result" where
  "load_object_internal E L buf R st =
     res_bind (result_unwrap (prepare_ehdr buf R)) (\<lambda>(h, buf1). load_object_impl E L buf1 h R st)"

text \<open>The public entry points convert their input to a reader first.\<close>

definition load_dylib ::
  "('d, 's) loader \<Rightarrow> elf_reader result \<Rightarrow> 's \<times> vm \<Rightarrow> ((('d, 's) raw_image \<times> bytes) \<times> 's \<times> vm) result" where
  "load_dylib L input st = res_bind input (\<lambda>R. load_dylib_internal L (ldr_buf L) R st)"

definition load_exec ::
  "('d, 's) loader \<Rightarrow> elf_reader result \<Rightarrow> 's \<times> vm \<Rightarrow> ((('d, 's) exec_image \<times> bytes) \<times> 's \<times> vm) result" where
  "load_exec L input st = res_bind input (\<lambda>R. load_exec_internal L (ldr_buf L) R st)"

definition load_object ::
  "obj_env \<Rightarrow> ('d, 's) loader \<Rightarrow> elf_reader result \<Rightarrow> 's \<times> vm \<Rightarrow> (('s raw_obj \<times> bytes) \<times> 's \<times> vm) result" where
  "load_object E L input st = res_bind input (\<lambda>R. load_object_internal E L (ldr_buf L) R st)"

text \<open>\<^verbatim>\<open>map\<close> over the value of a load.\<close>

definition wrap :: "('a \<Rightarrow> 'b) \<Rightarrow> (('a \<times> bytes) \<times> 'w) result \<Rightarrow> (('b \<times> bytes) \<times> 'w) result" where
  "wrap f r = res_bind r (\<lambda>((x, buf), st). Inr ((f x, buf), st))"

definition load ::
  "obj_env \<Rightarrow> ('d, 's) loader \<Rightarrow> elf_reader result \<Rightarrow> 's \<times> vm \<Rightarrow> ((('d, 's) raw_elf \<times> bytes) \<times> 's \<times> vm) result" where
  "load E L input st =
     res_bind input (\<lambda>R.
     res_bind (prepare_ehdr (ldr_buf L) R) (\<lambda>(h, buf1).
     if e_type h = ET_REL then wrap RawObj (load_object_internal E L buf1 R st)
     else if e_type h = ET_EXEC then wrap RawExec (load_exec_internal L buf1 R st)
     else if e_type h = ET_DYN then
       res_bind (prepare_phdrs buf1 h R) (\<lambda>(phs, buf2).
         let has_dynamic = has_type PT_DYNAMIC phs; is_pie = (has_type PT_INTERP phs \<or> \<not> has_dynamic) in
         if is_pie then wrap RawExec (load_exec_internal L buf2 R st)
         else wrap RawDylib (load_dylib_internal L buf2 R st))
     else wrap RawExec (load_exec_internal L buf1 R st)))"

section \<open>Relocation of what was loaded\<close>

datatype ('d, 's) loaded_exec =
    LoadedExecDynamic usize loaded_core "('d, 's) core_inner"
  | LoadedExecStatic usize "'d static_image"

datatype ('d, 's) loaded_elf =
    LoadedDylib loaded_core "('d, 's) core_inner"
  | LoadedExec "('d, 's) loaded_exec"
  | LoadedObject loaded_core "(unit, 's) core_inner"

definition exec_relocate ::
  "'s ext \<Rightarrow> usize \<Rightarrow> ('d, 's) exec_image \<Rightarrow> loaded_core list \<Rightarrow> bool option \<Rightarrow> (bytes \<Rightarrow> usize option) option \<Rightarrow>
     's rworld \<Rightarrow> (('d, 's) loaded_exec \<times> 's rworld) result" where
  "exec_relocate X addr e scope lazy custom w =
     (case e of
        ExecDynamic img \<Rightarrow>
          res_bind (image_relocate X addr img scope lazy custom w) (\<lambda>((lc, c), w').
            Inr (LoadedExecDynamic (im_entry img) lc c, w'))
      | ExecStatic img \<Rightarrow> Inr (LoadedExecStatic (si_entry img) img, w))"

text \<open>An object is relocated in the empty scope, whatever the scope of the caller.\<close>

definition raw_elf_relocate ::
  "containers \<Rightarrow> 's ext \<Rightarrow> usize \<Rightarrow> ('d, 's) raw_elf \<Rightarrow> loaded_core list \<Rightarrow> bool option \<Rightarrow>
     (bytes \<Rightarrow> usize option) option \<Rightarrow> 's rworld \<Rightarrow> (('d, 's) loaded_elf \<times> 's rworld) result" where
  "raw_elf_relocate C X addr e scope lazy custom w =
     (case e of
        RawDylib img \<Rightarrow>
          res_bind (image_relocate X addr img scope lazy custom w) (\<lambda>((lc, c), w'). Inr (LoadedDylib lc c, w'))
      | RawExec img \<Rightarrow>
          res_bind (exec_relocate X addr img scope lazy custom w) (\<lambda>(r, w'). Inr (LoadedExec r, w'))
      | RawObj ob \<Rightarrow>
          res_bind (raw_object_relocate C X ob [] w) (\<lambda>((lc, c), w'). Inr (LoadedObject lc c, w')))"

section \<open>The relocation builder\<close>

text \<open>
  \<^verbatim>\<open>Relocator\<close>: the lookups and handlers it collects are fields of the environment; the
  unit type stands for a lookup that finds nothing and a handler that declines.
\<close>

record 's relocator =
  rl_scope :: "loaded_core list"
  rl_pre_find :: "bytes \<Rightarrow> usize option"
  rl_post_find :: "bytes \<Rightarrow> usize option"
  rl_pre_handler :: "rela \<Rightarrow> elf_core \<Rightarrow> loaded_core list \<Rightarrow> 's \<times> vm \<Rightarrow> usize option result option \<times> 's \<times> vm"
  rl_post_handler :: "rela \<Rightarrow> elf_core \<Rightarrow> loaded_core list \<Rightarrow> 's \<times> vm \<Rightarrow> usize option result option \<times> 's \<times> vm"
  rl_lazy :: "bool option"
  rl_lazy_scope :: "(bytes \<Rightarrow> usize option) option"

definition relocator_new :: "'s relocator" where
  "relocator_new =
     \<lparr>rl_scope = [], rl_pre_find = (\<lambda>_. None), rl_post_find = (\<lambda>_. None),
      rl_pre_handler = (\<lambda>_ _ _ st. (None, st)), rl_post_handler = (\<lambda>_ _ _ st. (None, st)),
      rl_lazy = None, rl_lazy_scope = None\<rparr>"

definition rl_set_pre_find :: "(bytes \<Rightarrow> usize option) \<Rightarrow> 's relocator \<Rightarrow> 's relocator" where
  "rl_set_pre_find f r = r\<lparr>rl_pre_find := f\<rparr>"

definition rl_set_post_find :: "(bytes \<Rightarrow> usize option) \<Rightarrow> 's relocator \<Rightarrow> 's relocator" where
  "rl_set_post_find f r = r\<lparr>rl_post_find := f\<rparr>"

definition rl_set_scope :: "loaded_core list \<Rightarrow> 's relocator \<Rightarrow> 's relocator" where
  "rl_set_scope libs r = r\<lparr>rl_scope := libs\<rparr>"

definition rl_set_pre_handler ::
  "(rela \<Rightarrow> elf_core \<Rightarrow> loaded_core list \<Rightarrow> 's \<times> vm \<Rightarrow> usize option result option \<times> 's \<times> vm) \<Rightarrow>
     's relocator \<Rightarrow> 's relocator" where
  "rl_set_pre_handler h r = r\<lparr>rl_pre_handler := h\<rparr>"

definition rl_set_post_handler ::
  "(rela \<Rightarrow> elf_core \<Rightarrow> loaded_core list \<Rightarrow> 's \<times> vm \<Rightarrow> usize option result option \<times> 's \<times> vm) \<Rightarrow>
     's relocator \<Rightarrow> 's relocator" where
  "rl_set_post_handler h r = r\<lparr>rl_post_handler := h\<rparr>"

definition rl_set_lazy :: "bool \<Rightarrow> 's relocator \<Rightarrow> 's relocator" where
  "rl_set_lazy b r = r\<lparr>rl_lazy := Some b\<rparr>"

definition rl_set_lazy_scope :: "(bytes \<Rightarrow> usize option) \<Rightarrow> 's relocator \<Rightarrow> 's relocator" where
  "rl_set_lazy_scope f r = r\<lparr>rl_lazy_scope := Some f\<rparr>"

definition relocator_env :: "'s relocator \<Rightarrow> 's ext \<Rightarrow> 's ext" where
  "relocator_env r X =
     X\<lparr>x_pre_find := rl_pre_find r, x_post_find := rl_post_find r,
       x_pre_handler := rl_pre_handler r, x_post_handler := rl_post_handler r\<rparr>"

definition relocator_relocate ::
  "containers \<Rightarrow> 's ext \<Rightarrow> usize \<Rightarrow> 's relocator \<Rightarrow> ('d, 's) raw_elf \<Rightarrow> 's rworld \<Rightarrow>
     (('d, 's) loaded_elf \<times> 's rworld) result" where
  "relocator_relocate C X addr r e w =
     raw_elf_relocate C (relocator_env r X) addr e (rl_scope r) (rl_lazy r) (rl_lazy_scope r) w"

end
