(* ===== verification/Loader_Props.thy ===== *)
theory Loader_Props
  imports Loader Loading_Props
begin

text \<open>
  The properties of the loader and of images: what the headers read through the reusable buffer are,
  which kind of image a file becomes, that loading does not depend on earlier loads, the image of a
  dynamic library from its file, parsing on first access, and the pairing of constructors and
  destructors.
\<close>

section \<open>Headers in the file\<close>

text \<open>The file from offset \<open>off\<close>, and the headers it holds.\<close>

definition file_at :: "(nat \<Rightarrow> u8) \<Rightarrow> usize \<Rightarrow> mem" where
  "file_at content off = (\<lambda>a. content (unat off + unat a))"

definition file_ehdr :: "(nat \<Rightarrow> u8) \<Rightarrow> ehdr" where
  "file_ehdr content = ehdr_at (file_at content 0) 0"

definition table_size :: "usize \<times> usize \<Rightarrow> nat" where
  "table_size r = unat (snd r - fst r)"

definition file_phdrs :: "(nat \<Rightarrow> u8) \<Rightarrow> ehdr \<Rightarrow> phdr list" where
  "file_phdrs content h =
     map (\<lambda>i. phdr_at (file_at content (fst (phdr_range h))) (of_nat (i * size_phdr)))
       [0..<table_size (phdr_range h) div size_phdr]"

definition file_shdrs :: "(nat \<Rightarrow> u8) \<Rightarrow> ehdr \<Rightarrow> shdr list" where
  "file_shdrs content h =
     map (\<lambda>i. shdr_at (file_at content (fst (shdr_range h))) (of_nat (i * size_shdr)))
       [0..<table_size (shdr_range h) div size_shdr]"

text \<open>A structure depends on its own bytes only.\<close>

lemma read_le_field:
  assumes "\<And>k. k < N \<Longrightarrow> m (a + of_nat k) = m' (a + of_nat k)" and "c + n \<le> N"
  shows "read_le n m (a + of_nat c) = read_le n m' (a + of_nat c)"
proof (rule read_le_cong)
  fix i assume "i < n"
  with assms show "m (a + of_nat c + of_nat i) = m' (a + of_nat c + of_nat i)"
    using assms(1) [of "c + i"] by (simp add: add.assoc)
qed

lemma ehdr_at_cong:
  assumes "\<And>k. k < 64 \<Longrightarrow> m (a + of_nat k) = m' (a + of_nat k)"
  shows "ehdr_at m a = ehdr_at m' a"
proof -
  note f = read_le_field [of 64 m a m', OF assms]
  have "read_bytes 16 m a = read_bytes 16 m' a" by (rule read_bytes_cong) (simp add: assms)
  with f [of 16 2] f [of 18 2] f [of 20 4] f [of 24 8] f [of 32 8] f [of 40 8] f [of 48 4]
    f [of 52 2] f [of 54 2] f [of 56 2] f [of 58 2] f [of 60 2] f [of 62 2]
  show ?thesis by (simp add: ehdr_at_def)
qed

lemma phdr_at_cong:
  assumes "\<And>k. k < 56 \<Longrightarrow> m (a + of_nat k) = m' (a + of_nat k)"
  shows "phdr_at m a = phdr_at m' a"
proof -
  note f = read_le_field [of 56 m a m', OF assms]
  from f [of 0 4] f [of 4 4] f [of 8 8] f [of 16 8] f [of 24 8] f [of 32 8] f [of 40 8] f [of 48 8]
  show ?thesis by (simp add: phdr_at_def)
qed

lemma shdr_at_cong:
  assumes "\<And>k. k < 64 \<Longrightarrow> m (a + of_nat k) = m' (a + of_nat k)"
  shows "shdr_at m a = shdr_at m' a"
proof -
  note f = read_le_field [of 64 m a m', OF assms]
  from f [of 0 4] f [of 4 4] f [of 8 8] f [of 16 8] f [of 24 8] f [of 32 8] f [of 40 4] f [of 44 4]
    f [of 48 8] f [of 56 8]
  show ?thesis by (simp add: shdr_at_def)
qed

lemma grow_length: "n \<le> length (grow n buf)" "length buf \<le> length (grow n buf)"
  by (simp_all add: grow_def)

lemma entry_bytes_inside:
  fixes i :: nat
  assumes "i < sz div e" and "k < e"
  shows "i * e + k < sz"
proof -
  have "Suc i * e \<le> sz div e * e" using assms(1) by (intro mult_le_mono1) simp
  also have "\<dots> \<le> sz" by simp
  finally show ?thesis using assms(2) by simp
qed

context reader_contract
begin

lemma read_bytes_in_buffer:
  assumes "rd_read R n off = Inr bs" and "n < 2 ^ 64" and "j < n"
  shows "mem_of 0 (bs @ rest) (of_nat j) = file_at content off (of_nat j)"
  using read_nth [OF assms(1,2), of j] read_length [OF assms(1,2)] assms(2,3)
  by (simp add: mem_of_def write_bytes_def file_at_def nth_append)

text \<open>The three \<^verbatim>\<open>prepare\<close> functions: what they read does not depend on the buffer.\<close>

lemma prepare_ehdr_eq:
  assumes "64 \<le> length buf"
  shows "prepare_ehdr buf R =
     res_bind (rd_read R 64 0) (\<lambda>bs. res_bind (vaildate (file_ehdr content)) (\<lambda>_.
       Inr (file_ehdr content, bs @ drop 64 buf)))"
proof (cases "rd_read R 64 0")
  case (Inr bs)
  have "ehdr_at (mem_of 0 (bs @ drop 64 buf)) 0 = file_ehdr content"
    unfolding file_ehdr_def by (rule ehdr_at_cong) (simp add: read_bytes_in_buffer [OF Inr])
  with assms Inr show ?thesis
    by (simp add: prepare_ehdr_def read_into_def ehdr_new_def EHDR_SIZE_def size_ehdr_def)
      (cases "vaildate (file_ehdr content)"; simp)
qed (use assms in \<open>simp add: prepare_ehdr_def read_into_def EHDR_SIZE_def size_ehdr_def\<close>)

lemma prepare_phdrs_eq:
  "prepare_phdrs buf h R =
     res_bind (rd_read R (table_size (phdr_range h)) (fst (phdr_range h))) (\<lambda>bs.
       Inr (file_phdrs content h, bs @ drop (table_size (phdr_range h)) (grow (table_size (phdr_range h)) buf)))"
proof (cases "rd_read R (table_size (phdr_range h)) (fst (phdr_range h))")
  case (Inr bs)
  have n: "table_size (phdr_range h) < 2 ^ 64" by (unfold table_size_def) (rule unat_less_usize)
  have "phdr_at (mem_of 0 (bs @ r)) (of_nat (i * 56)) = phdr_at (file_at content (fst (phdr_range h))) (of_nat (i * 56))"
    if "i < table_size (phdr_range h) div 56" for i r
  proof (rule phdr_at_cong)
    fix k :: nat assume "k < 56"
    from read_bytes_in_buffer [OF Inr n entry_bytes_inside [OF that this], of r]
    show "mem_of 0 (bs @ r) (of_nat (i * 56) + of_nat k) =
        file_at content (fst (phdr_range h)) (of_nat (i * 56) + of_nat k)" by simp
  qed
  then show ?thesis
    using Inr grow_length(1) [of "table_size (phdr_range h)" buf]
    by (simp add: prepare_phdrs_def read_into_def table_size_def file_phdrs_def size_phdr_def case_prod_unfold Let_def)
qed (use grow_length(1) [of "table_size (phdr_range h)" buf] in
  \<open>simp add: prepare_phdrs_def read_into_def table_size_def case_prod_unfold Let_def\<close>)

lemma prepare_shdrs_eq:
  "prepare_shdrs_mut buf h R =
     res_bind (rd_read R (table_size (shdr_range h)) (fst (shdr_range h))) (\<lambda>bs.
       Inr (file_shdrs content h, bs @ drop (table_size (shdr_range h)) (grow (table_size (shdr_range h)) buf)))"
proof (cases "rd_read R (table_size (shdr_range h)) (fst (shdr_range h))")
  case (Inr bs)
  have n: "table_size (shdr_range h) < 2 ^ 64" by (unfold table_size_def) (rule unat_less_usize)
  have "shdr_at (mem_of 0 (bs @ r)) (of_nat (i * 64)) = shdr_at (file_at content (fst (shdr_range h))) (of_nat (i * 64))"
    if "i < table_size (shdr_range h) div 64" for i r
  proof (rule shdr_at_cong)
    fix k :: nat assume "k < 64"
    from read_bytes_in_buffer [OF Inr n entry_bytes_inside [OF that this], of r]
    show "mem_of 0 (bs @ r) (of_nat (i * 64) + of_nat k) =
        file_at content (fst (shdr_range h)) (of_nat (i * 64) + of_nat k)" by simp
  qed
  then show ?thesis
    using Inr grow_length(1) [of "table_size (shdr_range h)" buf]
    by (simp add: prepare_shdrs_mut_def read_into_def table_size_def file_shdrs_def size_shdr_def case_prod_unfold Let_def)
qed (use grow_length(1) [of "table_size (shdr_range h)" buf] in
  \<open>simp add: prepare_shdrs_mut_def read_into_def table_size_def case_prod_unfold Let_def\<close>)

end

section \<open>Independence of the buffer\<close>

text \<open>What a load returns, without the buffer it leaves behind.\<close>

definition value_of :: "(('a \<times> bytes) \<times> 'w) result \<Rightarrow> ('a \<times> 'w) result" where
  "value_of r = res_bind r (\<lambda>((x, buf), st). Inr (x, st))"

lemma value_of_simps [simp]:
  "value_of (Inr ((x, buf), st)) = Inr (x, st)"
  "value_of (Inl f) = Inl f"
  by (simp_all add: value_of_def)

lemma value_of_eq_Inr: "value_of r = Inr (x, st) \<longleftrightarrow> (\<exists>buf. r = Inr ((x, buf), st))"
  by (cases r) (auto simp: value_of_def)

lemma value_of_wrap: "value_of (wrap f r) = res_bind (value_of r) (\<lambda>(x, st). Inr (f x, st))"
  by (cases r) (auto simp: wrap_def value_of_def)

lemma value_of_bind: "value_of (res_bind r f) = res_bind r (\<lambda>x. value_of (f x))"
  by (cases r) simp_all

lemma result_unwrap_Inr: "result_unwrap r = Inr x \<longleftrightarrow> r = Inr x"
  by (auto simp: result_unwrap_def split: sum.splits fault.splits)

lemma result_unwrap_bind:
  "result_unwrap (res_bind r (\<lambda>x. Inr (f x))) = res_bind (result_unwrap r) (\<lambda>x. Inr (f x))"
  by (cases r) (auto simp: result_unwrap_def split: fault.splits)

lemma res_bind_assoc: "res_bind (res_bind r f) g = res_bind r (\<lambda>x. res_bind (f x) g)"
  by (cases r) simp_all

text \<open>A header, and its program headers, read from the file without a buffer.\<close>

definition with_ehdr :: "elf_reader \<Rightarrow> (nat \<Rightarrow> u8) \<Rightarrow> (ehdr \<Rightarrow> 'a result) \<Rightarrow> 'a result" where
  "with_ehdr R content f =
     res_bind (rd_read R 64 0) (\<lambda>_. res_bind (vaildate (file_ehdr content)) (\<lambda>_. f (file_ehdr content)))"

definition with_phdrs :: "elf_reader \<Rightarrow> (nat \<Rightarrow> u8) \<Rightarrow> ehdr \<Rightarrow> (phdr list \<Rightarrow> 'a result) \<Rightarrow> 'a result" where
  "with_phdrs R content h f =
     res_bind (rd_read R (table_size (phdr_range h)) (fst (phdr_range h))) (\<lambda>_. f (file_phdrs content h))"

definition with_shdrs :: "elf_reader \<Rightarrow> (nat \<Rightarrow> u8) \<Rightarrow> ehdr \<Rightarrow> (shdr list \<Rightarrow> 'a result) \<Rightarrow> 'a result" where
  "with_shdrs R content h f =
     res_bind (rd_read R (table_size (shdr_range h)) (fst (shdr_range h))) (\<lambda>_. f (file_shdrs content h))"

lemmas with_defs = with_ehdr_def with_phdrs_def with_shdrs_def

definition exec_spec ::
  "('d, 's) loader \<Rightarrow> elf_reader \<Rightarrow> ehdr \<Rightarrow> phdr list \<Rightarrow> 's \<times> vm \<Rightarrow> (('d, 's) exec_image \<times> 's \<times> vm) result" where
  "exec_spec L R h phs st =
     (if has_type PT_DYNAMIC phs
      then res_bind (load_dynamic_impl L h phs R st) (\<lambda>(img, st1). Inr (ExecDynamic img, st1))
      else res_bind (load_static_impl L h phs R st) (\<lambda>(img, st1). Inr (ExecStatic img, st1)))"

definition object_spec ::
  "obj_env \<Rightarrow> ('d, 's) loader \<Rightarrow> elf_reader \<Rightarrow> shdr list \<Rightarrow> 's \<times> vm \<Rightarrow> ('s raw_obj \<times> 's \<times> vm) result" where
  "object_spec E L R shdrs st =
     res_bind (section_segments_new (oe_containers E) shdrs R) (\<lambda>(ss, shdrs1).
     res_bind (section_load_segments (ldr_mmap L) R ss (snd st)) (\<lambda>((space, ss1), v1).
     res_bind (take_pltgot ss1) (\<lambda>(pltgot, ss2).
     res_bind (object_builder_new (oe_hb E) (shortname R) shdrs1 (ldr_init_fn L) (ldr_fini_fn L) space
         (ss_segments ss2) pltgot (vm_mem v1)) (\<lambda>((b, shdrs2), m).
     Inr (object_build (oe_addr E) b, fst st, v1\<lparr>vm_mem := m\<rparr>)))))"

lemmas spec_defs = exec_spec_def object_spec_def

lemma res_bind_ret: "res_bind r Inr = r"
  by (cases r) simp_all

context reader_contract
begin

lemma dylib_value:
  "64 \<le> length buf \<Longrightarrow> value_of (load_dylib_internal L buf R st) =
     with_ehdr R content (\<lambda>h. if \<not> is_dylib h then file_type_mismatch
       else with_phdrs R content h (\<lambda>phs. load_dynamic_impl L h phs R st))"
  by (simp add: load_dylib_internal_def prepare_ehdr_eq prepare_phdrs_eq with_defs value_of_bind
      res_bind_assoc case_prod_unfold if_distrib [of value_of] file_type_mismatch_def res_bind_ret cong: if_cong)

lemma exec_value:
  "64 \<le> length buf \<Longrightarrow> value_of (load_exec_internal L buf R st) =
     with_ehdr R content (\<lambda>h. if \<not> is_executable h then file_type_mismatch
       else with_phdrs R content h (\<lambda>phs. exec_spec L R h phs st))"
  by (simp add: load_exec_internal_def prepare_ehdr_eq prepare_phdrs_eq with_defs spec_defs value_of_bind
      res_bind_assoc case_prod_unfold if_distrib [of value_of] file_type_mismatch_def cong: if_cong)

lemma object_value:
  "64 \<le> length buf \<Longrightarrow> value_of (load_object_internal E L buf R st) =
     res_bind (result_unwrap (with_ehdr R content Inr)) (\<lambda>h.
       res_bind (result_unwrap (with_shdrs R content h Inr)) (\<lambda>shdrs. object_spec E L R shdrs st))"
proof -
  have e: "result_unwrap (prepare_ehdr buf R) =
      res_bind (result_unwrap (with_ehdr R content Inr)) (\<lambda>h. Inr (h, projr (rd_read R 64 0) @ drop 64 buf))"
    if "64 \<le> length buf"
    using that by (cases "rd_read R 64 0"; cases "vaildate (file_ehdr content)")
      (auto simp: prepare_ehdr_eq with_ehdr_def result_unwrap_def split: fault.splits)
  have s: "\<exists>f. result_unwrap (prepare_shdrs_mut b h R) =
      res_bind (result_unwrap (with_shdrs R content h Inr)) (\<lambda>shs. Inr (shs, f))" for b h
    by (cases "rd_read R (table_size (shdr_range h)) (fst (shdr_range h))")
      (auto simp: prepare_shdrs_eq with_shdrs_def result_unwrap_def split: fault.splits)
  have o: "value_of (load_object_impl E L b h R st) =
      res_bind (result_unwrap (with_shdrs R content h Inr)) (\<lambda>shdrs. object_spec E L R shdrs st)" for b h
    using s [of b h]
    by (elim exE) (simp add: load_object_impl_def object_spec_def value_of_bind res_bind_assoc case_prod_unfold)
  assume "64 \<le> length buf"
  then show ?thesis
    by (simp add: load_object_internal_def e o value_of_bind res_bind_assoc)
qed

text \<open>The loads keep the buffer long enough for the next header.\<close>

lemma prepare_ehdr_length:
  "prepare_ehdr buf R = Inr (h, buf') \<Longrightarrow> 64 \<le> length buf \<Longrightarrow> 64 \<le> length buf'"
  using read_length [of 64 0] by (auto simp: prepare_ehdr_eq res_simps)

lemma table_read_length:
  assumes "rd_read R (table_size r) off = Inr bs" and "64 \<le> length buf"
  shows "64 \<le> length (bs @ drop (table_size r) (grow (table_size r) buf))"
proof -
  have "length bs = table_size r"
    by (rule read_length [OF assms(1)]) (unfold table_size_def, rule unat_less_usize)
  with grow_length(1) [of "table_size r" buf] grow_length(2) [of buf "table_size r"] assms(2)
  show ?thesis by simp
qed

lemma prepare_phdrs_length:
  "prepare_phdrs buf h R = Inr (phs, buf') \<Longrightarrow> 64 \<le> length buf \<Longrightarrow> 64 \<le> length buf'"
  using table_read_length [of "phdr_range h" "fst (phdr_range h)"]
  by (auto simp: prepare_phdrs_eq res_simps simp del: length_append)

lemma prepare_shdrs_length:
  "prepare_shdrs_mut buf h R = Inr (shs, buf') \<Longrightarrow> 64 \<le> length buf \<Longrightarrow> 64 \<le> length buf'"
  using table_read_length [of "shdr_range h" "fst (shdr_range h)"]
  by (auto simp: prepare_shdrs_eq res_simps simp del: length_append)

lemmas prepare_lengths = prepare_ehdr_length prepare_phdrs_length prepare_shdrs_length

lemma internal_length:
  "load_dylib_internal L buf R st = Inr ((x, buf'), st') \<Longrightarrow> 64 \<le> length buf \<Longrightarrow> 64 \<le> length buf'"
  "load_exec_internal L buf R st = Inr ((y, buf'), st') \<Longrightarrow> 64 \<le> length buf \<Longrightarrow> 64 \<le> length buf'"
  "load_object_internal E L buf R st = Inr ((z, buf'), st') \<Longrightarrow> 64 \<le> length buf \<Longrightarrow> 64 \<le> length buf'"
  by (auto simp: load_dylib_internal_def load_exec_internal_def load_object_internal_def load_object_impl_def
      res_simps result_unwrap_Inr file_type_mismatch_def store_shdrs_def split: if_splits dest!: prepare_lengths)

lemma load_length:
  "load E L (Inr R) st = Inr ((e, buf'), st') \<Longrightarrow> 64 \<le> length (ldr_buf L) \<Longrightarrow> 64 \<le> length buf'"
  by (auto simp: load_def wrap_def res_simps Let_def split: if_splits dest!: internal_length prepare_lengths)

lemma with_ehdr_Inl: "prepare_ehdr buf R = Inl f \<Longrightarrow> 64 \<le> length buf \<Longrightarrow> with_ehdr R content g = Inl f"
  by (cases "rd_read R 64 0"; cases "vaildate (file_ehdr content)") (auto simp: prepare_ehdr_eq with_ehdr_def)

lemma with_ehdr_Inr:
  "prepare_ehdr buf R = Inr (h, buf') \<Longrightarrow> 64 \<le> length buf \<Longrightarrow> with_ehdr R content g = g (file_ehdr content)"
  by (auto simp: prepare_ehdr_eq with_ehdr_def res_simps)

text \<open>The dispatch on the type of the file, on the file alone.\<close>

lemma load_value:
  assumes "64 \<le> length (ldr_buf L)"
  shows "value_of (load E L (Inr R) st) =
     with_ehdr R content (\<lambda>h.
       if e_type h = ET_REL then
         res_bind (result_unwrap (with_shdrs R content h Inr)) (\<lambda>shdrs.
           res_bind (object_spec E L R shdrs st) (\<lambda>(x, st). Inr (RawObj x, st)))
       else if e_type h = ET_EXEC then
         with_phdrs R content h (\<lambda>phs. res_bind (exec_spec L R h phs st) (\<lambda>(x, st). Inr (RawExec x, st)))
       else if e_type h = ET_DYN then
         with_phdrs R content h (\<lambda>phs.
           if has_type PT_INTERP phs \<or> \<not> has_type PT_DYNAMIC phs
           then res_bind (exec_spec L R h phs st) (\<lambda>(x, st). Inr (RawExec x, st))
           else res_bind (load_dynamic_impl L h phs R st) (\<lambda>(x, st). Inr (RawDylib x, st)))
       else file_type_mismatch)"
proof (cases "prepare_ehdr (ldr_buf L) R")
  case (Inl f)
  then show ?thesis by (simp add: load_def with_ehdr_Inl [OF Inl assms])
next
  case (Inr p)
  then obtain buf1 where b: "prepare_ehdr (ldr_buf L) R = Inr (file_ehdr content, buf1)"
    using assms by (auto simp: prepare_ehdr_eq res_simps)
  have l: "64 \<le> length buf1" by (rule prepare_ehdr_length [OF b assms])
  note w = with_ehdr_Inr [OF b assms]
  let ?h = "file_ehdr content"
  have ex: "value_of (wrap RawExec (load_exec_internal L bf R st)) =
      (if \<not> is_executable ?h then file_type_mismatch
       else with_phdrs R content ?h (\<lambda>phs. res_bind (exec_spec L R ?h phs st) (\<lambda>(x, st). Inr (RawExec x, st))))"
    if "64 \<le> length bf" for bf
    using that by (simp add: value_of_wrap exec_value w file_type_mismatch_def with_phdrs_def res_bind_assoc)
  have dy: "value_of (wrap RawDylib (load_dylib_internal L bf R st)) =
      with_phdrs R content ?h (\<lambda>phs. res_bind (load_dynamic_impl L ?h phs R st) (\<lambda>(x, st). Inr (RawDylib x, st)))"
    if "64 \<le> length bf" "e_type ?h = ET_DYN" for bf
    using that by (simp add: value_of_wrap dylib_value w is_dylib_def with_phdrs_def res_bind_assoc)
  have ob: "value_of (wrap RawObj (load_object_internal E L buf1 R st)) =
      res_bind (result_unwrap (with_shdrs R content ?h Inr)) (\<lambda>shdrs.
        res_bind (object_spec E L R shdrs st) (\<lambda>(x, st). Inr (RawObj x, st)))"
    using l by (simp add: value_of_wrap object_value w result_unwrap_def res_bind_assoc)
  show ?thesis
  proof (cases "e_type ?h = ET_DYN")
    case False
    with l show ?thesis
      by (simp add: load_def b w ob ex is_executable_def)
  next
    case True
    show ?thesis
    proof (cases "prepare_phdrs buf1 ?h R")
      case (Inl f)
      with True show ?thesis
        by (auto simp: load_def b w abi prepare_phdrs_eq with_phdrs_def res_simps)
    next
      case (Inr q)
      then obtain bs buf2 where q: "prepare_phdrs buf1 ?h R = Inr (file_phdrs content ?h, buf2)"
        and r: "rd_read R (table_size (phdr_range ?h)) (fst (phdr_range ?h)) = Inr bs"
        by (auto simp: prepare_phdrs_eq res_simps)
      have l2: "64 \<le> length buf2" by (rule prepare_phdrs_length [OF q l])
      have "e_type ?h \<noteq> ET_REL" "e_type ?h \<noteq> ET_EXEC" using True by (simp_all add: abi)
      with True show ?thesis
        by (simp add: load_def b w q ex [OF l2] dy [OF l2] is_executable_def with_phdrs_def r)
    qed
  qed
qed

end


lemma loader_buf_irrelevant [simp]:
  "load_dynamic_impl (L\<lparr>ldr_buf := b\<rparr>) = load_dynamic_impl L"
  "load_static_impl (L\<lparr>ldr_buf := b\<rparr>) = load_static_impl L"
  "exec_spec (L\<lparr>ldr_buf := b\<rparr>) = exec_spec L"
  "object_spec E (L\<lparr>ldr_buf := b\<rparr>) = object_spec E L"
  by (intro ext; simp add: load_dynamic_impl_def load_static_impl_def load_program_def spec_defs)+

section \<open>Building from program headers\<close>

text \<open>A hook that looks at the headers and its own data, and lets every header pass.\<close>

definition passive_hook :: "('d, 's) load_hook \<Rightarrow> bool" where
  "passive_hook hook \<longleftrightarrow> (\<forall>name ph segs d st. \<exists>d'. hook name ph segs d st = (Inr (), d', st))"

text \<open>The last header of a type.\<close>

definition last_phdr :: "u32 \<Rightarrow> phdr list \<Rightarrow> phdr option" where
  "last_phdr ty phs = find (\<lambda>ph. p_type ph = ty) (rev phs)"

lemma last_phdr_Cons:
  "last_phdr ty (ph # phs) =
     (case last_phdr ty phs of Some x \<Rightarrow> Some x | None \<Rightarrow> if p_type ph = ty then Some ph else None)"
proof -
  have "find P (xs @ ys) = (case find P xs of Some x \<Rightarrow> Some x | None \<Rightarrow> find P ys)"
    for P and xs ys :: "phdr list"
    by (induction xs) simp_all
  then show ?thesis by (simp add: last_phdr_def split: option.splits)
qed

lemma last_phdr_SomeD: "last_phdr ty phs = Some ph \<Longrightarrow> ph \<in> set phs \<and> p_type ph = ty"
  unfolding last_phdr_def find_Some_iff by (metis nth_mem set_rev)

lemma has_type_last: "has_type ty phs \<longleftrightarrow> (\<exists>ph. last_phdr ty phs = Some ph)"
proof (induction phs)
  case Nil
  show ?case by (simp add: has_type_def last_phdr_def)
next
  case (Cons ph phs)
  then show ?case by (auto simp: has_type_def last_phdr_Cons split: option.splits)
qed

definition same_image :: "('d, 's) image_builder \<Rightarrow> ('d, 's) image_builder \<Rightarrow> bool" where
  "same_image b b' \<longleftrightarrow>
     ib_segments b' = ib_segments b \<and> ib_name b' = ib_name b \<and> ib_ehdr b' = ib_ehdr b \<and>
     ib_init_fn b' = ib_init_fn b \<and> ib_fini_fn b' = ib_fini_fn b"

text \<open>One header under a passive hook.\<close>

lemma parse_phdr_passive:
  assumes "passive_hook hook" and "p_type ph = PT_DYNAMIC \<longrightarrow> get_ptr (ib_segments b) (p_paddr ph) \<noteq> 0"
    and "p_type ph \<noteq> PT_INTERP"
  shows "\<exists>b'. parse_phdr hook ph (b, w) = Inr (b', w) \<and> same_image b b' \<and> ib_interp b' = ib_interp b \<and>
     ib_dynamic_ptr b' = (if p_type ph = PT_DYNAMIC then Some (get_ptr (ib_segments b) (p_paddr ph))
                          else ib_dynamic_ptr b) \<and>
     ib_relro b' = (if p_type ph = PT_GNU_RELRO then Some (relro_new ph (base_of (ib_segments b)))
                    else ib_relro b)"
proof -
  obtain d where "hook (ib_name b) ph (ib_segments b) (ib_user_data b) w = (Inr (), d, w)"
    using assms(1) unfolding passive_hook_def by blast
  moreover have "PT_DYNAMIC \<noteq> PT_GNU_RELRO" by (simp add: abi)
  ultimately show ?thesis
    using assms(2,3) by (auto simp: parse_phdr_def same_image_def non_null_ptr_def non_zero_def Let_def)
qed

lemma parse_phdrs_passive:
  assumes "passive_hook hook"
    and "\<forall>ph \<in> set phs. p_type ph = PT_DYNAMIC \<longrightarrow> get_ptr (ib_segments b) (p_paddr ph) \<noteq> 0"
    and "\<not> has_type PT_INTERP phs"
  shows "\<exists>b'. res_fold (parse_phdr hook) phs (b, w) = Inr (b', w) \<and> same_image b b' \<and> ib_interp b' = ib_interp b \<and>
     ib_dynamic_ptr b' = (case last_phdr PT_DYNAMIC phs of
        Some ph \<Rightarrow> Some (get_ptr (ib_segments b) (p_paddr ph)) | None \<Rightarrow> ib_dynamic_ptr b) \<and>
     ib_relro b' = (case last_phdr PT_GNU_RELRO phs of
        Some ph \<Rightarrow> Some (relro_new ph (base_of (ib_segments b))) | None \<Rightarrow> ib_relro b)"
  using assms(2,3)
proof (induction phs arbitrary: b)
  case Nil
  then show ?case by (simp add: last_phdr_def same_image_def)
next
  case (Cons ph phs)
  from Cons.prems have i: "p_type ph \<noteq> PT_INTERP" "\<not> has_type PT_INTERP phs"
    and n: "p_type ph = PT_DYNAMIC \<longrightarrow> get_ptr (ib_segments b) (p_paddr ph) \<noteq> 0"
    by (auto simp: has_type_def)
  from parse_phdr_passive [OF assms(1) n i(1), of w]
  obtain b1 where b1: "parse_phdr hook ph (b, w) = Inr (b1, w)" "same_image b b1" "ib_interp b1 = ib_interp b"
     "ib_dynamic_ptr b1 = (if p_type ph = PT_DYNAMIC then Some (get_ptr (ib_segments b) (p_paddr ph))
                          else ib_dynamic_ptr b)"
     "ib_relro b1 = (if p_type ph = PT_GNU_RELRO then Some (relro_new ph (base_of (ib_segments b)))
                    else ib_relro b)"
    by blast
  have sg: "ib_segments b1 = ib_segments b" using b1(2) by (simp add: same_image_def)
  from Cons.IH [of b1, unfolded sg] Cons.prems(1) i(2)
  obtain b2 where b2: "res_fold (parse_phdr hook) phs (b1, w) = Inr (b2, w)" "same_image b1 b2"
     "ib_interp b2 = ib_interp b1"
     "ib_dynamic_ptr b2 = (case last_phdr PT_DYNAMIC phs of
        Some ph \<Rightarrow> Some (get_ptr (ib_segments b) (p_paddr ph)) | None \<Rightarrow> ib_dynamic_ptr b1)"
     "ib_relro b2 = (case last_phdr PT_GNU_RELRO phs of
        Some ph \<Rightarrow> Some (relro_new ph (base_of (ib_segments b))) | None \<Rightarrow> ib_relro b1)"
    by auto
  have "same_image b b2" using b1(2) b2(2) by (simp add: same_image_def)
  with b1 b2 show ?case by (intro exI [of _ b2]) (simp add: last_phdr_Cons split: option.split)
qed

section \<open>Loading on bare metal\<close>

lemma bare_create_space_base:
  assumes "heap_alloc A (fst (snd (parse_segments phs True))) w = (p, w1)" and "p \<noteq> 0"
  shows "\<exists>space. create_space (bare_metal A) phs True uf w = Inr (space, w1) \<and> memory space = p \<and>
     seg_offset space = snd (snd (parse_segments phs True)) \<and> space_len space = fst (snd (parse_segments phs True))"
  using assms by (auto simp: create_space_def bare_metal_def default_mmap_reserve_def bare_mmap_def
      parse_segments_def Let_def flag_defs split: prod.splits)

lemma unat_plus_of_nat: "unat (p :: usize) + k < 2 ^ 64 \<Longrightarrow> unat (p + of_nat k) = unat p + k"
  by (simp add: unat_word_ariths)

lemma fst_phdr_range: "fst (phdr_range h) = e_phoff h"
  by (simp add: phdr_range_def Let_def)

lemma elf_binary_reads:
  "unat off + n \<le> length bs \<Longrightarrow> length bs < 2 ^ 64 \<Longrightarrow>
     rd_read (elf_binary name bs) n off = Inr (take n (drop (unat off) bs))"
  using elf_binary_read_ok_iff [of n bs off] by (simp add: elf_binary_def)

lemma loaded_segment_addr:
  assumes run: "load_segments M R phs dylib w = Inr ((space, segs), w')" and "sg \<in> set segs"
  shows "\<exists>ph \<in> set phs. p_type ph = PT_LOAD \<and> seg_addr sg = Absolute (base_of space + of_nat (page_start ph))"
proof -
  let ?P = "\<lambda>(dn, w :: vm). \<forall>sg \<in> set dn. \<exists>ph \<in> set phs. p_type ph = PT_LOAD \<and>
      seg_addr sg = Absolute (base_of space + of_nat (page_start ph))"
  from run obtain w1 where
    "res_fold (load_one M R (base_of space)) (create_segments phs) ([], w1) = Inr (segs, w')"
    by (auto simp: load_segments_def load_segment_list_def res_simps)
  then have "?P (segs, w')"
  proof (rule res_fold_invariant)
    fix x st st' assume x: "x \<in> set (create_segments phs)" and P: "?P st"
      and one: "load_one M R (base_of space) x st = Inr st'"
    from x obtain ph where ph: "ph \<in> set phs" "p_type ph = PT_LOAD" "x = create_segment ph"
      by (auto simp: create_segments_def)
    from one ph(3) obtain s2 w3 where s2: "st' = (fst st @ [s2], w3)"
        "seg_addr s2 = Absolute (base_of space + of_nat (page_start ph))"
      by (auto simp: load_one_def rebase_def create_segment_simps mmap_segment_def rounddown_of_nat
          res_simps case_prod_unfold)
    with P ph(1,2) show "?P st'" by (cases st) auto
  qed simp
  with assms(2) show ?thesis by auto
qed

lemma mprotect_all_bare:
  assumes "\<forall>sg \<in> set segs. \<exists>a. seg_addr sg = Absolute a \<and> a \<noteq> 0"
  shows "mprotect_all (bare_metal A) segs w = Inr w"
  using assms
  by (induction segs) (auto simp: mprotect_all_def seg_mprotect_def bare_metal_def bare_mprotect_def)

text \<open>The program headers of a library loaded on bare metal: everything before the image is built.\<close>

lemma bare_load_program:
  assumes ok: "\<forall>ph \<in> set phs. p_type ph = PT_LOAD \<longrightarrow>
      phdr_ok ph \<and> unat (p_offset ph) + unat (p_filesz ph) \<le> length bs"
    and apart: "sorted_wrt pages_apart (filter (\<lambda>ph. p_type ph = PT_LOAD) phs)" and len: "length bs < 2 ^ 64"
    and heap: "heap_alloc A (fst (snd (parse_segments phs True))) w = (p, w1)" "p \<noteq> 0" "unat p mod 4096 = 0"
      "unat p + unat (fst (snd (parse_segments phs True))) < 2 ^ 64"
    and L: "ldr_mmap L = bare_metal A" and h: "is_dylib h"
    and base: "base = p - snd (snd (parse_segments phs True))"
  shows "\<exists>space v. load_program L h phs (elf_binary name bs) (s, w) =
       Inr (image_builder_new (ldr_default L) space (shortname (elf_binary name bs)) h (ldr_init_fn L) (ldr_fini_fn L),
            s, v) \<and> base_of space = base \<and>
     (\<forall>ph \<in> set phs. p_type ph = PT_LOAD \<longrightarrow> holds_segment (bytes_content bs) (vm_mem v) base ph)"
proof -
  let ?R = "elf_binary name bs"
  obtain space where sp: "create_space (bare_metal A) phs True (as_fd ?R \<noteq> None) w = Inr (space, w1)"
    and m: "memory space = p" "seg_offset space = snd (snd (parse_segments phs True))"
      "space_len space = fst (snd (parse_segments phs True))"
    using bare_create_space_base [OF heap(1,2)] by blast
  have b: "base_of space = base" using m base by (simp add: base_of_def)
  have al: "unat (base_of space) mod 4096 = 0"
    by (rule create_space_base_aligned [OF sp]) (simp add: m heap(3))
  obtain segs v where run: "load_segments (bare_metal A) ?R phs True w = Inr ((space, segs), v)"
    using load_segments_returns [OF sp] bare_load_one_returns [OF _ len] ok by metis
  have nz: "\<exists>a. seg_addr sg = Absolute a \<and> a \<noteq> 0" if sg: "sg \<in> set segs" for sg
  proof -
    obtain ph where ph: "ph \<in> set phs" "p_type ph = PT_LOAD"
      and a: "seg_addr sg = Absolute (base_of space + of_nat (page_start ph))"
      using loaded_segment_addr [OF run sg] by blast
    let ?k = "page_start ph - unat (seg_offset space)"
    obtain ad where pr: "parse_segments phs True = (ad, space_len space, seg_offset space)"
      using m by (metis prod.collapse)
    have "\<forall>ph \<in> set phs. p_type ph = PT_LOAD \<longrightarrow> no_overflow ph" using ok phdr_ok_no_overflow by blast
    note cov = parse_segments_covers [OF pr this ph]
    have "base_of space + of_nat (page_start ph) = p + of_nat ?k"
      using cov(3) m(1) by (simp add: base_of_def of_nat_diff)
    moreover have "unat p + unat (space_len space) < 2 ^ 64" using heap(4) by (simp only: m(3))
    with cov(3,4) have "unat (p + of_nat ?k) = unat p + ?k"
      by (intro unat_plus_of_nat) linarith
    ultimately have "base_of space + of_nat (page_start ph) \<noteq> 0" using heap(2) by (metis add_eq_0_iff_both_eq_0 unat_eq_zero)
    with a show ?thesis by blast
  qed
  have "mprotect_all (bare_metal A) segs v = Inr v" by (rule mprotect_all_bare) (use nz in blast)
  with run L h have "load_program L h phs ?R (s, w) =
      Inr (image_builder_new (ldr_default L) space (shortname ?R) h (ldr_init_fn L) (ldr_fini_fn L), s, v)"
    by (simp add: load_program_def)
  moreover have "\<forall>ph \<in> set phs. p_type ph = PT_LOAD \<longrightarrow> holds_segment (bytes_content bs) (vm_mem v) base ph"
    using bare_binary.load_segments_spec [OF run _ apart al] ok b by blast
  ultimately show ?thesis using b by blast
qed

section \<open>The life of an image\<close>

text \<open>A sequence of accesses, each at its own time, so with its own memory.\<close>

fun force_all ::
  "(usize \<times> mem) list \<Rightarrow> ('d, 's) state \<Rightarrow> ('d, 's) lazy_data result list \<times> ('d, 's) state" where
  "force_all [] st = ([], st)"
| "force_all ((addr, m) # accs) st =
     (let (r, st1) = force addr m st; (rs, st2) = force_all accs st1 in (r # rs, st2))"

lemma force_all_Init: "force_all accs (Init d) = (replicate (length accs) (Inr d), Init d)"
  by (induction accs) auto

lemma force_all_Empty:
  "force_all accs Empty = (replicate (length accs) (Inl (Panic ''internal error: entered unreachable code'')), Empty)"
  by (induction accs) auto

text \<open>What the first access takes from the dynamic section and from the state before it.\<close>

lemma state_init_fields:
  assumes "state_init addr m u = Inr d"
  obtains dynamic where "elf_dynamic_new m (un_dynamic_ptr u) (un_segments u) = Inr dynamic"
    and "ex_init (ld_extra d) = un_init_handler u" and "ex_init_fn (ld_extra d) = init_fn dynamic"
    and "ex_init_array (ld_extra d) = init_array_fn dynamic"
    and "ci_fini_handler (ld_module d) = un_fini_handler u" and "ci_fini (ld_module d) = fini_fn dynamic"
    and "ci_fini_array (ld_module d) = fini_array_fn dynamic" and "ci_is_init (ld_module d) = False"
    and "ci_segments (ld_module d) = un_segments u"
  using assms that by (auto simp: state_init_def res_simps result_unwrap_Inr)

lemma relocate_impl_end:
  assumes "relocate_impl X img scope lazy custom w = Inr (lc, w')"
  shows "if reloc_is_empty (di_relocation img) then w' = w
     else rw_is_init w' \<and> (\<exists>sv. (rw_ext w', rw_vm w') = x_call X (di_init_fn img) (di_init_array img) sv)"
  using assms
  by (auto simp: relocate_impl_def res_simps finish_def Let_def case_prod_unfold split: if_splits) blast

text \<open>Which files are loaded as what.\<close>

fun image_kind :: "ehdr \<Rightarrow> phdr list \<Rightarrow> ('d, 's) raw_elf \<Rightarrow> bool" where
  "image_kind h phs (RawObj ob) \<longleftrightarrow> e_type h = ET_REL"
| "image_kind h phs (RawDylib img) \<longleftrightarrow> e_type h = ET_DYN \<and> has_type PT_DYNAMIC phs \<and> \<not> has_type PT_INTERP phs"
| "image_kind h phs (RawExec (ExecDynamic img)) \<longleftrightarrow>
     has_type PT_DYNAMIC phs \<and> (e_type h = ET_EXEC \<or> e_type h = ET_DYN \<and> has_type PT_INTERP phs)"
| "image_kind h phs (RawExec (ExecStatic img)) \<longleftrightarrow>
     \<not> has_type PT_DYNAMIC phs \<and> (e_type h = ET_EXEC \<or> e_type h = ET_DYN)"

section \<open>Concrete inputs\<close>

text \<open>
  A library of one loadable header, which maps the whole file, and one for the dynamic section at
  0xB0; a header of a core file; an object environment; a loader on bare metal.
\<close>

definition wit_so :: bytes where
  "wit_so = [0x7F,0x45,0x4C,0x46,2,1,1,0, 0,0,0,0,0,0,0,0, 3,0, 62,0, 1,0,0,0, 0x10,0,0,0,0,0,0,0,
     64,0,0,0,0,0,0,0, 0,0,0,0,0,0,0,0, 0,0,0,0, 64,0, 56,0, 2,0, 64,0, 0,0, 0,0,
     1,0,0,0, 5,0,0,0, 0,0,0,0,0,0,0,0, 0,0,0,0,0,0,0,0, 0,0,0,0,0,0,0,0, 0xC0,0,0,0,0,0,0,0,
       0xC0,0,0,0,0,0,0,0, 0,0x10,0,0,0,0,0,0,
     2,0,0,0, 6,0,0,0, 0xB0,0,0,0,0,0,0,0, 0xB0,0,0,0,0,0,0,0, 0xB0,0,0,0,0,0,0,0, 16,0,0,0,0,0,0,0,
       16,0,0,0,0,0,0,0, 8,0,0,0,0,0,0,0,
     0,0,0,0,0,0,0,0, 0,0,0,0,0,0,0,0]"

definition wit_core_file :: bytes where
  "wit_core_file = [0x7F,0x45,0x4C,0x46,2,1,1,0, 0,0,0,0,0,0,0,0, 4,0, 62,0, 1,0,0,0] @ replicate 40 0"

definition wit_env :: obj_env where
  "wit_env = \<lparr>oe_containers = \<lparr>hs_len = (\<lambda>xs. of_nat (card (set xs))), hm_get = (\<lambda>h k. map_of (rev h) k)\<rparr>,
     oe_hb = \<lparr>hb_hash = (\<lambda>_. 0), hb_find = (\<lambda>hist h eq. find eq (map snd hist)),
       hb_len = (\<lambda>hist. of_nat (length hist))\<rparr>, oe_addr = 0x9000\<rparr>"

definition wit_loader :: "(unit, nat) loader" where
  "wit_loader = loader_new (\<lambda>_ st. st) (bare_metal wit_heap)"

definition wit_load_hdr :: phdr where
  "wit_load_hdr = \<lparr>p_type = 1, p_flags = 5, p_offset = 0, p_vaddr = 0, p_paddr = 0, p_filesz = 0xC0,
     p_memsz = 0xC0, p_align = 0x1000\<rparr>"

definition wit_dyn_hdr :: phdr where
  "wit_dyn_hdr = \<lparr>p_type = 2, p_flags = 6, p_offset = 0xB0, p_vaddr = 0xB0, p_paddr = 0xB0, p_filesz = 16,
     p_memsz = 16, p_align = 8\<rparr>"

lemma wit_hdr_simps [simp]:
  "p_type wit_load_hdr = 1" "p_offset wit_load_hdr = 0" "p_vaddr wit_load_hdr = 0" "p_filesz wit_load_hdr = 0xC0"
  "p_memsz wit_load_hdr = 0xC0" "p_type wit_dyn_hdr = 2" "p_paddr wit_dyn_hdr = 0xB0"
  by (simp_all add: wit_load_hdr_def wit_dyn_hdr_def)

lemma wit_so_length [simp]: "length wit_so = 192"
  by (simp add: wit_so_def)

lemmas wit_file_read = read_le_def read_bytes_def file_at_def bytes_content_def upt_rec

lemma wit_so_ehdr:
  "file_ehdr (bytes_content wit_so) =
     \<lparr>e_ident = [0x7F,0x45,0x4C,0x46,2,1,1,0,0,0,0,0,0,0,0,0], e_type = 3, e_machine = 62, e_version = 1,
      e_entry = 0x10, e_phoff = 64, e_shoff = 0, e_flags = 0, e_ehsize = 64, e_phentsize = 56, e_phnum = 2,
      e_shentsize = 64, e_shnum = 0, e_shstrndx = 0\<rparr>"
  unfolding file_ehdr_def ehdr_at_def wit_so_def by (simp add: wit_file_read)

lemma wit_so_phdrs:
  "file_phdrs (bytes_content wit_so) (file_ehdr (bytes_content wit_so)) = [wit_load_hdr, wit_dyn_hdr]"
proof -
  have "phdr_at (file_at (bytes_content wit_so) 64) 0 = wit_load_hdr"
    "phdr_at (file_at (bytes_content wit_so) 64) 56 = wit_dyn_hdr"
    unfolding phdr_at_def wit_so_def wit_load_hdr_def wit_dyn_hdr_def by (simp_all add: wit_file_read)
  moreover have "[0..<112 div 56] = [0, Suc 0]" by (simp add: upt_rec)
  ultimately show ?thesis
    by (simp add: file_phdrs_def wit_so_ehdr phdr_range_def table_size_def size_phdr_def Let_def)
qed

lemma wit_core_file_type: "e_type (file_ehdr (bytes_content wit_core_file)) = 4"
  "vaildate (file_ehdr (bytes_content wit_core_file)) = Inr ()"
  unfolding file_ehdr_def ehdr_at_def wit_core_file_def
  by (simp_all add: wit_file_read vaildate_def E_CLASS_def EM_ARCH_def abi)

text \<open>
  A parsed image with a compact relative table of one word at 0x500, a constructor at 0x700 and a
  destructor at 0x710; handlers that count.
\<close>

definition wit_life_mem :: mem where
  "wit_life_mem = mem_of 0x100
     [6,0,0,0,0,0,0,0, 0x10,1,0,0,0,0,0,0, 0xF5,0xFE,0xFF,0x6F,0,0,0,0, 0x20,0,0,0,0,0,0,0,
      36,0,0,0,0,0,0,0, 0,5,0,0,0,0,0,0, 35,0,0,0,0,0,0,0, 8,0,0,0,0,0,0,0,
      12,0,0,0,0,0,0,0, 0,7,0,0,0,0,0,0, 13,0,0,0,0,0,0,0, 0x10,7,0,0,0,0,0,0]"

definition wit_life :: "(unit, nat) uninit" where
  "wit_life = \<lparr>un_phdrs = PhdrsVec [], un_init_handler = (\<lambda>f a (n, v). (n + 1, v)),
     un_fini_handler = (\<lambda>f a (n, v). (n + 10, v)), un_name = ''a'', un_dynamic_ptr = 0x100,
     un_segments = segments_new 0 0x1000, un_relro = None, un_user_data = ()\<rparr>"

definition wit_life_image :: "(unit, nat) raw_image" where
  "wit_life_image = \<lparr>im_entry = 0, im_interp = None, im_name = ''a'', im_phdrs = PhdrsVec [], im_state = Uninit wit_life\<rparr>"

definition wit_life_ext :: "nat ext" where
  "wit_life_ext = \<lparr>x_hb = oe_hb wit_env, x_mmap = bare_metal wit_heap, x_ifunc = (\<lambda>a s. (a, s)),
     x_pre_find = (\<lambda>_. None), x_post_find = (\<lambda>_. None), x_pre_handler = (\<lambda>_ _ _ s. (None, s)),
     x_post_handler = (\<lambda>_ _ _ s. (None, s)), x_call = (\<lambda>_ _ s. s), x_resolve = 0, x_alive = (\<lambda>_. True)\<rparr>"

definition wit_life_world :: "nat rworld" where
  "wit_life_world = \<lparr>rw_ext = 0, rw_vm = wit_vm\<lparr>vm_mem := wit_life_mem\<rparr>, rw_flags = [], rw_is_init = False,
     rw_lazy_scope = None\<rparr>"

lemma wit_life_section:
  "dyn_section wit_life_mem 0x100
     [\<lparr>d_tag = 6, d_un = 0x110\<rparr>, \<lparr>d_tag = 0x6FFFFEF5, d_un = 0x20\<rparr>, \<lparr>d_tag = 36, d_un = 0x500\<rparr>,
      \<lparr>d_tag = 35, d_un = 8\<rparr>, \<lparr>d_tag = 12, d_un = 0x700\<rparr>, \<lparr>d_tag = 13, d_un = 0x710\<rparr>]"
  by (simp add: dyn_section_def dyn_list_def wit_life_mem_def dyn_at_def read_le_def read_bytes_def
      mem_of_def write_bytes_def upt_rec abi)

lemma wit_life_dynamic:
  "\<exists>d. elf_dynamic_new wit_life_mem 0x100 (segments_new 0 0x1000) = Inr d \<and> pltrel d = None \<and> dynrel d = None \<and>
     relr d = Some (0x500, [0x500]) \<and> rel_count d = None \<and> needed_libs d = [] \<and> rpath_off d = None \<and>
     runpath_off d = None \<and> version_idx d = None \<and> dyn_ptr d = 0x100 \<and> init_fn d = Some 0x700 \<and> fini_fn d = Some 0x710"
  by (simp add: elf_dynamic_new_section [OF wit_life_section] dyn_finish_def dyn_entry_def dyn_init_def non_zero_def
      abi DT_RELR_def DT_RELRSZ_def version_range_def get_slice_def get_ptr_def base_of_def segments_new_def
      or_zero_def Let_def)

lemma wit_life_init:
  "\<exists>d. state_init 0x9000 wit_life_mem wit_life = Inr d \<and>
     ex_relocation (ld_extra d) = \<lparr>dr_relative = Relr [0x500], dr_pltrel = [], dr_dynrel = []\<rparr> \<and> ex_relro (ld_extra d) = None"
proof -
  obtain d where d: "elf_dynamic_new wit_life_mem 0x100 (segments_new 0 0x1000) = Inr d" "pltrel d = None" "dynrel d = None"
     "relr d = Some (0x500, [0x500])" "rel_count d = None" "needed_libs d = []" "rpath_off d = None"
     "runpath_off d = None" "version_idx d = None" "dyn_ptr d = 0x100"
    using wit_life_dynamic by blast
  have "symtab_from_dynamic wit_life_mem d =
      Inr \<lparr>st_hashtab = hash_from_dynamic wit_life_mem (dy_hashtab d), st_symtab = dy_symtab d, st_strtab = dy_strtab d, st_version = None\<rparr>"
    by (simp add: symtab_from_dynamic_def elf_version_new_def d Let_def)
  with d show ?thesis
    by (simp add: state_init_def wit_life_def result_unwrap_def dynamic_relocation_new_def or_empty_def opt_str_def
        non_zero_def Let_def)
qed

lemma relr_only_returns:
  assumes "di_relocation img = \<lparr>dr_relative = Relr ps, dr_pltrel = [], dr_dynrel = []\<rparr>" and "di_relro img = None"
  shows "\<exists>r. relocate_impl X img scope lazy custom w = Inr r"
  using assms
  by (auto simp: relocate_impl_def relocate_relative_def relocate_dynrel_def relocate_pltrel_def Let_def
      case_prod_unfold split: option.splits)

lemma wit_life_returns:
  "\<exists>lc c w'. image_relocate wit_life_ext 0x9000 wit_life_image [] None None wit_life_world = Inr ((lc, c), w')"
proof -
  obtain d where d: "state_init 0x9000 wit_life_mem wit_life = Inr d"
    "ex_relocation (ld_extra d) = \<lparr>dr_relative = Relr [0x500], dr_pltrel = [], dr_dynrel = []\<rparr>" "ex_relro (ld_extra d) = None"
    using wit_life_init by blast
  have "di_relocation (dynamic_image_of d) = \<lparr>dr_relative = Relr [0x500], dr_pltrel = [], dr_dynrel = []\<rparr>"
    "di_relro (dynamic_image_of d) = None"
    by (simp_all add: dynamic_image_of_def d)
  from relr_only_returns [OF this, of "wit_life_ext\<lparr>x_call := ex_init (ld_extra d)\<rparr>" "[]" None None
      "wit_life_world\<lparr>rw_is_init := ci_is_init (ld_module d), rw_lazy_scope := None\<rparr>"]
  obtain lc w' where "relocate_impl (wit_life_ext\<lparr>x_call := ex_init (ld_extra d)\<rparr>) (dynamic_image_of d) [] None None
      (wit_life_world\<lparr>rw_is_init := ci_is_init (ld_module d), rw_lazy_scope := None\<rparr>) = Inr (lc, w')"
    by auto
  moreover have "im_state wit_life_image = Uninit wit_life" "rw_mem wit_life_world = wit_life_mem"
    by (simp_all add: wit_life_image_def wit_life_world_def)
  ultimately show ?thesis by (simp add: image_relocate_def d(1))
qed

section \<open>Properties\<close>

text \<open>
  C22. A loader can be used again. What \<^verbatim>\<open>load\<close> returns does not depend on what earlier
  loads left in the buffer, and every load leaves a buffer that can hold the next header.
\<close>

theorem loader_reusable:
  assumes "reader_contract R content" and "64 \<le> length b1" and "64 \<le> length b2"
  shows "value_of (load E (L\<lparr>ldr_buf := b1\<rparr>) (Inr R) st) = value_of (load E (L\<lparr>ldr_buf := b2\<rparr>) (Inr R) st) \<and>
     (\<forall>e buf' st'. load E (L\<lparr>ldr_buf := b1\<rparr>) (Inr R) st = Inr ((e, buf'), st') \<longrightarrow> 64 \<le> length buf')"
  using reader_contract.load_length [OF assms(1), of E "L\<lparr>ldr_buf := b1\<rparr>"] assms(2,3) by (simp add: reader_contract.load_value [OF assms(1)] cong: if_cong)

theorem loader_reusable_witness:
  "value_of (load wit_env wit_loader (Inr (elf_binary ''/lib/a.so'' wit_so)) (0, wit_vm)) =
     value_of (load wit_env (wit_loader\<lparr>ldr_buf := replicate 200 0xAA\<rparr>) (Inr (elf_binary ''/lib/a.so'' wit_so)) (0, wit_vm))"
proof -
  have l: "wit_loader = wit_loader\<lparr>ldr_buf := elf_buf_new\<rparr>" by (simp add: wit_loader_def loader_new_def)
  show ?thesis
    by (subst l, rule loader_reusable [OF elf_binary_contract, THEN conjunct1])
      (simp_all add: elf_buf_new_def EHDR_SIZE_def size_ehdr_def)
qed

text \<open>
  C9. Which image a file becomes. A relocatable file is loaded as an object; a shared object as a
  library when it has a dynamic section and no interpreter, and as an executable otherwise; an
  executable without a dynamic section is static. Any other file type is the error that says so.
\<close>

theorem load_dispatch:
  assumes "reader_contract R content" and "64 \<le> length (ldr_buf L)"
    and "rd_read R 64 0 = Inr bs" and "vaildate (file_ehdr content) = Inr ()"
  defines "h \<equiv> file_ehdr content"
  shows "(\<forall>e buf' st'. load E L (Inr R) st = Inr ((e, buf'), st') \<longrightarrow> image_kind h (file_phdrs content h) e) \<and>
     (e_type h \<notin> {ET_REL, ET_EXEC, ET_DYN} \<longrightarrow>
        load E L (Inr R) st = Inl (Err (ParseEhdr ''file type mismatch'')))"
proof -
  have v: "value_of (load E L (Inr R) st) =
      (if e_type h = ET_REL then
         res_bind (result_unwrap (with_shdrs R content h Inr)) (\<lambda>shdrs.
           res_bind (object_spec E L R shdrs st) (\<lambda>(x, st). Inr (RawObj x, st)))
       else if e_type h = ET_EXEC then
         with_phdrs R content h (\<lambda>phs. res_bind (exec_spec L R h phs st) (\<lambda>(x, st). Inr (RawExec x, st)))
       else if e_type h = ET_DYN then
         with_phdrs R content h (\<lambda>phs.
           if has_type PT_INTERP phs \<or> \<not> has_type PT_DYNAMIC phs
           then res_bind (exec_spec L R h phs st) (\<lambda>(x, st). Inr (RawExec x, st))
           else res_bind (load_dynamic_impl L h phs R st) (\<lambda>(x, st). Inr (RawDylib x, st)))
       else file_type_mismatch)"
    unfolding h_def by (simp add: reader_contract.load_value [OF assms(1,2)] with_ehdr_def assms(3,4))
  have "image_kind h (file_phdrs content h) e" if "load E L (Inr R) st = Inr ((e, buf'), st')" for e buf' st'
    using v [symmetric] that
    by (auto simp: res_simps with_phdrs_def exec_spec_def file_type_mismatch_def split: if_splits)
  moreover have "load E L (Inr R) st = Inl (Err (ParseEhdr ''file type mismatch''))"
    if "e_type h \<notin> {ET_REL, ET_EXEC, ET_DYN}"
    using v that by (cases "load E L (Inr R) st") (auto simp: file_type_mismatch_def parse_ehdr_error_def)
  ultimately show ?thesis by blast
qed

theorem load_dispatch_witness:
  "load wit_env wit_loader (Inr (elf_binary ''core'' wit_core_file)) (0, wit_vm) =
     Inl (Err (ParseEhdr ''file type mismatch''))"
proof -
  have r: "rd_read (elf_binary ''core'' wit_core_file) 64 0 = Inr (take 64 wit_core_file)"
    by (subst elf_binary_reads) (simp_all add: wit_core_file_def)
  have l: "64 \<le> length (ldr_buf wit_loader)"
    by (simp add: wit_loader_def loader_new_def elf_buf_new_def EHDR_SIZE_def size_ehdr_def)
  from load_dispatch [OF elf_binary_contract l r wit_core_file_type(2)] show ?thesis
    by (simp add: wit_core_file_type(1) abi)
qed

text \<open>
  C7. A dynamic library, from its file to its image. For a valid file on bare metal, loading returns
  an image whose entry point and dynamic section are those of the headers, moved by the base, which
  has not been parsed yet and carries the loader's handlers; every loadable segment holds its bytes.
\<close>

theorem load_dylib_correct:
  assumes "file_ehdr (bytes_content bs) = h" and "file_phdrs (bytes_content bs) h = phs"
    and "vaildate h = Inr ()" and "is_dylib h"
    and "64 \<le> length bs" and "length bs < 2 ^ 64"
    and "unat (e_phoff h) + table_size (phdr_range h) \<le> length bs"
    and "\<forall>ph \<in> set phs. p_type ph = PT_LOAD \<longrightarrow>
      phdr_ok ph \<and> unat (p_offset ph) + unat (p_filesz ph) \<le> length bs"
    and "sorted_wrt pages_apart (filter (\<lambda>ph. p_type ph = PT_LOAD) phs)"
    and "heap_alloc A (fst (snd (parse_segments phs True))) w = (p, w1)" and "p \<noteq> 0" and "unat p mod 4096 = 0"
    and "unat p + unat (fst (snd (parse_segments phs True))) < 2 ^ 64"
    and "base = p - snd (snd (parse_segments phs True))"
    and "last_phdr PT_DYNAMIC phs = Some dh" and "\<not> has_type PT_INTERP phs"
    and "\<forall>ph \<in> set phs. p_type ph = PT_DYNAMIC \<longrightarrow> base + p_paddr ph \<noteq> 0"
    and "ldr_mmap L = bare_metal A" and "passive_hook (ldr_hook L)" and "64 \<le> length (ldr_buf L)"
  shows "\<exists>img u buf v. load_dylib L (Inr (elf_binary name bs)) (s, w) = Inr ((img, buf), s, v) \<and>
     im_entry img = base + e_entry h \<and> im_interp img = None \<and> im_state img = Uninit u \<and>
     base_of (un_segments u) = base \<and> un_dynamic_ptr u = base + p_paddr dh \<and>
     un_relro u = map_option (\<lambda>ph. relro_new ph base) (last_phdr PT_GNU_RELRO phs) \<and>
     un_init_handler u = ldr_init_fn L \<and> un_fini_handler u = ldr_fini_fn L \<and>
     (\<forall>ph \<in> set phs. p_type ph = PT_LOAD \<longrightarrow> holds_segment (bytes_content bs) (vm_mem v) base ph)"
proof -
  let ?R = "elf_binary name bs"
  obtain space v where lp: "load_program L h phs ?R (s, w) =
       Inr (image_builder_new (ldr_default L) space (shortname ?R) h (ldr_init_fn L) (ldr_fini_fn L), s, v)"
    and b: "base_of space = base"
    and hold: "\<forall>ph \<in> set phs. p_type ph = PT_LOAD \<longrightarrow> holds_segment (bytes_content bs) (vm_mem v) base ph"
    using bare_load_program [OF assms(8,9,6,10,11,12,13,18,4,14)] by blast
  define ib where "ib = image_builder_new (ldr_default L) space (shortname ?R) h (ldr_init_fn L) (ldr_fini_fn L)"
  have ib: "ib_segments ib = space" "ib_ehdr ib = h" "ib_interp ib = None" "ib_relro ib = None"
      "ib_init_fn ib = ldr_init_fn L" "ib_fini_fn ib = ldr_fini_fn L"
    by (simp_all add: ib_def image_builder_new_def)
  obtain b' where f: "res_fold (parse_phdr (ldr_hook L)) phs (ib, s, v) = Inr (b', s, v)" "same_image ib b'"
      "ib_interp b' = None" "ib_dynamic_ptr b' = Some (base + p_paddr dh)"
      "ib_relro b' = map_option (\<lambda>ph. relro_new ph base) (last_phdr PT_GNU_RELRO phs)"
    using parse_phdrs_passive [OF assms(19) _ assms(16), of ib "(s, v)"] assms(15,17) b ib
    by (auto simp: get_ptr_def split: option.splits)
  from f(2) ib have seg: "ib_segments b' = space" "ib_ehdr b' = h" "ib_init_fn b' = ldr_init_fn L"
      "ib_fini_fn b' = ldr_fini_fn L"
    by (simp_all add: same_image_def)
  have v: "value_of (load_dylib_internal L (ldr_buf L) ?R (s, w)) =
      build_dynamic (ldr_hook L) ib phs (s, v)"
    using elf_binary_reads [OF assms(7,6)] elf_binary_reads [of 0 64, OF _ assms(6)] assms(1-5)
    by (simp add: reader_contract.dylib_value [OF elf_binary_contract assms(20)] with_defs
        load_dynamic_impl_def lp ib_def fst_phdr_range)
  have bd: "build_dynamic (ldr_hook L) ib phs (s, v) =
     Inr (\<lparr>im_entry = e_entry h + base, im_interp = None, im_name = ib_name b', im_phdrs = create_phdrs b' phs,
           im_state = Uninit \<lparr>un_phdrs = create_phdrs b' phs, un_init_handler = ldr_init_fn L,
             un_fini_handler = ldr_fini_fn L, un_name = ib_name b', un_dynamic_ptr = base + p_paddr dh,
             un_segments = space, un_relro = ib_relro b', un_user_data = ib_user_data b'\<rparr>\<rparr>, s, v)"
    using f seg b assms(4) by (simp add: build_dynamic_def Let_def)
  from v bd obtain buf where "load_dylib L (Inr ?R) (s, w) =
     Inr ((\<lparr>im_entry = e_entry h + base, im_interp = None, im_name = ib_name b', im_phdrs = create_phdrs b' phs,
           im_state = Uninit \<lparr>un_phdrs = create_phdrs b' phs, un_init_handler = ldr_init_fn L,
             un_fini_handler = ldr_fini_fn L, un_name = ib_name b', un_dynamic_ptr = base + p_paddr dh,
             un_segments = space, un_relro = ib_relro b', un_user_data = ib_user_data b'\<rparr>\<rparr>, buf), s, v)"
    by (auto simp: load_dylib_def value_of_eq_Inr)
  with b f(5) hold show ?thesis by (simp add: add.commute)
qed

theorem load_dylib_correct_witness:
  "\<exists>img u buf v. load_dylib wit_loader (Inr (elf_binary ''/lib/a.so'' wit_so)) (0, wit_vm) = Inr ((img, buf), 0, v) \<and>
     im_entry img = 0x40010 \<and> im_state img = Uninit u \<and> un_dynamic_ptr u = 0x400B0 \<and>
     holds_segment (bytes_content wit_so) (vm_mem v) 0x40000 wit_load_hdr"
proof -
  let ?h = "file_ehdr (bytes_content wit_so)"
  have ps: "parse_segments [wit_load_hdr, wit_dyn_hdr] True = (None, 0x1000, 0)"
    by (simp add: parse_segments_def abi Let_def rounddown_def roundup_def PAGE_SIZE_def word_gt_0)
  have "\<exists>img u buf v. load_dylib wit_loader (Inr (elf_binary ''/lib/a.so'' wit_so)) (0, wit_vm) = Inr ((img, buf), 0, v) \<and>
     im_entry img = 0x40000 + e_entry ?h \<and> im_interp img = None \<and> im_state img = Uninit u \<and>
     base_of (un_segments u) = 0x40000 \<and> un_dynamic_ptr u = 0x40000 + p_paddr wit_dyn_hdr \<and>
     un_relro u = map_option (\<lambda>ph. relro_new ph 0x40000) (last_phdr PT_GNU_RELRO [wit_load_hdr, wit_dyn_hdr]) \<and>
     un_init_handler u = ldr_init_fn wit_loader \<and> un_fini_handler u = ldr_fini_fn wit_loader \<and>
     (\<forall>ph \<in> set [wit_load_hdr, wit_dyn_hdr]. p_type ph = PT_LOAD \<longrightarrow>
        holds_segment (bytes_content wit_so) (vm_mem v) 0x40000 ph)"
  proof (rule load_dylib_correct [OF refl wit_so_phdrs, where p = "0x40000" and ?w1.0 = wit_vm and A = wit_heap])
    show "vaildate ?h = Inr ()" by (simp add: vaildate_def wit_so_ehdr E_CLASS_def EM_ARCH_def abi)
    show "passive_hook (ldr_hook wit_loader)"
      by (simp add: passive_hook_def wit_loader_def loader_new_def unit_hook_def)
  qed (simp_all add: wit_so_ehdr is_dylib_def ps wit_heap_def phdr_ok_def abi table_size_def
      phdr_range_def Let_def last_phdr_def has_type_def wit_loader_def
      loader_new_def elf_buf_new_def EHDR_SIZE_def)
  then show ?thesis by (auto simp: wit_so_ehdr abi)
qed

text \<open>
  C23. Parsing on first access. However often an image is accessed, and whatever happens to the memory
  in between, its dynamic section is parsed once, at the first access, and every access returns that
  result; after a first access that failed, every later one panics.
\<close>

theorem lazy_parse_once:
  "force_all ((addr, m) # accs) (Uninit u) =
     (case state_init addr m u of
        Inr d \<Rightarrow> (replicate (Suc (length accs)) (Inr d), Init d)
      | Inl f \<Rightarrow> (Inl f # replicate (length accs) (Inl (Panic ''internal error: entered unreachable code'')), Empty))"
  by (cases "state_init addr m u") (simp_all add: force_all_Init force_all_Empty)

text \<open>
  C8. Constructors and destructors come in pairs. When an image with relocations has been relocated,
  its constructors ran last, through the loader's handler with the functions its dynamic section
  names; when its core is dropped, its destructors run before the memory is unmapped. An image without
  relocations runs neither.
\<close>

theorem constructors_destructors_paired:
  assumes "im_state img = Uninit u" and "image_relocate X addr img scope lazy custom w = Inr ((lc, c), w')"
  shows "\<exists>d dynamic. state_init addr (rw_mem w) u = Inr d \<and>
     elf_dynamic_new (rw_mem w) (un_dynamic_ptr u) (un_segments u) = Inr dynamic \<and>
     (if reloc_is_empty (ex_relocation (ld_extra d))
      then rw_ext w' = rw_ext w \<and> rw_vm w' = rw_vm w \<and>
        (\<forall>st. core_drop M c st = res_bind (drop_segments M (un_segments u) (snd st)) (\<lambda>v. Inr (fst st, v)))
      else (\<exists>st. (rw_ext w', rw_vm w') = un_init_handler u (init_fn dynamic) (init_array_fn dynamic) st) \<and>
        (\<forall>st. core_drop M c st =
           (let (s, v) = un_fini_handler u (fini_fn dynamic) (fini_array_fn dynamic) st
            in res_bind (drop_segments M (un_segments u) v) (\<lambda>v'. Inr (s, v')))))"
proof -
  obtain d where d: "state_init addr (rw_mem w) u = Inr d"
    and run: "relocate_impl (X\<lparr>x_call := ex_init (ld_extra d)\<rparr>) (dynamic_image_of d) scope lazy custom
        (w\<lparr>rw_is_init := ci_is_init (ld_module d), rw_lazy_scope := None\<rparr>) = Inr (lc, w')"
    and c: "c = (ld_module d)\<lparr>ci_is_init := rw_is_init w'\<rparr>"
    using assms by (auto simp: image_relocate_def res_simps split: sum.splits)
  obtain dynamic where dy: "elf_dynamic_new (rw_mem w) (un_dynamic_ptr u) (un_segments u) = Inr dynamic"
    "ex_init (ld_extra d) = un_init_handler u" "ex_init_fn (ld_extra d) = init_fn dynamic"
    "ex_init_array (ld_extra d) = init_array_fn dynamic"
    "ci_fini_handler (ld_module d) = un_fini_handler u" "ci_fini (ld_module d) = fini_fn dynamic"
    "ci_fini_array (ld_module d) = fini_array_fn dynamic" "ci_is_init (ld_module d) = False"
    "ci_segments (ld_module d) = un_segments u"
    by (rule state_init_fields [OF d])
  from relocate_impl_end [OF run] show ?thesis
    using d dy c by (intro exI [of _ d] exI [of _ dynamic])
      (auto simp: dynamic_image_of_def core_drop_def case_prod_unfold split: if_splits)
qed

theorem constructors_destructors_paired_witness:
  "\<exists>lc c w'. image_relocate wit_life_ext 0x9000 wit_life_image [] None None wit_life_world = Inr ((lc, c), w') \<and>
     1 \<le> rw_ext w' \<and> core_drop (bare_metal wit_heap) c (5, wit_vm) = Inr (15, wit_vm)"
proof -
  obtain lc c w' where run: "image_relocate wit_life_ext 0x9000 wit_life_image [] None None wit_life_world = Inr ((lc, c), w')"
    using wit_life_returns by blast
  have "im_state wit_life_image = Uninit wit_life" by (simp add: wit_life_image_def)
  from constructors_destructors_paired [OF this run, of "bare_metal wit_heap"] wit_life_init
  have "(\<exists>f a st. (rw_ext w', rw_vm w') = un_init_handler wit_life f a st) \<and>
      (\<exists>f a. \<forall>st. core_drop (bare_metal wit_heap) c st =
         (let (s, v) = un_fini_handler wit_life f a st
          in res_bind (drop_segments (bare_metal wit_heap) (un_segments wit_life) v) (\<lambda>v'. Inr (s, v'))))"
    by (auto simp: wit_life_world_def reloc_is_empty_def) blast+
  with run show ?thesis
    by (auto simp: wit_life_def drop_segments_def bare_metal_def bare_munmap_def wit_heap_def)
qed

end
