(* ===== verification/Object_Props.thy ===== *)
theory Object_Props
  imports Loader_Props Lookup_Props
begin

text \<open>
  The tables of a relocatable object. A loop over the entries of a table, each step of which reads and
  writes its own entry, is a function on entries: the interface \<open>entry_update\<close>, interpreted on the
  loop over symbols and the loop over relocations of \<^verbatim>\<open>ObjectBuilder::new\<close>.
\<close>

section \<open>Loops over the entries of a table\<close>

abbreviation entries_apart :: "nat \<Rightarrow> usize \<Rightarrow> usize \<Rightarrow> bool" where
  "entries_apart sz p q \<equiv> disjoint_ranges p sz q sz"

locale entry_update =
  fixes f :: "usize \<Rightarrow> mem \<Rightarrow> mem result"
    and sz :: nat
  assumes outside: "f p m = Inr m' \<Longrightarrow> \<not> in_range p sz x \<Longrightarrow> m' x = m x"
    and own: "f p m = Inr m' \<Longrightarrow> (\<And>x. in_range p sz x \<Longrightarrow> n x = m x) \<Longrightarrow>
      \<exists>n'. f p n = Inr n' \<and> (\<forall>x. in_range p sz x \<longrightarrow> n' x = m' x)"
begin

lemma table:
  assumes "res_fold f ps m = Inr m'" and "sorted_wrt (entries_apart sz) ps"
  shows "(\<forall>p \<in> set ps. \<exists>m1. f p m = Inr m1 \<and> (\<forall>x. in_range p sz x \<longrightarrow> m' x = m1 x)) \<and>
     (\<forall>x. (\<forall>p \<in> set ps. \<not> in_range p sz x) \<longrightarrow> m' x = m x)"
  using assms
proof (induction ps arbitrary: m)
  case Nil
  then show ?case by simp
next
  case (Cons p ps)
  obtain m1 where m1: "f p m = Inr m1" and rest: "res_fold f ps m1 = Inr m'"
    using Cons.prems(1) by (auto simp: res_simps)
  have apart: "entries_apart sz p q" if "q \<in> set ps" for q using Cons.prems(2) that by simp
  have IH: "\<forall>q \<in> set ps. \<exists>m2. f q m1 = Inr m2 \<and> (\<forall>x. in_range q sz x \<longrightarrow> m' x = m2 x)"
    and fr: "\<And>x. \<forall>q \<in> set ps. \<not> in_range q sz x \<Longrightarrow> m' x = m1 x"
    using Cons.IH [OF rest] Cons.prems(2) by auto
  have "\<exists>m2. f q m = Inr m2 \<and> (\<forall>x. in_range q sz x \<longrightarrow> m' x = m2 x)" if q: "q \<in> set ps" for q
  proof -
    from IH q obtain m2 where m2: "f q m1 = Inr m2" "\<forall>x. in_range q sz x \<longrightarrow> m' x = m2 x" by blast
    have "m x = m1 x" if "in_range q sz x" for x
      using outside [OF m1, of x] apart [OF q] that by (metis disjoint_ranges_def)
    from own [OF m2(1) this] m2(2) show ?thesis by fastforce
  qed
  moreover have "m' x = m1 x" if "in_range p sz x" for x
    using fr [of x] apart that by (auto simp: disjoint_ranges_def)
  moreover have "m' x = m x" if "\<forall>q \<in> set (p # ps). \<not> in_range q sz x" for x
    using fr [of x] outside [OF m1, of x] that by simp
  ultimately show ?case using m1 by auto
qed

end

lemma res_fold_Inr: "res_fold (\<lambda>x s. Inr (g x s)) xs s = Inr (fold g xs s)"
  by (induction xs arbitrary: s) simp_all

lemma table_apart:
  assumes "n * sz \<le> 2 ^ 64"
  shows "sorted_wrt (entries_apart sz) (map (\<lambda>i. a + of_nat (i * sz)) [0..<n])"
proof -
  have "entries_apart sz (a + of_nat (i * sz)) (a + of_nat (j * sz))" if "i < j" "j < n" for i j
  proof -
    have "Suc i * sz \<le> j * sz" "Suc j * sz \<le> n * sz" using that by (intro mult_le_mono1; simp)+
    then have le: "i * sz + sz \<le> j * sz" "j * sz + sz \<le> 2 ^ 64" "i * sz + sz \<le> 2 ^ 64" using assms by simp_all
    show ?thesis
      unfolding disjoint_ranges_def in_range_shift [OF le(2)] in_range_shift [OF le(3)] using le(1) by auto
  qed
  then show ?thesis by (simp add: sorted_wrt_map sorted_wrt_iff_nth_less)
qed

section \<open>Symbols and relocations\<close>

lemma sym_at_cong:
  assumes "\<And>k. k < 24 \<Longrightarrow> m (a + of_nat k) = m' (a + of_nat k)"
  shows "sym_at m a = sym_at m' a"
proof -
  note f = read_le_field [of 24 m a m', OF assms]
  from f [of 0 4] f [of 4 1] f [of 5 1] f [of 6 2] f [of 8 8] f [of 16 8]
  show ?thesis by (simp add: sym_at_def)
qed

lemma rela_at_cong:
  assumes "\<And>k. k < 24 \<Longrightarrow> m (a + of_nat k) = m' (a + of_nat k)"
  shows "rela_at m a = rela_at m' a"
proof -
  note f = read_le_field [of 24 m a m', OF assms]
  from f [of 0 8] f [of 8 8] f [of 16 8] show ?thesis by (simp add: rela_at_def)
qed

text \<open>Eight bytes of an entry, and the entry after they have been written.\<close>

lemma field_in_entry: "k + n \<le> 24 \<Longrightarrow> in_range (p + of_nat k) n x \<Longrightarrow> in_range p 24 x"
  by (subst (asm) in_range_shift) (simp_all add: in_range_def)

lemma write_le_agree:
  "(\<And>x. in_range p 24 x \<Longrightarrow> n x = m x) \<Longrightarrow> in_range p 24 x \<Longrightarrow>
     write_le k n a v x = write_le k m a v x"
  by (simp add: write_le_def)

lemma fields_apart: "disjoint_ranges (p + of_nat i) k (p + of_nat j) l"
  if "i + k \<le> j \<or> j + l \<le> i" and "i + k \<le> 2 ^ 64" and "j + l \<le> 2 ^ 64"
  unfolding disjoint_ranges_def in_range_shift [OF that(2)] in_range_shift [OF that(3)] using that(1) by auto

lemma sym_at_write_value: "sym_at (write_u64 m (p + 8) v) p = (sym_at m p)\<lparr>sym_value := v\<rparr>"
  using fields_apart [of 8 8 0 4 p] fields_apart [of 8 8 4 1 p] fields_apart [of 8 8 5 1 p]
    fields_apart [of 8 8 6 2 p] fields_apart [of 8 8 16 8 p]
  by (simp add: sym_at_def read_le_write_le_disjoint read_write_le)

lemma rela_at_write_offset: "rela_at (write_u64 m p v) p = (rela_at m p)\<lparr>rela_offset := v\<rparr>"
  using fields_apart [of 0 8 8 8 p] fields_apart [of 0 8 16 8 p]
  by (simp add: rela_at_def read_le_write_le_disjoint read_write_le)

text \<open>What the builder makes of one symbol and of one relocation.\<close>

definition symbol_rebased :: "usize \<Rightarrow> shdr list \<Rightarrow> sym \<Rightarrow> sym" where
  "symbol_rebased base shs s =
     (if st_type s = STT_FILE \<or> st_shndx s = 0 then s
      else s\<lparr>sym_value := sh_addr (shs ! unat (st_shndx s)) - base + sym_value s\<rparr>)"

definition rel_rebased :: "usize \<Rightarrow> usize \<Rightarrow> rela \<Rightarrow> rela" where
  "rel_rebased base section_base r = r\<lparr>rela_offset := section_base + rela_offset r - base\<rparr>"

lemma symbol_rebase_cases:
  assumes "symbol_rebase base shs p m = Inr m'"
  shows "m' = m \<and> symbol_rebased base shs (sym_at m p) = sym_at m p \<or>
     m' = write_u64 m (p + 8) (sym_value (symbol_rebased base shs (sym_at m p)))"
  using assms by (auto simp: symbol_rebase_def symbol_rebased_def shdr_addr_def sym_set_value_def st_value_def
      SHN_UNDEF_def Let_def res_simps split: if_splits)

lemma symbol_rebase_entry:
  assumes "symbol_rebase base shs p m = Inr m'"
  shows "sym_at m' p = symbol_rebased base shs (sym_at m p)"
  using symbol_rebase_cases [OF assms] by (auto simp: sym_at_write_value symbol_rebased_def)

interpretation symbols: entry_update "symbol_rebase base shs" 24 for base shs
proof
  fix p m m' x assume run: "symbol_rebase base shs p m = Inr m'" and x: "\<not> in_range p 24 x"
  have "\<not> in_range (p + 8) 8 x" using field_in_entry [of 8 8 p x] x by auto
  with run show "m' x = m x"
    by (auto dest!: symbol_rebase_cases simp: write_le_frame)
next
  fix p m m' n assume run: "symbol_rebase base shs p m = Inr m'" and agree: "\<And>x. in_range p 24 x \<Longrightarrow> n x = m x"
  have s: "sym_at n p = sym_at m p" by (rule sym_at_cong) (simp add: agree in_range_add_of_nat)
  from run write_le_agree [of p n m, OF agree]
  show "\<exists>n'. symbol_rebase base shs p n = Inr n' \<and> (\<forall>x. in_range p 24 x \<longrightarrow> n' x = m' x)"
    by (auto simp: symbol_rebase_def s Let_def res_simps agree split: if_splits)
qed

interpretation relocations: entry_update "\<lambda>p m. Inr (rel_rebase base section_base p m)" 24 for base section_base
proof
  fix p m m' x assume run: "Inr (rel_rebase base section_base p m) = (Inr m' :: mem result)" and x: "\<not> in_range p 24 x"
  have "\<not> in_range p 8 x" using field_in_entry [of 0 8 p x] x by auto
  with run show "m' x = m x"
    by (auto simp: rel_rebase_def Let_def write_le_frame)
next
  fix p m m' n assume run: "Inr (rel_rebase base section_base p m) = (Inr m' :: mem result)"
    and agree: "\<And>x. in_range p 24 x \<Longrightarrow> n x = m x"
  have s: "rela_at n p = rela_at m p" by (rule rela_at_cong) (simp add: agree in_range_add_of_nat)
  from run write_le_agree [of p n m, OF agree]
  show "\<exists>n'. Inr (rel_rebase base section_base p n) = (Inr n' :: mem result) \<and> (\<forall>x. in_range p 24 x \<longrightarrow> n' x = m' x)"
    by (auto simp: rel_rebase_def s Let_def)
qed

text \<open>The address of entry \<open>i\<close> of a table section.\<close>

definition entry_ptr :: "shdr \<Rightarrow> nat \<Rightarrow> usize" where
  "entry_ptr sh i = sh_addr sh + of_nat (i * 24)"

definition entry_count :: "shdr \<Rightarrow> nat" where
  "entry_count sh = unat (sh_size sh div sh_entsize sh)"

lemma content_entries:
  "content_mut 24 sh = Inr ptrs \<Longrightarrow> ptrs = map (entry_ptr sh) [0..<entry_count sh]"
  by (auto simp: content_mut_def entry_ptr_def entry_count_def split: if_splits)

lemma entries_apart_table:
  "entry_count sh * 24 \<le> 2 ^ 64 \<Longrightarrow> sorted_wrt (entries_apart 24) (map (entry_ptr sh) [0..<entry_count sh])"
  using table_apart [of "entry_count sh" 24 "sh_addr sh"] by (simp add: entry_ptr_def [abs_def])

lemma outside_table:
  assumes "entry_count sh * 24 \<le> unat (x - sh_addr sh)" and "entry_count sh * 24 \<le> 2 ^ 64"
    and "q \<in> set (map (entry_ptr sh) [0..<entry_count sh])"
  shows "\<not> in_range q 24 x"
proof -
  obtain i where q: "q = sh_addr sh + of_nat (i * 24)" "Suc i \<le> entry_count sh"
    using assms(3) by (auto simp: entry_ptr_def)
  have le: "i * 24 + 24 \<le> entry_count sh * 24" using q(2) by simp
  then have "i * 24 + 24 \<le> 2 ^ 64" using assms(2) by simp
  from in_range_shift [OF this, of "sh_addr sh" x] show ?thesis
    unfolding q(1) using le assms(1) by auto
qed

section \<open>Properties\<close>

text \<open>The entries of a table after a step that visited them, and the bytes outside.\<close>

lemma symtab_section:
  assumes run: "object_symtab HB base shs sh p = Inr p'" and n: "entry_count sh * 24 \<le> 2 ^ 64"
  shows "i < entry_count sh \<Longrightarrow>
      sym_at (op_mem p') (entry_ptr sh i) = symbol_rebased base shs (sym_at (op_mem p) (entry_ptr sh i))"
    and "entry_count sh * 24 \<le> unat (x - sh_addr sh) \<Longrightarrow> op_mem p' x = op_mem p x"
proof -
  from run have fold: "res_fold (symbol_rebase base shs) (map (entry_ptr sh) [0..<entry_count sh]) (op_mem p) = Inr (op_mem p')"
    by (auto simp: object_symtab_def size_sym_def res_simps dest!: content_entries)
  note tab = symbols.table [OF fold entries_apart_table [OF n]]
  show "sym_at (op_mem p') (entry_ptr sh i) = symbol_rebased base shs (sym_at (op_mem p) (entry_ptr sh i))"
    if "i < entry_count sh"
  proof -
    have "entry_ptr sh i \<in> set (map (entry_ptr sh) [0..<entry_count sh])" using that by simp
    with tab obtain m1 where m1: "symbol_rebase base shs (entry_ptr sh i) (op_mem p) = Inr m1"
      and eq: "\<forall>x. in_range (entry_ptr sh i) 24 x \<longrightarrow> op_mem p' x = m1 x" by blast
    have "sym_at (op_mem p') (entry_ptr sh i) = sym_at m1 (entry_ptr sh i)"
      by (rule sym_at_cong) (simp add: eq in_range_add_of_nat)
    with symbol_rebase_entry [OF m1] show ?thesis by simp
  qed
  show "op_mem p' x = op_mem p x" if "entry_count sh * 24 \<le> unat (x - sh_addr sh)"
    using tab outside_table [OF that n] by blast
qed

lemma rel_section:
  assumes run: "object_rels base shs sh p = Inr p'" and n: "entry_count sh * 24 \<le> 2 ^ 64"
  shows "i < entry_count sh \<Longrightarrow> rela_at (op_mem p') (entry_ptr sh i) =
      rel_rebased base (sh_addr (shs ! unat (sh_info sh))) (rela_at (op_mem p) (entry_ptr sh i))"
    and "entry_count sh * 24 \<le> unat (x - sh_addr sh) \<Longrightarrow> op_mem p' x = op_mem p x"
proof -
  let ?sb = "sh_addr (shs ! unat (sh_info sh))"
  from run have fold: "res_fold (\<lambda>q m. Inr (rel_rebase base ?sb q m)) (map (entry_ptr sh) [0..<entry_count sh]) (op_mem p) =
      (Inr (op_mem p') :: mem result)"
    unfolding res_fold_Inr
    by (auto simp: object_rels_def size_rela_def shdr_addr_def res_simps split: if_splits dest!: content_entries)
  note tab = relocations.table [OF fold entries_apart_table [OF n]]
  show "rela_at (op_mem p') (entry_ptr sh i) = rel_rebased base ?sb (rela_at (op_mem p) (entry_ptr sh i))"
    if "i < entry_count sh"
  proof -
    from tab that have "\<forall>x. in_range (entry_ptr sh i) 24 x \<longrightarrow>
        op_mem p' x = rel_rebase base ?sb (entry_ptr sh i) (op_mem p) x" by auto
    then have "rela_at (op_mem p') (entry_ptr sh i) = rela_at (rel_rebase base ?sb (entry_ptr sh i) (op_mem p)) (entry_ptr sh i)"
      by (intro rela_at_cong) (simp add: in_range_add_of_nat)
    then show ?thesis
      by (simp add: rel_rebase_def rela_at_write_offset rel_rebased_def rela_set_offset_def r_offset_def Let_def)
  qed
  show "op_mem p' x = op_mem p x" if "entry_count sh * 24 \<le> unat (x - sh_addr sh)"
    using tab outside_table [OF that n] by blast
qed

text \<open>
  C21. The tables of an object. Processing a symbol table section adds to the value of every defined
  symbol the address of its section, relative to the base; processing a relocation section does the
  same to the offset of every entry with the section it applies to. Nothing else changes, and file
  symbols and undefined symbols stay as they are.
\<close>

theorem object_tables_rebased:
  assumes "object_shdr HB base shs sh p = Inr p'" and "entry_count sh * 24 \<le> 2 ^ 64"
  shows "(sh_type sh = SHT_SYMTAB \<longrightarrow> (\<forall>i < entry_count sh.
        sym_at (op_mem p') (entry_ptr sh i) = symbol_rebased base shs (sym_at (op_mem p) (entry_ptr sh i)))) \<and>
     (sh_type sh \<in> {SHT_RELA, SHT_REL} \<longrightarrow> (\<forall>i < entry_count sh.
        rela_at (op_mem p') (entry_ptr sh i) =
          rel_rebased base (sh_addr (shs ! unat (sh_info sh))) (rela_at (op_mem p) (entry_ptr sh i)))) \<and>
     (\<forall>x. entry_count sh * 24 \<le> unat (x - sh_addr sh) \<longrightarrow> op_mem p' x = op_mem p x)"
proof -
  consider (symtab) "sh_type sh = SHT_SYMTAB" "object_symtab HB base shs sh p = Inr p'"
    | (rel) "sh_type sh \<in> {SHT_RELA, SHT_REL}" "object_rels base shs sh p = Inr p'"
    | (other) "sh_type sh \<notin> {SHT_SYMTAB, SHT_RELA, SHT_REL}" "op_mem p' = op_mem p"
    using assms(1) by (auto simp: object_shdr_def res_simps split: if_splits)
  then show ?thesis
  proof cases
    case symtab
    then have "sh_type sh \<notin> {SHT_RELA, SHT_REL}" by (simp add: abi)
    with symtab symtab_section [OF symtab(2) assms(2)] show ?thesis by blast
  next
    case rel
    then have "sh_type sh \<noteq> SHT_SYMTAB" by (auto simp: abi)
    with rel rel_section [OF rel(2) assms(2)] show ?thesis by blast
  next
    case other
    then show ?thesis by simp
  qed
qed

definition wit_rela_shdr :: shdr where
  "wit_rela_shdr = shdr_new 0 SHT_RELA 0 0x400 0 72 0 1 8 24"

definition wit_parts :: object_parts where
  "wit_parts = \<lparr>op_symtab = None, op_relocation = [], op_init_array = None, op_mem = wit_sym_mem\<rparr>"

theorem object_tables_rebased_witness:
  "\<exists>p'. object_shdr wit_hb 0x100 [wit_symtab_shdr, wit_strtab_shdr] wit_rela_shdr wit_parts = Inr p' \<and>
     rela_offset (rela_at (op_mem p') 0x400) = 0x220 \<and> op_mem p' 0x300 = wit_sym_mem 0x300"
proof -
  let ?shs = "[wit_symtab_shdr, wit_strtab_shdr]"
  have e: "entry_count wit_rela_shdr = 3" "entry_ptr wit_rela_shdr 0 = 0x400"
    by (simp_all add: entry_count_def entry_ptr_def wit_rela_shdr_def shdr_new_def)
  obtain p' where p': "object_shdr wit_hb 0x100 ?shs wit_rela_shdr wit_parts = Inr p'"
    by (simp add: object_shdr_def object_rels_def content_mut_def shdr_addr_def wit_rela_shdr_def shdr_new_def abi)
  have r: "rela_offset (rela_at wit_sym_mem 0x400) = 0x20" by (simp add: rela_at_def wit_read)
  have f: "sh_type wit_rela_shdr = SHT_RELA" "sh_info wit_rela_shdr = 1" "sh_addr wit_rela_shdr = 0x400"
      "sh_addr wit_strtab_shdr = 0x300" "op_mem wit_parts = wit_sym_mem"
    by (simp_all add: wit_rela_shdr_def shdr_new_def wit_strtab_shdr_def wit_parts_def)
  have t: "(\<forall>i < 3. rela_at (op_mem p') (entry_ptr wit_rela_shdr i) =
        rel_rebased 0x100 0x300 (rela_at wit_sym_mem (entry_ptr wit_rela_shdr i))) \<and>
      (\<forall>x. 72 \<le> unat (x - 0x400) \<longrightarrow> op_mem p' x = wit_sym_mem x)"
    using object_tables_rebased [OF p'] by (simp add: e f)
  then have "rela_at (op_mem p') 0x400 = rel_rebased 0x100 0x300 (rela_at wit_sym_mem 0x400)"
    using e(2) by (metis zero_less_numeral)
  moreover have "72 \<le> unat (0x300 - 0x400 :: usize)" by simp
  with t have "op_mem p' 0x300 = wit_sym_mem 0x300" by blast
  ultimately show ?thesis using p' r by (simp add: rel_rebased_def)
qed

end
