(* ===== verification/Os_Files.thy ===== *)
theory Os_Files
  imports Os_Unix
begin

text \<open>
  Files: \<^verbatim>\<open>RawFile\<close> of \<^verbatim>\<open>src/src/os/unix.rs\<close> is opened from a path or made
  from a descriptor, and closed when it is dropped; \<^verbatim>\<open>src/src/input/backend.rs\<close> wraps
  it as \<^verbatim>\<open>ElfFile\<close> and converts every kind of input into a reader. The system calls on
  the table of descriptors are the parameter \<open>posix_os\<close>; what a descriptor reads is a \<open>fileio\<close>.
\<close>

section \<open>Opening and closing\<close>

text \<open>\<^verbatim>\<open>CString::from_str(path).unwrap()\<close>: a path must not contain the null character.\<close>

definition c_string :: "string \<Rightarrow> string result" where
  "c_string path =
     (if CHR 0x00 \<in> set path then Inl (Panic ''called `Result::unwrap()` on an `Err` value'') else Inr path)"

text \<open>Each call takes the state of the process's descriptors; a result of all ones is \<open>-1\<close>.\<close>

record 'os posix_os =
  c_open :: "string \<Rightarrow> u32 \<Rightarrow> 'os \<Rightarrow> u32 \<times> 'os"
  c_close :: "u32 \<Rightarrow> 'os \<Rightarrow> u32 \<times> 'os"
  c_fd :: "u32 \<Rightarrow> 'os \<Rightarrow> nat fileio"

definition O_RDONLY :: u32 where
  "O_RDONLY = 0"

record raw_file_handle =
  rf_name :: string
  rf_fd :: usize

definition raw_file_from_path :: "'os posix_os \<Rightarrow> string \<Rightarrow> 'os \<Rightarrow> (raw_file_handle \<times> 'os) result" where
  "raw_file_from_path P path os =
     res_bind (c_string path) (\<lambda>name.
       let (fd, os') = c_open P name O_RDONLY os
       in if fd = - 1 then Inl (Err (io_error ''open failed''))
          else Inr (\<lparr>rf_name = path, rf_fd = scast fd\<rparr>, os'))"

definition raw_file_from_owned_fd :: "string \<Rightarrow> u32 \<Rightarrow> raw_file_handle" where
  "raw_file_from_owned_fd path raw_fd = \<lparr>rf_name = path, rf_fd = scast raw_fd\<rparr>"

text \<open>The result of \<^verbatim>\<open>close\<close> is ignored.\<close>

definition raw_file_drop :: "'os posix_os \<Rightarrow> raw_file_handle \<Rightarrow> 'os \<Rightarrow> 'os" where
  "raw_file_drop P rf os = snd (c_close P (ucast (rf_fd rf)) os)"

text \<open>The reader of a handle; a new descriptor stands at the start of its file.\<close>

definition raw_file_reader :: "'os posix_os \<Rightarrow> 'os \<Rightarrow> raw_file_handle \<Rightarrow> elf_reader" where
  "raw_file_reader P os rf = raw_file (rf_name rf) (rf_fd rf) (c_fd P (ucast (rf_fd rf)) os) 0"

section \<open>Inputs\<close>

text \<open>
  \<^verbatim>\<open>ElfFile\<close> forwards to its handle. The operating system is the implementation of
  \<^verbatim>\<open>RawFile\<close> the build selects: how a path and a descriptor become a handle, and how a
  handle is read.
\<close>

record ('os, 'h) os_files =
  os_from_path :: "string \<Rightarrow> 'os \<Rightarrow> ('h \<times> 'os) result"
  os_from_owned_fd :: "string \<Rightarrow> u32 \<Rightarrow> 'h result"
  os_reader :: "'os \<Rightarrow> 'h \<Rightarrow> elf_reader"

record 'h elf_file =
  ef_inner :: 'h

definition elf_file_from_path :: "('os, 'h) os_files \<Rightarrow> string \<Rightarrow> 'os \<Rightarrow> ('h elf_file \<times> 'os) result" where
  "elf_file_from_path B path os =
     res_bind (os_from_path B path os) (\<lambda>(h, os'). Inr (\<lparr>ef_inner = h\<rparr>, os'))"

definition elf_file_from_owned_fd :: "('os, 'h) os_files \<Rightarrow> string \<Rightarrow> u32 \<Rightarrow> 'h elf_file result" where
  "elf_file_from_owned_fd B path raw_fd =
     res_bind (os_from_owned_fd B path raw_fd) (\<lambda>h. Inr \<lparr>ef_inner = h\<rparr>)"

definition elf_file_reader :: "('os, 'h) os_files \<Rightarrow> 'os \<Rightarrow> 'h elf_file \<Rightarrow> elf_reader" where
  "elf_file_reader B os f =
     (let inner = os_reader B os (ef_inner f)
      in \<lparr>file_name = file_name inner, rd_read = (\<lambda>n off. rd_read inner n off), as_fd = as_fd inner\<rparr>)"

text \<open>The types that implement \<^verbatim>\<open>IntoElfReader\<close>.\<close>

datatype 'h input =
    StrPath string
  | StringPath string
  | ByteSlice bytes
  | ByteVec bytes
  | InputFile "'h elf_file"
  | InputBinary string bytes

definition into_reader :: "('os, 'h) os_files \<Rightarrow> 'h input \<Rightarrow> 'os \<Rightarrow> (elf_reader \<times> 'os) result" where
  "into_reader B i os =
     (case i of
        StrPath path \<Rightarrow>
          res_bind (elf_file_from_path B path os) (\<lambda>(f, os'). Inr (elf_file_reader B os' f, os'))
      | StringPath path \<Rightarrow>
          res_bind (elf_file_from_path B path os) (\<lambda>(f, os'). Inr (elf_file_reader B os' f, os'))
      | ByteSlice bs \<Rightarrow> res_bind (bytes_into_reader bs) (\<lambda>R. Inr (R, os))
      | ByteVec bs \<Rightarrow> res_bind (bytes_into_reader bs) (\<lambda>R. Inr (R, os))
      | InputFile f \<Rightarrow> Inr (elf_file_reader B os f, os)
      | InputBinary name bs \<Rightarrow> Inr (elf_binary name bs, os))"

definition unix_files :: "'os posix_os \<Rightarrow> ('os, raw_file_handle) os_files" where
  "unix_files P =
     \<lparr>os_from_path = raw_file_from_path P,
      os_from_owned_fd = (\<lambda>path fd. Inr (raw_file_from_owned_fd path fd)),
      os_reader = raw_file_reader P\<rparr>"

text \<open>On bare metal there are no files: a handle is never made.\<close>

definition bare_from_path :: "string \<Rightarrow> 'os \<Rightarrow> ('h \<times> 'os) result" where
  "bare_from_path path os = Inl (Panic ''not implemented'')"

definition bare_from_owned_fd :: "string \<Rightarrow> u32 \<Rightarrow> 'h result" where
  "bare_from_owned_fd path raw_fd = Inl (Panic ''not yet implemented'')"

section \<open>What opening promises\<close>

text \<open>
  The implementation of \<^verbatim>\<open>RawFile\<close> as the loader sees it: \<open>reads os h content\<close> says that
  the descriptor of the handle reads \<open>content\<close>; then so does the reader of the handle. The handle of
  a path keeps the path as its name and has a descriptor to map.
\<close>

locale file_backend =
  fixes B :: "('os, 'h) os_files"
    and reads :: "'os \<Rightarrow> 'h \<Rightarrow> (nat \<Rightarrow> u8) \<Rightarrow> bool"
  assumes handle_content: "reads os h content \<Longrightarrow> reader_contract (os_reader B os h) content"
    and opened_name: "os_from_path B path os = Inr (h, os') \<Longrightarrow> file_name (os_reader B os' h) = path"
    and opened_fd: "os_from_path B path os = Inr (h, os') \<Longrightarrow> as_fd (os_reader B os' h) \<noteq> None"
begin

lemma into_reader_path:
  assumes "into_reader B (StrPath path) os = Inr (R, os')"
  obtains h where "os_from_path B path os = Inr (h, os')" and "file_name R = path" and "as_fd R \<noteq> None"
    and "\<And>content. reads os' h content \<Longrightarrow> reader_contract R content"
proof -
  from assms obtain h where h: "os_from_path B path os = Inr (h, os')"
    and R: "R = elf_file_reader B os' \<lparr>ef_inner = h\<rparr>"
    by (auto simp: into_reader_def elf_file_from_path_def res_simps)
  then have "file_name R = file_name (os_reader B os' h)" "as_fd R = as_fd (os_reader B os' h)"
    "rd_read R = rd_read (os_reader B os' h)" by (simp_all add: elf_file_reader_def Let_def)
  with opened_name [OF h] opened_fd [OF h] handle_content show thesis
    by (intro that [OF h]) (simp_all add: reader_contract_def)
qed

end

lemma ucast_scast_fd: "ucast (scast (fd :: u32) :: usize) = fd"
  by (intro bit_word_eqI) (simp add: bit_ucast_iff bit_signed_iff)

interpretation unix_files: file_backend "unix_files P"
  "\<lambda>os h content. \<exists>sz. posix_file (c_fd P (ucast (rf_fd h)) os) content sz" for P
proof (rule file_backend.intro)
  show "reader_contract (os_reader (unix_files P) os h) content"
    if "\<exists>sz. posix_file (c_fd P (ucast (rf_fd h)) os) content sz" for os h content
    using that by (auto simp: unix_files_def raw_file_reader_def intro: raw_file_contract)
qed (auto simp: unix_files_def raw_file_reader_def raw_file_from_path_def c_string_def res_simps raw_file_def
      split: if_splits prod.splits)

text \<open>The conversion of a path by \<^verbatim>\<open>into_reader\<close>: every outcome.\<close>

lemma unix_path_outcome:
  "into_reader (unix_files P) (StrPath path) os =
     (if CHR 0x00 \<in> set path then Inl (Panic ''called `Result::unwrap()` on an `Err` value'')
      else if fst (c_open P path O_RDONLY os) = - 1 then Inl (Err (io_error ''open failed''))
      else Inr (raw_file path (scast (fst (c_open P path O_RDONLY os)))
                 (c_fd P (fst (c_open P path O_RDONLY os)) (snd (c_open P path O_RDONLY os))) 0,
               snd (c_open P path O_RDONLY os)))"
  by (simp add: into_reader_def elf_file_from_path_def unix_files_def raw_file_from_path_def c_string_def
      elf_file_reader_def raw_file_reader_def raw_file_def ucast_scast_fd split: prod.split)

end
