(* ===== verification/Os_Linux.thy ===== *)
theory Os_Linux
  imports Os_Files Loading_Props
begin

text \<open>
  \<^verbatim>\<open>src/src/os/linux_syscall.rs\<close>: the \<^verbatim>\<open>Mmap\<close> implementation and the file reader over
  raw system calls, on a 64-bit kernel. A call returns one word: the values above \<open>-4096\<close> are
  negated error numbers. The calls are parameters, \<open>kernel\<close> for memory, \<open>kernel_fd\<close> for one
  descriptor and \<open>kernel_files\<close> for the table of descriptors. The theorems compare this backend with
  the one over \<^verbatim>\<open>libc\<close> and characterise its reads.
\<close>

section \<open>Results of system calls\<close>

definition from_ret :: "usize \<Rightarrow> string \<Rightarrow> usize result" where
  "from_ret value msg = (if - 4096 < value then Inl (Err (Mmap msg)) else Inr value)"

definition from_io_ret :: "usize \<Rightarrow> string \<Rightarrow> usize result" where
  "from_io_ret value msg = (if - 4096 < value then Inl (Err (io_error msg)) else Inr value)"

section \<open>Mapping\<close>

text \<open>
  The arguments are the register values: protection, flags and descriptor are sign-extended
  \<^verbatim>\<open>c_int\<close> values.
\<close>

record kernel =
  k_mmap :: "usize \<Rightarrow> usize \<Rightarrow> usize \<Rightarrow> usize \<Rightarrow> usize \<Rightarrow> usize \<Rightarrow> vm \<Rightarrow> usize \<times> vm"
  k_munmap :: "usize \<Rightarrow> usize \<Rightarrow> vm \<Rightarrow> usize \<times> vm"
  k_mprotect :: "usize \<Rightarrow> usize \<Rightarrow> usize \<Rightarrow> vm \<Rightarrow> usize \<times> vm"

definition sys_mmap ::
  "kernel \<Rightarrow> usize \<Rightarrow> usize \<Rightarrow> u32 \<Rightarrow> u32 \<Rightarrow> u32 \<Rightarrow> usize \<Rightarrow> vm \<Rightarrow> (usize \<times> vm) result" where
  "sys_mmap K addr len prot flags fd offset w =
     (let (v, w') = k_mmap K addr len (scast prot) (scast flags) (scast fd) offset w
      in res_bind (from_ret v ''mmap failed'') (\<lambda>ptr. Inr (ptr, w')))"

definition sys_mmap_anonymous ::
  "kernel \<Rightarrow> usize \<Rightarrow> usize \<Rightarrow> u32 \<Rightarrow> u32 \<Rightarrow> vm \<Rightarrow> (usize \<times> vm) result" where
  "sys_mmap_anonymous K addr len prot flags w =
     (let (v, w') = k_mmap K addr len (scast prot) (scast (flags OR MAP_ANONYMOUS)) (- 1) 0 w
      in res_bind (from_ret v ''mmap anonymous'') (\<lambda>ptr. Inr (ptr, w')))"

definition sys_munmap :: "kernel \<Rightarrow> usize \<Rightarrow> usize \<Rightarrow> vm \<Rightarrow> vm result" where
  "sys_munmap K addr len w =
     (let (v, w') = k_munmap K addr len w
      in res_bind (from_ret v ''munmap failed'') (\<lambda>_. Inr w'))"

definition sys_mprotect :: "kernel \<Rightarrow> usize \<Rightarrow> usize \<Rightarrow> u32 \<Rightarrow> vm \<Rightarrow> vm result" where
  "sys_mprotect K addr len prot w =
     (let (v, w') = k_mprotect K addr len (scast prot) w
      in res_bind (from_ret v ''mprotect failed'') (\<lambda>_. Inr w'))"

definition linux_mmap ::
  "kernel \<Rightarrow> usize option \<Rightarrow> usize \<Rightarrow> u32 \<Rightarrow> u32 \<Rightarrow> usize \<Rightarrow> usize option \<Rightarrow> vm \<Rightarrow>
     ((usize \<times> bool) \<times> vm) result" where
  "linux_mmap K addr len prot flags offset fd w =
     (case fd of
        Some fd \<Rightarrow>
          res_bind (sys_mmap K (case addr of None \<Rightarrow> 0 | Some a \<Rightarrow> a) len prot flags (ucast fd) offset w)
            (\<lambda>(p, w'). Inr ((p, False), w'))
      | None \<Rightarrow>
          res_bind (unwrap ''called `Option::unwrap()` on a `None` value'' addr)
            (\<lambda>a. Inr ((a, True), w)))"

definition linux_mmap_anonymous ::
  "kernel \<Rightarrow> usize \<Rightarrow> usize \<Rightarrow> u32 \<Rightarrow> u32 \<Rightarrow> vm \<Rightarrow> (usize \<times> vm) result" where
  "linux_mmap_anonymous K addr len prot flags w = sys_mmap_anonymous K addr len prot flags w"

definition linux_munmap :: "kernel \<Rightarrow> usize \<Rightarrow> usize \<Rightarrow> vm \<Rightarrow> vm result" where
  "linux_munmap K addr len w = sys_munmap K addr len w"

definition linux_mprotect :: "kernel \<Rightarrow> usize \<Rightarrow> usize \<Rightarrow> u32 \<Rightarrow> vm \<Rightarrow> vm result" where
  "linux_mprotect K addr len prot w = sys_mprotect K addr len prot w"

definition linux_mmap_reserve :: "kernel \<Rightarrow> usize option \<Rightarrow> usize \<Rightarrow> bool \<Rightarrow> vm \<Rightarrow> (usize \<times> vm) result" where
  "linux_mmap_reserve K addr len use_file w =
     (let flags = MAP_PRIVATE OR MAP_ANONYMOUS;
          prot = (if use_file then PROT_NONE else PROT_WRITE)
      in sys_mmap_anonymous K (case addr of None \<Rightarrow> 0 | Some a \<Rightarrow> a) len prot flags w)"

definition linux_ops :: "kernel \<Rightarrow> mmap_ops" where
  "linux_ops K =
     \<lparr>op_mmap = linux_mmap K, op_mmap_anonymous = linux_mmap_anonymous K, op_munmap = linux_munmap K,
      op_mprotect = linux_mprotect K, op_mmap_reserve = linux_mmap_reserve K\<rparr>"

section \<open>Files\<close>

text \<open>
  One descriptor, and the table of descriptors. \<open>k_read\<close> returns the result of the call and the
  bytes it stored.
\<close>

record 'fs kernel_fd =
  k_lseek :: "usize \<Rightarrow> usize \<Rightarrow> 'fs \<Rightarrow> usize \<times> 'fs"
  k_read :: "usize \<Rightarrow> 'fs \<Rightarrow> (usize \<times> bytes) \<times> 'fs"

record 'os kernel_files =
  k_open :: "string \<Rightarrow> usize \<Rightarrow> usize \<Rightarrow> 'os \<Rightarrow> usize \<times> 'os"
  k_close :: "usize \<Rightarrow> 'os \<Rightarrow> usize \<times> 'os"
  k_fd :: "usize \<Rightarrow> 'os \<Rightarrow> nat kernel_fd"

definition linux_from_owned_fd :: "string \<Rightarrow> u32 \<Rightarrow> raw_file_handle result" where
  "linux_from_owned_fd path raw_fd =
     res_bind (c_string path) (\<lambda>name. Inr \<lparr>rf_name = name, rf_fd = scast raw_fd\<rparr>)"

definition linux_from_path :: "'os kernel_files \<Rightarrow> string \<Rightarrow> 'os \<Rightarrow> (raw_file_handle \<times> 'os) result" where
  "linux_from_path P path os =
     res_bind (c_string path) (\<lambda>name.
       let (v, os') = k_open P name 0 0 os
       in res_bind (from_io_ret v ''open failed'') (\<lambda>fd. Inr (\<lparr>rf_name = name, rf_fd = fd\<rparr>, os')))"

text \<open>The drop unwraps the result of \<^verbatim>\<open>close\<close>.\<close>

definition linux_drop :: "'os kernel_files \<Rightarrow> raw_file_handle \<Rightarrow> 'os \<Rightarrow> 'os result" where
  "linux_drop P rf os =
     (let (v, os') = k_close P (rf_fd rf) os
      in case from_io_ret v ''close failed'' of
           Inl e \<Rightarrow> Inl (Panic ''called `Result::unwrap()` on an `Err` value'')
         | Inr _ \<Rightarrow> Inr os')"

text \<open>One \<^verbatim>\<open>read\<close>, whose size is asserted.\<close>

definition linux_file_read :: "'fs kernel_fd \<Rightarrow> 'fs \<Rightarrow> nat \<Rightarrow> usize \<Rightarrow> bytes result" where
  "linux_file_read F fs n offset =
     (let (p, fs1) = k_lseek F offset 0 fs
      in res_bind (from_io_ret p ''lseek failed'') (\<lambda>_.
           let ((v, bs), fs2) = k_read F (of_nat n) fs1
           in res_bind (from_io_ret v ''read failed'') (\<lambda>sz.
              res_bind (rust_assert ''assertion failed: size == buf.len()'' (sz = of_nat n)) (\<lambda>_. Inr bs))))"

definition linux_file :: "string \<Rightarrow> usize \<Rightarrow> 'fs kernel_fd \<Rightarrow> 'fs \<Rightarrow> elf_reader" where
  "linux_file name fd F fs = \<lparr>file_name = name, rd_read = linux_file_read F fs, as_fd = Some fd\<rparr>"

definition linux_file_reader :: "'os kernel_files \<Rightarrow> 'os \<Rightarrow> raw_file_handle \<Rightarrow> elf_reader" where
  "linux_file_reader P os rf = linux_file (rf_name rf) (rf_fd rf) (k_fd P (rf_fd rf) os) 0"

definition linux_files :: "'os kernel_files \<Rightarrow> ('os, raw_file_handle) os_files" where
  "linux_files P =
     \<lparr>os_from_path = linux_from_path P, os_from_owned_fd = linux_from_owned_fd,
      os_reader = linux_file_reader P\<rparr>"

section \<open>What the kernel documents\<close>

text \<open>
  A regular file: a seek to an offset that is negative as a signed number is the error
  \<^verbatim>\<open>EINVAL\<close>, all others move the position; a read stops at the end of the file and after
  \<open>0x7ffff000\<close> bytes.
\<close>

definition linux_regular :: "nat kernel_fd \<Rightarrow> (nat \<Rightarrow> u8) \<Rightarrow> nat \<Rightarrow> bool" where
  "linux_regular F content sz \<longleftrightarrow>
     (\<forall>off pos. k_lseek F off 0 pos = (if unat off < 2 ^ 63 then (off, unat off) else (- 22, pos))) \<and>
     (\<forall>n pos. k_read F n pos =
        (let k = min (min (unat n) 0x7ffff000) (sz - pos)
         in ((of_nat k, map (\<lambda>i. content (pos + i)) [0..<k]), pos + k)))"

text \<open>
  The C library over the same kernel: an error number becomes \<^verbatim>\<open>MAP_FAILED\<close> or \<open>-1\<close>.
\<close>

definition libc_of :: "kernel \<Rightarrow> libc" where
  "libc_of K =
     \<lparr>c_mmap = (\<lambda>a len prot flags fd off w.
        let (v, w') = k_mmap K a len (scast prot) (scast flags) (scast fd) off w
        in (if - 4096 < v then MAP_FAILED else v, w')),
      c_munmap = (\<lambda>a len w. let (v, w') = k_munmap K a len w in (if - 4096 < v then - 1 else 0, w')),
      c_mprotect = (\<lambda>a len prot w.
        let (v, w') = k_mprotect K a len (scast prot) w in (if - 4096 < v then - 1 else 0, w'))\<rparr>"

section \<open>Computations with the same successful results\<close>

text \<open>The faults may differ: the two backends word their messages differently.\<close>

definition same_ok :: "'a result \<Rightarrow> 'a result \<Rightarrow> bool" where
  "same_ok x y \<longleftrightarrow> (\<forall>r. x = Inr r \<longleftrightarrow> y = Inr r)"

lemma same_ok_refl [intro, simp]: "same_ok x x"
  by (simp add: same_ok_def)

lemma same_ok_bind [intro]:
  "same_ok x y \<Longrightarrow> (\<And>r. same_ok (f r) (g r)) \<Longrightarrow> same_ok (res_bind x f) (res_bind y g)"
  by (simp add: same_ok_def res_simps)

lemma same_ok_fold:
  assumes "\<And>x s. x \<in> set xs \<Longrightarrow> same_ok (f x s) (g x s)"
  shows "same_ok (res_fold f xs s) (res_fold g xs s)"
  using assms by (induction xs arbitrary: s) (simp_all add: same_ok_bind)

text \<open>Two implementations that map files and zeros with the same success.\<close>

locale mmap_agree =
  fixes M N :: mmap_ops
  assumes mmap_agree: "same_ok (op_mmap M a len prot flags off (Some fd) w) (op_mmap N a len prot flags off (Some fd) w)"
    and anonymous_agree: "same_ok (op_mmap_anonymous M b len prot flags w) (op_mmap_anonymous N b len prot flags w)"
    and mprotect_agree: "same_ok (op_mprotect M b len prot w) (op_mprotect N b len prot w)"
    and munmap_agree: "same_ok (op_munmap M b len w) (op_munmap N b len w)"
begin

lemma load_one_agree:
  assumes "as_fd R = Some fd"
  shows "same_ok (load_one M R base (create_segment ph) st) (load_one N R base (create_segment ph) st)"
proof -
  have map: "same_ok (mmap_segment M R s w) (mmap_segment N R s w)" if "length (map_info s) = 1" for s w
    unfolding mmap_segment_def using assms that by (auto intro!: same_ok_bind mmap_agree)
  have zero: "same_ok (fill_zero M s w) (fill_zero N s w)" for s w
    unfolding fill_zero_def Let_def by (auto intro!: same_ok_bind anonymous_agree)
  have "length (map_info s) = 1" if "rebase base (create_segment ph) = Inr s" for s
    using that by (auto simp: rebase_def create_segment_simps res_simps)
  then show ?thesis
    unfolding load_one_def
    by (cases "rebase base (create_segment ph)")
      (auto intro!: same_ok_bind map zero split: prod.split)
qed

lemma load_list_agree:
  assumes "as_fd R = Some fd"
  shows "same_ok (load_segment_list M R base (create_segments phs) w) (load_segment_list N R base (create_segments phs) w)"
  unfolding load_segment_list_def create_segments_def
  by (rule same_ok_fold) (auto intro: load_one_agree [OF assms])

lemma mprotect_all_agree: "same_ok (mprotect_all M segs w) (mprotect_all N segs w)"
  unfolding mprotect_all_def seg_mprotect_def by (intro same_ok_fold) (auto intro!: same_ok_bind mprotect_agree)

lemma relro_agree: "same_ok (relro M r w) (relro N r w)"
  unfolding relro_def Let_def by (rule mprotect_agree)

lemma drop_agree: "same_ok (drop_segments M s w) (drop_segments N s w)"
  using munmap_agree [of "memory s" "space_len s" w]
  by (auto simp: drop_segments_def same_ok_def split: sum.splits)

end

lemma not_error_not_failed: "\<not> - 4096 < v \<Longrightarrow> v \<noteq> MAP_FAILED"
  by (auto simp: MAP_FAILED_def)

lemma aligned_not_error:
  assumes "unat a mod 4096 = 0"
  shows "\<not> - 4096 < (a :: usize)"
proof -
  from assms obtain q where q: "unat a = 4096 * q" by (auto simp: mod_eq_0_iff_dvd elim: dvdE)
  have "unat a < 2 ^ 64" by (rule order.strict_trans2 [OF unsigned_less]) simp
  with q have "q < 2 ^ 52" by simp
  then show ?thesis unfolding word_less_nat_alt q by simp
qed

lemma linux_mmap_agree: "mmap_agree (linux_ops K) (unix_ops (libc_of K))"
  by unfold_locales
    (auto simp: same_ok_def linux_ops_def unix_ops_def linux_mmap_def unix_mmap_def sys_mmap_def libc_of_def
      linux_mmap_anonymous_def unix_mmap_anonymous_def sys_mmap_anonymous_def linux_mprotect_def unix_mprotect_def
      sys_mprotect_def linux_munmap_def unix_munmap_def sys_munmap_def from_ret_def res_simps
      dest: not_error_not_failed split: prod.splits if_splits option.splits)

interpretation linux: mmap_agree "linux_ops K" "unix_ops (libc_of K)" for K
  by (rule linux_mmap_agree)

section \<open>Reading\<close>

lemma linux_read_regular:
  assumes F: "linux_regular F content sz" and n: "n < 2 ^ 64"
  shows "linux_file_read F pos n off =
     (if 2 ^ 63 \<le> unat off then Inl (Err (io_error ''lseek failed''))
      else if n = 0 \<or> n \<le> 0x7ffff000 \<and> unat off + n \<le> sz
        then Inr (map (\<lambda>i. content (unat off + i)) [0..<n])
      else Inl (Panic ''assertion failed: size == buf.len()''))"
proof -
  let ?k = "min (min n 0x7ffff000) (sz - unat off)"
  have un: "unat (of_nat n :: usize) = n" and uk: "unat (of_nat ?k :: usize) = ?k"
    using n by (simp_all add: unat_of_nat_below)
  have seek: "- 4096 < off \<Longrightarrow> 2 ^ 63 \<le> unat off"
    by (simp add: word_less_nat_alt)
  have "\<not> - 4096 < (of_nat ?k :: usize)"
    unfolding word_less_nat_alt uk by simp
  moreover have "(of_nat ?k = (of_nat n :: usize)) \<longleftrightarrow> ?k = n"
    by (metis un uk)
  moreover have "?k = n \<longleftrightarrow> n = 0 \<or> n \<le> 0x7ffff000 \<and> unat off + n \<le> sz" by auto
  ultimately show ?thesis
    using F seek un
    by (auto simp: linux_file_read_def linux_regular_def from_io_ret_def rust_assert_def Let_def not_le)
qed

lemma linux_file_contract:
  assumes "linux_regular F content sz"
  shows "reader_contract (linux_file name fd F pos) content"
  by unfold_locales (auto simp: linux_file_def linux_read_regular [OF assms] split: if_splits)

interpretation linux_files: file_backend "linux_files P"
  "\<lambda>os h content. \<exists>sz. linux_regular (k_fd P (rf_fd h) os) content sz" for P
proof (rule file_backend.intro)
  show "reader_contract (os_reader (linux_files P) os h) content"
    if "\<exists>sz. linux_regular (k_fd P (rf_fd h) os) content sz" for os h content
    using that by (auto simp: linux_files_def linux_file_reader_def intro: linux_file_contract)
qed (auto simp: linux_files_def linux_file_reader_def linux_from_path_def c_string_def res_simps linux_file_def
      split: if_splits prod.splits)

section \<open>Loading\<close>

text \<open>A failed reservation is an error here; the backend over \<^verbatim>\<open>libc\<close> goes on with it.\<close>

lemma linux_reserve:
  "linux_mmap_reserve K addr len uf w = Inr (p, w') \<longleftrightarrow>
     unix_mmap_reserve (libc_of K) addr len uf w = Inr (p, w') \<and> p \<noteq> MAP_FAILED"
proof -
  have "(MAP_PRIVATE OR MAP_ANONYMOUS) OR MAP_ANONYMOUS = MAP_PRIVATE OR MAP_ANONYMOUS" "scast (- 1 :: u32) = (- 1 :: usize)"
    by (simp_all add: or.assoc)
  then show ?thesis
    by (auto simp: linux_mmap_reserve_def unix_mmap_reserve_def sys_mmap_anonymous_def libc_of_def from_ret_def
        res_simps Let_def dest: not_error_not_failed split: prod.splits if_splits)
qed

lemma linux_create_space:
  "create_space (linux_ops K) phs dylib uf w = Inr (space, w') \<longleftrightarrow>
     create_space (unix_ops (libc_of K)) phs dylib uf w = Inr (space, w') \<and> memory space \<noteq> MAP_FAILED"
  by (auto simp: create_space_def linux_ops_def unix_ops_def linux_reserve res_simps split: prod.splits)

lemma linux_load_segments:
  assumes "as_fd R = Some fd"
  shows "load_segments (linux_ops K) R phs dylib w = Inr r \<longleftrightarrow>
     load_segments (unix_ops (libc_of K)) R phs dylib w = Inr r \<and> memory (fst (fst r)) \<noteq> MAP_FAILED"
  using linux.load_list_agree [OF assms]
  by (cases r) (auto simp: load_segments_def linux_create_space same_ok_def res_simps)

lemma linux_path_outcome:
  "into_reader (linux_files P) (StrPath path) os =
     (if CHR 0x00 \<in> set path then Inl (Panic ''called `Result::unwrap()` on an `Err` value'')
      else res_bind (from_io_ret (fst (k_open P path 0 0 os)) ''open failed'') (\<lambda>fd.
        let os' = snd (k_open P path 0 0 os) in Inr (linux_file path fd (k_fd P fd os') 0, os')))"
  by (cases "k_open P path 0 0 os"; cases "from_io_ret (fst (k_open P path 0 0 os)) ''open failed''")
    (simp_all add: into_reader_def elf_file_from_path_def linux_files_def linux_from_path_def c_string_def
      elf_file_reader_def linux_file_reader_def linux_file_def Let_def)

text \<open>
  From a path to loaded segments: when the file can be opened and mapped, loading over raw system
  calls returns, and every loadable segment holds its file bytes followed by zeros.
\<close>

lemma linux_load_correct:
  assumes rd: "into_reader (linux_files P) (StrPath path) os = Inr (R, os')"
    and content: "\<And>fd. as_fd R = Some fd \<Longrightarrow> linux_regular (k_fd P fd os') content sz \<and> fdata (ucast fd) = content"
    and mmap: "posix_mmap (libc_of K) fdata"
      "\<And>fd. as_fd R = Some fd \<Longrightarrow> mmap_grants (libc_of K) (ucast fd) sz addr len w"
    and phs: "\<forall>ph \<in> set phs. p_type ph = PT_LOAD \<longrightarrow> phdr_in_file sz ph"
      "sorted_wrt pages_apart (filter (\<lambda>ph. p_type ph = PT_LOAD) phs)"
      "parse_segments phs dylib = (addr, len, min_vaddr)"
  shows "\<exists>space segs w'.
     load_segments (linux_ops K) R phs dylib w = Inr ((space, segs), w') \<and>
     (\<forall>ph \<in> set phs. p_type ph = PT_LOAD \<longrightarrow>
        holds_segment content (vm_mem w') (base_of space) ph)"
proof -
  obtain fd where fd: "as_fd R = Some fd" and R: "R = linux_file path fd (k_fd P fd os') 0"
    using rd by (auto simp: linux_path_outcome linux_file_def res_simps Let_def split: if_splits)
  note reg = content [OF fd, THEN conjunct1] and fdata = content [OF fd, THEN conjunct2]
  have env: "loading_env (unix_ops (libc_of K)) (\<lambda>f. fdata (ucast f)) R content"
    using unix_contract [OF mmap(1)] linux_file_contract [OF reg, of path fd 0] fdata fd
    by (auto simp: loading_env_def loading_env_axioms_def R)
  have ok: "\<forall>ph \<in> set phs. p_type ph = PT_LOAD \<longrightarrow> phdr_ok ph" using phs(1) by (simp add: phdr_in_file_def)
  from unix_load_returns [OF mmap(2) [OF fd] phs(3,1) fd] obtain space segs w' where
    run: "load_segments (unix_ops (libc_of K)) R phs dylib w = Inr ((space, segs), w')"
    and mem: "unat (memory space) mod 4096 = 0" and al: "unat (base_of space) mod 4096 = 0" by metis
  have "memory space \<noteq> MAP_FAILED"
    by (rule not_error_not_failed, rule aligned_not_error, rule mem)
  with run have "load_segments (linux_ops K) R phs dylib w = Inr ((space, segs), w')"
    by (simp add: linux_load_segments [OF fd])
  with loading_env.load_segments_spec [OF env run ok phs(2) al] show ?thesis by blast
qed

section \<open>Concrete inputs\<close>

text \<open>The calls of the POSIX witnesses as a kernel: failures are the error number \<open>22\<close>.\<close>

definition wit_kernel :: kernel where
  "wit_kernel =
     \<lparr>k_mmap = (\<lambda>a len prot flags fd off w.
        let (p, w') = wit_mmap a len (ucast prot) (ucast flags) (ucast fd) off w
        in (if p = MAP_FAILED then - 22 else p, w')),
      k_munmap = (\<lambda>_ _ w. (0, w)), k_mprotect = (\<lambda>_ _ _ w. (0, w))\<rparr>"

lemma wit_kernel_libc: "libc_of wit_kernel = wit_libc"
proof -
  have "- 4096 < (- 22 :: usize)" "\<not> - 4096 < (0x40000 :: usize)" by simp_all
  then show ?thesis
    by (auto simp: libc_of_def wit_kernel_def wit_libc_def wit_mmap_def ucast_scast_fd fun_eq_iff Let_def
        aligned_not_error)
qed

definition wit_kfd :: "nat kernel_fd" where
  "wit_kfd =
     \<lparr>k_lseek = (\<lambda>off _ pos. if unat off < 2 ^ 63 then (off, unat off) else (- 22, pos)),
      k_read = (\<lambda>n pos. let k = min (min (unat n) 0x7ffff000) (9000 - pos)
                         in ((of_nat k, map (\<lambda>i. wit_content (pos + i)) [0..<k]), pos + k))\<rparr>"

section \<open>Properties\<close>

text \<open>
  C3. Raw system calls and the C library. Over the same kernel, loading a file with raw system calls
  succeeds exactly when loading with the C library does and the reservation is a valid address, with
  the same image; so do the protection of its segments, of the RELRO range, and its unmapping.
\<close>

theorem linux_agrees_with_libc:
  assumes "as_fd R = Some fd"
  shows "(load_segments (linux_ops K) R phs dylib w = Inr ((space, segs), w') \<longleftrightarrow>
       load_segments (unix_ops (libc_of K)) R phs dylib w = Inr ((space, segs), w') \<and> memory space \<noteq> MAP_FAILED) \<and>
     (\<forall>segs w w'. mprotect_all (linux_ops K) segs w = Inr w' \<longleftrightarrow> mprotect_all (unix_ops (libc_of K)) segs w = Inr w') \<and>
     (\<forall>r w w'. relro (linux_ops K) r w = Inr w' \<longleftrightarrow> relro (unix_ops (libc_of K)) r w = Inr w') \<and>
     (\<forall>s w w'. drop_segments (linux_ops K) s w = Inr w' \<longleftrightarrow> drop_segments (unix_ops (libc_of K)) s w = Inr w')"
  using linux_load_segments [OF assms, of K phs dylib w "((space, segs), w')"]
    linux.mprotect_all_agree linux.relro_agree linux.drop_agree
  unfolding same_ok_def by simp

theorem linux_agrees_with_libc_witness:
  "\<exists>space segs w'.
     load_segments (unix_ops (libc_of wit_kernel)) (linux_file ''x'' 3 wit_kfd 0) [wit_text, wit_data] True wit_vm
       = Inr ((space, segs), w') \<and>
     load_segments (linux_ops wit_kernel) (linux_file ''x'' 3 wit_kfd 0) [wit_text, wit_data] True wit_vm
       = Inr ((space, segs), w')"
proof -
  let ?R = "linux_file ''x'' 3 wit_kfd 0"
  have fd: "as_fd ?R = Some 3" by (simp add: linux_file_def)
  have "mmap_grants (libc_of wit_kernel) (ucast (3 :: usize)) 9000 None 0x3000 wit_vm"
    unfolding wit_kernel_libc by (rule wit_libc_grants) simp_all
  from unix_load_returns [OF this wit_parse [of True, simplified] wit_in_file fd] obtain space segs w' where
    run: "load_segments (unix_ops (libc_of wit_kernel)) ?R [wit_text, wit_data] True wit_vm = Inr ((space, segs), w')"
    and mem: "unat (memory space) mod 4096 = 0" by metis
  have "memory space \<noteq> MAP_FAILED"
    by (rule not_error_not_failed, rule aligned_not_error, rule mem)
  with run linux_agrees_with_libc [OF fd, of wit_kernel "[wit_text, wit_data]" True wit_vm space segs w']
  show ?thesis by blast
qed

text \<open>
  C34. Reading a regular file by raw system calls: every outcome. An offset that is negative as a signed
  number is the error of the seek; a range inside the file, of at most 0x7ffff000 bytes, is read;
  every other read fails the assertion on its size and panics.
\<close>

theorem linux_read_outcome:
  assumes "linux_regular F content sz" and "n < 2 ^ 64"
  shows "linux_file_read F pos n off =
     (if 2 ^ 63 \<le> unat off then Inl (Err (io_error ''lseek failed''))
      else if n = 0 \<or> n \<le> 0x7ffff000 \<and> unat off + n \<le> sz
        then Inr (map (\<lambda>i. content (unat off + i)) [0..<n])
      else Inl (Panic ''assertion failed: size == buf.len()''))"
  by (rule linux_read_regular [OF assms])

theorem linux_read_outcome_witness:
  "linux_file_read wit_kfd 0 3 0x10 = Inr [0x10, 0x11, 0x12] \<and>
   linux_file_read wit_kfd 0 8 0x2324 = Inl (Panic ''assertion failed: size == buf.len()'')"
proof -
  have F: "linux_regular wit_kfd wit_content 9000"
    by (simp add: linux_regular_def wit_kfd_def Let_def)
  have "[0..<3] = [0, 1, 2 :: nat]" by (simp add: upt_rec)
  then show ?thesis
    using linux_read_outcome [OF F, of 3 0 "0x10"] linux_read_outcome [OF F, of 8 0 "0x2324"]
    by (simp add: wit_content_def)
qed

end
