(* ===== verification/Image_Api.thy ===== *)
theory Image_Api
  imports Loader_Props Reloc_Props
begin

text \<open>
  The public view of images: the accessors of \<^verbatim>\<open>image/common/dynamic.rs\<close>,
  \<^verbatim>\<open>image/common/core.rs\<close>, \<^verbatim>\<open>image/kinds/exec.rs\<close> and \<^verbatim>\<open>image/mod.rs\<close>. Those
  that need the dynamic section go through the lazily parsed data and may be its first access; they
  return the image with its new state. An image that a load returned stays consistent with its
  parsed data, and the kind, name, entry point and length of the relocated image follow from the
  headers of the file.
\<close>

section \<open>Dynamic images\<close>

text \<open>\<^verbatim>\<open>LazyParse::deref\<close>: what \<open>f\<close> reads of the parsed data, and the image after the access.\<close>

definition image_access ::
  "(('d, 's) lazy_data \<Rightarrow> 'a) \<Rightarrow> usize \<Rightarrow> mem \<Rightarrow> ('d, 's) raw_image \<Rightarrow> 'a result \<times> ('d, 's) raw_image" where
  "image_access f addr m img =
     (let (r, st) = force addr m (im_state img)
      in (res_bind r (\<lambda>d. Inr (f d)), img\<lparr>im_state := st\<rparr>))"

definition image_entry :: "('d, 's) raw_image \<Rightarrow> usize" where
  "image_entry img = im_entry img"

definition image_interp :: "('d, 's) raw_image \<Rightarrow> bytes option" where
  "image_interp img = im_interp img"

definition image_name :: "('d, 's) raw_image \<Rightarrow> string" where
  "image_name img = im_name img"

definition image_phdrs :: "mem \<Rightarrow> ('d, 's) raw_image \<Rightarrow> phdr list" where
  "image_phdrs m img = (case im_phdrs img of PhdrsMmap s \<Rightarrow> map (phdr_at m) (snd s) | PhdrsVec phs \<Rightarrow> phs)"

definition image_core :: "usize \<Rightarrow> mem \<Rightarrow> ('d, 's) raw_image \<Rightarrow> elf_core result \<times> ('d, 's) raw_image" where
  "image_core = image_access (\<lambda>d. core_of (ld_addr d) (ld_module d))"

definition image_is_lazy :: "usize \<Rightarrow> mem \<Rightarrow> ('d, 's) raw_image \<Rightarrow> bool result \<times> ('d, 's) raw_image" where
  "image_is_lazy = image_access (\<lambda>d. ex_lazy (ld_extra d))"

definition image_rpath :: "usize \<Rightarrow> mem \<Rightarrow> ('d, 's) raw_image \<Rightarrow> string option result \<times> ('d, 's) raw_image" where
  "image_rpath = image_access (\<lambda>d. ex_rpath (ld_extra d))"

definition image_runpath :: "usize \<Rightarrow> mem \<Rightarrow> ('d, 's) raw_image \<Rightarrow> string option result \<times> ('d, 's) raw_image" where
  "image_runpath = image_access (\<lambda>d. ex_runpath (ld_extra d))"

definition image_relro :: "usize \<Rightarrow> mem \<Rightarrow> ('d, 's) raw_image \<Rightarrow> elf_relro option result \<times> ('d, 's) raw_image" where
  "image_relro = image_access (\<lambda>d. ex_relro (ld_extra d))"

definition image_symtab :: "usize \<Rightarrow> mem \<Rightarrow> ('d, 's) raw_image \<Rightarrow> symbol_table result \<times> ('d, 's) raw_image" where
  "image_symtab = image_access (\<lambda>d. ci_symtab (ld_module d))"

definition image_base :: "usize \<Rightarrow> mem \<Rightarrow> ('d, 's) raw_image \<Rightarrow> usize result \<times> ('d, 's) raw_image" where
  "image_base = image_access (\<lambda>d. base_of (ci_segments (ld_module d)))"

definition image_mapped_len :: "usize \<Rightarrow> mem \<Rightarrow> ('d, 's) raw_image \<Rightarrow> usize result \<times> ('d, 's) raw_image" where
  "image_mapped_len = image_access (\<lambda>d. space_len (ci_segments (ld_module d)))"

definition image_needed_libs :: "usize \<Rightarrow> mem \<Rightarrow> ('d, 's) raw_image \<Rightarrow> string list result \<times> ('d, 's) raw_image" where
  "image_needed_libs = image_access (\<lambda>d. ex_needed_libs (ld_extra d))"

definition image_dynamic_ptr :: "usize \<Rightarrow> mem \<Rightarrow> ('d, 's) raw_image \<Rightarrow> usize option result \<times> ('d, 's) raw_image" where
  "image_dynamic_ptr = image_access (\<lambda>d. map_option info_dynamic_ptr (ci_dynamic_info (ld_module d)))"

definition image_user_data :: "usize \<Rightarrow> mem \<Rightarrow> ('d, 's) raw_image \<Rightarrow> 'd result \<times> ('d, 's) raw_image" where
  "image_user_data = image_access (\<lambda>d. ci_user_data (ld_module d))"

section \<open>Cores\<close>

definition core_set_init :: "('d, 's) core_inner \<Rightarrow> ('d, 's) core_inner" where
  "core_set_init c = c\<lparr>ci_is_init := True\<rparr>"

definition core_phdrs :: "mem \<Rightarrow> ('d, 's) core_inner \<Rightarrow> phdr list option" where
  "core_phdrs m c = map_option (\<lambda>info. phdrs_as_slice m (info_phdrs info)) (ci_dynamic_info c)"

definition core_dynamic_ptr :: "('d, 's) core_inner \<Rightarrow> usize option" where
  "core_dynamic_ptr c = map_option info_dynamic_ptr (ci_dynamic_info c)"

definition core_mapped_len :: "elf_core \<Rightarrow> usize" where
  "core_mapped_len c = space_len (c_segments c)"

section \<open>Executables\<close>

fun exec_name :: "('d, 's) exec_image \<Rightarrow> string" where
  "exec_name (ExecDynamic img) = image_name img"
| "exec_name (ExecStatic img) = si_image_name img"

fun exec_entry :: "('d, 's) exec_image \<Rightarrow> usize" where
  "exec_entry (ExecDynamic img) = image_entry img"
| "exec_entry (ExecStatic img) = si_entry img"

fun exec_mapped_len :: "usize \<Rightarrow> mem \<Rightarrow> ('d, 's) exec_image \<Rightarrow> usize result \<times> ('d, 's) exec_image" where
  "exec_mapped_len addr m (ExecDynamic img) =
     (let (r, img') = image_mapped_len addr m img in (r, ExecDynamic img'))"
| "exec_mapped_len addr m (ExecStatic img) = (Inr (space_len (si_segments img)), ExecStatic img)"

fun loaded_exec_entry :: "('d, 's) loaded_exec \<Rightarrow> usize" where
  "loaded_exec_entry (LoadedExecDynamic entry lc c) = entry"
| "loaded_exec_entry (LoadedExecStatic entry img) = entry"

fun loaded_exec_name :: "('d, 's) loaded_exec \<Rightarrow> string" where
  "loaded_exec_name (LoadedExecDynamic entry lc c) = c_name (lc_core lc)"
| "loaded_exec_name (LoadedExecStatic entry img) = si_image_name img"

fun loaded_exec_mapped_len :: "('d, 's) loaded_exec \<Rightarrow> usize" where
  "loaded_exec_mapped_len (LoadedExecDynamic entry lc c) = core_mapped_len (lc_core lc)"
| "loaded_exec_mapped_len (LoadedExecStatic entry img) = space_len (si_segments img)"

fun loaded_exec_user_data :: "('d, 's) loaded_exec \<Rightarrow> 'd" where
  "loaded_exec_user_data (LoadedExecDynamic entry lc c) = ci_user_data c"
| "loaded_exec_user_data (LoadedExecStatic entry img) = si_user_data img"

fun is_static :: "('d, 's) loaded_exec \<Rightarrow> bool" where
  "is_static (LoadedExecDynamic entry lc c) = False"
| "is_static (LoadedExecStatic entry img) = True"

fun loaded_exec_core_ref :: "('d, 's) loaded_exec \<Rightarrow> loaded_core option" where
  "loaded_exec_core_ref (LoadedExecDynamic entry lc c) = Some lc"
| "loaded_exec_core_ref (LoadedExecStatic entry img) = None"

section \<open>Images of any kind\<close>

fun raw_elf_name :: "('d, 's) raw_elf \<Rightarrow> string" where
  "raw_elf_name (RawDylib img) = image_name img"
| "raw_elf_name (RawExec e) = exec_name e"
| "raw_elf_name (RawObj ob) = ci_name (rob_core ob)"

fun raw_elf_mapped_len :: "usize \<Rightarrow> mem \<Rightarrow> ('d, 's) raw_elf \<Rightarrow> usize result \<times> ('d, 's) raw_elf" where
  "raw_elf_mapped_len addr m (RawDylib img) = (let (r, img') = image_mapped_len addr m img in (r, RawDylib img'))"
| "raw_elf_mapped_len addr m (RawExec e) = (let (r, e') = exec_mapped_len addr m e in (r, RawExec e'))"
| "raw_elf_mapped_len addr m (RawObj ob) = (Inr (space_len (ci_segments (rob_core ob))), RawObj ob)"

fun into_dylib :: "('d, 's) loaded_elf \<Rightarrow> (loaded_core \<times> ('d, 's) core_inner) option" where
  "into_dylib (LoadedDylib lc c) = Some (lc, c)"
| "into_dylib _ = None"

fun into_exec :: "('d, 's) loaded_elf \<Rightarrow> ('d, 's) loaded_exec option" where
  "into_exec (LoadedExec e) = Some e"
| "into_exec _ = None"

fun into_object :: "('d, 's) loaded_elf \<Rightarrow> (loaded_core \<times> (unit, 's) core_inner) option" where
  "into_object (LoadedObject lc c) = Some (lc, c)"
| "into_object _ = None"

fun as_dylib :: "('d, 's) loaded_elf \<Rightarrow> (loaded_core \<times> ('d, 's) core_inner) option" where
  "as_dylib (LoadedDylib lc c) = Some (lc, c)"
| "as_dylib _ = None"

fun as_exec :: "('d, 's) loaded_elf \<Rightarrow> ('d, 's) loaded_exec option" where
  "as_exec (LoadedExec e) = Some e"
| "as_exec _ = None"

fun as_object :: "('d, 's) loaded_elf \<Rightarrow> (loaded_core \<times> (unit, 's) core_inner) option" where
  "as_object (LoadedObject lc c) = Some (lc, c)"
| "as_object _ = None"

fun loaded_elf_name :: "('d, 's) loaded_elf \<Rightarrow> string" where
  "loaded_elf_name (LoadedDylib lc c) = c_name (lc_core lc)"
| "loaded_elf_name (LoadedExec e) = loaded_exec_name e"
| "loaded_elf_name (LoadedObject lc c) = c_name (lc_core lc)"

section \<open>Consistency with the parsed data\<close>

text \<open>The data parsed, or to be parsed, belongs to the image: same name, headers and segments.\<close>

definition data_of :: "string \<Rightarrow> elf_phdrs \<Rightarrow> elf_segments \<Rightarrow> ('d, 's) state \<Rightarrow> bool" where
  "data_of name phdrs segs st \<longleftrightarrow>
     (case st of
        Empty \<Rightarrow> True
      | Uninit u \<Rightarrow> un_name u = name \<and> un_phdrs u = phdrs \<and> un_segments u = segs
      | Init d \<Rightarrow> ci_name (ld_module d) = name \<and> ci_segments (ld_module d) = segs \<and>
          map_option info_phdrs (ci_dynamic_info (ld_module d)) = Some phdrs)"

definition image_wf :: "elf_segments \<Rightarrow> ('d, 's) raw_image \<Rightarrow> bool" where
  "image_wf segs img \<longleftrightarrow> data_of (im_name img) (im_phdrs img) segs (im_state img)"

text \<open>
  The image was built with a name, from a file with the header \<open>h\<close>, on a reservation of \<open>len\<close> bytes.
  The entry point of a dynamic image is moved by the base when the file is a shared object, that of
  a static one never.
\<close>

fun built_from :: "string \<Rightarrow> ehdr \<Rightarrow> usize \<Rightarrow> ('d, 's) raw_elf \<Rightarrow> bool" where
  "built_from name h len (RawDylib img) \<longleftrightarrow> im_name img = name \<and> (\<exists>segs. image_wf segs img)"
| "built_from name h len (RawExec (ExecDynamic img)) \<longleftrightarrow> im_name img = name \<and>
     (\<exists>segs. image_wf segs img \<and> space_len segs = len \<and>
        im_entry img = e_entry h + (if e_type h = ET_DYN then base_of segs else 0))"
| "built_from name h len (RawExec (ExecStatic img)) \<longleftrightarrow>
     si_image_name img = name \<and> space_len (si_segments img) = len \<and> si_entry img = e_entry h"
| "built_from name h len (RawObj ob) \<longleftrightarrow>
     ci_name (rob_core ob) = name \<and> c_name (ro_core (rob_object ob)) = ci_name (rob_core ob)"

lemma state_init_data:
  "state_init addr m u = Inr d \<Longrightarrow> data_of (un_name u) (un_phdrs u) (un_segments u) (Init d)"
  by (auto simp: state_init_def data_of_def res_simps)

lemma force_data:
  assumes "data_of name phdrs segs st" and "force addr m st = (r, st')"
  shows "data_of name phdrs segs st'" and "r = Inr d \<Longrightarrow> data_of name phdrs segs (Init d)"
  using assms by (cases st; auto simp: data_of_def dest: state_init_data split: sum.splits)+

lemma image_access_wf:
  "image_wf segs img \<Longrightarrow> image_access f addr m img = (r, img') \<Longrightarrow>
     image_wf segs img' \<and> image_name img' = image_name img \<and> image_entry img' = image_entry img \<and>
     image_interp img' = image_interp img \<and> image_phdrs m img' = image_phdrs m img"
  using force_data(1) [of "im_name img" "im_phdrs img" segs "im_state img" addr m]
  by (auto simp: image_access_def image_wf_def image_name_def image_entry_def image_interp_def image_phdrs_def
      split: prod.splits)

lemma parse_phdrs_same:
  "res_fold (parse_phdr hook) phs (b, w) = Inr (b', w') \<Longrightarrow> same_image b b'"
proof (induction phs arbitrary: b w)
  case (Cons ph phs)
  from Cons.prems obtain b1 w1 where one: "parse_phdr hook ph (b, w) = Inr (b1, w1)"
    and rest: "res_fold (parse_phdr hook) phs (b1, w1) = Inr (b', w')" by (auto simp: res_simps)
  from one have "same_image b b1"
    by (auto simp: parse_phdr_def same_image_def Let_def res_simps split: prod.splits if_splits)
  with Cons.IH [OF rest] show ?case by (simp add: same_image_def)
qed (simp add: same_image_def)

lemma load_program_built:
  assumes "load_program L h phs R st = Inr (b, st')"
  shows "ib_name b = shortname R \<and> ib_ehdr b = h \<and>
     space_len (ib_segments b) = fst (snd (parse_segments phs (is_dylib h)))"
  using assms
  by (auto simp: load_program_def image_builder_new_def load_segments_def create_space_def res_simps split: prod.splits)

lemma load_dynamic_built:
  assumes "load_dynamic_impl L h phs R st = Inr (img, st')"
  shows "im_name img = shortname R \<and> (\<exists>segs. image_wf segs img \<and>
     space_len segs = fst (snd (parse_segments phs (is_dylib h))) \<and>
     im_entry img = e_entry h + (if is_dylib h then base_of segs else 0))"
proof -
  from assms obtain b st1 where lp: "load_program L h phs R st = Inr (b, st1)"
    and bd: "build_dynamic (ldr_hook L) b phs st1 = Inr (img, st')"
    by (auto simp: load_dynamic_impl_def res_simps)
  from bd obtain b1 where same: "same_image b b1" and img: "im_name img = ib_name b1"
      "image_wf (ib_segments b1) img"
      "im_entry img = e_entry (ib_ehdr b1) + (if is_dylib (ib_ehdr b1) then base_of (ib_segments b1) else 0)"
    by (auto simp: build_dynamic_def image_wf_def data_of_def res_simps Let_def dest!: parse_phdrs_same)
  with load_program_built [OF lp] show ?thesis by (auto simp: same_image_def)
qed

lemma load_static_built:
  assumes "load_static_impl L h phs R st = Inr (img, st')"
  shows "si_image_name img = shortname R \<and> si_entry img = e_entry h \<and>
     space_len (si_segments img) = fst (snd (parse_segments phs (is_dylib h)))"
  using assms
  by (auto simp: load_static_impl_def build_static_def same_image_def res_simps
      dest!: parse_phdrs_same load_program_built)

lemma object_spec_built:
  "object_spec E L R shdrs st = Inr (ob, st') \<Longrightarrow>
     ci_name (rob_core ob) = shortname R \<and> c_name (ro_core (rob_object ob)) = ci_name (rob_core ob)"
  by (auto simp: object_spec_def object_builder_new_def object_build_def object_core_def core_of_def Let_def res_simps)

text \<open>What a load returns, from the headers of the file.\<close>

lemma load_built:
  assumes "reader_contract R content" and "64 \<le> length (ldr_buf L)"
    and ld: "load E L (Inr R) st = Inr ((e, buf), st')"
  defines "h \<equiv> file_ehdr content" and "phs \<equiv> file_phdrs content (file_ehdr content)"
  shows "image_kind h phs e" and "built_from (shortname R) h (fst (snd (parse_segments phs (e_type h = ET_DYN)))) e"
proof -
  from ld have "value_of (load E L (Inr R) st) = Inr (e, st')" by simp
  note run = this [unfolded reader_contract.load_value [OF assms(1,2)]]
  from run show "image_kind h phs e"
    by (auto simp: res_simps with_ehdr_def with_phdrs_def exec_spec_def file_type_mismatch_def h_def phs_def
        split: if_splits)
  from run show "built_from (shortname R) h (fst (snd (parse_segments phs (e_type h = ET_DYN)))) e"
    by (auto simp: res_simps with_ehdr_def with_phdrs_def exec_spec_def file_type_mismatch_def is_dylib_def h_def phs_def
        split: if_splits dest!: load_dynamic_built load_static_built object_spec_built)
qed

section \<open>Relocation\<close>

lemma relocate_impl_core:
  assumes "relocate_impl X img scope lazy custom w = Inr (lc, w')"
  shows "lc_core lc = di_core img"
proof (cases "reloc_is_empty (di_relocation img)")
  case True
  with assms show ?thesis by (auto simp: relocate_impl_def from_core_def)
next
  case False
  from relocate_impl_stages [OF assms this] show ?thesis by (metis loaded_core.sel(1))
qed

lemma image_relocate_core:
  assumes "image_wf segs img" and "image_relocate X addr img scope lazy custom w = Inr ((lc, c), w')"
  shows "c_name (lc_core lc) = image_name img" and "c_segments (lc_core lc) = segs"
    and "fst (image_mapped_len addr (rw_mem w) img) = Inr (space_len segs)"
proof -
  from assms(2) obtain d w1 where d: "fst (force addr (rw_mem w) (im_state img)) = Inr d"
    and r: "relocate_impl (X\<lparr>x_call := ex_init (ld_extra d)\<rparr>) (dynamic_image_of d) scope lazy custom
        (w\<lparr>rw_is_init := ci_is_init (ld_module d), rw_lazy_scope := None\<rparr>) = Inr (lc, w1)"
    by (auto simp: image_relocate_def res_simps)
  have data: "data_of (im_name img) (im_phdrs img) segs (Init d)"
    using force_data(2) [OF assms(1) [unfolded image_wf_def] prod.collapse [symmetric]] d by blast
  have core: "lc_core lc = core_of (ld_addr d) (ld_module d)"
    using relocate_impl_core [OF r] by (simp add: dynamic_image_of_def)
  from core data show "c_name (lc_core lc) = image_name img" and "c_segments (lc_core lc) = segs"
    by (simp_all add: core_of_def data_of_def image_name_def)
  from d data show "fst (image_mapped_len addr (rw_mem w) img) = Inr (space_len segs)"
    by (cases "force addr (rw_mem w) (im_state img)") (simp add: image_mapped_len_def image_access_def data_of_def)
qed

text \<open>An executable after its relocation, from the file and beside the image before.\<close>

lemma exec_relocate_keeps:
  assumes "built_from name h len (RawExec x)" and "exec_relocate X addr x scope lazy custom w = Inr (y, w')"
  shows "loaded_exec_name y = name" and "exec_name x = name"
    and "loaded_exec_entry y = exec_entry x" and "loaded_exec_mapped_len y = len"
    and "fst (exec_mapped_len addr (rw_mem w) x) = Inr len"
    and "is_static y \<longleftrightarrow> (\<exists>img. x = ExecStatic img)"
    and "loaded_exec_entry y = e_entry h + (case loaded_exec_core_ref y of
        None \<Rightarrow> 0 | Some lc \<Rightarrow> if e_type h = ET_DYN then core_base (lc_core lc) else 0)"
proof -
  consider (dyn) img lc c segs where "x = ExecDynamic img" "y = LoadedExecDynamic (im_entry img) lc c"
      "image_relocate X addr img scope lazy custom w = Inr ((lc, c), w')" "image_wf segs img"
      "im_name img = name" "space_len segs = len"
      "im_entry img = e_entry h + (if e_type h = ET_DYN then base_of segs else 0)"
    | (static) img where "x = ExecStatic img" "y = LoadedExecStatic (si_entry img) img"
    using assms by (cases x) (auto simp: exec_relocate_def res_simps)
  then have "loaded_exec_name y = name \<and> exec_name x = name \<and>
      loaded_exec_entry y = exec_entry x \<and> loaded_exec_mapped_len y = len \<and>
      fst (exec_mapped_len addr (rw_mem w) x) = Inr len \<and> (is_static y \<longleftrightarrow> (\<exists>img. x = ExecStatic img)) \<and>
      loaded_exec_entry y = e_entry h + (case loaded_exec_core_ref y of
        None \<Rightarrow> 0 | Some lc \<Rightarrow> if e_type h = ET_DYN then core_base (lc_core lc) else 0)"
  proof cases
    case dyn
    with image_relocate_core [OF dyn(4,3)] show ?thesis
      by (cases "image_mapped_len addr (rw_mem w) img") (simp add: image_entry_def image_name_def core_mapped_len_def)
  next
    case static
    with assms(1) show ?thesis by simp
  qed
  then show "loaded_exec_name y = name" and "exec_name x = name"
    and "loaded_exec_entry y = exec_entry x" and "loaded_exec_mapped_len y = len"
    and "fst (exec_mapped_len addr (rw_mem w) x) = Inr len"
    and "is_static y \<longleftrightarrow> (\<exists>img. x = ExecStatic img)"
    and "loaded_exec_entry y = e_entry h + (case loaded_exec_core_ref y of
        None \<Rightarrow> 0 | Some lc \<Rightarrow> if e_type h = ET_DYN then core_base (lc_core lc) else 0)"
    by blast+
qed

lemma object_relocate_core: "object_relocate C X obj scope w = Inr (lc, w') \<Longrightarrow> lc = from_core (ro_core obj)"
  by (auto simp: object_relocate_def res_simps Let_def case_prod_beta)

section \<open>Concrete inputs\<close>

definition wit_exec_file :: bytes where
  "wit_exec_file = [0x7F,0x45,0x4C,0x46,2,1,1,0, 0,0,0,0,0,0,0,0, 2,0, 62,0, 1,0,0,0, 0x80,0x10] @ replicate 38 0"

section \<open>Properties\<close>

text \<open>
  C10. From a file to the relocated image. Loading a file and relocating the image gives an object
  exactly for a relocatable file, a library exactly for a shared object with a dynamic section and no
  interpreter, and an executable exactly for an executable file and for the other shared objects; its
  name is the short name of the file, as before its relocation. An executable is static exactly when
  the file has no dynamic section. Its length is that of the reservation for the headers, and its
  entry point that of the file, moved by the base for a dynamic image of a shared object and by
  nothing otherwise; relocation changed neither.
\<close>

theorem relocation_keeps_kind:
  assumes "reader_contract R content" and "64 \<le> length (ldr_buf L)"
    and "h = file_ehdr content" and "phs = file_phdrs content h"
    and "load E L (Inr R) st = Inr ((e, buf), st')"
    and "raw_elf_relocate C X addr e scope lazy custom w = Inr (l, w')"
  shows "(into_object l \<noteq> None \<longleftrightarrow> e_type h = ET_REL) \<and>
     (into_dylib l \<noteq> None \<longleftrightarrow> e_type h = ET_DYN \<and> has_type PT_DYNAMIC phs \<and> \<not> has_type PT_INTERP phs) \<and>
     (into_exec l \<noteq> None \<longleftrightarrow> e_type h = ET_EXEC \<or>
        e_type h = ET_DYN \<and> (\<not> has_type PT_DYNAMIC phs \<or> has_type PT_INTERP phs)) \<and>
     loaded_elf_name l = shortname R \<and> raw_elf_name e = shortname R \<and>
     (\<forall>y. into_exec l = Some y \<longrightarrow>
        (is_static y \<longleftrightarrow> \<not> has_type PT_DYNAMIC phs) \<and>
        loaded_exec_mapped_len y = fst (snd (parse_segments phs (e_type h = ET_DYN))) \<and>
        fst (raw_elf_mapped_len addr (rw_mem w) e) = Inr (loaded_exec_mapped_len y) \<and>
        loaded_exec_entry y = e_entry h + (case loaded_exec_core_ref y of
          None \<Rightarrow> 0 | Some lc \<Rightarrow> if e_type h = ET_DYN then core_base (lc_core lc) else 0) \<and>
        (\<exists>x. e = RawExec x \<and> loaded_exec_entry y = exec_entry x))"
proof -
  let ?len = "fst (snd (parse_segments phs (e_type h = ET_DYN)))"
  note from_file = load_built [OF assms(1,2,5), folded assms(3), folded assms(4)]
  have types: "ET_REL \<noteq> ET_DYN" "ET_REL \<noteq> ET_EXEC" "ET_EXEC \<noteq> ET_DYN" by (simp_all add: abi)
  show ?thesis
  proof (cases e)
    case (RawDylib img)
    with from_file types assms(6) show ?thesis
      by (auto simp: raw_elf_relocate_def res_simps image_relocate_core image_name_def)
  next
    case (RawExec x)
    with assms(6) obtain y where y: "exec_relocate X addr x scope lazy custom w = Inr (y, w')" "l = LoadedExec y"
      by (auto simp: raw_elf_relocate_def res_simps)
    note keeps = exec_relocate_keeps [OF from_file(2) [unfolded RawExec] y(1)]
    have kind: "(e_type h = ET_EXEC \<or> e_type h = ET_DYN \<and> (\<not> has_type PT_DYNAMIC phs \<or> has_type PT_INTERP phs)) \<and>
        ((\<exists>img. x = ExecStatic img) \<longleftrightarrow> \<not> has_type PT_DYNAMIC phs)"
      using from_file(1) unfolding RawExec by (cases x) auto
    with keeps(5) show ?thesis
      unfolding RawExec y(2) using keeps types by (auto split: prod.splits)
  next
    case (RawObj ob)
    with from_file types assms(6) show ?thesis
      by (auto simp: raw_elf_relocate_def raw_object_relocate_def res_simps from_core_def dest!: object_relocate_core)
  qed
qed

lemma wit_exec_headers:
  defines "h \<equiv> file_ehdr (bytes_content wit_exec_file)"
  shows "e_type h = 2" "e_phnum h = 0" "e_phoff h = 0" "e_entry h = 0x1080" "vaildate h = Inr ()"
    and "file_phdrs (bytes_content wit_exec_file) h = []" "table_size (phdr_range h) = 0" "fst (phdr_range h) = 0"
proof -
  show h: "e_type h = 2" "e_phnum h = 0" "e_phoff h = 0" "e_entry h = 0x1080" "vaildate h = Inr ()"
    unfolding h_def file_ehdr_def ehdr_at_def wit_exec_file_def
    by (simp_all add: wit_file_read vaildate_def E_CLASS_def EM_ARCH_def abi)
  show "file_phdrs (bytes_content wit_exec_file) h = []" "table_size (phdr_range h) = 0" "fst (phdr_range h) = 0"
    using h by (simp_all add: file_phdrs_def phdr_range_def table_size_def Let_def)
qed

lemma wit_exec_load:
  "\<exists>img buf v. load wit_env wit_loader (Inr (elf_binary ''/bin/a'' wit_exec_file)) (0, wit_vm) =
     Inr ((RawExec (ExecStatic img), buf), 0, v) \<and> si_entry img = 0x1080 \<and> si_image_name img = ''a''"
proof -
  let ?R = "elf_binary ''/bin/a'' wit_exec_file" and ?h = "file_ehdr (bytes_content wit_exec_file)"
  note h = wit_exec_headers(1-5) and p = wit_exec_headers(6-8)
  have r: "rd_read ?R 64 0 = Inr (take 64 wit_exec_file)" "rd_read ?R 0 0 = Inr []"
    by (subst elf_binary_reads, simp_all add: wit_exec_file_def)+
  have l: "64 \<le> length (ldr_buf wit_loader)"
    by (simp add: wit_loader_def loader_new_def elf_buf_new_def EHDR_SIZE_def size_ehdr_def)
  have sp: "\<exists>space v. create_space (bare_metal wit_heap) [] False False wit_vm = Inr (space, v)"
    using bare_create_space [of False wit_heap "[]" wit_vm _ _ False] by auto
  have eq: "value_of (load wit_env wit_loader (Inr ?R) (0, wit_vm)) =
      res_bind (exec_spec wit_loader ?R ?h [] (0, wit_vm)) (\<lambda>(x, st). Inr (RawExec x, st))"
    using h by (simp add: reader_contract.load_value [OF elf_binary_contract l] with_ehdr_def with_phdrs_def r p abi)
  have "\<exists>img v. res_bind (exec_spec wit_loader ?R ?h [] (0, wit_vm)) (\<lambda>(x, st). Inr (RawExec x, st)) =
      Inr (RawExec (ExecStatic img), 0, v) \<and> si_entry img = 0x1080 \<and> si_image_name img = ''a''"
    using h sp by (auto simp: exec_spec_def has_type_def load_static_impl_def load_program_def load_segments_def
        is_dylib_def wit_loader_def loader_new_def load_segment_list_def create_segments_def mprotect_all_def
        build_static_def image_builder_new_def shortname_def elf_binary_def abi)
  then show ?thesis unfolding eq [symmetric] value_of_eq_Inr by blast
qed

theorem relocation_keeps_kind_witness:
  "\<exists>e buf st' l w'. load wit_env wit_loader (Inr (elf_binary ''/bin/a'' wit_exec_file)) (0, wit_vm) = Inr ((e, buf), st') \<and>
     raw_elf_relocate (oe_containers wit_env) wit_life_ext 0x9000 e [] None None wit_life_world = Inr (l, w') \<and>
     loaded_elf_name l = ''a'' \<and> into_dylib l = None \<and> into_object l = None \<and>
     (\<exists>y. into_exec l = Some y \<and> loaded_exec_entry y = 0x1080 \<and> is_static y)"
proof -
  have buf: "64 \<le> length (ldr_buf wit_loader)"
    by (simp add: wit_loader_def loader_new_def elf_buf_new_def EHDR_SIZE_def size_ehdr_def)
  obtain img buf v where ld: "load wit_env wit_loader (Inr (elf_binary ''/bin/a'' wit_exec_file)) (0, wit_vm) =
      Inr ((RawExec (ExecStatic img), buf), 0, v)" and i: "si_entry img = 0x1080" "si_image_name img = ''a''"
    using wit_exec_load by blast
  have r: "raw_elf_relocate (oe_containers wit_env) wit_life_ext 0x9000 (RawExec (ExecStatic img)) [] None None wit_life_world =
      Inr (LoadedExec (LoadedExecStatic 0x1080 img), wit_life_world)"
    by (simp add: raw_elf_relocate_def exec_relocate_def i)
  from relocation_keeps_kind [OF elf_binary_contract buf refl refl ld r] ld r i show ?thesis
    by (simp add: wit_exec_headers has_type_def abi)
qed

end
