(* ===== verification/Module_Refs.thy ===== *)
theory Module_Refs
  imports Image_Api "HOL-Library.Multiset"
begin

text \<open>
  Ownership of modules: the reference counts of \<^verbatim>\<open>ElfCore\<close>, \<^verbatim>\<open>ElfCoreRef\<close> and
  \<^verbatim>\<open>LoadedCore\<close> in \<^verbatim>\<open>image/common/core.rs\<close>. A module and the list of its dependencies are
  two allocations of \<^verbatim>\<open>Arc\<close>; an allocation is an index into a list that only grows, and a value of
  the program is a handle, a pair of such indices. The counters are those of \<^verbatim>\<open>Arc\<close>: all strong
  references together hold one weak one. They are natural numbers: the abort at \<open>2 ^ 63\<close> references
  is not described. Using a handle that no counter covers is \<open>Uninitialised\<close>. A client
  of the library is a step relation over the handles it owns.
\<close>

section \<open>Allocations and handles\<close>

record ('d, 's) core_cell =
  cc_strong :: nat
  cc_weak :: nat
  cc_val :: "('d, 's) core_inner"
  cc_lazy :: "nat list"

record loaded_ref =
  lr_core :: nat
  lr_deps :: nat

record dep_cell =
  dc_strong :: nat
  dc_libs :: "loaded_ref list"

record ('d, 's) ref_world =
  w_cores :: "('d, 's) core_cell list"
  w_deps :: "dep_cell list"
  w_env :: "'s \<times> vm"

definition upd_core :: "nat \<Rightarrow> (('d, 's) core_cell \<Rightarrow> ('d, 's) core_cell) \<Rightarrow> ('d, 's) ref_world \<Rightarrow> ('d, 's) ref_world" where
  "upd_core a f w = w\<lparr>w_cores := (w_cores w)[a := f (w_cores w ! a)]\<rparr>"

definition upd_dep :: "nat \<Rightarrow> (dep_cell \<Rightarrow> dep_cell) \<Rightarrow> ('d, 's) ref_world \<Rightarrow> ('d, 's) ref_world" where
  "upd_dep i f w = w\<lparr>w_deps := (w_deps w)[i := f (w_deps w ! i)]\<rparr>"

definition strong_count :: "('d, 's) ref_world \<Rightarrow> nat \<Rightarrow> nat" where
  "strong_count w a = (if a < length (w_cores w) then cc_strong (w_cores w ! a) else 0)"

definition weak_raw :: "('d, 's) ref_world \<Rightarrow> nat \<Rightarrow> nat" where
  "weak_raw w a = (if a < length (w_cores w) then cc_weak (w_cores w ! a) else 0)"

definition weak_count :: "('d, 's) ref_world \<Rightarrow> nat \<Rightarrow> nat" where
  "weak_count w a = weak_raw w a - 1"

definition dep_strong :: "('d, 's) ref_world \<Rightarrow> nat \<Rightarrow> nat" where
  "dep_strong w i = (if i < length (w_deps w) then dc_strong (w_deps w ! i) else 0)"

abbreviation alive :: "('d, 's) ref_world \<Rightarrow> nat \<Rightarrow> bool" where
  "alive w a \<equiv> 0 < strong_count w a"

section \<open>Cores\<close>

text \<open>\<^verbatim>\<open>Arc::new(CoreInner)\<close>.\<close>

definition core_new :: "('d, 's) core_inner \<Rightarrow> ('d, 's) ref_world \<Rightarrow> nat \<times> ('d, 's) ref_world" where
  "core_new c w =
     (length (w_cores w), w\<lparr>w_cores := w_cores w @ [\<lparr>cc_strong = 1, cc_weak = 1, cc_val = c, cc_lazy = []\<rparr>]\<rparr>)"

definition core_clone :: "nat \<Rightarrow> ('d, 's) ref_world \<Rightarrow> ('d, 's) ref_world result" where
  "core_clone a w = (if alive w a then Inr (upd_core a (\<lambda>c. c\<lparr>cc_strong := cc_strong c + 1\<rparr>) w) else Inl Uninitialised)"

definition downgrade :: "nat \<Rightarrow> ('d, 's) ref_world \<Rightarrow> ('d, 's) ref_world result" where
  "downgrade a w = (if alive w a then Inr (upd_core a (\<lambda>c. c\<lparr>cc_weak := cc_weak c + 1\<rparr>) w) else Inl Uninitialised)"

definition core_ref_clone :: "nat \<Rightarrow> ('d, 's) ref_world \<Rightarrow> ('d, 's) ref_world result" where
  "core_ref_clone a w =
     (if 0 < weak_raw w a then Inr (upd_core a (\<lambda>c. c\<lparr>cc_weak := cc_weak c + 1\<rparr>) w) else Inl Uninitialised)"

definition upgrade :: "nat \<Rightarrow> ('d, 's) ref_world \<Rightarrow> (nat option \<times> ('d, 's) ref_world) result" where
  "upgrade a w =
     (if weak_raw w a = 0 then Inl Uninitialised
      else if alive w a then Inr (Some a, upd_core a (\<lambda>c. c\<lparr>cc_strong := cc_strong c + 1\<rparr>) w)
      else Inr (None, w))"

text \<open>\<^verbatim>\<open>Drop for Weak\<close>, and for all references of a vector in order.\<close>

definition core_ref_drop :: "nat \<Rightarrow> ('d, 's) ref_world \<Rightarrow> ('d, 's) ref_world result" where
  "core_ref_drop a w =
     (if 0 < weak_raw w a then Inr (upd_core a (\<lambda>c. c\<lparr>cc_weak := cc_weak c - 1\<rparr>) w) else Inl Uninitialised)"

fun core_refs_drop :: "nat list \<Rightarrow> ('d, 's) ref_world \<Rightarrow> ('d, 's) ref_world result" where
  "core_refs_drop [] w = Inr w"
| "core_refs_drop (a # as) w = res_bind (core_ref_drop a w) (core_refs_drop as)"

text \<open>
  Dropping an \<^verbatim>\<open>ElfCore\<close>: the last one runs \<^verbatim>\<open>Drop for CoreInner\<close>, drops the fields, among them the
  weak references of the lazy scope and the segments, and gives up the common weak reference.
\<close>

definition core_handle_drop :: "mmap_ops \<Rightarrow> nat \<Rightarrow> ('d, 's) ref_world \<Rightarrow> ('d, 's) ref_world result" where
  "core_handle_drop M a w =
     (if \<not> alive w a then Inl Uninitialised
      else
        let c = w_cores w ! a;
            w1 = upd_core a (\<lambda>c. c\<lparr>cc_strong := cc_strong c - 1\<rparr>) w
        in if 1 < cc_strong c then Inr w1
           else res_bind (core_drop M (cc_val c) (w_env w1)) (\<lambda>env.
                  core_refs_drop (cc_lazy c @ [a]) (upd_core a (\<lambda>c. c\<lparr>cc_lazy := []\<rparr>) (w1\<lparr>w_env := env\<rparr>))))"

text \<open>\<^verbatim>\<open>Arc::get_mut\<close>: the user data may be changed through the only reference.\<close>

definition user_data_mut :: "('d \<Rightarrow> 'd) \<Rightarrow> nat \<Rightarrow> ('d, 's) ref_world \<Rightarrow> (bool \<times> ('d, 's) ref_world) result" where
  "user_data_mut f a w =
     (if \<not> alive w a then Inl Uninitialised
      else if weak_raw w a = 1 \<and> strong_count w a = 1
      then Inr (True, upd_core a (\<lambda>c. c\<lparr>cc_val := (cc_val c)\<lparr>ci_user_data := f (ci_user_data (cc_val c))\<rparr>\<rparr>) w)
      else Inr (False, w))"

definition set_init :: "nat \<Rightarrow> ('d, 's) ref_world \<Rightarrow> ('d, 's) ref_world result" where
  "set_init a w =
     (if alive w a then Inr (upd_core a (\<lambda>c. c\<lparr>cc_val := core_set_init (cc_val c)\<rparr>) w) else Inl Uninitialised)"

text \<open>\<^verbatim>\<open>set_lazy_scope\<close>: the weak references of the new scope replace those of the old.\<close>

definition set_lazy_scope :: "nat \<Rightarrow> nat list \<Rightarrow> ('d, 's) ref_world \<Rightarrow> ('d, 's) ref_world result" where
  "set_lazy_scope a libs w =
     (if alive w a then core_refs_drop (cc_lazy (w_cores w ! a)) (upd_core a (\<lambda>c. c\<lparr>cc_lazy := libs\<rparr>) w)
      else Inl Uninitialised)"

section \<open>Loaded modules\<close>

definition loaded_from_core_deps :: "nat \<Rightarrow> loaded_ref list \<Rightarrow> ('d, 's) ref_world \<Rightarrow> loaded_ref \<times> ('d, 's) ref_world" where
  "loaded_from_core_deps a libs w =
     (\<lparr>lr_core = a, lr_deps = length (w_deps w)\<rparr>, w\<lparr>w_deps := w_deps w @ [\<lparr>dc_strong = 1, dc_libs = libs\<rparr>]\<rparr>)"

definition loaded_from_core :: "nat \<Rightarrow> ('d, 's) ref_world \<Rightarrow> loaded_ref \<times> ('d, 's) ref_world" where
  "loaded_from_core a w = loaded_from_core_deps a [] w"

definition loaded_deps :: "loaded_ref \<Rightarrow> ('d, 's) ref_world \<Rightarrow> loaded_ref list" where
  "loaded_deps l w = (if lr_deps l < length (w_deps w) then dc_libs (w_deps w ! lr_deps l) else [])"

definition deps_clone :: "nat \<Rightarrow> ('d, 's) ref_world \<Rightarrow> ('d, 's) ref_world result" where
  "deps_clone i w = (if 0 < dep_strong w i then Inr (upd_dep i (\<lambda>c. c\<lparr>dc_strong := dc_strong c + 1\<rparr>) w) else Inl Uninitialised)"

definition loaded_clone :: "loaded_ref \<Rightarrow> ('d, 's) ref_world \<Rightarrow> ('d, 's) ref_world result" where
  "loaded_clone l w = res_bind (core_clone (lr_core l) w) (deps_clone (lr_deps l))"

text \<open>
  Dropping loaded modules, in the order of a list: the core of the first, then its dependencies when
  it held the last reference to them, in order, then the rest.
\<close>

lemma upd_core_simps [simp]:
  "w_deps (upd_core a f w) = w_deps w" "w_env (upd_core a f w) = w_env w"
  "length (w_cores (upd_core a f w)) = length (w_cores w)"
  by (simp_all add: upd_core_def)

lemma core_refs_drop_deps: "core_refs_drop as w = Inr w' \<Longrightarrow> w_deps w' = w_deps w \<and> w_env w' = w_env w"
  by (induction as w rule: core_refs_drop.induct) (auto simp: core_ref_drop_def res_simps split: if_splits)

lemma core_handle_drop_deps: "core_handle_drop M a w = Inr w' \<Longrightarrow> w_deps w' = w_deps w"
  by (auto simp: core_handle_drop_def Let_def res_simps dest!: core_refs_drop_deps split: if_splits)

lemma sum_list_update_le:
  "i < length xs \<Longrightarrow> sum_list (map g (xs[i := y])) + g (xs ! i) = sum_list (map g xs) + (g y :: nat)"
  by (induction xs arbitrary: i) (auto split: nat.splits)

function loaded_drops :: "mmap_ops \<Rightarrow> loaded_ref list \<Rightarrow> ('d, 's) ref_world \<Rightarrow> ('d, 's) ref_world result" where
  "loaded_drops M [] w = Inr w"
| "loaded_drops M (l # ls) w =
     (case core_handle_drop M (lr_core l) w of
        Inl f \<Rightarrow> Inl f
      | Inr w1 \<Rightarrow>
          if dep_strong w1 (lr_deps l) = 0 then Inl Uninitialised
          else if 1 < dep_strong w1 (lr_deps l)
          then loaded_drops M ls (upd_dep (lr_deps l) (\<lambda>c. c\<lparr>dc_strong := dc_strong c - 1\<rparr>) w1)
          else loaded_drops M (loaded_deps l w1 @ ls) (upd_dep (lr_deps l) (\<lambda>c. \<lparr>dc_strong = 0, dc_libs = []\<rparr>) w1))"
  by pat_completeness auto

termination
proof (relation "measure (\<lambda>(M, ls, w). length ls + sum_list (map (\<lambda>c. length (dc_libs c)) (w_deps w)))", goal_cases)
  case (2 M l ls w w1)
  then have "lr_deps l < length (w_deps w1)" "w_deps w1 = w_deps w"
    by (auto simp: dep_strong_def dest: core_handle_drop_deps split: if_splits)
  with sum_list_update_le [of "lr_deps l" "w_deps w1" "\<lambda>c. length (dc_libs c)"
      "(w_deps w1 ! lr_deps l)\<lparr>dc_strong := dc_strong (w_deps w1 ! lr_deps l) - 1\<rparr>"] show ?case
    by (simp add: upd_dep_def)
next
  case (3 M l ls w w1)
  then have "lr_deps l < length (w_deps w1)" "w_deps w1 = w_deps w"
    by (auto simp: dep_strong_def dest: core_handle_drop_deps split: if_splits)
  with sum_list_update_le [of "lr_deps l" "w_deps w1" "\<lambda>c. length (dc_libs c)" "\<lparr>dc_strong = 0, dc_libs = []\<rparr>"] show ?case
    by (simp add: upd_dep_def loaded_deps_def)
qed simp

definition loaded_drop :: "mmap_ops \<Rightarrow> loaded_ref \<Rightarrow> ('d, 's) ref_world \<Rightarrow> ('d, 's) ref_world result" where
  "loaded_drop M l w = loaded_drops M [l] w"

section \<open>A client\<close>

text \<open>
  The handles the client owns. It owns a list of dependencies without a core only inside an operation, while a
  loaded module is cloned or dropped.
\<close>

record handles =
  h_loaded :: "loaded_ref multiset"
  h_cores :: "nat multiset"
  h_weak :: "nat multiset"
  h_deps :: "nat multiset"

abbreviation own_core :: "nat \<Rightarrow> handles \<Rightarrow> handles" where
  "own_core a H \<equiv> H\<lparr>h_cores := add_mset a (h_cores H)\<rparr>"

abbreviation own_weak :: "nat multiset \<Rightarrow> handles \<Rightarrow> handles" where
  "own_weak as H \<equiv> H\<lparr>h_weak := as + h_weak H\<rparr>"

abbreviation own_dep :: "nat \<Rightarrow> handles \<Rightarrow> handles" where
  "own_dep i H \<equiv> H\<lparr>h_deps := add_mset i (h_deps H)\<rparr>"

abbreviation own_loaded :: "loaded_ref multiset \<Rightarrow> handles \<Rightarrow> handles" where
  "own_loaded ls H \<equiv> H\<lparr>h_loaded := ls + h_loaded H\<rparr>"

text \<open>
  What safe code can do with its handles, one operation at a time; each consumes the handles that the
  operation takes by value. The state of the process may change between operations.
\<close>

inductive client_step ::
  "mmap_ops \<Rightarrow> handles \<times> ('d, 's) ref_world \<Rightarrow> handles \<times> ('d, 's) ref_world \<Rightarrow> bool" for M where
  run: "client_step M (H, w) (H, w\<lparr>w_env := env\<rparr>)"
| new: "core_new c w = (a, w') \<Longrightarrow> client_step M (H, w) (own_core a H, w')"
| clone: "a \<in># h_cores H \<Longrightarrow> core_clone a w = Inr w' \<Longrightarrow> client_step M (H, w) (own_core a H, w')"
| clone_inner: "l \<in># h_loaded H \<Longrightarrow> core_clone (lr_core l) w = Inr w' \<Longrightarrow> client_step M (H, w) (own_core (lr_core l) H, w')"
| weak: "a \<in># h_cores H \<Longrightarrow> downgrade a w = Inr w' \<Longrightarrow> client_step M (H, w) (own_weak {#a#} H, w')"
| weak_inner: "l \<in># h_loaded H \<Longrightarrow> downgrade (lr_core l) w = Inr w' \<Longrightarrow> client_step M (H, w) (own_weak {#lr_core l#} H, w')"
| weak_clone: "a \<in># h_weak H \<Longrightarrow> core_ref_clone a w = Inr w' \<Longrightarrow> client_step M (H, w) (own_weak {#a#} H, w')"
| upgrade: "a \<in># h_weak H \<Longrightarrow> upgrade a w = Inr (Some b, w') \<Longrightarrow> client_step M (H, w) (own_core b H, w')"
| drop_weak: "core_ref_drop a w = Inr w' \<Longrightarrow> client_step M (own_weak {#a#} H, w) (H, w')"
| drop_core: "core_handle_drop M a w = Inr w' \<Longrightarrow> client_step M (own_core a H, w) (H, w')"
| init: "a \<in># h_cores H \<Longrightarrow> set_init a w = Inr w' \<Longrightarrow> client_step M (H, w) (H, w')"
| data: "a \<in># h_cores H \<Longrightarrow> user_data_mut f a w = Inr (b, w') \<Longrightarrow> client_step M (H, w) (H, w')"
| lazy: "a \<in># h_cores H \<Longrightarrow> set_lazy_scope a libs w = Inr w' \<Longrightarrow> client_step M (own_weak (mset libs) H, w) (H, w')"
| load: "loaded_from_core_deps a libs w = (l, w') \<Longrightarrow>
    client_step M (own_core a (own_loaded (mset libs) H), w) (own_loaded {#l#} H, w')"
| share: "l \<in># h_loaded H \<Longrightarrow> loaded_clone l w = Inr w' \<Longrightarrow> client_step M (H, w) (own_loaded {#l#} H, w')"
| share_dep: "l \<in># h_loaded H \<Longrightarrow> d \<in> set (loaded_deps l w) \<Longrightarrow> loaded_clone d w = Inr w' \<Longrightarrow>
    client_step M (H, w) (own_loaded {#d#} H, w')"
| unload: "loaded_drop M l w = Inr w' \<Longrightarrow> client_step M (own_loaded {#l#} H, w) (H, w')"

definition no_handles :: handles where
  "no_handles = \<lparr>h_loaded = {#}, h_cores = {#}, h_weak = {#}, h_deps = {#}\<rparr>"

definition ref_start :: "'s \<times> vm \<Rightarrow> ('d, 's) ref_world" where
  "ref_start env = \<lparr>w_cores = [], w_deps = [], w_env = env\<rparr>"

section \<open>The counters are exact\<close>

definition held :: "('d, 's) ref_world \<Rightarrow> loaded_ref multiset" where
  "held w = mset (concat (map dc_libs (w_deps w)))"

definition lazies :: "('d, 's) ref_world \<Rightarrow> nat multiset" where
  "lazies w = mset (concat (map cc_lazy (w_cores w)))"

definition core_owners :: "handles \<Rightarrow> ('d, 's) ref_world \<Rightarrow> nat multiset" where
  "core_owners H w = h_cores H + image_mset lr_core (h_loaded H + held w)"

definition counted :: "handles \<Rightarrow> ('d, 's) ref_world \<Rightarrow> bool" where
  "counted H w \<longleftrightarrow>
     (\<forall>a. strong_count w a = count (core_owners H w) a) \<and>
     (\<forall>a. weak_raw w a = count (h_weak H + lazies w) a + of_bool (alive w a)) \<and>
     (\<forall>i. dep_strong w i = count (h_deps H + image_mset lr_deps (h_loaded H + held w)) i)"

text \<open>Freed allocations own nothing, and dependencies are older than the list that holds them.\<close>

definition ranked :: "('d, 's) ref_world \<Rightarrow> bool" where
  "ranked w \<longleftrightarrow>
     (\<forall>a < length (w_cores w). \<not> alive w a \<longrightarrow> cc_lazy (w_cores w ! a) = []) \<and>
     (\<forall>i < length (w_deps w). dep_strong w i = 0 \<longrightarrow> dc_libs (w_deps w ! i) = []) \<and>
     (\<forall>i < length (w_deps w). \<forall>l \<in> set (dc_libs (w_deps w ! i)). lr_deps l < i)"

lemma mset_concat_update:
  "i < length xs \<Longrightarrow> mset (concat (map g (xs[i := y]))) + mset (g (xs ! i)) = mset (concat (map g xs)) + mset (g y)"
  by (induction xs arbitrary: i) (auto split: nat.splits simp: ac_simps)

lemma strong_upd [simp]:
  "strong_count (upd_core a f w) b = (if b = a \<and> a < length (w_cores w) then cc_strong (f (w_cores w ! a)) else strong_count w b)"
  by (auto simp: strong_count_def upd_core_def)

lemma weak_upd [simp]:
  "weak_raw (upd_core a f w) b = (if b = a \<and> a < length (w_cores w) then cc_weak (f (w_cores w ! a)) else weak_raw w b)"
  by (auto simp: weak_raw_def upd_core_def)

lemma dep_strong_upd_core [simp]: "dep_strong (upd_core a f w) i = dep_strong w i" "held (upd_core a f w) = held w"
  by (simp_all add: dep_strong_def held_def)

lemma dep_strong_upd [simp]:
  "dep_strong (upd_dep i f w) j = (if j = i \<and> i < length (w_deps w) then dc_strong (f (w_deps w ! i)) else dep_strong w j)"
  by (auto simp: dep_strong_def upd_dep_def)

lemma upd_dep_simps [simp]:
  "w_cores (upd_dep i f w) = w_cores w" "w_env (upd_dep i f w) = w_env w" "lazies (upd_dep i f w) = lazies w"
  "strong_count (upd_dep i f w) a = strong_count w a" "weak_raw (upd_dep i f w) a = weak_raw w a"
  by (simp_all add: upd_dep_def lazies_def strong_count_def weak_raw_def)

lemma env_simps [simp]:
  "strong_count (w\<lparr>w_env := e\<rparr>) a = strong_count w a" "weak_raw (w\<lparr>w_env := e\<rparr>) a = weak_raw w a"
  "dep_strong (w\<lparr>w_env := e\<rparr>) i = dep_strong w i" "held (w\<lparr>w_env := e\<rparr>) = held w" "lazies (w\<lparr>w_env := e\<rparr>) = lazies w"
  by (simp_all add: strong_count_def weak_raw_def dep_strong_def held_def lazies_def)

lemma lazies_upd:
  "a < length (w_cores w) \<Longrightarrow>
     lazies (upd_core a f w) + mset (cc_lazy (w_cores w ! a)) = lazies w + mset (cc_lazy (f (w_cores w ! a)))"
  by (simp add: lazies_def upd_core_def mset_concat_update)

lemma lazies_keep [simp]: "cc_lazy (f (w_cores w ! a)) = cc_lazy (w_cores w ! a) \<Longrightarrow> lazies (upd_core a f w) = lazies w"
  by (cases "a < length (w_cores w)") (use lazies_upd [of a w f] in \<open>simp_all add: upd_core_def lazies_def list_update_beyond\<close>)

lemma held_upd:
  "i < length (w_deps w) \<Longrightarrow>
     held (upd_dep i f w) + mset (dc_libs (w_deps w ! i)) = held w + mset (dc_libs (f (w_deps w ! i)))"
  by (simp add: held_def upd_dep_def mset_concat_update)

lemma held_keep [simp]: "dc_libs (f (w_deps w ! i)) = dc_libs (w_deps w ! i) \<Longrightarrow> held (upd_dep i f w) = held w"
  by (cases "i < length (w_deps w)") (use held_upd [of i w f] in \<open>simp_all add: upd_dep_def held_def list_update_beyond\<close>)

lemma count_positive_length: "alive w a \<Longrightarrow> a < length (w_cores w)" "0 < weak_raw w a \<Longrightarrow> a < length (w_cores w)"
  "0 < dep_strong w i \<Longrightarrow> i < length (w_deps w)"
  by (simp_all add: strong_count_def weak_raw_def dep_strong_def split: if_splits)

lemmas counts = counted_def core_owners_def

lemma cell_counts:
  "a < length (w_cores w) \<Longrightarrow> cc_strong (w_cores w ! a) = strong_count w a"
  "a < length (w_cores w) \<Longrightarrow> cc_weak (w_cores w ! a) = weak_raw w a"
  "i < length (w_deps w) \<Longrightarrow> dc_strong (w_deps w ! i) = dep_strong w i"
  by (simp_all add: strong_count_def weak_raw_def dep_strong_def)

lemma nth_upd_core [simp]:
  "w_cores (upd_core a f w) ! b = (if b = a \<and> a < length (w_cores w) then f (w_cores w ! a) else w_cores w ! b)"
  by (cases "a < length (w_cores w)") (auto simp: upd_core_def list_update_beyond)

lemma strong_more_counted:
  assumes "counted H w" "alive w a"
  shows "counted (own_core a H) (upd_core a (\<lambda>c. c\<lparr>cc_strong := cc_strong c + 1\<rparr>) w)"
proof -
  have "a < length (w_cores w)" using assms(2) by (rule count_positive_length)
  with assms show ?thesis by (simp add: counts cell_counts)
qed

lemma weak_more_counted:
  assumes "counted H w" "a < length (w_cores w)"
  shows "counted (own_weak {#a#} H) (upd_core a (\<lambda>c. c\<lparr>cc_weak := cc_weak c + 1\<rparr>) w)"
proof -
  from assms show ?thesis by (simp add: counts cell_counts)
qed

lemma core_ref_drop_counted:
  assumes "counted (own_weak {#a#} H) w"
  shows "\<exists>w'. core_ref_drop a w = Inr w' \<and> counted H w'"
proof -
  have pos: "0 < weak_raw w a" using assms by (simp add: counts)
  then have "a < length (w_cores w)" by (rule count_positive_length)
  with assms pos show ?thesis by (auto simp: core_ref_drop_def counts cell_counts)
qed

lemma core_ref_drop_same:
  "core_ref_drop a w = Inr w' \<Longrightarrow> strong_count w' = strong_count w \<and> w_deps w' = w_deps w \<and> w_env w' = w_env w \<and>
     length (w_cores w') = length (w_cores w) \<and> (\<forall>b. cc_lazy (w_cores w' ! b) = cc_lazy (w_cores w ! b) \<and> cc_val (w_cores w' ! b) = cc_val (w_cores w ! b))"
  by (auto simp: core_ref_drop_def fun_eq_iff cell_counts split: if_splits)

lemma core_refs_drop_same:
  "core_refs_drop as w = Inr w' \<Longrightarrow> strong_count w' = strong_count w \<and> w_deps w' = w_deps w \<and> w_env w' = w_env w \<and>
     length (w_cores w') = length (w_cores w) \<and> (\<forall>b. cc_lazy (w_cores w' ! b) = cc_lazy (w_cores w ! b) \<and> cc_val (w_cores w' ! b) = cc_val (w_cores w ! b))"
proof (induction as w rule: core_refs_drop.induct)
  case (2 a as w)
  then obtain w1 where w1: "core_ref_drop a w = Inr w1" "core_refs_drop as w1 = Inr w'" by (auto simp: res_simps)
  from core_ref_drop_same [OF w1(1)] 2(1) [OF w1(2)] show ?case by simp
qed simp

lemma core_refs_drop_counted:
  "counted (own_weak (mset as) H) w \<Longrightarrow> \<exists>w'. core_refs_drop as w = Inr w' \<and> counted H w'"
proof (induction as arbitrary: w)
  case (Cons a as)
  then have "counted (own_weak {#a#} (own_weak (mset as) H)) w" by simp
  from core_ref_drop_counted [OF this] Cons.IH show ?case by (auto simp: res_simps)
qed simp

text \<open>The last owner of a core gives it up: what is left are weak references.\<close>

lemma last_core_counted:
  assumes "counted (own_core a H) w" and "strong_count w a = 1"
  defines "c \<equiv> w_cores w ! a"
  shows "counted (own_weak (mset (cc_lazy c @ [a])) H)
    (upd_core a (\<lambda>c. c\<lparr>cc_lazy := []\<rparr>) ((upd_core a (\<lambda>c. c\<lparr>cc_strong := cc_strong c - 1\<rparr>) w)\<lparr>w_env := env\<rparr>))"
proof -
  let ?w = "(upd_core a (\<lambda>c. c\<lparr>cc_strong := cc_strong c - 1\<rparr>) w)\<lparr>w_env := env\<rparr>"
  have a: "a < length (w_cores w)" using assms(2) count_positive_length(1) [of w a] by simp
  then have cell: "cc_strong c = 1" "cc_weak c = weak_raw w a" "w_cores ?w ! a = c\<lparr>cc_strong := 0\<rparr>"
    using assms(2) by (simp_all add: strong_count_def weak_raw_def c_def upd_core_def)
  let ?w' = "upd_core a (\<lambda>c. c\<lparr>cc_lazy := []\<rparr>) ?w"
  have lz: "lazies w = mset (cc_lazy c) + lazies ?w'"
    using lazies_upd [of a ?w "\<lambda>c. c\<lparr>cc_lazy := []\<rparr>"] a by (simp add: c_def ac_simps)
  have st: "strong_count ?w' b = strong_count w b - of_bool (b = a)" "weak_raw ?w' b = weak_raw w b" for b
    using a by (simp_all add: cell_counts)
  have same: "held ?w' = held w" "dep_strong ?w' i = dep_strong w i" for i by simp_all
  from assms(1) have counted: "strong_count w b = of_bool (b = a) + count (core_owners H w) b"
    "weak_raw w b = count (h_weak H + lazies w) b + of_bool (alive w b)"
    "dep_strong w i = count (h_deps H + image_mset lr_deps (h_loaded H + held w)) i" for b i
    by (auto simp: counts)
  have "core_owners H ?w' = core_owners H w" by (simp add: core_owners_def)
  moreover have "weak_raw w b = count (mset (cc_lazy c @ [a]) + h_weak H + lazies ?w') b + of_bool (0 < strong_count w b - of_bool (b = a))" for b
    using counted(2) [of b] assms(2) by (cases "b = a") (simp_all add: lz)
  ultimately show ?thesis
    using counted(1,3) unfolding counted_def st same by (simp add: core_owners_def)
qed

text \<open>Dropping a core handle: one owner less, or the module is finalised and unmapped.\<close>

lemma core_handle_drop_outcome:
  assumes "counted (own_core a H) w"
  obtains (shared) w' where "core_handle_drop M a w = Inr w'" "1 < strong_count w a" "w_env w' = w_env w" "counted H w'"
    | (fault) f where "core_handle_drop M a w = Inl f" "strong_count w a = 1" "core_drop M (cc_val (w_cores w ! a)) (w_env w) = Inl f"
    | (last) w' where "core_handle_drop M a w = Inr w'" "strong_count w a = 1"
        "core_drop M (cc_val (w_cores w ! a)) (w_env w) = Inr (w_env w')" "counted H w'"
proof -
  have pos: "alive w a" using assms by (simp add: counts)
  then have a: "a < length (w_cores w)" by (rule count_positive_length)
  let ?w1 = "upd_core a (\<lambda>c. c\<lparr>cc_strong := cc_strong c - 1\<rparr>) w" and ?c = "w_cores w ! a"
  show thesis
  proof (cases "1 < strong_count w a")
    case True
    then have "core_handle_drop M a w = Inr ?w1"
      using a by (simp add: core_handle_drop_def cell_counts)
    moreover have "counted H ?w1" using assms True a by (auto simp: counts cell_counts)
    ultimately show thesis using shared True by simp
  next
    case False
    with pos have one: "strong_count w a = 1" by simp
    show thesis
    proof (cases "core_drop M (cc_val ?c) (w_env w)")
      case (Inl f)
      with one a fault show thesis by (simp add: core_handle_drop_def cell_counts Let_def)
    next
      case (Inr env)
      from core_refs_drop_counted [OF last_core_counted [OF assms one]] obtain w' where
        w': "core_refs_drop (cc_lazy ?c @ [a]) (upd_core a (\<lambda>c. c\<lparr>cc_lazy := []\<rparr>) (?w1\<lparr>w_env := env\<rparr>)) = Inr w'" "counted H w'"
        by blast
      with core_refs_drop_same [OF w'(1)] one a Inr last [of w'] show thesis
        by (simp add: core_handle_drop_def cell_counts Let_def)
    qed
  qed
qed

text \<open>Its effect on the other modules: only the count of this one changes.\<close>

lemma core_handle_drop_others:
  assumes "core_handle_drop M a w = Inr w'"
  shows "strong_count w' b = strong_count w b - of_bool (b = a)" and "w_deps w' = w_deps w"
    and "length (w_cores w') = length (w_cores w)" and "cc_val (w_cores w' ! b) = cc_val (w_cores w ! b)"
    and "cc_lazy (w_cores w' ! b) = (if b = a \<and> strong_count w a = 1 then [] else cc_lazy (w_cores w ! b))"
proof -
  let ?w1 = "upd_core a (\<lambda>c. c\<lparr>cc_strong := cc_strong c - 1\<rparr>) w" and ?c = "w_cores w ! a"
  from assms have pos: "alive w a" by (auto simp: core_handle_drop_def split: if_splits)
  then have a: "a < length (w_cores w)" by (rule count_positive_length)
  from assms pos consider "1 < strong_count w a" "w' = ?w1"
    | env where "strong_count w a = 1" "core_refs_drop (cc_lazy ?c @ [a]) (upd_core a (\<lambda>c. c\<lparr>cc_lazy := []\<rparr>) (?w1\<lparr>w_env := env\<rparr>)) = Inr w'"
    by (auto simp: core_handle_drop_def Let_def res_simps cell_counts a split: if_splits)
  then have "strong_count w' b = strong_count w b - of_bool (b = a) \<and> w_deps w' = w_deps w \<and>
    length (w_cores w') = length (w_cores w) \<and> cc_val (w_cores w' ! b) = cc_val (w_cores w ! b) \<and>
    cc_lazy (w_cores w' ! b) = (if b = a \<and> strong_count w a = 1 then [] else cc_lazy (w_cores w ! b))"
  proof cases
    case 1
    with a show ?thesis by (simp add: cell_counts)
  next
    case 2
    from core_refs_drop_same [OF 2(2)] 2(1) a show ?thesis by (simp add: cell_counts)
  qed
  then show "strong_count w' b = strong_count w b - of_bool (b = a)" "w_deps w' = w_deps w"
    "length (w_cores w') = length (w_cores w)" "cc_val (w_cores w' ! b) = cc_val (w_cores w ! b)"
    "cc_lazy (w_cores w' ! b) = (if b = a \<and> strong_count w a = 1 then [] else cc_lazy (w_cores w ! b))"
    by blast+
qed

lemma core_handle_drop_ranked:
  assumes "ranked w" and "core_handle_drop M a w = Inr w'"
  shows "ranked w'"
proof -
  note o = core_handle_drop_others [OF assms(2)]
  have "dep_strong w' i = dep_strong w i" for i by (simp add: dep_strong_def o(2))
  with assms(1) show ?thesis unfolding ranked_def o(2,3) by (auto simp: o(1,5))
qed

lemma split_loaded:
  "counted (own_loaded (add_mset l X) H) w \<longleftrightarrow> counted (own_core (lr_core l) (own_dep (lr_deps l) (own_loaded X H))) w"
  by (simp add: counts)

lemma dep_less_counted:
  assumes "counted (own_dep i H) w" "1 < dep_strong w i"
  shows "counted H (upd_dep i (\<lambda>c. c\<lparr>dc_strong := dc_strong c - 1\<rparr>) w)"
proof -
  have "i < length (w_deps w)" using assms(2) count_positive_length(3) [of w i] by simp
  with assms show ?thesis by (auto simp: counts cell_counts)
qed

lemma dep_last_counted:
  assumes "counted (own_dep i H) w" "dep_strong w i = 1"
  shows "counted (own_loaded (mset (dc_libs (w_deps w ! i))) H) (upd_dep i (\<lambda>c. \<lparr>dc_strong = 0, dc_libs = []\<rparr>) w)"
proof -
  let ?w = "upd_dep i (\<lambda>c. \<lparr>dc_strong = 0, dc_libs = []\<rparr>) w"
  have i: "i < length (w_deps w)" using assms(2) count_positive_length(3) [of w i] by simp
  then have held: "held w = mset (dc_libs (w_deps w ! i)) + held ?w"
    using held_upd [of i w "\<lambda>c. \<lparr>dc_strong = 0, dc_libs = []\<rparr>"] by (simp add: ac_simps)
  have "dep_strong ?w j = dep_strong w j - of_bool (j = i)" for j using i assms(2) by simp
  with assms(1) show ?thesis unfolding counts by (simp add: held ac_simps)
qed

lemma nth_upd_dep [simp]:
  "w_deps (upd_dep i f w) ! j = (if j = i \<and> i < length (w_deps w) then f (w_deps w ! i) else w_deps w ! j)"
  "length (w_deps (upd_dep i f w)) = length (w_deps w)"
  by (cases "i < length (w_deps w)") (auto simp: upd_dep_def list_update_beyond)

lemma dep_ranked:
  assumes "ranked w"
  shows "1 < dep_strong w i \<Longrightarrow> ranked (upd_dep i (\<lambda>c. c\<lparr>dc_strong := dc_strong c - 1\<rparr>) w)"
    and "ranked (upd_dep i (\<lambda>c. \<lparr>dc_strong = 0, dc_libs = []\<rparr>) w)"
  using assms by (auto simp: ranked_def cell_counts)

text \<open>The modules finalised and unmapped, in order.\<close>

fun run_drops :: "mmap_ops \<Rightarrow> ('d, 's) core_inner list \<Rightarrow> 's \<times> vm \<Rightarrow> ('s \<times> vm) result" where
  "run_drops M [] env = Inr env"
| "run_drops M (c # cs) env = res_bind (core_drop M c env) (run_drops M cs)"

definition dropped_in_order :: "mmap_ops \<Rightarrow> ('d, 's) ref_world \<Rightarrow> nat list \<Rightarrow> ('d, 's) ref_world \<Rightarrow> bool" where
  "dropped_in_order M w ds w' \<longleftrightarrow>
     distinct ds \<and> set ds = {a. alive w a \<and> \<not> alive w' a} \<and> (\<forall>a. strong_count w' a \<le> strong_count w a) \<and>
     length (w_cores w') = length (w_cores w) \<and> (\<forall>a. cc_val (w_cores w' ! a) = cc_val (w_cores w ! a)) \<and>
     run_drops M (map (\<lambda>a. cc_val (w_cores w ! a)) ds) (w_env w) = Inr (w_env w')"

lemma dropped_none: "dropped_in_order M w [] (upd_dep i f w)" "dropped_in_order M w [] w"
  by (auto simp: dropped_in_order_def)

lemma run_drops_append: "run_drops M (cs @ cs') env = res_bind (run_drops M cs env) (run_drops M cs')"
  by (induction cs arbitrary: env) (auto simp: res_bind_def split: sum.splits)

lemma dropped_append:
  assumes "dropped_in_order M w ds w1" "dropped_in_order M w1 ds' w2"
  shows "dropped_in_order M w (ds @ ds') w2"
proof -
  have "alive w a" if "alive w1 a" for a using assms(1) that unfolding dropped_in_order_def by (metis less_le_trans)
  moreover have "\<not> alive w2 a" if "\<not> alive w1 a" for a using assms(2) that unfolding dropped_in_order_def by (metis le_0_eq not_gr_zero)
  moreover have "strong_count w2 a \<le> strong_count w a" for a using assms unfolding dropped_in_order_def by (meson le_trans)
  ultimately show ?thesis using assms by (auto simp: dropped_in_order_def run_drops_append)
qed

lemma core_handle_drop_dropped:
  assumes "counted (own_core a H) w" "core_handle_drop M a w = Inr w'"
  shows "dropped_in_order M w (if strong_count w a = 1 then [a] else []) w'"
proof -
  note o = core_handle_drop_others [OF assms(2)]
  from assms(1) have "alive w a" by (simp add: counts)
  with assms show ?thesis
    by (cases rule: core_handle_drop_outcome [OF assms(1), of M]) (auto simp: dropped_in_order_def o(1,3,4) res_bind_def)
qed

text \<open>Dropping loaded modules: no count goes wrong, and what is finalised is what nobody owns any more.\<close>

lemma loaded_drops_outcome:
  fixes w :: "('d, 's) ref_world"
  assumes "counted (own_loaded (mset ls) H) w" and "ranked w"
  shows "(\<exists>w' ds. loaded_drops M ls w = Inr w' \<and> counted H w' \<and> ranked w' \<and> dropped_in_order M w ds w' \<and>
            (\<forall>l ls'. ls = l # ls' \<and> strong_count w (lr_core l) = 1 \<longrightarrow> ds \<noteq> [] \<and> hd ds = lr_core l)) \<or>
         (\<exists>f (c :: ('d, 's) core_inner) env. loaded_drops M ls w = Inl f \<and> core_drop M c env = Inl f)"
  using assms
proof (induction M ls w rule: loaded_drops.induct)
  case (1 M w)
  then show ?case using dropped_none(2) by auto
next
  case (2 M l ls w)
  let ?a = "lr_core l" and ?i = "lr_deps l"
  from "2.prems"(1) have c: "counted (own_core ?a (own_dep ?i (own_loaded (mset ls) H))) w"
    using split_loaded [of l "mset ls" H w] by simp
  show ?case
  proof (cases "core_handle_drop M ?a w")
    case (Inl f)
    then have "core_drop M (cc_val (w_cores w ! ?a)) (w_env w) = Inl f"
      by (cases rule: core_handle_drop_outcome [OF c, of M]) simp_all
    with Inl show ?thesis by (simp del: split_paired_Ex) blast
  next
    case (Inr w1)
    then have c1: "counted (own_dep ?i (own_loaded (mset ls) H)) w1"
      by (cases rule: core_handle_drop_outcome [OF c, of M]) auto
    have r1: "ranked w1" by (rule core_handle_drop_ranked [OF "2.prems"(2) Inr])
    note d1 = core_handle_drop_dropped [OF c Inr]
    from c1 have pos: "0 < dep_strong w1 ?i" by (simp add: counts)
    have compose: ?thesis
      if "loaded_drops M (l # ls) w = loaded_drops M ls2 w2" "dropped_in_order M w1 [] w2"
        "(\<exists>w' ds. loaded_drops M ls2 w2 = Inr w' \<and> counted H w' \<and> ranked w' \<and> dropped_in_order M w2 ds w' \<and> Q ds) \<or>
         (\<exists>f (c :: ('d, 's) core_inner) env. loaded_drops M ls2 w2 = Inl f \<and> core_drop M c env = Inl f)" for ls2 w2 Q
      using that dropped_append [OF d1 dropped_append [OF that(2)]] by fastforce
    show ?thesis
    proof (cases "1 < dep_strong w1 ?i")
      case True
      show ?thesis
        by (rule compose [OF _ dropped_none(1)])
          (use Inr True pos "2.IH"(1) [OF Inr _ True dep_less_counted [OF c1 True] dep_ranked(1) [OF r1 True]] in simp_all)
    next
      case False
      with pos have one: "dep_strong w1 ?i = 1" by simp
      then have libs: "loaded_deps l w1 = dc_libs (w_deps w1 ! ?i)"
        using count_positive_length(3) [OF pos] by (simp add: loaded_deps_def)
      have c2: "counted (own_loaded (mset (loaded_deps l w1 @ ls)) H) (upd_dep ?i (\<lambda>c. \<lparr>dc_strong = 0, dc_libs = []\<rparr>) w1)"
        using dep_last_counted [OF c1 one] by (simp add: libs ac_simps)
      show ?thesis
        by (rule compose [OF _ dropped_none(1)])
          (use Inr False pos "2.IH"(2) [OF Inr _ False c2 dep_ranked(2) [OF r1]] in simp_all)
    qed
  qed
qed

section \<open>Every step keeps the counters exact\<close>

lemma ranked_upd_core:
  "ranked w \<Longrightarrow> (cc_strong (f (w_cores w ! a)) = 0 \<Longrightarrow> cc_lazy (f (w_cores w ! a)) = []) \<Longrightarrow> ranked (upd_core a f w)"
  by (auto simp: ranked_def)

lemma ranked_weak: "ranked w \<Longrightarrow> ranked (upd_core a (\<lambda>c. c\<lparr>cc_weak := g c\<rparr>) w)"
  by (auto simp: ranked_def cell_counts)

lemma ranked_env [simp]: "ranked (w\<lparr>w_env := e\<rparr>) = ranked w"
  by (simp add: ranked_def)

lemma counted_env [simp]: "counted H (w\<lparr>w_env := e\<rparr>) = counted H w"
  by (simp add: counts)

lemma counted_val [simp]:
  assumes "cc_strong (f (w_cores w ! a)) = cc_strong (w_cores w ! a)" "cc_weak (f (w_cores w ! a)) = cc_weak (w_cores w ! a)"
    "cc_lazy (f (w_cores w ! a)) = cc_lazy (w_cores w ! a)"
  shows "counted H (upd_core a f w) = counted H w" and "ranked w \<Longrightarrow> ranked (upd_core a f w)"
proof -
  have "strong_count (upd_core a f w) b = strong_count w b" "weak_raw (upd_core a f w) b = weak_raw w b" for b
    using assms by (simp_all add: cell_counts)
  with assms show "counted H (upd_core a f w) = counted H w" by (simp add: counts)
  from assms show "ranked (upd_core a f w)" if "ranked w"
    using that by (auto simp: ranked_def cell_counts)
qed

lemma core_new_counted:
  assumes "counted H w" "ranked w" "core_new c w = (a, w')"
  shows "counted (own_core a H) w' \<and> ranked w'"
proof -
  have a: "a = length (w_cores w)"
    and w': "w' = w\<lparr>w_cores := w_cores w @ [\<lparr>cc_strong = 1, cc_weak = 1, cc_val = c, cc_lazy = []\<rparr>]\<rparr>"
    using assms(3) by (simp_all add: core_new_def)
  have st: "strong_count w' b = strong_count w b + of_bool (b = a)" "weak_raw w' b = weak_raw w b + of_bool (b = a)"
    "dep_strong w' i = dep_strong w i" for b i
    by (auto simp: w' a strong_count_def weak_raw_def dep_strong_def nth_append)
  have same: "held w' = held w" "lazies w' = lazies w" by (simp_all add: w' held_def lazies_def)
  have z: "strong_count w a = 0" by (simp add: strong_count_def a)
  from assms(1) have c: "strong_count w b = count (core_owners H w) b"
    "weak_raw w b = count (h_weak H + lazies w) b + of_bool (alive w b)" for b
    by (simp_all add: counted_def)
  have "core_owners (own_core a H) w' = add_mset a (core_owners H w)" by (simp add: core_owners_def same)
  then have "strong_count w' b = count (core_owners (own_core a H) w') b"
    "weak_raw w' b = count (h_weak (own_core a H) + lazies w') b + of_bool (alive w' b)" for b
    using c [of b] c [of a] z by (auto simp: st same count_eq_zero_iff)
  with assms(1) have "counted (own_core a H) w'" by (simp add: counted_def st same)
  moreover have "ranked w'"
    using assms(2) unfolding ranked_def st by (auto simp: w' a nth_append less_Suc_eq)
  ultimately show ?thesis ..
qed

lemma load_counted:
  assumes "counted (own_core a (own_loaded (mset libs) H)) w" "ranked w" "loaded_from_core_deps a libs w = (l, w')"
  shows "counted (own_loaded {#l#} H) w' \<and> ranked w'"
proof -
  let ?n = "length (w_deps w)"
  have l: "l = \<lparr>lr_core = a, lr_deps = ?n\<rparr>" and w': "w' = w\<lparr>w_deps := w_deps w @ [\<lparr>dc_strong = 1, dc_libs = libs\<rparr>]\<rparr>"
    using assms(3) by (simp_all add: loaded_from_core_deps_def)
  have st: "strong_count w' b = strong_count w b" "weak_raw w' b = weak_raw w b" "dep_strong w' i = dep_strong w i + of_bool (i = ?n)" for b i
    by (auto simp: w' strong_count_def weak_raw_def dep_strong_def nth_append)
  have same: "held w' = held w + mset libs" "lazies w' = lazies w" by (simp_all add: w' held_def lazies_def)
  have "counted (own_loaded {#l#} H) w'"
    using assms(1) unfolding counted_def core_owners_def st same by (auto simp: l)
  moreover have "lr_deps d < ?n" if "d \<in> set libs" for d
  proof -
    have "lr_deps d \<in># image_mset lr_deps (mset libs)" using that by simp
    then have "0 < count (image_mset lr_deps (mset libs)) (lr_deps d)" by (simp only: count_greater_zero_iff)
    with assms(1) have "0 < dep_strong w (lr_deps d)" by (simp add: counts)
    then show ?thesis by (rule count_positive_length)
  qed
  then have "ranked w'" using assms(2) unfolding ranked_def st by (auto simp: w' nth_append less_Suc_eq)
  ultimately show ?thesis ..
qed

lemma loaded_clone_counted:
  assumes "counted H w" "ranked w" "loaded_clone l w = Inr w'"
  shows "counted (own_loaded {#l#} H) w' \<and> ranked w'"
proof -
  from assms(3) obtain w1 where w1: "core_clone (lr_core l) w = Inr w1" "deps_clone (lr_deps l) w1 = Inr w'"
    by (auto simp: loaded_clone_def res_simps)
  then have c1: "counted (own_core (lr_core l) H) w1" "ranked w1"
    using strong_more_counted [OF assms(1), of "lr_core l"] assms(2)
    by (auto simp: core_clone_def split: if_splits intro: ranked_upd_core)
  from w1(2) have pos: "0 < dep_strong w1 (lr_deps l)" and w': "w' = upd_dep (lr_deps l) (\<lambda>c. c\<lparr>dc_strong := dc_strong c + 1\<rparr>) w1"
    by (auto simp: deps_clone_def split: if_splits)
  have "lr_deps l < length (w_deps w1)" using pos by (rule count_positive_length)
  with c1 pos have "counted (own_core (lr_core l) (own_dep (lr_deps l) H)) w'" "ranked w'"
    by (auto simp: w' counts cell_counts ranked_def)
  with split_loaded [of l "{#}" H w'] show ?thesis by simp
qed

text \<open>The invariant of a client between its operations.\<close>

definition owned :: "handles \<Rightarrow> ('d, 's) ref_world \<Rightarrow> bool" where
  "owned H w \<longleftrightarrow> counted H w \<and> ranked w \<and> h_deps H = {#}"

lemma set_lazy_counted:
  assumes "counted (own_weak (mset libs) H) w" "ranked w" "set_lazy_scope a libs w = Inr w'"
  shows "counted H w' \<and> ranked w'"
proof -
  let ?old = "cc_lazy (w_cores w ! a)" and ?w = "upd_core a (\<lambda>c. c\<lparr>cc_lazy := libs\<rparr>) w"
  from assms(3) have al: "alive w a" and drop: "core_refs_drop ?old ?w = Inr w'"
    by (auto simp: set_lazy_scope_def split: if_splits)
  from al have a: "a < length (w_cores w)" by (rule count_positive_length)
  have lz: "mset ?old + lazies ?w = mset libs + lazies w"
    using lazies_upd [of a w "\<lambda>c. c\<lparr>cc_lazy := libs\<rparr>"] a by (simp add: ac_simps)
  have st: "strong_count ?w = strong_count w" "weak_raw ?w = weak_raw w" using a by (auto simp: cell_counts)
  have "mset ?old + h_weak H + lazies ?w = mset libs + h_weak H + lazies w"
    by (metis lz add.assoc add.commute)
  then have "counted (own_weak (mset ?old) H) ?w"
    using assms(1) by (simp add: counted_def st core_owners_def ac_simps del: count_union)
  from core_refs_drop_counted [OF this] drop have "counted H w'" by auto
  moreover have "ranked ?w" using assms(2) al a by (auto simp: ranked_def cell_counts)
  then have "ranked w'" using core_refs_drop_same [OF drop] unfolding ranked_def by (simp add: dep_strong_def)
  ultimately show ?thesis ..
qed

lemma client_step_owned:
  assumes step: "client_step M (H, w) (H', w')" and ow: "owned H w"
  shows "owned H' w'"
  using step
proof cases
  case (unload l)
  with ow show ?thesis
    using loaded_drops_outcome [of "[l]" H' w M] by (auto simp: owned_def loaded_drop_def)
next
  case (drop_core a)
  with ow have c: "counted (own_core a H') w" by (simp add: owned_def)
  have "counted H' w'"
    using drop_core(2) by (cases rule: core_handle_drop_outcome [OF c, of M]) simp_all
  with drop_core ow show ?thesis by (auto simp: owned_def intro: core_handle_drop_ranked)
next
  case (drop_weak a)
  with ow show ?thesis
    using core_ref_drop_counted [of a H' w] core_ref_drop_same [of a w w']
    by (auto simp: owned_def ranked_def dep_strong_def)
next
  case (load a libs l H0)
  with ow load_counted [of a libs H0 w l w'] show ?thesis by (simp add: owned_def)
qed (use ow in \<open>auto simp: owned_def core_clone_def downgrade_def core_ref_clone_def upgrade_def set_init_def user_data_mut_def
    core_set_init_def split: if_splits
    dest: core_new_counted load_counted loaded_clone_counted set_lazy_counted strong_more_counted
      weak_more_counted [OF _ count_positive_length(1)] weak_more_counted [OF _ count_positive_length(2)]
    intro: ranked_upd_core ranked_weak\<close>)

section \<open>Who owns a module\<close>

definition dep_of :: "('d, 's) ref_world \<Rightarrow> loaded_ref \<Rightarrow> loaded_ref \<Rightarrow> bool" where
  "dep_of w l d \<longleftrightarrow> d \<in> set (loaded_deps l w)"

definition needed_by :: "handles \<Rightarrow> ('d, 's) ref_world \<Rightarrow> loaded_ref \<Rightarrow> bool" where
  "needed_by H w d \<longleftrightarrow> (\<exists>l. l \<in># h_loaded H \<and> (dep_of w)\<^sup>*\<^sup>* l d)"

lemma in_held: "d \<in># held w \<longleftrightarrow> (\<exists>j < length (w_deps w). d \<in> set (dc_libs (w_deps w ! j)))"
  unfolding held_def by (simp, metis in_set_conv_nth)

lemma owned_positive:
  assumes "owned H w"
  shows "alive w a \<longleftrightarrow> a \<in># core_owners H w" and "0 < dep_strong w i \<longleftrightarrow> i \<in># image_mset lr_deps (h_loaded H + held w)"
proof -
  from assms have "strong_count w a = count (core_owners H w) a"
    and "dep_strong w i = count (image_mset lr_deps (h_loaded H + held w)) i"
    by (simp_all add: owned_def counted_def)
  then show "alive w a \<longleftrightarrow> a \<in># core_owners H w" "0 < dep_strong w i \<longleftrightarrow> i \<in># image_mset lr_deps (h_loaded H + held w)"
    by (simp_all only: count_greater_zero_iff)
qed

lemma needed_is_held: "needed_by H w d \<Longrightarrow> d \<in># h_loaded H + held w"
proof -
  assume "needed_by H w d"
  then obtain l where l: "l \<in># h_loaded H" and path: "(dep_of w)\<^sup>*\<^sup>* l d" by (auto simp: needed_by_def)
  from path show ?thesis
    by (cases rule: rtranclp.cases) (use l in \<open>auto simp: dep_of_def loaded_deps_def in_held split: if_splits\<close>)
qed

text \<open>Dependencies are ranked by age, so following their owners ends at a handle of the client.\<close>

lemma held_is_needed:
  assumes "owned H w" "j < length (w_deps w)" "d \<in> set (dc_libs (w_deps w ! j))"
  shows "needed_by H w d"
  using assms(2,3)
proof (induction "length (w_deps w) - j" arbitrary: j d rule: less_induct)
  case less
  from assms(1) less.prems have "dep_strong w j \<noteq> 0" by (auto simp: owned_def ranked_def)
  with owned_positive(2) [OF assms(1), of j] have "j \<in># image_mset lr_deps (h_loaded H + held w)" by simp
  then obtain l where l: "l \<in># h_loaded H \<or> l \<in># held w" "lr_deps l = j" by auto
  with less.prems have dep: "dep_of w l d" by (simp add: dep_of_def loaded_deps_def)
  from l(1) have "needed_by H w l"
  proof
    assume "l \<in># h_loaded H" then show ?thesis by (auto simp: needed_by_def)
  next
    assume "l \<in># held w"
    then obtain k where k: "k < length (w_deps w)" "l \<in> set (dc_libs (w_deps w ! k))" by (auto simp: in_held)
    with assms(1) l(2) have "j < k" by (auto simp: owned_def ranked_def)
    with k less.hyps [of k l] show ?thesis by simp
  qed
  with dep show ?case by (auto simp: needed_by_def intro: rtranclp.rtrancl_into_rtrancl)
qed

lemma alive_iff:
  assumes "owned H w"
  shows "alive w a \<longleftrightarrow> a \<in># h_cores H \<or> (\<exists>d. needed_by H w d \<and> lr_core d = a)"
proof -
  have "alive w a \<longleftrightarrow> a \<in># h_cores H \<or> (\<exists>d. d \<in># h_loaded H + held w \<and> lr_core d = a)"
    by (auto simp: owned_positive(1) [OF assms] core_owners_def)
  moreover have "d \<in># h_loaded H + held w \<longleftrightarrow> needed_by H w d" for d
    using needed_is_held [of H w d] held_is_needed [OF assms] by (auto simp: in_held needed_by_def)
  ultimately show ?thesis by simp
qed

lemma needed_deps_alive: "owned H w \<Longrightarrow> needed_by H w d \<Longrightarrow> 0 < dep_strong w (lr_deps d)"
  using needed_is_held [of H w d] by (auto simp: owned_positive(2))

section \<open>A module is finalised once\<close>

text \<open>Allocations are never reused, so what was finalised is never seen alive again.\<close>

lemma client_step_dead:
  assumes step: "client_step M (H, w) (H', w')" and ow: "owned H w" and a: "a < length (w_cores w)" "\<not> alive w a"
  shows "a < length (w_cores w') \<and> \<not> alive w' a"
  using step
proof cases
  case (unload l)
  with ow obtain ds where "dropped_in_order M w ds w'"
    using loaded_drops_outcome [of "[l]" H' w M] by (auto simp: owned_def loaded_drop_def)
  with a show ?thesis unfolding dropped_in_order_def by (metis le_0_eq not_gr_zero)
next
  case (drop_core b)
  from core_handle_drop_others [OF this(2)] a show ?thesis by simp
next
  case (drop_weak b)
  from core_ref_drop_same [OF this(2)] a show ?thesis by simp
next
  case (lazy b libs)
  with a show ?thesis by (auto simp: set_lazy_scope_def cell_counts dest!: core_refs_drop_same split: if_splits)
next
  case (new c b)
  with a show ?thesis by (auto simp: core_new_def strong_count_def nth_append)
next
  case (load b libs l H0)
  with a show ?thesis by (auto simp: loaded_from_core_deps_def strong_count_def)
qed (use a in \<open>auto simp: core_clone_def downgrade_def core_ref_clone_def upgrade_def set_init_def user_data_mut_def
    loaded_clone_def deps_clone_def res_simps cell_counts core_set_init_def split: if_splits\<close>)

lemma client_steps_owned:
  assumes "(client_step M)\<^sup>*\<^sup>* (H, w) (H', w')" and "owned H w"
  shows "owned H' w' \<and> (\<forall>a < length (w_cores w). \<not> alive w a \<longrightarrow> a < length (w_cores w') \<and> \<not> alive w' a)"
  using assms
proof (induction "(H', w')" arbitrary: H' w' rule: rtranclp_induct)
  case (step s)
  obtain H1 w1 where s: "s = (H1, w1)" by (cases s)
  from step.hyps(3) [OF s step.prems] client_step_owned [OF step.hyps(2) [unfolded s]]
    client_step_dead [OF step.hyps(2) [unfolded s]]
  show ?case by blast
qed simp

lemma start_owned: "owned no_handles (ref_start env)"
  by (simp add: owned_def counts ranked_def no_handles_def ref_start_def held_def lazies_def
      strong_count_def weak_raw_def dep_strong_def)

text \<open>What dropping the core runs can only fail when the segments cannot be unmapped.\<close>

lemma core_drop_returns:
  "(\<And>a n v. \<exists>v'. op_munmap M a n v = Inr v') \<Longrightarrow> \<exists>env'. core_drop M c env = Inr env'"
  by (cases "if ci_is_init c then ci_fini_handler c (ci_fini c) (ci_fini_array c) env else env")
    (auto simp: core_drop_def drop_segments_def res_simps split: sum.splits, metis Inl_Inr_False)

text \<open>
  A library that lazy binding looks into by itself is among the dependencies that relocation records:
  while the module is loaded, the weak reference to it can be upgraded.
\<close>

lemma lazy_libs_are_dependencies:
  assumes "make_lazy_scope img is_lazy custom scope = Some ls" "length flags = length scope" "c \<in> set (ls_libs ls)"
  shows "\<exists>d \<in> set (collect_deps img scope flags). lc_core d = c"
proof -
  from assms(1,3) obtain lib where lib: "lib \<in> set scope" "c_name (lc_core lib) \<in> set (di_needed img)" "lc_core lib = c"
    by (auto simp: make_lazy_scope_def split: if_splits)
  then obtain i where "i < length scope" "scope ! i = lib" by (auto simp: in_set_conv_nth)
  with assms(2) have "(lib, flags ! i) \<in> set (zip scope flags)" by (auto simp: in_set_zip)
  with lib show ?thesis by (force simp: collect_deps_def)
qed

section \<open>Concrete inputs\<close>

text \<open>A library and a program that needs it; their finalisers write their numbers into a log.\<close>

definition wit_module :: "nat \<Rightarrow> (unit, nat list) core_inner" where
  "wit_module n =
     \<lparr>ci_is_init = True, ci_name = ''m'', ci_symtab = c_symtab (lc_core wit_lib), ci_fini = None, ci_fini_array = None,
      ci_fini_handler = (\<lambda>_ _ (log, v). (log @ [n], v)), ci_user_data = (), ci_dynamic_info = None,
      ci_segments = c_segments (lc_core wit_lib)\<rparr>"

definition wit_lib_ref :: loaded_ref where
  "wit_lib_ref = \<lparr>lr_core = 0, lr_deps = 0\<rparr>"

definition wit_prog_ref :: loaded_ref where
  "wit_prog_ref = \<lparr>lr_core = 1, lr_deps = 1\<rparr>"

definition wit_refs :: "nat \<Rightarrow> (unit, nat list) ref_world" where
  "wit_refs n =
     \<lparr>w_cores = [\<lparr>cc_strong = n, cc_weak = 1, cc_val = wit_module 7, cc_lazy = []\<rparr>,
        \<lparr>cc_strong = 1, cc_weak = 1, cc_val = wit_module 8, cc_lazy = []\<rparr>],
      w_deps = [\<lparr>dc_strong = n, dc_libs = []\<rparr>, \<lparr>dc_strong = 1, dc_libs = [wit_lib_ref]\<rparr>],
      w_env = ([], wit_vm)\<rparr>"

lemma wit_refs_reached:
  "(client_step (bare_metal wit_heap))\<^sup>*\<^sup>* (no_handles, ref_start ([], wit_vm)) (own_loaded {#wit_prog_ref#} no_handles, wit_refs 1)"
proof -
  let ?M = "bare_metal wit_heap" and ?l = wit_lib_ref and ?p = wit_prog_ref and ?N = no_handles
  let ?lib = "\<lambda>n. \<lparr>cc_strong = n, cc_weak = 1, cc_val = wit_module 7, cc_lazy = []\<rparr>"
    and ?prog = "\<lparr>cc_strong = 1, cc_weak = 1, cc_val = wit_module 8, cc_lazy = []\<rparr>"
    and ?W = "\<lambda>cs ds. \<lparr>w_cores = cs, w_deps = ds, w_env = ([], wit_vm)\<rparr>" and ?D = "\<lambda>n. \<lparr>dc_strong = n, dc_libs = []\<rparr>"
  let ?H2 = "own_loaded {#?l#} (own_loaded {#?l#} ?N)"
  have s1: "client_step ?M (?N, ref_start ([], wit_vm)) (own_core 0 ?N, ?W [?lib 1] [])"
    by (rule client_step.new [of "wit_module 7"]) (simp add: core_new_def ref_start_def)
  have s2: "client_step ?M (own_core 0 ?N, ?W [?lib 1] []) (own_loaded {#?l#} ?N, ?W [?lib 1] [?D 1])"
    using client_step.load [of 0 "[]" "?W [?lib 1] []" ?l "?W [?lib 1] [?D 1]" ?M ?N]
    by (simp add: loaded_from_core_deps_def wit_lib_ref_def)
  have s3: "client_step ?M (own_loaded {#?l#} ?N, ?W [?lib 1] [?D 1]) (?H2, ?W [?lib 2] [?D 2])"
    by (rule client_step.share) (simp_all add: loaded_clone_def core_clone_def deps_clone_def strong_count_def dep_strong_def
        upd_core_def upd_dep_def wit_lib_ref_def res_simps)
  have s4: "client_step ?M (?H2, ?W [?lib 2] [?D 2]) (own_core 1 ?H2, ?W [?lib 2, ?prog] [?D 2])"
    by (rule client_step.new [of "wit_module 8"]) (simp add: core_new_def)
  have s5: "client_step ?M (own_core 1 ?H2, ?W [?lib 2, ?prog] [?D 2]) (own_loaded {#?p#} (own_loaded {#?l#} ?N), wit_refs 2)"
    using client_step.load [of 1 "[?l]" "?W [?lib 2, ?prog] [?D 2]" ?p "wit_refs 2" ?M "own_loaded {#?l#} ?N"]
    by (simp add: loaded_from_core_deps_def wit_prog_ref_def wit_refs_def)
  have s6: "client_step ?M (own_loaded {#?l#} (own_loaded {#?p#} ?N), wit_refs 2) (own_loaded {#?p#} ?N, wit_refs 1)"
    by (rule client_step.unload) (simp add: loaded_drop_def core_handle_drop_def wit_lib_ref_def wit_refs_def strong_count_def
        dep_strong_def upd_core_def upd_dep_def)
  have "own_loaded {#?l#} (own_loaded {#?p#} ?N) = own_loaded {#?p#} (own_loaded {#?l#} ?N)" by (simp add: add_mset_commute)
  with s1 s2 s3 s4 s5 s6 show ?thesis by (metis (no_types, lifting) r_into_rtranclp rtranclp_trans)
qed

section \<open>Properties\<close>

text \<open>
  C11. How long a module stays loaded. Whatever a client does with its handles, a module is alive exactly while
  a handle to its core exists or it is a direct or indirect dependency of a loaded module the client
  holds: a library in use is never unloaded, and none is kept without an owner. Its count is the number
  of its owners, a weak reference can be upgraded exactly while it is alive, and a module that
  was finalised is never alive again.
\<close>

theorem module_lifetime:
  assumes "(client_step M)\<^sup>*\<^sup>* (no_handles, ref_start env) (H, w)"
  shows "(alive w a \<longleftrightarrow> a \<in># h_cores H \<or> (\<exists>l d. l \<in># h_loaded H \<and> (dep_of w)\<^sup>*\<^sup>* l d \<and> lr_core d = a)) \<and>
    strong_count w a = count (h_cores H) a + count (image_mset lr_core (h_loaded H + held w)) a \<and>
    (a \<in># h_weak H \<longrightarrow> (\<exists>w'. upgrade a w = Inr (if alive w a then Some a else None, w'))) \<and>
    (\<forall>H' w'. (client_step M)\<^sup>*\<^sup>* (H, w) (H', w') \<and> a < length (w_cores w) \<and> \<not> alive w a \<longrightarrow> \<not> alive w' a)"
proof -
  have ow: "owned H w" using client_steps_owned [OF assms start_owned] by simp
  then have c: "strong_count w a = count (core_owners H w) a"
    and wk: "a \<in># h_weak H \<Longrightarrow> weak_raw w a \<noteq> 0" by (simp_all add: owned_def counted_def)
  have "\<exists>w'. upgrade a w = Inr (if alive w a then Some a else None, w')" if "a \<in># h_weak H"
    using wk [OF that] by (simp add: upgrade_def)
  moreover have "\<not> alive w' a"
    if "(client_step M)\<^sup>*\<^sup>* (H, w) (H', w')" "a < length (w_cores w)" "\<not> alive w a" for H' w'
    using client_steps_owned [OF that(1) ow] that(2,3) by blast
  ultimately show ?thesis using alive_iff [OF ow, of a] c by (auto simp: needed_by_def core_owners_def)
qed

theorem module_lifetime_witness:
  "alive (wit_refs 1) 0 \<and> 0 \<notin># h_cores (own_loaded {#wit_prog_ref#} no_handles) \<and> wit_lib_ref \<noteq> wit_prog_ref"
proof -
  have "dep_of (wit_refs 1) wit_prog_ref wit_lib_ref"
    by (simp add: dep_of_def loaded_deps_def wit_refs_def wit_prog_ref_def)
  then have "\<exists>l d. l \<in># h_loaded (own_loaded {#wit_prog_ref#} no_handles) \<and> (dep_of (wit_refs 1))\<^sup>*\<^sup>* l d \<and> lr_core d = 0"
    by (intro exI [of _ wit_prog_ref] exI [of _ wit_lib_ref]) (auto simp: wit_lib_ref_def)
  with module_lifetime [OF wit_refs_reached, of 0] have "alive (wit_refs 1) 0" by blast
  then show ?thesis by (simp add: no_handles_def wit_lib_ref_def wit_prog_ref_def)
qed

text \<open>
  C12. Unloading. When unmapping succeeds, dropping a loaded module returns. It finalises and unmaps, each once and
  in one order, exactly the modules that nobody owns afterwards; all others keep their data. When the
  module itself had no other owner, it comes first, before its dependencies.
\<close>

theorem unload_finalises:
  fixes w :: "('d, 's) ref_world"
  assumes "(client_step M)\<^sup>*\<^sup>* (no_handles, ref_start env) (own_loaded {#l#} H, w)"
    and "\<And>a n v. \<exists>v'. op_munmap M a n v = Inr v'"
  shows "\<exists>w' ds. loaded_drop M l w = Inr w' \<and> distinct ds \<and>
    set ds = {a. alive w a \<and> a \<notin># h_cores H \<and> \<not> (\<exists>d. needed_by H w' d \<and> lr_core d = a)} \<and>
    run_drops M (map (\<lambda>a. cc_val (w_cores w ! a)) ds) (w_env w) = Inr (w_env w') \<and>
    (\<forall>a. cc_val (w_cores w' ! a) = cc_val (w_cores w ! a)) \<and>
    (strong_count w (lr_core l) = 1 \<longrightarrow> ds \<noteq> [] \<and> hd ds = lr_core l)"
proof -
  have ow: "owned (own_loaded {#l#} H) w" using client_steps_owned [OF assms(1) start_owned] by simp
  then have "counted (own_loaded (mset [l]) H) w" "ranked w" by (simp_all add: owned_def)
  note outcome = loaded_drops_outcome [OF this, of M]
  have "core_drop M c e \<noteq> Inl f" for c :: "('d, 's) core_inner" and e f
    using core_drop_returns [OF assms(2), of c e] by auto
  with outcome obtain w' ds where w': "loaded_drops M [l] w = Inr w'" and c: "counted H w'" "ranked w'"
    and d: "dropped_in_order M w ds w'"
    and "\<forall>l' ls'. [l] = l' # ls' \<and> strong_count w (lr_core l') = 1 \<longrightarrow> ds \<noteq> [] \<and> hd ds = lr_core l'"
    by blast
  then have hd: "strong_count w (lr_core l) = 1 \<longrightarrow> ds \<noteq> [] \<and> hd ds = lr_core l" by blast
  from c ow have "owned H w'" by (simp add: owned_def)
  from alive_iff [OF this] d have "set ds = {a. alive w a \<and> a \<notin># h_cores H \<and> \<not> (\<exists>d. needed_by H w' d \<and> lr_core d = a)}"
    by (auto simp: dropped_in_order_def)
  with w' d hd show ?thesis unfolding dropped_in_order_def loaded_drop_def by blast
qed

theorem unload_finalises_witness:
  "\<exists>w'. loaded_drop (bare_metal wit_heap) wit_prog_ref (wit_refs 1) = Inr w' \<and> fst (w_env w') = [8, 7]"
proof -
  have "\<exists>v'. op_munmap (bare_metal wit_heap) a n v = Inr v'" for a n v by (simp add: bare_metal_def bare_munmap_def)
  from unload_finalises [OF wit_refs_reached this] obtain w' ds where
    w': "loaded_drop (bare_metal wit_heap) wit_prog_ref (wit_refs 1) = Inr w'" and ds: "distinct ds"
      "set ds = {a. alive (wit_refs 1) a \<and> \<not> (\<exists>d. needed_by no_handles w' d \<and> lr_core d = a)}"
      "strong_count (wit_refs 1) 1 = 1 \<longrightarrow> ds \<noteq> [] \<and> hd ds = 1"
    and run: "run_drops (bare_metal wit_heap) (map (\<lambda>a. cc_val (w_cores (wit_refs 1) ! a)) ds) (w_env (wit_refs 1)) = Inr (w_env w')"
    by (auto simp: no_handles_def wit_prog_ref_def)
  have "{a. alive (wit_refs 1) a} = {0, 1}" by (auto simp: strong_count_def wit_refs_def less_Suc_eq)
  with ds have "set ds = {0, 1}" "ds \<noteq> []" "hd ds = 1"
    by (simp_all add: needed_by_def no_handles_def strong_count_def wit_refs_def)
  moreover from this distinct_card [OF ds(1)] have "length ds = 2" by simp
  then obtain x y where "ds = [x, y]" by (auto simp: numeral_2_eq_2 length_Suc_conv)
  ultimately have "ds = [1, 0]" by auto
  with run have "\<exists>v. ([8, 7], v) = w_env w'"
    by (auto simp: wit_refs_def wit_module_def core_drop_def drop_segments_def bare_metal_def bare_munmap_def res_simps)
  with w' show ?thesis by (metis fst_conv)
qed

end
