(* ===== verification/Gen_Common.thy ===== *)
theory Gen_Common
  imports Elf_Defs
begin

text \<open>
  The generator of test libraries, \<^verbatim>\<open>tools/gen-elf/src\<close>: its vocabulary
  (\<^verbatim>\<open>common.rs\<close>) and the architectures with their relocation types
  (\<^verbatim>\<open>arch/mod.rs\<close>, first part). A name is the list of its bytes; a signed 64-bit addend is its word.
  Bytes are written little endian; a write to a growing vector does not fail.
\<close>

section \<open>Bytes\<close>

definition le_bytes :: "nat \<Rightarrow> 'a::len word \<Rightarrow> bytes" where
  "le_bytes n v = map (\<lambda>i. ucast (drop_bit (8 * i) v)) [0..<n]"

definition put :: "nat \<Rightarrow> bytes \<Rightarrow> bytes \<Rightarrow> bytes" where
  "put off bs buf = take off buf @ bs @ drop (off + length bs) buf"

text \<open>\<^verbatim>\<open>buf[off..off + n].copy_from_slice(bs)\<close>: the range is checked.\<close>

definition patch :: "usize \<Rightarrow> bytes \<Rightarrow> bytes \<Rightarrow> bytes result" where
  "patch off bs buf =
     (if unat off + length bs \<le> length buf then Inr (put (unat off) bs buf)
      else Inl (Panic ''range end index out of range for slice''))"

text \<open>\<^verbatim>\<open>Vec::resize\<close>.\<close>

definition vec_resize :: "nat \<Rightarrow> u8 \<Rightarrow> bytes \<Rightarrow> bytes" where
  "vec_resize n b buf = take n buf @ replicate (n - length buf) b"

definition str_bytes :: "string \<Rightarrow> bytes" where
  "str_bytes s = map of_char s"

section \<open>Symbols and sections\<close>

datatype symbol_type = Func | Object | TlsSym

datatype symbol_scope = Global | Local | Weak

datatype section_kind = Null | DynStr | DynSym | RelaDyn | RelaPlt | RelDyn | RelPlt | Dynamic | Hash | ShStrTab
  | Plt | Text | Data | Got | GotPlt | Tls

record content =
  c_data :: bytes
  c_kind :: section_kind

record symbol_desc =
  sd_name :: bytes
  sd_type :: symbol_type
  sd_scope :: symbol_scope
  sd_content :: "content option"
  sd_size :: "u64 option"

definition global_func :: "bytes \<Rightarrow> bytes \<Rightarrow> symbol_desc" where
  "global_func name code = \<lparr>sd_name = name, sd_type = Func, sd_scope = Global,
     sd_content = Some \<lparr>c_data = code, c_kind = Text\<rparr>, sd_size = Some (of_nat (length code))\<rparr>"

definition global_object :: "bytes \<Rightarrow> bytes \<Rightarrow> symbol_desc" where
  "global_object name dat = \<lparr>sd_name = name, sd_type = Object, sd_scope = Global,
     sd_content = Some \<lparr>c_data = dat, c_kind = Data\<rparr>, sd_size = Some (of_nat (length dat))\<rparr>"

definition undefined_func :: "bytes \<Rightarrow> symbol_desc" where
  "undefined_func name = \<lparr>sd_name = name, sd_type = Func, sd_scope = Global, sd_content = None, sd_size = None\<rparr>"

definition undefined_object :: "bytes \<Rightarrow> symbol_desc" where
  "undefined_object name = \<lparr>sd_name = name, sd_type = Object, sd_scope = Global, sd_content = None, sd_size = None\<rparr>"

definition global_tls :: "bytes \<Rightarrow> bytes \<Rightarrow> symbol_desc" where
  "global_tls name dat = \<lparr>sd_name = name, sd_type = TlsSym, sd_scope = Global,
     sd_content = Some \<lparr>c_data = dat, c_kind = Tls\<rparr>, sd_size = Some (of_nat (length dat))\<rparr>"

definition undefined_tls :: "bytes \<Rightarrow> symbol_desc" where
  "undefined_tls name = \<lparr>sd_name = name, sd_type = TlsSym, sd_scope = Global, sd_content = None, sd_size = None\<rparr>"

definition plt_func :: "bytes \<Rightarrow> bytes \<Rightarrow> symbol_desc" where
  "plt_func name code = \<lparr>sd_name = name, sd_type = Func, sd_scope = Global,
     sd_content = Some \<lparr>c_data = code, c_kind = Plt\<rparr>, sd_size = Some (of_nat (length code))\<rparr>"

definition with_size :: "u64 \<Rightarrow> symbol_desc \<Rightarrow> symbol_desc" where
  "with_size sz s = s\<lparr>sd_size := Some sz\<rparr>"

definition with_scope :: "symbol_scope \<Rightarrow> symbol_desc \<Rightarrow> symbol_desc" where
  "with_scope sc s = s\<lparr>sd_scope := sc\<rparr>"

section \<open>Architectures\<close>

datatype arch = X86_64 | X86 | Aarch64 | Riscv64 | Riscv32 | Arm | Loongarch64

fun is_64 :: "arch \<Rightarrow> bool" where
  "is_64 X86_64 = True"
| "is_64 Aarch64 = True"
| "is_64 Riscv64 = True"
| "is_64 Loongarch64 = True"
| "is_64 X86 = False"
| "is_64 Riscv32 = False"
| "is_64 Arm = False"

fun arch_is_rela :: "arch \<Rightarrow> bool" where
  "arch_is_rela X86_64 = True"
| "arch_is_rela Aarch64 = True"
| "arch_is_rela Riscv64 = True"
| "arch_is_rela Riscv32 = True"
| "arch_is_rela Loongarch64 = True"
| "arch_is_rela X86 = False"
| "arch_is_rela Arm = False"

text \<open>The relocation numbers of the processor supplements.\<close>

definition R_386_32 :: u32 where [abi]: "R_386_32 = 1"
definition R_386_COPY :: u32 where [abi]: "R_386_COPY = 5"
definition R_386_GLOB_DAT :: u32 where [abi]: "R_386_GLOB_DAT = 6"
definition R_386_JMP_SLOT :: u32 where [abi]: "R_386_JMP_SLOT = 7"
definition R_386_RELATIVE :: u32 where [abi]: "R_386_RELATIVE = 8"
definition R_386_TLS_TPOFF :: u32 where [abi]: "R_386_TLS_TPOFF = 14"
definition R_386_TLS_DTPMOD32 :: u32 where [abi]: "R_386_TLS_DTPMOD32 = 35"
definition R_386_TLS_DTPOFF32 :: u32 where [abi]: "R_386_TLS_DTPOFF32 = 36"
definition R_386_IRELATIVE :: u32 where [abi]: "R_386_IRELATIVE = 42"
definition R_AARCH64_ABS64 :: u32 where [abi]: "R_AARCH64_ABS64 = 257"
definition R_AARCH64_COPY :: u32 where [abi]: "R_AARCH64_COPY = 1024"
definition R_AARCH64_GLOB_DAT :: u32 where [abi]: "R_AARCH64_GLOB_DAT = 1025"
definition R_AARCH64_JUMP_SLOT :: u32 where [abi]: "R_AARCH64_JUMP_SLOT = 1026"
definition R_AARCH64_RELATIVE :: u32 where [abi]: "R_AARCH64_RELATIVE = 1027"
definition R_AARCH64_TLS_DTPMOD :: u32 where [abi]: "R_AARCH64_TLS_DTPMOD = 1028"
definition R_AARCH64_TLS_DTPREL :: u32 where [abi]: "R_AARCH64_TLS_DTPREL = 1029"
definition R_AARCH64_TLS_TPREL :: u32 where [abi]: "R_AARCH64_TLS_TPREL = 1030"
definition R_AARCH64_IRELATIVE :: u32 where [abi]: "R_AARCH64_IRELATIVE = 1032"
definition R_ARM_ABS32 :: u32 where [abi]: "R_ARM_ABS32 = 2"
definition R_ARM_TLS_DTPMOD32 :: u32 where [abi]: "R_ARM_TLS_DTPMOD32 = 17"
definition R_ARM_TLS_DTPOFF32 :: u32 where [abi]: "R_ARM_TLS_DTPOFF32 = 18"
definition R_ARM_TLS_TPOFF32 :: u32 where [abi]: "R_ARM_TLS_TPOFF32 = 19"
definition R_ARM_COPY :: u32 where [abi]: "R_ARM_COPY = 20"
definition R_ARM_GLOB_DAT :: u32 where [abi]: "R_ARM_GLOB_DAT = 21"
definition R_ARM_JUMP_SLOT :: u32 where [abi]: "R_ARM_JUMP_SLOT = 22"
definition R_ARM_RELATIVE :: u32 where [abi]: "R_ARM_RELATIVE = 23"
definition R_ARM_IRELATIVE :: u32 where [abi]: "R_ARM_IRELATIVE = 160"
definition R_RISCV_32 :: u32 where [abi]: "R_RISCV_32 = 1"
definition R_RISCV_64 :: u32 where [abi]: "R_RISCV_64 = 2"
definition R_RISCV_RELATIVE :: u32 where [abi]: "R_RISCV_RELATIVE = 3"
definition R_RISCV_COPY :: u32 where [abi]: "R_RISCV_COPY = 4"
definition R_RISCV_JUMP_SLOT :: u32 where [abi]: "R_RISCV_JUMP_SLOT = 5"
definition R_RISCV_TLS_DTPMOD64 :: u32 where [abi]: "R_RISCV_TLS_DTPMOD64 = 7"
definition R_RISCV_TLS_DTPREL64 :: u32 where [abi]: "R_RISCV_TLS_DTPREL64 = 9"
definition R_RISCV_TLS_TPREL64 :: u32 where [abi]: "R_RISCV_TLS_TPREL64 = 11"
definition R_RISCV_IRELATIVE :: u32 where [abi]: "R_RISCV_IRELATIVE = 58"
definition R_LARCH_64 :: u32 where [abi]: "R_LARCH_64 = 2"
definition R_LARCH_RELATIVE :: u32 where [abi]: "R_LARCH_RELATIVE = 3"
definition R_LARCH_COPY :: u32 where [abi]: "R_LARCH_COPY = 4"
definition R_LARCH_JUMP_SLOT :: u32 where [abi]: "R_LARCH_JUMP_SLOT = 5"
definition R_LARCH_TLS_DTPMOD64 :: u32 where [abi]: "R_LARCH_TLS_DTPMOD64 = 7"
definition R_LARCH_TLS_DTPREL64 :: u32 where [abi]: "R_LARCH_TLS_DTPREL64 = 9"
definition R_LARCH_TLS_TPREL64 :: u32 where [abi]: "R_LARCH_TLS_TPREL64 = 11"
definition R_LARCH_IRELATIVE :: u32 where [abi]: "R_LARCH_IRELATIVE = 12"

fun jump_slot_reloc :: "arch \<Rightarrow> u32" where
  "jump_slot_reloc X86_64 = R_X86_64_JUMP_SLOT"
| "jump_slot_reloc X86 = R_386_JMP_SLOT"
| "jump_slot_reloc Aarch64 = R_AARCH64_JUMP_SLOT"
| "jump_slot_reloc Arm = R_ARM_JUMP_SLOT"
| "jump_slot_reloc Riscv64 = R_RISCV_JUMP_SLOT"
| "jump_slot_reloc Riscv32 = R_RISCV_JUMP_SLOT"
| "jump_slot_reloc Loongarch64 = R_LARCH_JUMP_SLOT"

fun glob_dat_reloc :: "arch \<Rightarrow> u32" where
  "glob_dat_reloc X86_64 = R_X86_64_GLOB_DAT"
| "glob_dat_reloc X86 = R_386_GLOB_DAT"
| "glob_dat_reloc Aarch64 = R_AARCH64_GLOB_DAT"
| "glob_dat_reloc Arm = R_ARM_GLOB_DAT"
| "glob_dat_reloc Riscv64 = R_RISCV_64"
| "glob_dat_reloc Riscv32 = R_RISCV_32"
| "glob_dat_reloc Loongarch64 = R_LARCH_64"

fun relative_reloc :: "arch \<Rightarrow> u32" where
  "relative_reloc X86_64 = R_X86_64_RELATIVE"
| "relative_reloc X86 = R_386_RELATIVE"
| "relative_reloc Aarch64 = R_AARCH64_RELATIVE"
| "relative_reloc Riscv64 = R_RISCV_RELATIVE"
| "relative_reloc Riscv32 = R_RISCV_RELATIVE"
| "relative_reloc Arm = R_ARM_RELATIVE"
| "relative_reloc Loongarch64 = R_LARCH_RELATIVE"

fun irelative_reloc :: "arch \<Rightarrow> u32" where
  "irelative_reloc X86_64 = R_X86_64_IRELATIVE"
| "irelative_reloc X86 = R_386_IRELATIVE"
| "irelative_reloc Aarch64 = R_AARCH64_IRELATIVE"
| "irelative_reloc Arm = R_ARM_IRELATIVE"
| "irelative_reloc Riscv64 = R_RISCV_IRELATIVE"
| "irelative_reloc Riscv32 = R_RISCV_IRELATIVE"
| "irelative_reloc Loongarch64 = R_LARCH_IRELATIVE"

fun abs_reloc :: "arch \<Rightarrow> u32" where
  "abs_reloc X86_64 = R_X86_64_64"
| "abs_reloc X86 = R_386_32"
| "abs_reloc Aarch64 = R_AARCH64_ABS64"
| "abs_reloc Riscv64 = R_RISCV_64"
| "abs_reloc Riscv32 = R_RISCV_32"
| "abs_reloc Arm = R_ARM_ABS32"
| "abs_reloc Loongarch64 = R_LARCH_64"

fun copy_reloc :: "arch \<Rightarrow> u32" where
  "copy_reloc X86_64 = R_X86_64_COPY"
| "copy_reloc X86 = R_386_COPY"
| "copy_reloc Aarch64 = R_AARCH64_COPY"
| "copy_reloc Arm = R_ARM_COPY"
| "copy_reloc Riscv64 = R_RISCV_COPY"
| "copy_reloc Riscv32 = R_RISCV_COPY"
| "copy_reloc Loongarch64 = R_LARCH_COPY"

fun dtpoff_reloc :: "arch \<Rightarrow> u32" where
  "dtpoff_reloc X86_64 = R_X86_64_DTPOFF64"
| "dtpoff_reloc X86 = R_386_TLS_DTPOFF32"
| "dtpoff_reloc Aarch64 = R_AARCH64_TLS_DTPMOD"
| "dtpoff_reloc Arm = R_ARM_TLS_DTPOFF32"
| "dtpoff_reloc Riscv64 = R_RISCV_TLS_DTPMOD64"
| "dtpoff_reloc Riscv32 = R_RISCV_TLS_DTPMOD64"
| "dtpoff_reloc Loongarch64 = R_LARCH_TLS_DTPMOD64"

section \<open>Relocation types\<close>

text \<open>\<^verbatim>\<open>RelocType\<close> is a 32-bit number.\<close>

type_synonym reloc_type = u32

definition as_u64 :: "reloc_type \<Rightarrow> u64" where
  "as_u64 t = ucast t"

fun is_plt_reloc :: "reloc_type \<Rightarrow> arch \<Rightarrow> bool" where
  "is_plt_reloc t X86_64 = (t = R_X86_64_JUMP_SLOT)"
| "is_plt_reloc t X86 = (t = R_386_JMP_SLOT)"
| "is_plt_reloc t Aarch64 = (t = R_AARCH64_JUMP_SLOT)"
| "is_plt_reloc t Arm = (t = R_ARM_JUMP_SLOT)"
| "is_plt_reloc t Riscv64 = (t = R_RISCV_JUMP_SLOT)"
| "is_plt_reloc t Riscv32 = (t = R_RISCV_JUMP_SLOT)"
| "is_plt_reloc t Loongarch64 = (t = R_LARCH_JUMP_SLOT)"

fun is_irelative_reloc :: "reloc_type \<Rightarrow> arch \<Rightarrow> bool" where
  "is_irelative_reloc t X86_64 = (t = R_X86_64_IRELATIVE)"
| "is_irelative_reloc t X86 = (t = R_386_IRELATIVE)"
| "is_irelative_reloc t Aarch64 = (t = R_AARCH64_IRELATIVE)"
| "is_irelative_reloc t Arm = (t = R_ARM_IRELATIVE)"
| "is_irelative_reloc t Riscv64 = (t = R_RISCV_IRELATIVE)"
| "is_irelative_reloc t Riscv32 = (t = R_RISCV_IRELATIVE)"
| "is_irelative_reloc t Loongarch64 = (t = R_LARCH_IRELATIVE)"

fun is_relative_reloc :: "reloc_type \<Rightarrow> arch \<Rightarrow> bool" where
  "is_relative_reloc t X86_64 = (t = R_X86_64_RELATIVE)"
| "is_relative_reloc t X86 = (t = R_386_RELATIVE)"
| "is_relative_reloc t Aarch64 = (t = R_AARCH64_RELATIVE)"
| "is_relative_reloc t Riscv64 = (t = R_RISCV_RELATIVE)"
| "is_relative_reloc t Riscv32 = (t = R_RISCV_RELATIVE)"
| "is_relative_reloc t Arm = (t = R_ARM_RELATIVE)"
| "is_relative_reloc t Loongarch64 = (t = R_LARCH_RELATIVE)"

fun is_abs_reloc :: "reloc_type \<Rightarrow> arch \<Rightarrow> bool" where
  "is_abs_reloc t X86_64 = (t = R_X86_64_64)"
| "is_abs_reloc t X86 = (t = R_386_32)"
| "is_abs_reloc t Aarch64 = (t = R_AARCH64_ABS64)"
| "is_abs_reloc t Riscv64 = (t = R_RISCV_64)"
| "is_abs_reloc t Riscv32 = (t = R_RISCV_32)"
| "is_abs_reloc t Arm = (t = R_ARM_ABS32)"
| "is_abs_reloc t Loongarch64 = (t = R_LARCH_64)"

fun is_glob_dat_reloc :: "reloc_type \<Rightarrow> arch \<Rightarrow> bool" where
  "is_glob_dat_reloc t X86_64 = (t = R_X86_64_GLOB_DAT)"
| "is_glob_dat_reloc t X86 = (t = R_386_GLOB_DAT)"
| "is_glob_dat_reloc t Aarch64 = (t = R_AARCH64_GLOB_DAT)"
| "is_glob_dat_reloc t Arm = (t = R_ARM_GLOB_DAT)"
| "is_glob_dat_reloc t Riscv64 = (t = R_RISCV_64)"
| "is_glob_dat_reloc t Riscv32 = (t = R_RISCV_32)"
| "is_glob_dat_reloc t Loongarch64 = (t = R_LARCH_64)"

fun is_copy_reloc :: "reloc_type \<Rightarrow> arch \<Rightarrow> bool" where
  "is_copy_reloc t X86_64 = (t = R_X86_64_COPY)"
| "is_copy_reloc t X86 = (t = R_386_COPY)"
| "is_copy_reloc t Aarch64 = (t = R_AARCH64_COPY)"
| "is_copy_reloc t Arm = (t = R_ARM_COPY)"
| "is_copy_reloc t Riscv64 = (t = R_RISCV_COPY)"
| "is_copy_reloc t Riscv32 = (t = R_RISCV_COPY)"
| "is_copy_reloc t Loongarch64 = (t = R_LARCH_COPY)"

fun is_tls_reloc :: "reloc_type \<Rightarrow> arch \<Rightarrow> bool" where
  "is_tls_reloc t X86_64 = (t = R_X86_64_DTPMOD64 \<or> t = R_X86_64_DTPOFF64 \<or> t = R_X86_64_TPOFF64)"
| "is_tls_reloc t X86 = (t = R_386_TLS_DTPMOD32 \<or> t = R_386_TLS_DTPOFF32 \<or> t = R_386_TLS_TPOFF)"
| "is_tls_reloc t Aarch64 = (t = R_AARCH64_TLS_DTPMOD \<or> t = R_AARCH64_TLS_DTPREL \<or> t = R_AARCH64_TLS_TPREL)"
| "is_tls_reloc t Arm = (t = R_ARM_TLS_DTPMOD32 \<or> t = R_ARM_TLS_DTPOFF32 \<or> t = R_ARM_TLS_TPOFF32)"
| "is_tls_reloc t Riscv64 = (t = R_RISCV_TLS_DTPMOD64 \<or> t = R_RISCV_TLS_DTPREL64 \<or> t = R_RISCV_TLS_TPREL64)"
| "is_tls_reloc t Riscv32 = (t = R_RISCV_TLS_DTPMOD64 \<or> t = R_RISCV_TLS_DTPREL64 \<or> t = R_RISCV_TLS_TPREL64)"
| "is_tls_reloc t Loongarch64 = (t = R_LARCH_TLS_DTPMOD64 \<or> t = R_LARCH_TLS_DTPREL64 \<or> t = R_LARCH_TLS_TPREL64)"

definition calculate_addend :: "arch \<Rightarrow> reloc_type \<Rightarrow> u64 \<Rightarrow> u64 \<Rightarrow> u64 \<Rightarrow> u64" where
  "calculate_addend arch t reloc_offset data_vaddr sym_val =
     (if is_glob_dat_reloc t arch then 0
      else if is_abs_reloc t arch then sym_val + 0x10
      else if is_plt_reloc t arch then 0
      else if is_relative_reloc t arch then (if sym_val \<noteq> 0 then sym_val else data_vaddr)
      else if is_copy_reloc t arch then 0
      else if is_tls_reloc t arch then 0
      else reloc_offset)"

record reloc_entry =
  re_name :: bytes
  re_type :: reloc_type
  re_addend :: u64

definition with_name :: "bytes \<Rightarrow> u32 \<Rightarrow> reloc_entry" where
  "with_name name t = \<lparr>re_name = name, re_type = t, re_addend = 0\<rparr>"

definition reloc_entry_new :: "u32 \<Rightarrow> reloc_entry" where
  "reloc_entry_new t = \<lparr>re_name = [], re_type = t, re_addend = 0\<rparr>"

definition with_addend :: "u64 \<Rightarrow> reloc_entry \<Rightarrow> reloc_entry" where
  "with_addend a r = r\<lparr>re_addend := a\<rparr>"

definition jump_slot :: "bytes \<Rightarrow> arch \<Rightarrow> reloc_entry" where
  "jump_slot name arch = with_name name (jump_slot_reloc arch)"

definition glob_dat :: "bytes \<Rightarrow> arch \<Rightarrow> reloc_entry" where
  "glob_dat name arch = with_name name (glob_dat_reloc arch)"

definition relative :: "arch \<Rightarrow> reloc_entry" where
  "relative arch = reloc_entry_new (relative_reloc arch)"

definition irelative_entry :: "arch \<Rightarrow> reloc_entry" where
  "irelative_entry arch = reloc_entry_new (irelative_reloc arch)"

definition copy_entry :: "bytes \<Rightarrow> arch \<Rightarrow> reloc_entry" where
  "copy_entry name arch = with_name name (copy_reloc arch)"

definition dtpoff :: "bytes \<Rightarrow> arch \<Rightarrow> reloc_entry" where
  "dtpoff name arch = with_name name (dtpoff_reloc arch)"

definition abs_entry :: "bytes \<Rightarrow> arch \<Rightarrow> reloc_entry" where
  "abs_entry name arch = with_name name (abs_reloc arch)"

section \<open>Lemmas\<close>

lemma length_le_bytes [simp]: "length (le_bytes n v) = n"
  by (simp add: le_bytes_def)

lemma length_put [simp]: "off + length bs \<le> length buf \<Longrightarrow> length (put off bs buf) = length buf"
  by (simp add: put_def)

lemma length_vec_resize [simp]: "length (vec_resize n b buf) = n"
  by (simp add: vec_resize_def)

text \<open>The five classes of relocations that the generator treats apart are disjoint.\<close>

lemma le_word_le_bytes:
  fixes v :: "'a::len word"
  assumes "LENGTH('a) \<le> 8 * n"
  shows "le_word (le_bytes n v) = v"
proof (rule bit_word_eqI)
  fix k assume k: "k < LENGTH('a)"
  then have "k div 8 < n" "8 * (k div 8) + k mod 8 = k" using assms by auto
  with k show "bit (le_word (le_bytes n v) :: 'a word) k = bit v k"
    by (auto simp: bit_le_word le_bytes_def bit_ucast_iff bit_drop_bit_eq)
qed

section \<open>Bytes in memory\<close>

definition holds :: "mem \<Rightarrow> usize \<Rightarrow> bytes \<Rightarrow> bool" where
  "holds m a bs \<longleftrightarrow> read_bytes (length bs) m a = bs"

lemma holds_iff: "holds m a bs \<longleftrightarrow> (\<forall>i < length bs. m (a + of_nat i) = bs ! i)"
  by (auto simp: holds_def list_eq_iff_nth_eq)

lemma holds_Nil [simp]: "holds m a []"
  by (simp add: holds_iff)

lemma holds_append [simp]: "holds m a (xs @ ys) \<longleftrightarrow> holds m a xs \<and> holds m (a + of_nat (length xs)) ys"
proof
  assume h: "holds m a (xs @ ys)"
  have "m (a + of_nat i) = xs ! i" if "i < length xs" for i
    using h that unfolding holds_iff by (auto dest: spec [of _ i] simp: nth_append)
  moreover have "m (a + of_nat (length xs) + of_nat i) = ys ! i" if "i < length ys" for i
    using h that unfolding holds_iff by (auto dest: spec [of _ "length xs + i"] simp: nth_append algebra_simps)
  ultimately show "holds m a xs \<and> holds m (a + of_nat (length xs)) ys" by (simp add: holds_iff)
next
  assume h: "holds m a xs \<and> holds m (a + of_nat (length xs)) ys"
  show "holds m a (xs @ ys)" unfolding holds_iff
  proof (intro allI impI)
    fix i assume "i < length (xs @ ys)"
    then show "m (a + of_nat i) = (xs @ ys) ! i"
      using h unfolding holds_iff
      by (cases "i < length xs") (auto simp: nth_append dest: spec [of _ "i - length xs"])
  qed
qed

lemma holds_Cons: "holds m a (x # xs) \<longleftrightarrow> m a = x \<and> holds m (a + 1) xs"
  using holds_append [of m a "[x]" xs] by (simp add: holds_iff)

lemma holds_le_bytes:
  fixes v :: "'a::len word"
  assumes "holds m a (le_bytes n v)" and "LENGTH('a) \<le> 8 * n"
  shows "read_le n m a = v"
  using assms le_word_le_bytes [of n v] by (simp add: holds_def read_le_def)

text \<open>An array of records of \<open>k\<close> bytes.\<close>

lemma holds_array:
  assumes "holds m a (concat (map f xs))" and "\<And>x. x \<in> set xs \<Longrightarrow> length (f x) = k" and "i < length xs"
  shows "holds m (a + of_nat (k * i)) (f (xs ! i))"
  using assms
proof (induction xs arbitrary: a i)
  case (Cons x xs)
  show ?case
  proof (cases i)
    case 0
    with Cons.prems show ?thesis by simp
  next
    case (Suc j)
    with Cons.prems Cons.IH [of "a + of_nat k" j] show ?thesis by (simp add: algebra_simps)
  qed
qed simp

end
