(* ===== verification/Gen_Shdr.thy ===== *)
theory Gen_Shdr
  imports Gen_Common
begin

text \<open>
  Sections of a generated library: \<^verbatim>\<open>dylib/shdr.rs\<close> and \<^verbatim>\<open>dylib/layout.rs\<close>, and the string
  table and configuration of \<^verbatim>\<open>dylib/mod.rs\<close>. Section contents live in an allocator and are named by
  their index in it; the manager orders the sections by segment, gives them file offsets and addresses,
  and writes program and section headers. A hash map from section kinds is a map.
\<close>

definition SHT_NULL :: u32 where [abi]: "SHT_NULL = 0"
definition SHT_PROGBITS :: u32 where [abi]: "SHT_PROGBITS = 1"
definition SHT_STRTAB :: u32 where [abi]: "SHT_STRTAB = 3"
definition SHT_HASH :: u32 where [abi]: "SHT_HASH = 5"
definition SHT_DYNAMIC :: u32 where [abi]: "SHT_DYNAMIC = 6"
definition SHT_DYNSYM :: u32 where [abi]: "SHT_DYNSYM = 11"
definition SHF_TLS :: u64 where [abi]: "SHF_TLS = 0x400"
definition PT_TLS :: u32 where [abi]: "PT_TLS = 7"

section \<open>Sizes and configuration\<close>

definition EHDR_SIZE_64 :: u64 where "EHDR_SIZE_64 = 64"
definition EHDR_SIZE_32 :: u64 where "EHDR_SIZE_32 = 52"
definition PHDR_SIZE_64 :: u64 where "PHDR_SIZE_64 = 56"
definition PHDR_SIZE_32 :: u64 where "PHDR_SIZE_32 = 32"
definition SHDR_SIZE_64 :: u64 where "SHDR_SIZE_64 = 64"
definition SHDR_SIZE_32 :: u64 where "SHDR_SIZE_32 = 40"
definition SYM_SIZE_64 :: u64 where "SYM_SIZE_64 = 24"
definition SYM_SIZE_32 :: u64 where "SYM_SIZE_32 = 16"
definition RELA_SIZE_64 :: u64 where "RELA_SIZE_64 = 24"
definition RELA_SIZE_32 :: u64 where "RELA_SIZE_32 = 12"
definition REL_SIZE_64 :: u64 where "REL_SIZE_64 = 16"
definition REL_SIZE_32 :: u64 where "REL_SIZE_32 = 8"
definition DYN_SIZE_64 :: u64 where "DYN_SIZE_64 = 16"
definition DYN_SIZE_32 :: u64 where "DYN_SIZE_32 = 8"
definition HASH_SIZE :: u64 where "HASH_SIZE = 4"

lemmas gen_sizes = EHDR_SIZE_64_def EHDR_SIZE_32_def PHDR_SIZE_64_def PHDR_SIZE_32_def SHDR_SIZE_64_def
  SHDR_SIZE_32_def SYM_SIZE_64_def SYM_SIZE_32_def RELA_SIZE_64_def RELA_SIZE_32_def REL_SIZE_64_def
  REL_SIZE_32_def DYN_SIZE_64_def DYN_SIZE_32_def HASH_SIZE_def

text \<open>The division panics for an alignment of zero.\<close>

definition align_up :: "u64 \<Rightarrow> u64 \<Rightarrow> u64 result" where
  "align_up val align =
     (if align = 0 then Inl (Panic ''attempt to divide by zero'')
      else Inr ((val + align - 1) div align * align))"

type_synonym string_table = bytes

definition string_table_new :: string_table where
  "string_table_new = [0]"

definition string_table_add :: "bytes \<Rightarrow> string_table \<Rightarrow> u32 \<times> string_table" where
  "string_table_add s t = (of_nat (length t), t @ s @ [0])"

definition cur_idx :: "string_table \<Rightarrow> u32" where
  "cur_idx t = of_nat (length t)"

record elf_writer_config =
  cfg_base_addr :: u64
  cfg_page_size :: u64
  cfg_ifunc_resolver_val :: "u64 option"

definition config_default :: elf_writer_config where
  "config_default = \<lparr>cfg_base_addr = 0, cfg_page_size = 0x1000, cfg_ifunc_resolver_val = None\<rparr>"

definition with_base_addr :: "u64 \<Rightarrow> elf_writer_config \<Rightarrow> elf_writer_config" where
  "with_base_addr a c = c\<lparr>cfg_base_addr := a\<rparr>"

definition with_page_size :: "u64 \<Rightarrow> elf_writer_config \<Rightarrow> elf_writer_config" where
  "with_page_size n c = c\<lparr>cfg_page_size := n\<rparr>"

definition with_ifunc_resolver_val :: "u64 \<Rightarrow> elf_writer_config \<Rightarrow> elf_writer_config" where
  "with_ifunc_resolver_val v c = c\<lparr>cfg_ifunc_resolver_val := Some v\<rparr>"

section \<open>File layout\<close>

record elf_layout =
  lay_base_addr :: u64
  lay_page_size :: u64
  file_off :: u64

definition layout_new :: "elf_writer_config \<Rightarrow> elf_layout" where
  "layout_new c = \<lparr>lay_base_addr = cfg_base_addr c, lay_page_size = cfg_page_size c, file_off = 0\<rparr>"

definition align_to_page :: "elf_layout \<Rightarrow> elf_layout result" where
  "align_to_page l = res_bind (align_up (file_off l) (lay_page_size l)) (\<lambda>off. Inr (l\<lparr>file_off := off\<rparr>))"

definition add_header :: "u64 \<Rightarrow> u64 \<Rightarrow> elf_layout \<Rightarrow> elf_layout result" where
  "add_header ehdr_size ph_size l = align_to_page (l\<lparr>file_off := ehdr_size + ph_size\<rparr>)"

definition layout_add_section :: "u64 \<Rightarrow> u64 \<Rightarrow> elf_layout \<Rightarrow> ((u64 \<times> u64) \<times> elf_layout) result" where
  "layout_add_section sz align l =
     res_bind (align_up (file_off l) align) (\<lambda>offset.
       let vaddr = lay_base_addr l + offset
       in Inr ((offset, vaddr), l\<lparr>file_off := offset + sz\<rparr>))"

section \<open>Section kinds\<close>

fun kind_as_str :: "section_kind \<Rightarrow> string" where
  "kind_as_str Null = ''.null''"
| "kind_as_str DynStr = ''.dynstr''"
| "kind_as_str DynSym = ''.dynsym''"
| "kind_as_str RelaDyn = ''.rela.dyn''"
| "kind_as_str RelaPlt = ''.rela.plt''"
| "kind_as_str RelDyn = ''.rel.dyn''"
| "kind_as_str RelPlt = ''.rel.plt''"
| "kind_as_str Dynamic = ''.dynamic''"
| "kind_as_str Hash = ''.hash''"
| "kind_as_str ShStrTab = ''.shstrtab''"
| "kind_as_str Plt = ''.plt''"
| "kind_as_str Text = ''.text''"
| "kind_as_str Data = ''.data''"
| "kind_as_str Got = ''.got''"
| "kind_as_str GotPlt = ''.got.plt''"
| "kind_as_str Tls = ''.tdata''"

fun kind_shtype :: "section_kind \<Rightarrow> u32" where
  "kind_shtype Null = SHT_NULL"
| "kind_shtype DynStr = SHT_STRTAB"
| "kind_shtype ShStrTab = SHT_STRTAB"
| "kind_shtype DynSym = SHT_DYNSYM"
| "kind_shtype RelaDyn = SHT_RELA"
| "kind_shtype RelaPlt = SHT_RELA"
| "kind_shtype RelDyn = SHT_REL"
| "kind_shtype RelPlt = SHT_REL"
| "kind_shtype Dynamic = SHT_DYNAMIC"
| "kind_shtype Hash = SHT_HASH"
| "kind_shtype Plt = SHT_PROGBITS"
| "kind_shtype Text = SHT_PROGBITS"
| "kind_shtype Data = SHT_PROGBITS"
| "kind_shtype Got = SHT_PROGBITS"
| "kind_shtype GotPlt = SHT_PROGBITS"
| "kind_shtype Tls = SHT_PROGBITS"

fun kind_flags :: "section_kind \<Rightarrow> u64" where
  "kind_flags Plt = SHF_ALLOC OR SHF_EXECINSTR"
| "kind_flags Text = SHF_ALLOC OR SHF_EXECINSTR"
| "kind_flags Data = SHF_ALLOC OR SHF_WRITE"
| "kind_flags Got = SHF_ALLOC OR SHF_WRITE"
| "kind_flags GotPlt = SHF_ALLOC OR SHF_WRITE"
| "kind_flags Tls = SHF_ALLOC OR SHF_WRITE OR SHF_TLS"
| "kind_flags Dynamic = SHF_ALLOC OR SHF_WRITE"
| "kind_flags DynStr = SHF_ALLOC"
| "kind_flags DynSym = SHF_ALLOC"
| "kind_flags RelaDyn = SHF_ALLOC"
| "kind_flags RelaPlt = SHF_ALLOC"
| "kind_flags RelDyn = SHF_ALLOC"
| "kind_flags RelPlt = SHF_ALLOC"
| "kind_flags Hash = SHF_ALLOC"
| "kind_flags _ = 0"

fun kind_entsize :: "section_kind \<Rightarrow> bool \<Rightarrow> u64" where
  "kind_entsize DynSym is64 = (if is64 then SYM_SIZE_64 else SYM_SIZE_32)"
| "kind_entsize RelaDyn is64 = (if is64 then RELA_SIZE_64 else RELA_SIZE_32)"
| "kind_entsize RelaPlt is64 = (if is64 then RELA_SIZE_64 else RELA_SIZE_32)"
| "kind_entsize RelDyn is64 = (if is64 then REL_SIZE_64 else REL_SIZE_32)"
| "kind_entsize RelPlt is64 = (if is64 then REL_SIZE_64 else REL_SIZE_32)"
| "kind_entsize Dynamic is64 = (if is64 then DYN_SIZE_64 else DYN_SIZE_32)"
| "kind_entsize Hash is64 = HASH_SIZE"
| "kind_entsize Got is64 = (if is64 then 8 else 4)"
| "kind_entsize _ is64 = 0"

type_synonym shdr_map = "section_kind \<Rightarrow> nat option"

fun kind_info :: "section_kind \<Rightarrow> shdr_map \<Rightarrow> u32" where
  "kind_info DynSym m = 1"
| "kind_info RelaPlt m = of_nat (case m Plt of None \<Rightarrow> 0 | Some i \<Rightarrow> i)"
| "kind_info RelPlt m = of_nat (case m Plt of None \<Rightarrow> 0 | Some i \<Rightarrow> i)"
| "kind_info _ m = 0"

definition link_to :: "nat option \<Rightarrow> u32 result" where
  "link_to i = res_bind (unwrap ''called `Option::unwrap()` on a `None` value'' i) (\<lambda>i. Inr (of_nat i))"

fun kind_link :: "section_kind \<Rightarrow> shdr_map \<Rightarrow> u32 result" where
  "kind_link DynSym m = link_to (m DynStr)"
| "kind_link RelaDyn m = link_to (m DynSym)"
| "kind_link RelDyn m = link_to (m DynSym)"
| "kind_link RelaPlt m = link_to (m DynSym)"
| "kind_link RelPlt m = link_to (m DynSym)"
| "kind_link Dynamic m = link_to (m DynStr)"
| "kind_link Hash m = link_to (m DynSym)"
| "kind_link _ m = Inr 0"

section \<open>The allocator\<close>

type_synonym section_allocator = "bytes list"

definition allocate :: "nat \<Rightarrow> section_allocator \<Rightarrow> nat \<times> section_allocator" where
  "allocate sz al = (length al, al @ [replicate sz 0])"

definition allocate_with_data :: "bytes \<Rightarrow> section_allocator \<Rightarrow> nat \<times> section_allocator" where
  "allocate_with_data d al = (length al, al @ [d])"

definition alloc_get :: "section_allocator \<Rightarrow> nat \<Rightarrow> bytes result" where
  "alloc_get al i = (if i < length al then Inr (al ! i) else Inl (Panic ''index out of bounds''))"

text \<open>\<^verbatim>\<open>get_mut\<close> with what is done to the vector.\<close>

definition alloc_modify :: "nat \<Rightarrow> (bytes \<Rightarrow> bytes result) \<Rightarrow> section_allocator \<Rightarrow> section_allocator result" where
  "alloc_modify i f al =
     (if i < length al then res_bind (f (al ! i)) (\<lambda>d. Inr (al[i := d])) else Inl (Panic ''index out of bounds''))"

section \<open>Sections\<close>

record section_header =
  hd_name_off :: u32
  hd_shtype :: section_kind
  hd_addr :: u64
  hd_offset :: u64
  hd_size :: u64
  hd_addralign :: u64

record gen_section =
  sec_header :: section_header
  sec_data :: nat

definition mk_section :: "section_kind \<Rightarrow> u64 \<Rightarrow> u64 \<Rightarrow> nat \<Rightarrow> gen_section" where
  "mk_section k sz align i = \<lparr>sec_header = \<lparr>hd_name_off = 0, hd_shtype = k, hd_addr = 0, hd_offset = 0,
     hd_size = sz, hd_addralign = align\<rparr>, sec_data = i\<rparr>"

abbreviation sec_kind :: "gen_section \<Rightarrow> section_kind" where
  "sec_kind s \<equiv> hd_shtype (sec_header s)"

record shdr_manager =
  sm_shdrs :: "gen_section list"
  rx_secs :: "gen_section list option"
  r_secs :: "gen_section list option"
  rw_secs :: "gen_section list option"

definition manager_new :: shdr_manager where
  "manager_new = \<lparr>sm_shdrs = [], rx_secs = None, r_secs = None, rw_secs = None\<rparr>"

definition manager_add_section :: "section_header \<Rightarrow> nat \<Rightarrow> shdr_manager \<Rightarrow> shdr_manager" where
  "manager_add_section h i sm = sm\<lparr>sm_shdrs := sm_shdrs sm @ [\<lparr>sec_header = h, sec_data = i\<rparr>]\<rparr>"

definition sort_group :: "section_kind \<Rightarrow> nat" where
  "sort_group k =
     (let flags = kind_flags k in
      if flags AND SHF_ALLOC \<noteq> 0 then
        (if flags AND SHF_WRITE = 0 \<and> flags AND SHF_EXECINSTR = 0 then 0
         else if flags AND SHF_EXECINSTR \<noteq> 0 then 1 else 2)
      else 3)"

definition page_group :: "section_kind \<Rightarrow> nat option" where
  "page_group k =
     (let flags = kind_flags k in
      if flags AND SHF_ALLOC \<noteq> 0 then
        (if flags AND SHF_WRITE = 0 \<and> flags AND SHF_EXECINSTR = 0 then Some 0
         else if flags AND SHF_EXECINSTR \<noteq> 0 then Some 1 else Some 2)
      else None)"

text \<open>One section of the second pass: the last group, the layout and the sections placed so far.\<close>

definition place_section ::
  "gen_section \<Rightarrow> nat option \<times> elf_layout \<times> gen_section list \<Rightarrow> (nat option \<times> elf_layout \<times> gen_section list) result" where
  "place_section sec st =
     (let (last_group, lay, acc) = st; h = sec_header sec; flags = kind_flags (hd_shtype h);
          current_group = page_group (hd_shtype h)
      in res_bind (if current_group \<noteq> last_group \<and> current_group \<noteq> None then align_to_page lay else Inr lay) (\<lambda>lay.
         res_bind (layout_add_section (hd_size h) (hd_addralign h) lay) (\<lambda>((off, vaddr), lay).
         let h = h\<lparr>hd_offset := off, hd_addr := if flags AND SHF_ALLOC \<noteq> 0 then vaddr else 0\<rparr>
         in Inr (current_group, lay, acc @ [sec\<lparr>sec_header := h\<rparr>]))))"

text \<open>The third pass: the sections of each segment.\<close>

definition segment_of :: "section_kind \<Rightarrow> nat option" where
  "segment_of k =
     (let flags = kind_flags k in
      if flags AND SHF_ALLOC \<noteq> 0 then
        (if flags AND SHF_EXECINSTR \<noteq> 0 then Some 1 else if flags AND SHF_WRITE = 0 then Some 0 else Some 2)
      else None)"

definition secs_of :: "nat \<Rightarrow> gen_section list \<Rightarrow> gen_section list" where
  "secs_of g secs = filter (\<lambda>s. segment_of (sec_kind s) = Some g) secs"

definition manager_layout :: "elf_layout \<Rightarrow> shdr_manager \<Rightarrow> (shdr_manager \<times> elf_layout) result" where
  "manager_layout lay sm =
     (let sorted = sort_key (\<lambda>s. sort_group (sec_kind s)) (sm_shdrs sm)
      in res_bind (res_fold place_section sorted (None, lay, [])) (\<lambda>(_, lay, secs).
         Inr (sm\<lparr>sm_shdrs := secs, rx_secs := Some (secs_of 1 secs), r_secs := Some (secs_of 0 secs),
                 rw_secs := Some (secs_of 2 secs)\<rparr>, lay)))"

section \<open>The section names\<close>

definition name_section ::
  "string_table \<times> (bytes \<Rightarrow> u32 option) \<times> gen_section list \<Rightarrow> gen_section \<Rightarrow>
   string_table \<times> (bytes \<Rightarrow> u32 option) \<times> gen_section list" where
  "name_section st sec =
     (let (tab, names, acc) = st; name = str_bytes (kind_as_str (sec_kind sec)) in
      case names name of
        Some off \<Rightarrow> (tab, names, acc @ [sec\<lparr>sec_header := (sec_header sec)\<lparr>hd_name_off := off\<rparr>\<rparr>])
      | None \<Rightarrow>
          (let (off, tab') = string_table_add name tab
           in (tab', names(name \<mapsto> off), acc @ [sec\<lparr>sec_header := (sec_header sec)\<lparr>hd_name_off := off\<rparr>\<rparr>])))"

definition create_shstrtab_section ::
  "shdr_manager \<times> section_allocator \<Rightarrow> (shdr_manager \<times> section_allocator) result" where
  "create_shstrtab_section st =
     (let (sm, al) = st;
          (shstrtab, _, secs) = foldl name_section (string_table_new, Map.empty, []) (sm_shdrs sm);
          (shstrtab_off, shstrtab) = string_table_add (str_bytes (kind_as_str ShStrTab)) shstrtab;
          (i, al) = allocate (length shstrtab) al
      in res_bind (alloc_modify i (patch 0 shstrtab) al) (\<lambda>al.
         Inr (manager_add_section \<lparr>hd_name_off = shstrtab_off, hd_shtype = ShStrTab, hd_addr = 0, hd_offset = 0,
                hd_size = of_nat (length shstrtab), hd_addralign = 1\<rparr> i (sm\<lparr>sm_shdrs := secs\<rparr>), al)))"

section \<open>Access to sections\<close>

definition get_shdr_map :: "shdr_manager \<Rightarrow> shdr_map" where
  "get_shdr_map sm = foldl (\<lambda>m (i, sec). m(sec_kind sec \<mapsto> i + 1)) Map.empty (enumerate 0 (sm_shdrs sm))"

definition find_section :: "section_kind \<Rightarrow> shdr_manager \<Rightarrow> gen_section option" where
  "find_section k sm = find (\<lambda>s. sec_kind s = k) (sm_shdrs sm)"

definition get_vaddr :: "section_kind \<Rightarrow> shdr_manager \<Rightarrow> u64" where
  "get_vaddr k sm = (case find_section k sm of None \<Rightarrow> 0 | Some s \<Rightarrow> hd_addr (sec_header s))"

definition get_size :: "section_kind \<Rightarrow> shdr_manager \<Rightarrow> u64" where
  "get_size k sm = (case find_section k sm of None \<Rightarrow> 0 | Some s \<Rightarrow> hd_size (sec_header s))"

definition get_data_id :: "section_kind \<Rightarrow> shdr_manager \<Rightarrow> nat result" where
  "get_data_id k sm =
     unwrap ''called `Option::unwrap()` on a `None` value'' (map_option sec_data (find_section k sm))"

definition get_shdr_count :: "shdr_manager \<Rightarrow> nat" where
  "get_shdr_count sm = length (sm_shdrs sm)"

definition get_phnum :: "shdr_manager \<Rightarrow> u16" where
  "get_phnum sm =
     (let secs = sm_shdrs sm;
          has_rx = (\<exists>s \<in> set secs. segment_of (sec_kind s) = Some 1);
          has_r = (\<exists>s \<in> set secs. segment_of (sec_kind s) = Some 0);
          has_rw = (\<exists>s \<in> set secs. segment_of (sec_kind s) = Some 2);
          has_dynamic = (\<exists>s \<in> set secs. sec_kind s = Dynamic);
          has_tls = (\<exists>s \<in> set secs. sec_kind s = Tls)
      in 1 + (if has_rx then 1 else 0) + (if has_r then 1 else 0) + (if has_rw then 1 else 0)
           + (if has_dynamic then 1 else 0) + (if has_tls then 1 else 0))"

section \<open>Headers\<close>

definition write_shdr :: "shdr_map \<Rightarrow> bool \<Rightarrow> section_header \<Rightarrow> bytes result" where
  "write_shdr m is64 h =
     (let k = hd_shtype h in
      res_bind (kind_link k m) (\<lambda>link. Inr (
      if is64 then
        le_bytes 4 (hd_name_off h) @ le_bytes 4 (kind_shtype k) @ le_bytes 8 (kind_flags k) @ le_bytes 8 (hd_addr h) @
        le_bytes 8 (hd_offset h) @ le_bytes 8 (hd_size h) @ le_bytes 4 link @ le_bytes 4 (kind_info k m) @
        le_bytes 8 (hd_addralign h) @ le_bytes 8 (kind_entsize k is64)
      else
        le_bytes 4 (hd_name_off h) @ le_bytes 4 (kind_shtype k) @ le_bytes 4 (ucast (kind_flags k) :: u32) @
        le_bytes 4 (ucast (hd_addr h) :: u32) @ le_bytes 4 (ucast (hd_offset h) :: u32) @
        le_bytes 4 (ucast (hd_size h) :: u32) @ le_bytes 4 link @ le_bytes 4 (kind_info k m) @
        le_bytes 4 (ucast (hd_addralign h) :: u32) @ le_bytes 4 (ucast (kind_entsize k is64) :: u32))))"

definition write_shdrs :: "shdr_manager \<Rightarrow> bool \<Rightarrow> bytes result" where
  "write_shdrs sm is64 =
     (let m = get_shdr_map sm; null = replicate (if is64 then 64 else 40) 0
      in res_fold (\<lambda>sec out. res_bind (write_shdr m is64 (sec_header sec)) (\<lambda>bs. Inr (out @ bs))) (sm_shdrs sm) null)"

definition write_phdr ::
  "bool \<Rightarrow> u32 \<Rightarrow> u32 \<Rightarrow> u64 \<Rightarrow> u64 \<Rightarrow> u64 \<Rightarrow> u64 \<Rightarrow> u64 \<Rightarrow> bytes" where
  "write_phdr is64 ty fl off vaddr filesz memsz align =
     (if is64 then
        le_bytes 4 ty @ le_bytes 4 fl @ le_bytes 8 off @ le_bytes 8 vaddr @ le_bytes 8 vaddr @ le_bytes 8 filesz @
        le_bytes 8 memsz @ le_bytes 8 align
      else
        le_bytes 4 ty @ le_bytes 4 (ucast off :: u32) @ le_bytes 4 (ucast vaddr :: u32) @ le_bytes 4 (ucast vaddr :: u32) @
        le_bytes 4 (ucast filesz :: u32) @ le_bytes 4 (ucast memsz :: u32) @ le_bytes 4 fl @ le_bytes 4 (ucast align :: u32))"

text \<open>A segment from its first to its last section; the first one of the file starts at its beginning.\<close>

definition write_r_phdr :: "bool \<Rightarrow> u64 \<Rightarrow> gen_section list \<Rightarrow> bytes" where
  "write_r_phdr is64 page_size secs =
     (if secs = [] then [] else
      let first = sec_header (hd secs); lst = sec_header (last secs); p_offset = 0;
          p_vaddr = hd_addr first - hd_offset first;
          p_filesz = (hd_offset lst + hd_size lst) - p_offset
      in write_phdr is64 PT_LOAD PF_R p_offset p_vaddr p_filesz p_filesz page_size)"

definition write_load_phdr :: "bool \<Rightarrow> u64 \<Rightarrow> u32 \<Rightarrow> gen_section list \<Rightarrow> bytes" where
  "write_load_phdr is64 page_size fl secs =
     (if secs = [] then [] else
      let first = sec_header (hd secs); lst = sec_header (last secs);
          p_offset = hd_offset first; p_vaddr = hd_addr first;
          p_filesz = (hd_offset lst + hd_size lst) - p_offset
      in write_phdr is64 PT_LOAD fl p_offset p_vaddr p_filesz p_filesz page_size)"

definition write_phdrs :: "shdr_manager \<Rightarrow> bool \<Rightarrow> u64 \<Rightarrow> bytes result" where
  "write_phdrs sm is64 page_size =
     res_bind (unwrap ''layout must be called before write_phdrs'' (rx_secs sm)) (\<lambda>rx.
     res_bind (unwrap ''layout must be called before write_phdrs'' (r_secs sm)) (\<lambda>r.
     res_bind (unwrap ''layout must be called before write_phdrs'' (rw_secs sm)) (\<lambda>rw.
     let ph_size = (if is64 then 56 else 32) * ucast (get_phnum sm) :: u64
     in Inr (
        write_phdr is64 PT_PHDR PF_R (if is64 then 64 else 52) (if is64 then 64 else 52) ph_size ph_size 8 @
        write_r_phdr is64 page_size r @
        write_load_phdr is64 page_size (PF_R OR PF_X) rx @
        write_load_phdr is64 page_size (PF_R OR PF_W) rw @
        (case find_section Dynamic sm of
           None \<Rightarrow> []
         | Some s \<Rightarrow> let h = sec_header s in
             write_phdr is64 PT_DYNAMIC (PF_R OR PF_W) (hd_offset h) (hd_addr h) (hd_size h) (hd_size h) 8) @
        (case find_section Tls sm of
           None \<Rightarrow> []
         | Some s \<Rightarrow> let h = sec_header s in
             write_phdr is64 PT_TLS PF_R (hd_offset h) (hd_addr h) (hd_size h) (hd_size h) (if is64 then 8 else 4))))))"

end
