(* ===== verification/Gen_Code.thy ===== *)
theory Gen_Code
  imports Gen_Common "HOL-Library.Signed_Division"
begin

text \<open>
  The machine code of the generated libraries, \<^verbatim>\<open>tools/gen-elf/src/arch\<close>: for each architecture
  the first PLT entry, the PLT entries, the test helpers and the IFUNC resolver, first as templates,
  then patched with displacements once the layout is known. Signed arithmetic is on words.
\<close>

text \<open>\<^verbatim>\<open>i64\<close> division rounds towards zero.\<close>

definition i64_div :: "u64 \<Rightarrow> int \<Rightarrow> u64" where
  "i64_div x d = word_of_int (sint x sdiv d)"

section \<open>x86-64\<close>

definition x86_64_generate_plt0_code :: bytes where
  "x86_64_generate_plt0_code = vec_resize 16 0x90 ([0xff, 0x35] @ [0, 0, 0, 0] @ [0xff, 0x25] @ [0, 0, 0, 0])"

definition x86_64_patch_plt0 :: "bytes \<Rightarrow> usize \<Rightarrow> u64 \<Rightarrow> u64 \<Rightarrow> bytes result" where
  "x86_64_patch_plt0 plt_data plt0_off plt0_vaddr got_plt_vaddr =
     (let target_got1 = got_plt_vaddr + 8; rip1 = plt0_vaddr + 6; off1 = ucast (target_got1 - rip1) :: u32
      in res_bind (patch (plt0_off + 2) (le_bytes 4 off1) plt_data) (\<lambda>plt_data.
      let target_got2 = got_plt_vaddr + 16; rip2 = plt0_vaddr + 12; off2 = ucast (target_got2 - rip2) :: u32
      in patch (plt0_off + 8) (le_bytes 4 off2) plt_data))"

definition x86_64_generate_plt_entry_code :: "u32 \<Rightarrow> u64 \<Rightarrow> bytes" where
  "x86_64_generate_plt_entry_code reloc_idx plt_entry_offset =
     (let plt0_offset = - ((ucast plt_entry_offset :: u32) + 16)
      in vec_resize 16 0x90 ([0xff, 0x25] @ [0, 0, 0, 0] @ [0x68] @ le_bytes 4 reloc_idx @ [0xe9] @ le_bytes 4 plt0_offset))"

definition x86_64_patch_plt_entry :: "bytes \<Rightarrow> usize \<Rightarrow> u64 \<Rightarrow> u64 \<Rightarrow> bytes result" where
  "x86_64_patch_plt_entry plt_data plt_entry_off plt_entry_vaddr target_got_vaddr =
     (let rip = plt_entry_vaddr + 6; off = ucast (target_got_vaddr - rip) :: u32
      in patch (plt_entry_off + 2) (le_bytes 4 off) plt_data)"

definition x86_64_generate_helper_code :: bytes where
  "x86_64_generate_helper_code = [0xE9, 0x00, 0x00, 0x00, 0x00, 0x90, 0x90, 0x90]"

definition x86_64_patch_helper :: "bytes \<Rightarrow> usize \<Rightarrow> u64 \<Rightarrow> u64 \<Rightarrow> bytes result" where
  "x86_64_patch_helper text_data helper_text_off helper_vaddr target_plt_vaddr =
     (let rel_off = ucast (target_plt_vaddr - (helper_vaddr + 5)) :: u32
      in res_bind (patch helper_text_off [0xE9] text_data) (patch (helper_text_off + 1) (le_bytes 4 rel_off)))"

definition x86_64_get_ifunc_resolver_code :: bytes where
  "x86_64_get_ifunc_resolver_code = (let code = replicate 16 0x90; code = put 0 [0x48, 0x8d, 0x05] code in code[7 := 0xc3])"

definition x86_64_patch_ifunc_resolver :: "bytes \<Rightarrow> usize \<Rightarrow> u64 \<Rightarrow> u64 \<Rightarrow> bytes result" where
  "x86_64_patch_ifunc_resolver text_data offset resolver_vaddr target_vaddr =
     (let rel_off = ucast (target_vaddr - (resolver_vaddr + 7)) :: u32
      in patch (offset + 3) (le_bytes 4 rel_off) text_data)"

section \<open>x86\<close>

definition x86_generate_plt0_code :: bytes where
  "x86_generate_plt0_code =
     vec_resize 16 0x90 ([0xff, 0xb3, 0x04, 0x00, 0x00, 0x00] @ [0xff, 0xa3, 0x08, 0x00, 0x00, 0x00])"

definition x86_generate_plt_entry_code :: "u32 \<Rightarrow> u64 \<Rightarrow> bytes" where
  "x86_generate_plt_entry_code reloc_idx plt_entry_offset =
     (let reloc_offset = reloc_idx * 8;
          plt0_offset = - ((ucast plt_entry_offset :: u32) + 16)
      in vec_resize 16 0x90 ([0xff, 0xa3, 0, 0, 0, 0] @ [0x68] @ le_bytes 4 reloc_offset @ [0xe9] @ le_bytes 4 plt0_offset))"

definition x86_patch_plt_entry :: "bytes \<Rightarrow> usize \<Rightarrow> u64 \<Rightarrow> u64 \<Rightarrow> bytes result" where
  "x86_patch_plt_entry plt_data plt_entry_off target_got_vaddr got_vaddr =
     (let offset = ucast (target_got_vaddr - got_vaddr) :: u32
      in patch (plt_entry_off + 2) (le_bytes 4 offset) plt_data)"

definition x86_generate_helper_code :: bytes where
  "x86_generate_helper_code =
     (replicate 32 0x90)[0 := 0xe8, 1 := 0x00, 2 := 0x00, 3 := 0x00, 4 := 0x00, 5 := 0x5b, 6 := 0x81, 7 := 0xc3, 12 := 0xe9]"

definition x86_patch_helper :: "bytes \<Rightarrow> usize \<Rightarrow> u64 \<Rightarrow> u64 \<Rightarrow> u64 \<Rightarrow> bytes result" where
  "x86_patch_helper text_data helper_text_off helper_vaddr target_plt_vaddr got_vaddr =
     (let got_off = ucast (got_vaddr - (helper_vaddr + 5)) :: u32
      in res_bind (patch (helper_text_off + 8) (le_bytes 4 got_off) text_data) (\<lambda>text_data.
      let rel_off = ucast (target_plt_vaddr - (helper_vaddr + 17)) :: u32
      in patch (helper_text_off + 13) (le_bytes 4 rel_off) text_data))"

definition x86_get_ifunc_resolver_code :: bytes where
  "x86_get_ifunc_resolver_code =
     (replicate 16 0x90)[0 := 0xe8, 1 := 0x00, 2 := 0x00, 3 := 0x00, 4 := 0x00, 5 := 0x58, 6 := 0x05, 11 := 0xc3]"

definition x86_patch_ifunc_resolver :: "bytes \<Rightarrow> usize \<Rightarrow> u64 \<Rightarrow> u64 \<Rightarrow> bytes result" where
  "x86_patch_ifunc_resolver text_data offset resolver_vaddr target_vaddr =
     (let imm32 = ucast (target_vaddr - (resolver_vaddr + 5)) :: u32
      in patch (offset + 7) (le_bytes 4 imm32) text_data)"

section \<open>AArch64\<close>

definition aarch64_generate_plt0_code :: bytes where
  "aarch64_generate_plt0_code =
     (let code = replicate 32 0;
          code = put 0 [0xf0, 0x7b, 0xbf, 0xa9] code;
          code = put 16 [0x20, 0x02, 0x1f, 0xd6] code;
          code = put 20 [0x1f, 0x20, 0x03, 0xd5] code;
          code = put 24 [0x1f, 0x20, 0x03, 0xd5] code
      in put 28 [0x1f, 0x20, 0x03, 0xd5] code)"

definition encode_adrp :: "u32 \<Rightarrow> u64 \<Rightarrow> u64 \<Rightarrow> u32" where
  "encode_adrp rd pc target =
     (let pc_page = drop_bit 12 pc;
          target_page = drop_bit 12 target;
          offset = ucast (target_page - pc_page) :: u32;
          immlo = offset AND 3;
          immhi = drop_bit 2 offset AND 0x7ffff
      in 0x90000000 OR push_bit 29 immlo OR push_bit 5 immhi OR rd)"

definition encode_ldr_imm12 :: "u32 \<Rightarrow> u32 \<Rightarrow> u32 \<Rightarrow> u32" where
  "encode_ldr_imm12 rt rn imm =
     (let imm12 = drop_bit 3 imm in 0xf9400000 OR push_bit 10 imm12 OR push_bit 5 rn OR rt)"

definition encode_add_imm12 :: "u32 \<Rightarrow> u32 \<Rightarrow> u32 \<Rightarrow> u32" where
  "encode_add_imm12 rd rn imm = 0x91000000 OR push_bit 10 imm OR push_bit 5 rn OR rd"

definition encode_add_imm :: "u32 \<Rightarrow> u32 \<Rightarrow> u32 \<Rightarrow> u32" where
  "encode_add_imm rd rn imm = 0x91000000 OR push_bit 10 imm OR push_bit 5 rn OR rd"

definition aarch64_patch_plt0 :: "bytes \<Rightarrow> usize \<Rightarrow> u64 \<Rightarrow> u64 \<Rightarrow> bytes result" where
  "aarch64_patch_plt0 plt_data plt0_off plt0_vaddr got_plt_vaddr =
     (let pc = plt0_vaddr + 4;
          got_resolver_offset = ucast (got_plt_vaddr AND 0xfff) + 16 :: u32;
          adrp = encode_adrp 16 pc got_plt_vaddr;
          ldr_x17 = encode_ldr_imm12 17 16 got_resolver_offset;
          add_x16 = encode_add_imm12 16 16 got_resolver_offset
      in res_bind (patch (plt0_off + 4) (le_bytes 4 adrp) plt_data) (\<lambda>plt_data.
         res_bind (patch (plt0_off + 8) (le_bytes 4 ldr_x17) plt_data) (\<lambda>plt_data.
         patch (plt0_off + 12) (le_bytes 4 add_x16) plt_data)))"

definition aarch64_generate_plt_entry_code :: bytes where
  "aarch64_generate_plt_entry_code = put 12 [0x20, 0x02, 0x1f, 0xd6] (replicate 16 0)"

definition aarch64_patch_plt_entry :: "bytes \<Rightarrow> usize \<Rightarrow> u64 \<Rightarrow> u64 \<Rightarrow> bytes result" where
  "aarch64_patch_plt_entry plt_data plt_entry_off plt_entry_vaddr target_got_vaddr =
     (let pc = plt_entry_vaddr;
          target_page_offset = ucast (target_got_vaddr AND 0xfff) :: u32;
          adrp = encode_adrp 16 pc target_got_vaddr;
          ldr = encode_ldr_imm12 17 16 target_page_offset;
          add = encode_add_imm12 16 16 target_page_offset
      in res_bind (patch plt_entry_off (le_bytes 4 adrp) plt_data) (\<lambda>plt_data.
         res_bind (patch (plt_entry_off + 4) (le_bytes 4 ldr) plt_data) (\<lambda>plt_data.
         patch (plt_entry_off + 8) (le_bytes 4 add) plt_data)))"

definition aarch64_generate_helper_code :: bytes where
  "aarch64_generate_helper_code = replicate 8 0"

definition aarch64_patch_helper :: "bytes \<Rightarrow> usize \<Rightarrow> u64 \<Rightarrow> u64 \<Rightarrow> bytes result" where
  "aarch64_patch_helper text_data helper_text_off helper_vaddr target_plt_vaddr =
     (let pc = helper_vaddr;
          off = i64_div (target_plt_vaddr - pc) 4;
          insn = 0x14000000 OR ucast (off AND 0x03ffffff) :: u32
      in patch helper_text_off (le_bytes 4 insn) text_data)"

definition aarch64_get_ifunc_resolver_code :: bytes where
  "aarch64_get_ifunc_resolver_code =
     (let code = replicate 16 0;
          code = put 0 [0x00, 0x00, 0x00, 0x90] code;
          code = put 4 [0x00, 0x00, 0x00, 0x91] code
      in put 8 [0xc0, 0x03, 0x5f, 0xd6] code)"

definition aarch64_patch_ifunc_resolver :: "bytes \<Rightarrow> usize \<Rightarrow> u64 \<Rightarrow> u64 \<Rightarrow> bytes result" where
  "aarch64_patch_ifunc_resolver text_data offset resolver_vaddr target_vaddr =
     (let pc = resolver_vaddr;
          target = target_vaddr;
          adrp = encode_adrp 0 pc target
      in res_bind (patch offset (le_bytes 4 adrp) text_data) (\<lambda>text_data.
      let add = encode_add_imm 0 0 (ucast (target AND 0xfff))
      in patch (offset + 4) (le_bytes 4 add) text_data))"

section \<open>ARM\<close>

definition arm_generate_plt0_code :: bytes where
  "arm_generate_plt0_code =
     (let code = replicate 20 0;
          code = put 0 [0x04, 0xe0, 0x2d, 0xe5] code;
          code = put 4 [0x04, 0xe0, 0x9f, 0xe5] code;
          code = put 8 [0x0e, 0xe0, 0x8f, 0xe0] code
      in put 12 [0x08, 0xf0, 0xbe, 0xe5] code)"

definition arm_patch_plt0 :: "bytes \<Rightarrow> usize \<Rightarrow> u64 \<Rightarrow> u64 \<Rightarrow> bytes result" where
  "arm_patch_plt0 plt_data plt0_off plt0_vaddr got_plt_vaddr =
     (let pc_val = plt0_vaddr + 16;
          offset = ucast (got_plt_vaddr - pc_val) :: u32
      in patch (plt0_off + 16) (le_bytes 4 offset) plt_data)"

definition arm_generate_plt_entry_code :: bytes where
  "arm_generate_plt_entry_code =
     (let code = replicate 12 0;
          code = put 0 [0x00, 0xc0, 0x8f, 0xe2] code;
          code = put 4 [0x00, 0xc0, 0x8c, 0xe2] code
      in put 8 [0x00, 0xf0, 0xbc, 0xe5] code)"

text \<open>The loop over the rotations.\<close>

fun arm_imm_loop :: "nat list \<Rightarrow> u32 \<Rightarrow> u32 option" where
  "arm_imm_loop [] n = None"
| "arm_imm_loop (r # rs) n =
     (if n \<le> 0xFF then Some (n OR push_bit 8 (of_nat r))
      else arm_imm_loop rs (word_rotl 2 n))"

definition encode_arm_imm :: "u32 \<Rightarrow> u32 option" where
  "encode_arm_imm n = (if n = 0 then Some 0 else arm_imm_loop [0..<16] n)"

definition arm_patch_plt_entry :: "bytes \<Rightarrow> usize \<Rightarrow> u64 \<Rightarrow> u64 \<Rightarrow> bytes result" where
  "arm_patch_plt_entry plt_data plt_entry_off plt_entry_vaddr target_got_vaddr =
     (let pc = plt_entry_vaddr + 8;
          offset = ucast (target_got_vaddr - pc) :: u32;
          low_12 = offset AND 0xfff;
          residual = offset - low_12
      in res_bind (case encode_arm_imm residual of
            Some enc \<Rightarrow> Inr (0, enc)
          | None \<Rightarrow>
              (let high_part = residual AND 0xFFF00000; mid_part = residual - high_part in
               res_bind (unwrap ''Failed to encode high part of PLT offset'' (encode_arm_imm high_part)) (\<lambda>enc_h.
               res_bind (unwrap ''Failed to encode mid part of PLT offset'' (encode_arm_imm mid_part)) (\<lambda>enc_m.
               Inr (enc_h, enc_m))))) (\<lambda>(imm_high, imm_mid).
         let insn1 = 0xe28fc000 OR imm_high in
         res_bind (patch plt_entry_off (le_bytes 4 insn1) plt_data) (\<lambda>plt_data.
         let insn2 = 0xe28cc000 OR imm_mid in
         res_bind (patch (plt_entry_off + 4) (le_bytes 4 insn2) plt_data) (\<lambda>plt_data.
         let insn3 = 0xe5bcf000 OR low_12 in
         patch (plt_entry_off + 8) (le_bytes 4 insn3) plt_data))))"

definition arm_generate_helper_code :: bytes where
  "arm_generate_helper_code = put 0 [0x00, 0x00, 0x00, 0xea] (replicate 4 0)"

definition arm_patch_helper :: "bytes \<Rightarrow> usize \<Rightarrow> u64 \<Rightarrow> u64 \<Rightarrow> bytes result" where
  "arm_patch_helper text_data helper_text_off helper_vaddr target_plt_vaddr =
     (let off = i64_div (target_plt_vaddr - (helper_vaddr + 8)) 4;
          insn = 0xea000000 OR ucast (off AND 0x00ffffff) :: u32
      in patch helper_text_off (le_bytes 4 insn) text_data)"

definition arm_get_ifunc_resolver_code :: bytes where
  "arm_get_ifunc_resolver_code =
     (let code = replicate 16 0;
          code = put 0 [0x04, 0x00, 0x9f, 0xe5] code;
          code = put 4 [0x00, 0x00, 0x8f, 0xe0] code
      in put 8 [0x1e, 0xff, 0x2f, 0xe1] code)"

definition arm_patch_ifunc_resolver :: "bytes \<Rightarrow> usize \<Rightarrow> u64 \<Rightarrow> u64 \<Rightarrow> bytes result" where
  "arm_patch_ifunc_resolver text_data offset resolver_vaddr target_vaddr =
     (let pc = resolver_vaddr + 12;
          off = ucast (target_vaddr - pc) :: u32
      in patch (offset + 12) (le_bytes 4 off) text_data)"

section \<open>RISC-V\<close>

text \<open>Both RISC-V files have these encoders.\<close>

definition split_addr :: "u64 \<Rightarrow> u64 \<Rightarrow> u32 \<times> u32" where
  "split_addr pc target =
     (let offset = target - pc;
          hi = ucast (offset + 0x800) AND 0xfffff000 :: u32;
          lo = (ucast offset - hi) AND 0xfff
      in (hi, lo))"

definition encode_utype :: "u32 \<Rightarrow> u32 \<Rightarrow> u32 \<Rightarrow> u32" where
  "encode_utype op rd imm = op OR push_bit 7 rd OR (imm AND 0xfffff000)"

definition encode_itype :: "u32 \<Rightarrow> u32 \<Rightarrow> u32 \<Rightarrow> u32 \<Rightarrow> u32" where
  "encode_itype op rd rs1 imm = op OR push_bit 7 rd OR push_bit 15 rs1 OR push_bit 20 (imm AND 0xfff)"

definition encode_rtype :: "u32 \<Rightarrow> u32 \<Rightarrow> u32 \<Rightarrow> u32 \<Rightarrow> u32 \<Rightarrow> u32 \<Rightarrow> u32" where
  "encode_rtype op rd rs1 rs2 funct3 funct7 =
     op OR push_bit 7 rd OR push_bit 12 funct3 OR push_bit 15 rs1 OR push_bit 20 rs2 OR push_bit 25 funct7"

definition encode_jtype :: "u32 \<Rightarrow> u32 \<Rightarrow> u32 \<Rightarrow> u32" where
  "encode_jtype op rd imm =
     (let imm20 = drop_bit 20 imm AND 1;
          imm10_1 = drop_bit 1 imm AND 0x3ff;
          imm11 = drop_bit 11 imm AND 1;
          imm19_12 = drop_bit 12 imm AND 0xff
      in op OR push_bit 7 rd OR push_bit 12 imm19_12 OR push_bit 20 imm11 OR push_bit 21 imm10_1 OR push_bit 31 imm20)"

definition REG_T0 :: u32 where "REG_T0 = 5"
definition REG_T1 :: u32 where "REG_T1 = 6"
definition REG_T2 :: u32 where "REG_T2 = 7"
definition REG_T3 :: u32 where "REG_T3 = 28"

definition riscv64_generate_plt0_code :: bytes where
  "riscv64_generate_plt0_code =
     (let code = replicate 32 0;
          auipc = encode_utype 0x17 REG_T2 0;
          sub = encode_rtype 0x33 REG_T1 REG_T1 REG_T3 0 0x20;
          ld_resolver = encode_itype 0x3003 REG_T3 REG_T2 0;
          addi_adj = encode_itype 0x13 REG_T1 REG_T1 (-44);
          addi_got = encode_itype 0x13 REG_T0 REG_T2 0;
          srli = 0x00135313 :: u32;
          ld_linkmap = encode_itype 0x3003 REG_T0 REG_T0 8;
          jr = encode_itype 0x67 0 REG_T3 0;
          code = put 0 (le_bytes 4 auipc) code;
          code = put 4 (le_bytes 4 sub) code;
          code = put 8 (le_bytes 4 ld_resolver) code;
          code = put 12 (le_bytes 4 addi_adj) code;
          code = put 16 (le_bytes 4 addi_got) code;
          code = put 20 (le_bytes 4 srli) code;
          code = put 24 (le_bytes 4 ld_linkmap) code
      in put 28 (le_bytes 4 jr) code)"

definition riscv64_patch_plt0 :: "bytes \<Rightarrow> usize \<Rightarrow> u64 \<Rightarrow> u64 \<Rightarrow> bytes result" where
  "riscv64_patch_plt0 plt_data plt0_off plt0_vaddr got_plt_vaddr =
     (let pc = plt0_vaddr;
          (hi, lo) = split_addr pc got_plt_vaddr;
          auipc = encode_utype 0x17 REG_T2 hi;
          ld_resolver = encode_itype 0x00003003 REG_T3 REG_T2 lo;
          addi_got = encode_itype 0x13 REG_T0 REG_T2 lo
      in res_bind (patch plt0_off (le_bytes 4 auipc) plt_data) (\<lambda>plt_data.
         res_bind (patch (plt0_off + 8) (le_bytes 4 ld_resolver) plt_data) (\<lambda>plt_data.
         patch (plt0_off + 16) (le_bytes 4 addi_got) plt_data)))"

definition riscv64_generate_plt_entry_code :: bytes where
  "riscv64_generate_plt_entry_code =
     (let code = replicate 16 0;
          jalr = encode_itype 0x67 REG_T1 REG_T3 0;
          nop = 0x00000013 :: u32;
          code = put 8 (le_bytes 4 jalr) code
      in put 12 (le_bytes 4 nop) code)"

definition riscv64_patch_plt_entry :: "bytes \<Rightarrow> usize \<Rightarrow> u64 \<Rightarrow> u64 \<Rightarrow> bytes result" where
  "riscv64_patch_plt_entry plt_data plt_entry_off plt_entry_vaddr target_got_vaddr =
     (let pc = plt_entry_vaddr;
          (hi, lo) = split_addr pc target_got_vaddr;
          auipc = encode_utype 0x17 REG_T3 hi;
          ld = encode_itype 0x00003003 REG_T3 REG_T3 lo
      in res_bind (patch plt_entry_off (le_bytes 4 auipc) plt_data) (\<lambda>plt_data.
         patch (plt_entry_off + 4) (le_bytes 4 ld) plt_data))"

definition riscv64_generate_helper_code :: bytes where
  "riscv64_generate_helper_code =
     (let code = replicate 8 0;
          auipc = encode_utype 0x17 REG_T0 0;
          jr = encode_itype 0x67 0 REG_T0 0;
          code = put 0 (le_bytes 4 auipc) code
      in put 4 (le_bytes 4 jr) code)"

definition riscv64_patch_helper :: "bytes \<Rightarrow> usize \<Rightarrow> u64 \<Rightarrow> u64 \<Rightarrow> bytes result" where
  "riscv64_patch_helper text_data helper_text_off helper_vaddr target_plt_vaddr =
     (let pc = helper_vaddr;
          off = target_plt_vaddr - pc;
          hi = ucast (off + 0x800) AND 0xfffff000 :: u32;
          lo = (ucast off - hi) AND 0xfff;
          auipc = encode_utype 0x17 REG_T0 hi;
          jr = encode_itype 0x67 0 REG_T0 lo
      in res_bind (patch helper_text_off (le_bytes 4 auipc) text_data) (\<lambda>text_data.
         patch (helper_text_off + 4) (le_bytes 4 jr) text_data))"

definition riscv64_get_ifunc_resolver_code :: bytes where
  "riscv64_get_ifunc_resolver_code =
     (let code = replicate 24 0;
          code = put 0 [0x17, 0x05, 0x00, 0x00] code;
          code = put 4 [0x83, 0x32, 0x05, 0x01] code;
          code = put 8 [0x33, 0x05, 0x55, 0x00] code
      in put 12 [0x67, 0x80, 0x00, 0x00] code)"

definition riscv64_patch_ifunc_resolver :: "bytes \<Rightarrow> usize \<Rightarrow> u64 \<Rightarrow> u64 \<Rightarrow> bytes result" where
  "riscv64_patch_ifunc_resolver text_data offset resolver_vaddr target_vaddr =
     (let rel_off = target_vaddr - resolver_vaddr
      in patch (offset + 16) (le_bytes 8 rel_off) text_data)"

definition riscv32_generate_plt0_code :: bytes where
  "riscv32_generate_plt0_code = replicate 32 0"

definition riscv32_patch_plt0 :: "bytes \<Rightarrow> usize \<Rightarrow> u64 \<Rightarrow> u64 \<Rightarrow> bytes result" where
  "riscv32_patch_plt0 plt_data plt0_off plt0_vaddr got_plt_vaddr =
     (let pc = plt0_vaddr;
          target_got1 = got_plt_vaddr + 4;
          target_got2 = got_plt_vaddr + 8;
          (hi, lo1) = split_addr pc target_got1;
          (_, lo2) = split_addr pc target_got2;
          auipc = encode_utype 0x17 7 hi;
          lw1 = encode_itype 0x00002003 5 7 lo1;
          lw2 = encode_itype 0x00002003 7 7 lo2;
          jr = encode_itype 0x00000067 0 7 0
      in res_bind (patch plt0_off (le_bytes 4 auipc) plt_data) (\<lambda>plt_data.
         res_bind (patch (plt0_off + 4) (le_bytes 4 lw1) plt_data) (\<lambda>plt_data.
         res_bind (patch (plt0_off + 8) (le_bytes 4 lw2) plt_data) (\<lambda>plt_data.
         patch (plt0_off + 12) (le_bytes 4 jr) plt_data))))"

definition riscv32_generate_plt_entry_code :: "u32 \<Rightarrow> u64 \<Rightarrow> bytes" where
  "riscv32_generate_plt_entry_code reloc_idx plt_entry_offset =
     (let code = replicate 32 0;
          plt0_off = - ((ucast plt_entry_offset :: u32) + 20);
          j = encode_jtype 0x6f 0 plt0_off;
          code = put 16 (le_bytes 4 (encode_itype 0x00000013 6 0 reloc_idx)) code;
          code = put 20 (le_bytes 4 j) code
      in put 12 [0x13, 0x00, 0x00, 0x00] code)"

definition riscv32_patch_plt_entry :: "bytes \<Rightarrow> usize \<Rightarrow> u64 \<Rightarrow> u64 \<Rightarrow> bytes result" where
  "riscv32_patch_plt_entry plt_data plt_entry_off plt_entry_vaddr target_got_vaddr =
     (let pc = plt_entry_vaddr;
          (hi, lo) = split_addr pc target_got_vaddr;
          auipc = encode_utype 0x17 7 hi;
          lw = encode_itype 0x00002003 7 7 lo;
          jr = encode_itype 0x00000067 0 7 0
      in res_bind (patch plt_entry_off (le_bytes 4 auipc) plt_data) (\<lambda>plt_data.
         res_bind (patch (plt_entry_off + 4) (le_bytes 4 lw) plt_data) (\<lambda>plt_data.
         patch (plt_entry_off + 8) (le_bytes 4 jr) plt_data)))"

definition riscv32_generate_helper_code :: bytes where
  "riscv32_generate_helper_code =
     (let code = replicate 8 0;
          auipc = encode_utype 0x17 5 0;
          jr = encode_itype 0x67 0 5 0;
          code = put 0 (le_bytes 4 auipc) code
      in put 4 (le_bytes 4 jr) code)"

definition riscv32_patch_helper :: "bytes \<Rightarrow> usize \<Rightarrow> u64 \<Rightarrow> u64 \<Rightarrow> bytes result" where
  "riscv32_patch_helper text_data helper_text_off helper_vaddr target_plt_vaddr =
     (let pc = helper_vaddr;
          off = target_plt_vaddr - pc;
          hi = ucast (off + 0x800) AND 0xfffff000 :: u32;
          lo = (ucast off - hi) AND 0xfff;
          auipc = encode_utype 0x17 5 hi;
          jr = encode_itype 0x67 0 5 lo
      in res_bind (patch helper_text_off (le_bytes 4 auipc) text_data) (\<lambda>text_data.
         patch (helper_text_off + 4) (le_bytes 4 jr) text_data))"

definition riscv32_get_ifunc_resolver_code :: bytes where
  "riscv32_get_ifunc_resolver_code =
     (let code = replicate 20 0;
          code = put 0 [0x17, 0x05, 0x00, 0x00] code;
          code = put 4 [0x83, 0x22, 0x05, 0x01] code;
          code = put 8 [0x33, 0x05, 0x55, 0x00] code
      in put 12 [0x67, 0x80, 0x00, 0x00] code)"

definition riscv32_patch_ifunc_resolver :: "bytes \<Rightarrow> usize \<Rightarrow> u64 \<Rightarrow> u64 \<Rightarrow> bytes result" where
  "riscv32_patch_ifunc_resolver text_data offset resolver_vaddr target_vaddr =
     (let rel_off = ucast (target_vaddr - resolver_vaddr) :: u32
      in patch (offset + 16) (le_bytes 4 rel_off) text_data)"

section \<open>LoongArch\<close>

definition loongarch64_generate_plt0_code :: bytes where
  "loongarch64_generate_plt0_code = replicate 32 0"

definition encode_imm26 :: "u32 \<Rightarrow> u32" where
  "encode_imm26 imm = push_bit 10 (imm AND 0xffff) OR (drop_bit 16 imm AND 0x3ff)"

definition loongarch64_patch_plt0 :: "bytes \<Rightarrow> usize \<Rightarrow> u64 \<Rightarrow> u64 \<Rightarrow> bytes result" where
  "loongarch64_patch_plt0 plt_data plt0_off plt0_vaddr got_plt_vaddr =
     (let pc = plt0_vaddr;
          target_got0 = got_plt_vaddr;
          off = target_got0 - pc;
          imm20 = ucast (signed_drop_bit 2 off) :: u32;
          pcaddi = 0x18000000 OR 14 OR push_bit 5 (imm20 AND 0xfffff);
          ld_linkmap = 0x28c00000 OR 12 OR push_bit 5 14 OR push_bit 10 8 :: u32;
          ld_resolver = 0x28c00000 OR 14 OR push_bit 5 14 OR push_bit 10 0 :: u32;
          jr = 0x4c000000 OR 0 OR push_bit 5 14 OR push_bit 10 0 :: u32
      in res_bind (patch plt0_off (le_bytes 4 pcaddi) plt_data) (\<lambda>plt_data.
         res_bind (patch (plt0_off + 4) (le_bytes 4 ld_linkmap) plt_data) (\<lambda>plt_data.
         res_bind (patch (plt0_off + 8) (le_bytes 4 ld_resolver) plt_data) (\<lambda>plt_data.
         patch (plt0_off + 12) (le_bytes 4 jr) plt_data))))"

definition loongarch64_generate_plt_entry_code :: "u32 \<Rightarrow> u64 \<Rightarrow> bytes" where
  "loongarch64_generate_plt_entry_code reloc_idx plt_entry_offset =
     (let code = replicate 32 0;
          nop = 0x03400000 :: u32;
          code = put 12 (le_bytes 4 nop) code;
          reloc_val = reloc_idx * 8;
          li = 0x02800000 OR 13 OR push_bit 10 (reloc_val AND 0xfff);
          plt0_off = - ((ucast plt_entry_offset :: u32) + 20);
          b_imm = signed_drop_bit 2 plt0_off;
          b = 0x50000000 OR encode_imm26 b_imm;
          code = put 16 (le_bytes 4 li) code
      in put 20 (le_bytes 4 b) code)"

definition loongarch64_patch_plt_entry :: "bytes \<Rightarrow> usize \<Rightarrow> u64 \<Rightarrow> u64 \<Rightarrow> bytes result" where
  "loongarch64_patch_plt_entry plt_data plt_entry_off plt_entry_vaddr target_got_vaddr =
     (let pc = plt_entry_vaddr;
          off = target_got_vaddr - pc;
          imm20 = ucast (signed_drop_bit 2 off) :: u32;
          pcaddi = 0x18000000 OR 14 OR push_bit 5 (imm20 AND 0xfffff);
          ld = 0x28c00000 OR 13 OR push_bit 5 14 OR push_bit 10 0 :: u32;
          jirl = 0x4c000000 OR 0 OR push_bit 5 13 OR push_bit 10 0 :: u32
      in res_bind (patch plt_entry_off (le_bytes 4 pcaddi) plt_data) (\<lambda>plt_data.
         res_bind (patch (plt_entry_off + 4) (le_bytes 4 ld) plt_data) (\<lambda>plt_data.
         patch (plt_entry_off + 8) (le_bytes 4 jirl) plt_data)))"

definition loongarch64_generate_helper_code :: bytes where
  "loongarch64_generate_helper_code = [0x00, 0x00, 0x00, 0x50, 0x00, 0x00, 0x00, 0x00]"

definition loongarch64_patch_helper :: "bytes \<Rightarrow> usize \<Rightarrow> u64 \<Rightarrow> u64 \<Rightarrow> bytes result" where
  "loongarch64_patch_helper text_data helper_text_off helper_vaddr target_plt_vaddr =
     (let off = i64_div (target_plt_vaddr - helper_vaddr) 4;
          insn = 0x50000000 OR encode_imm26 (ucast off)
      in patch helper_text_off (le_bytes 4 insn) text_data)"

definition loongarch64_get_ifunc_resolver_code :: bytes where
  "loongarch64_get_ifunc_resolver_code =
     (let code = replicate 16 0;
          code = put 0 [0x04, 0x00, 0x00, 0x1a] code;
          code = put 4 [0x84, 0x00, 0xc0, 0x02] code;
          code = put 8 [0x20, 0x00, 0x00, 0x4c] code
      in put 12 [0x00, 0x00, 0x40, 0x03] code)"

definition loongarch64_patch_ifunc_resolver :: "bytes \<Rightarrow> usize \<Rightarrow> u64 \<Rightarrow> u64 \<Rightarrow> bytes result" where
  "loongarch64_patch_ifunc_resolver text_data offset resolver_vaddr target_vaddr =
     (let pc = resolver_vaddr;
          hi = signed_drop_bit 12 (target_vaddr - (pc AND NOT 0xfff) + 0x800);
          lo = target_vaddr AND 0xfff;
          pcalau12i = 0x1a000000 OR 4 OR push_bit 5 (ucast hi AND 0xfffff) :: u32;
          addi = 0x02c00000 OR 4 OR push_bit 5 4 OR push_bit 10 (ucast lo AND 0xfff) :: u32
      in res_bind (patch offset (le_bytes 4 pcalau12i) text_data) (\<lambda>text_data.
         patch (offset + 4) (le_bytes 4 addi) text_data))"

section \<open>Dispatch\<close>

fun generate_helper_code :: "arch \<Rightarrow> bytes" where
  "generate_helper_code X86_64 = x86_64_generate_helper_code"
| "generate_helper_code X86 = x86_generate_helper_code"
| "generate_helper_code Aarch64 = aarch64_generate_helper_code"
| "generate_helper_code Arm = arm_generate_helper_code"
| "generate_helper_code Riscv64 = riscv64_generate_helper_code"
| "generate_helper_code Riscv32 = riscv32_generate_helper_code"
| "generate_helper_code Loongarch64 = loongarch64_generate_helper_code"

fun patch_helper :: "arch \<Rightarrow> bytes \<Rightarrow> usize \<Rightarrow> u64 \<Rightarrow> u64 \<Rightarrow> u64 \<Rightarrow> bytes result" where
  "patch_helper X86_64 d off vaddr plt got = x86_64_patch_helper d off vaddr plt"
| "patch_helper X86 d off vaddr plt got = x86_patch_helper d off vaddr plt got"
| "patch_helper Aarch64 d off vaddr plt got = aarch64_patch_helper d off vaddr plt"
| "patch_helper Arm d off vaddr plt got = arm_patch_helper d off vaddr plt"
| "patch_helper Riscv64 d off vaddr plt got = riscv64_patch_helper d off vaddr plt"
| "patch_helper Riscv32 d off vaddr plt got = riscv32_patch_helper d off vaddr plt"
| "patch_helper Loongarch64 d off vaddr plt got = loongarch64_patch_helper d off vaddr plt"

fun get_ifunc_resolver_code :: "arch \<Rightarrow> bytes" where
  "get_ifunc_resolver_code X86_64 = x86_64_get_ifunc_resolver_code"
| "get_ifunc_resolver_code X86 = x86_get_ifunc_resolver_code"
| "get_ifunc_resolver_code Aarch64 = aarch64_get_ifunc_resolver_code"
| "get_ifunc_resolver_code Arm = arm_get_ifunc_resolver_code"
| "get_ifunc_resolver_code Riscv64 = riscv64_get_ifunc_resolver_code"
| "get_ifunc_resolver_code Riscv32 = riscv32_get_ifunc_resolver_code"
| "get_ifunc_resolver_code Loongarch64 = loongarch64_get_ifunc_resolver_code"

fun arch_patch_ifunc_resolver :: "arch \<Rightarrow> bytes \<Rightarrow> usize \<Rightarrow> u64 \<Rightarrow> u64 \<Rightarrow> bytes result" where
  "arch_patch_ifunc_resolver X86_64 d off vaddr target = x86_64_patch_ifunc_resolver d off vaddr target"
| "arch_patch_ifunc_resolver X86 d off vaddr target = x86_patch_ifunc_resolver d off vaddr target"
| "arch_patch_ifunc_resolver Aarch64 d off vaddr target = aarch64_patch_ifunc_resolver d off vaddr target"
| "arch_patch_ifunc_resolver Arm d off vaddr target = arm_patch_ifunc_resolver d off vaddr target"
| "arch_patch_ifunc_resolver Riscv64 d off vaddr target = riscv64_patch_ifunc_resolver d off vaddr target"
| "arch_patch_ifunc_resolver Riscv32 d off vaddr target = riscv32_patch_ifunc_resolver d off vaddr target"
| "arch_patch_ifunc_resolver Loongarch64 d off vaddr target = loongarch64_patch_ifunc_resolver d off vaddr target"

fun generate_plt0_code :: "arch \<Rightarrow> bytes" where
  "generate_plt0_code X86_64 = x86_64_generate_plt0_code"
| "generate_plt0_code X86 = x86_generate_plt0_code"
| "generate_plt0_code Aarch64 = aarch64_generate_plt0_code"
| "generate_plt0_code Arm = arm_generate_plt0_code"
| "generate_plt0_code Riscv64 = riscv64_generate_plt0_code"
| "generate_plt0_code Riscv32 = riscv32_generate_plt0_code"
| "generate_plt0_code Loongarch64 = loongarch64_generate_plt0_code"

fun generate_plt_entry_code :: "arch \<Rightarrow> u32 \<Rightarrow> u64 \<Rightarrow> bytes" where
  "generate_plt_entry_code X86_64 idx off = x86_64_generate_plt_entry_code idx off"
| "generate_plt_entry_code X86 idx off = x86_generate_plt_entry_code idx off"
| "generate_plt_entry_code Aarch64 idx off = aarch64_generate_plt_entry_code"
| "generate_plt_entry_code Arm idx off = arm_generate_plt_entry_code"
| "generate_plt_entry_code Riscv64 idx off = riscv64_generate_plt_entry_code"
| "generate_plt_entry_code Riscv32 idx off = riscv32_generate_plt_entry_code idx off"
| "generate_plt_entry_code Loongarch64 idx off = loongarch64_generate_plt_entry_code idx off"

fun patch_plt0 :: "arch \<Rightarrow> bytes \<Rightarrow> usize \<Rightarrow> u64 \<Rightarrow> u64 \<Rightarrow> bytes result" where
  "patch_plt0 X86_64 d off vaddr got = x86_64_patch_plt0 d off vaddr got"
| "patch_plt0 X86 d off vaddr got = Inr d"
| "patch_plt0 Aarch64 d off vaddr got = aarch64_patch_plt0 d off vaddr got"
| "patch_plt0 Arm d off vaddr got = arm_patch_plt0 d off vaddr got"
| "patch_plt0 Riscv64 d off vaddr got = riscv64_patch_plt0 d off vaddr got"
| "patch_plt0 Riscv32 d off vaddr got = riscv32_patch_plt0 d off vaddr got"
| "patch_plt0 Loongarch64 d off vaddr got = loongarch64_patch_plt0 d off vaddr got"

fun patch_plt_entry :: "arch \<Rightarrow> bytes \<Rightarrow> usize \<Rightarrow> u64 \<Rightarrow> u64 \<Rightarrow> u64 \<Rightarrow> bytes result" where
  "patch_plt_entry X86_64 d off vaddr target got = x86_64_patch_plt_entry d off vaddr target"
| "patch_plt_entry X86 d off vaddr target got = x86_patch_plt_entry d off target got"
| "patch_plt_entry Aarch64 d off vaddr target got = aarch64_patch_plt_entry d off vaddr target"
| "patch_plt_entry Arm d off vaddr target got = arm_patch_plt_entry d off vaddr target"
| "patch_plt_entry Riscv64 d off vaddr target got = riscv64_patch_plt_entry d off vaddr target"
| "patch_plt_entry Riscv32 d off vaddr target got = riscv32_patch_plt_entry d off vaddr target"
| "patch_plt_entry Loongarch64 d off vaddr target got = loongarch64_patch_plt_entry d off vaddr target"

fun get_got_plt_init_value :: "arch \<Rightarrow> u64 \<Rightarrow> u64 \<Rightarrow> u64" where
  "get_got_plt_init_value X86_64 plt_vaddr plt_entry_off = plt_vaddr + plt_entry_off + 6"
| "get_got_plt_init_value X86 plt_vaddr plt_entry_off = plt_vaddr + plt_entry_off + 6"
| "get_got_plt_init_value Aarch64 plt_vaddr plt_entry_off = plt_vaddr"
| "get_got_plt_init_value Riscv64 plt_vaddr plt_entry_off = plt_vaddr"
| "get_got_plt_init_value Arm plt_vaddr plt_entry_off = plt_vaddr"
| "get_got_plt_init_value Riscv32 plt_vaddr plt_entry_off = plt_vaddr + plt_entry_off + 16"
| "get_got_plt_init_value Loongarch64 plt_vaddr plt_entry_off = plt_vaddr + plt_entry_off + 16"

fun get_plt0_size :: "arch \<Rightarrow> u64" where
  "get_plt0_size X86_64 = 16"
| "get_plt0_size X86 = 16"
| "get_plt0_size Arm = 20"
| "get_plt0_size Aarch64 = 32"
| "get_plt0_size Riscv64 = 32"
| "get_plt0_size Riscv32 = 32"
| "get_plt0_size Loongarch64 = 32"

fun get_plt_entry_size :: "arch \<Rightarrow> u64" where
  "get_plt_entry_size Arm = 12"
| "get_plt_entry_size X86_64 = 16"
| "get_plt_entry_size X86 = 16"
| "get_plt_entry_size Aarch64 = 16"
| "get_plt_entry_size Riscv64 = 16"
| "get_plt_entry_size Riscv32 = 32"
| "get_plt_entry_size Loongarch64 = 32"

section \<open>Sizes\<close>

lemmas code_defs = x86_64_generate_plt0_code_def x86_64_generate_plt_entry_code_def x86_64_generate_helper_code_def
  x86_64_get_ifunc_resolver_code_def x86_generate_plt0_code_def x86_generate_plt_entry_code_def
  x86_generate_helper_code_def x86_get_ifunc_resolver_code_def aarch64_generate_plt0_code_def
  aarch64_generate_plt_entry_code_def aarch64_generate_helper_code_def aarch64_get_ifunc_resolver_code_def
  arm_generate_plt0_code_def arm_generate_plt_entry_code_def arm_generate_helper_code_def
  arm_get_ifunc_resolver_code_def riscv64_generate_plt0_code_def riscv64_generate_plt_entry_code_def
  riscv64_generate_helper_code_def riscv64_get_ifunc_resolver_code_def riscv32_generate_plt0_code_def
  riscv32_generate_plt_entry_code_def riscv32_generate_helper_code_def riscv32_get_ifunc_resolver_code_def
  loongarch64_generate_plt0_code_def loongarch64_generate_plt_entry_code_def
  loongarch64_generate_helper_code_def loongarch64_get_ifunc_resolver_code_def

text \<open>The templates have the sizes that the PLT offsets are computed with.\<close>

lemma plt_code_sizes:
  "length (generate_plt0_code arch) = unat (get_plt0_size arch)"
  "length (generate_plt_entry_code arch idx off) = unat (get_plt_entry_size arch)"
  by (cases arch; simp add: code_defs Let_def)+

end
