(* ===== verification/Gen_Symtab.thy ===== *)
theory Gen_Symtab
  imports Gen_Shdr Gen_Code
begin

text \<open>
  The dynamic symbol table of a generated library, \<^verbatim>\<open>dylib/symtab.rs\<close>: symbols are collected with
  their names and contents, every content gets the next offset of its section, PLT entries and test
  helpers are added for the functions that jump slots name, and a hash table with a single bucket is
  built. The map from names is a map; of the map from PLT entries to helpers the order of iteration is
  a parameter.
\<close>

definition HELPER_SUFFIX :: bytes where
  "HELPER_SUFFIX = str_bytes ''@helper''"

definition IFUNC_RESOLVER_NAME :: bytes where
  "IFUNC_RESOLVER_NAME = str_bytes ''__ifunc_resolver''"

record gen_symbol =
  gs_name_idx :: u32
  gs_info :: u8
  gs_other :: u8
  gs_shndx :: u16
  gs_value :: u64
  gs_size :: u64

definition symbol_write :: "bool \<Rightarrow> gen_symbol \<Rightarrow> bytes" where
  "symbol_write is64 s =
     (if is64 then
        le_bytes 4 (gs_name_idx s) @ le_bytes 1 (gs_info s) @ le_bytes 1 (gs_other s) @ le_bytes 2 (gs_shndx s) @
        le_bytes 8 (gs_value s) @ le_bytes 8 (gs_size s)
      else
        le_bytes 4 (gs_name_idx s) @ le_bytes 4 (ucast (gs_value s) :: u32) @ le_bytes 4 (ucast (gs_size s) :: u32) @
        le_bytes 1 (gs_info s) @ le_bytes 1 (gs_other s) @ le_bytes 2 (gs_shndx s))"

record symtab_metadata =
  sy_arch :: arch
  dynstr :: string_table
  dynsym :: "gen_symbol list"
  dynsym_shdr_types :: "section_kind list"
  sym_index :: "bytes \<Rightarrow> nat option"
  helper_index :: "(nat \<times> nat) list"
  sy_symbols :: "symbol_desc list"
  dynsym_id :: nat
  dynsym_size :: u64
  dynstr_id :: nat
  dynstr_size :: u64
  hash_id :: nat
  hash_size :: u64
  text_offset :: u64
  data_offset :: u64
  tls_offset :: u64
  plt_offset :: u64
  plt0_idx :: "nat option"
  plt_entries :: "(nat \<times> u64) list"

definition add_symbol :: "bytes \<Rightarrow> gen_symbol \<Rightarrow> section_kind \<Rightarrow> symtab_metadata \<Rightarrow> nat \<times> symtab_metadata" where
  "add_symbol name symv kind st =
     (let sym_idx = length (dynsym st)
      in (sym_idx, st\<lparr>dynsym := dynsym st @ [symv], dynsym_shdr_types := dynsym_shdr_types st @ [kind],
           dynstr := snd (string_table_add name (dynstr st)), sym_index := (sym_index st)(name \<mapsto> sym_idx)\<rparr>))"

text \<open>The offset of a content in its section, which grows by it.\<close>

definition take_offset :: "content \<Rightarrow> symtab_metadata \<Rightarrow> (u64 \<times> symtab_metadata) result" where
  "take_offset c st =
     (let n = of_nat (length (c_data c)) in
      case c_kind c of
        Text \<Rightarrow> Inr (text_offset st, st\<lparr>text_offset := text_offset st + n\<rparr>)
      | Data \<Rightarrow> Inr (data_offset st, st\<lparr>data_offset := data_offset st + n\<rparr>)
      | Tls \<Rightarrow> Inr (tls_offset st, st\<lparr>tls_offset := tls_offset st + n\<rparr>)
      | Plt \<Rightarrow> Inr (plt_offset st, st\<lparr>plt_offset := plt_offset st + n\<rparr>)
      | _ \<Rightarrow> Inl (Panic ''not yet implemented: Unsupported purpose in SymbolDesc content''))"

fun scope_bind :: "symbol_scope \<Rightarrow> u8" where
  "scope_bind Global = STB_GLOBAL"
| "scope_bind Local = STB_LOCAL"
| "scope_bind Weak = STB_WEAK"

fun type_stt :: "symbol_type \<Rightarrow> u8" where
  "type_stt Func = STT_FUNC"
| "type_stt Object = STT_OBJECT"
| "type_stt TlsSym = STT_TLS"

fun undefined_kind :: "symbol_type \<Rightarrow> section_kind" where
  "undefined_kind Func = Text"
| "undefined_kind Object = Data"
| "undefined_kind TlsSym = Tls"

definition desc_size :: "symbol_desc \<Rightarrow> u64" where
  "desc_size s = (case sd_size s of Some n \<Rightarrow> n
     | None \<Rightarrow> (case sd_content s of Some c \<Rightarrow> of_nat (length (c_data c)) | None \<Rightarrow> 0))"

definition add_single_symbol :: "symbol_desc \<Rightarrow> symtab_metadata \<Rightarrow> (nat \<times> symtab_metadata) result" where
  "add_single_symbol s st =
     (case sym_index st (sd_name s) of
        Some idx \<Rightarrow> Inr (idx, st)
      | None \<Rightarrow>
          (let name = sd_name s; name_idx = cur_idx (dynstr st);
               info = push_bit 4 (scope_bind (sd_scope s)) OR type_stt (sd_type s)
           in res_bind (case sd_content s of
                Some c \<Rightarrow> res_bind (take_offset c st) (\<lambda>(off, st). Inr (c_kind c, off, st))
              | None \<Rightarrow> Inr (undefined_kind (sd_type s), 0, st)) (\<lambda>(shdr_type, val, st).
              let symv = \<lparr>gs_name_idx = name_idx, gs_info = info, gs_other = 0, gs_shndx = 0, gs_value = val,
                          gs_size = desc_size s\<rparr>;
                  (idx, st) = add_symbol name symv shdr_type st
              in Inr (idx, st\<lparr>sy_symbols := sy_symbols st @ [s]\<rparr>))))"

definition add_symbols :: "symbol_desc list \<Rightarrow> symtab_metadata \<Rightarrow> symtab_metadata result" where
  "add_symbols symbols st =
     (let resolver_code = get_ifunc_resolver_code (sy_arch st);
          resolver_desc = global_func IFUNC_RESOLVER_NAME resolver_code
      in res_fold (\<lambda>s st. res_bind (add_single_symbol s st) (\<lambda>(_, st). Inr st)) (resolver_desc # symbols) st)"

text \<open>\<^verbatim>\<open>HashMap::insert\<close>: the entries in the order of their first insertion.\<close>

definition index_insert :: "nat \<Rightarrow> nat \<Rightarrow> (nat \<times> nat) list \<Rightarrow> (nat \<times> nat) list" where
  "index_insert k v xs =
     (if k \<in> fst ` set xs then map (\<lambda>(k', v'). if k' = k then (k, v) else (k', v')) xs else xs @ [(k, v)])"

definition add_plt_symbol :: "reloc_entry \<Rightarrow> u64 \<times> u32 \<times> symtab_metadata \<Rightarrow> (u64 \<times> u32 \<times> symtab_metadata) result" where
  "add_plt_symbol r s =
     (let (got_plt_idx, reloc_idx, st) = s; func_name = re_name r;
          plt_sym_name = func_name @ str_bytes ''@plt'';
          plt_code = generate_plt_entry_code (sy_arch st) reloc_idx (plt_offset st)
      in res_bind (add_single_symbol (plt_func plt_sym_name plt_code) st) (\<lambda>(plt_idx, st).
         let st = st\<lparr>plt_entries := plt_entries st @ [(plt_idx, got_plt_idx)]\<rparr>;
             test_helper = func_name @ HELPER_SUFFIX;
             helper_code = generate_helper_code (sy_arch st)
         in res_bind (add_single_symbol (global_func test_helper helper_code) st) (\<lambda>(helper_idx, st).
         Inr (got_plt_idx + 1, reloc_idx + 1, st\<lparr>helper_index := index_insert plt_idx helper_idx (helper_index st)\<rparr>))))"

definition add_plt_symbols :: "reloc_entry list \<Rightarrow> symtab_metadata \<Rightarrow> symtab_metadata result" where
  "add_plt_symbols relocs st =
     (let plt0_code = generate_plt0_code (sy_arch st) in
      res_bind (add_single_symbol (plt_func (str_bytes ''PLT0'') plt0_code) st) (\<lambda>(_, st).
      let st = st\<lparr>plt0_idx := Some (length (dynsym st) - 1)\<rparr> in
      res_bind (res_fold add_plt_symbol (filter (\<lambda>r. is_plt_reloc (re_type r) (sy_arch st)) relocs) (3, 0, st)) (\<lambda>(_, _, st).
      Inr st)))"

section \<open>Contents\<close>

definition kind_content :: "section_kind \<Rightarrow> symtab_metadata \<Rightarrow> bytes" where
  "kind_content k st =
     concat (map (\<lambda>s. case sd_content s of None \<Rightarrow> [] | Some c \<Rightarrow> if c_kind c = k then c_data c else []) (sy_symbols st))"

definition get_text_content :: "symtab_metadata \<Rightarrow> bytes" where
  "get_text_content st = kind_content Text st"

definition get_plt_content :: "symtab_metadata \<Rightarrow> bytes" where
  "get_plt_content st = kind_content Plt st"

definition get_data_content :: "symtab_metadata \<Rightarrow> bytes" where
  "get_data_content st = kind_content Data st"

definition get_tls_content :: "symtab_metadata \<Rightarrow> bytes" where
  "get_tls_content st = kind_content Tls st"

definition create_hashtable :: "symtab_metadata \<Rightarrow> bytes \<Rightarrow> bytes" where
  "create_hashtable st buf =
     (let n = length (dynsym st);
          first_sym = (if n > 1 then 1 else 0) :: u32;
          next = (\<lambda>i. if i + 1 < n then of_nat (i + 1) else 0 :: u32)
      in buf @ le_bytes 4 (1 :: u32) @ le_bytes 4 (of_nat n :: u32) @ le_bytes 4 first_sym @ le_bytes 4 (0 :: u32) @
         concat (map (\<lambda>i. le_bytes 4 (next i)) [1..<n]))"

definition symtab_metadata_new ::
  "arch \<Rightarrow> symbol_desc list \<Rightarrow> reloc_entry list \<Rightarrow> section_allocator \<Rightarrow> (symtab_metadata \<times> section_allocator) result" where
  "symtab_metadata_new arch symbols relocs al =
     (let (dynsym_id, al) = allocate 0 al;
          (dynstr_id, al) = allocate 0 al;
          (hash_id, al) = allocate 0 al;
          st = \<lparr>sy_arch = arch, dynstr = string_table_new, dynsym = [], dynsym_shdr_types = [], sym_index = Map.empty,
                helper_index = [], sy_symbols = [], dynsym_id = dynsym_id, dynsym_size = 0, dynstr_id = dynstr_id,
                dynstr_size = 0, hash_id = hash_id, hash_size = 0, text_offset = 0, data_offset = 0, tls_offset = 0,
                plt_offset = 0, plt0_idx = None, plt_entries = []\<rparr>;
          (_, st) = add_symbol [] \<lparr>gs_name_idx = 0, gs_info = 0, gs_other = 0, gs_shndx = 0, gs_value = 0, gs_size = 0\<rparr> Null st
      in res_bind (add_symbols symbols st) (\<lambda>st.
         res_bind (add_plt_symbols relocs st) (\<lambda>st.
         res_bind (alloc_modify dynstr_id (\<lambda>d. Inr (d @ dynstr st)) al) (\<lambda>al.
         res_bind (alloc_get al dynstr_id) (\<lambda>d.
         let st = st\<lparr>dynstr_size := of_nat (length d)\<rparr> in
         res_bind (alloc_modify dynsym_id (\<lambda>d. Inr (d @ concat (map (symbol_write (is_64 arch)) (dynsym st)))) al) (\<lambda>al.
         res_bind (alloc_get al dynsym_id) (\<lambda>d.
         let st = st\<lparr>dynsym_size := of_nat (length d)\<rparr> in
         res_bind (alloc_modify hash_id (\<lambda>d. Inr (create_hashtable st d)) al) (\<lambda>al.
         res_bind (alloc_get al hash_id) (\<lambda>d.
         Inr (st\<lparr>hash_size := of_nat (length d)\<rparr>, al))))))))))"

section \<open>Queries\<close>

definition get_sym_idx :: "symtab_metadata \<Rightarrow> bytes \<Rightarrow> nat option" where
  "get_sym_idx st name = sym_index st name"

definition dynsym_nth :: "symtab_metadata \<Rightarrow> nat \<Rightarrow> gen_symbol result" where
  "dynsym_nth st i = (if i < length (dynsym st) then Inr (dynsym st ! i) else Inl (Panic ''index out of bounds''))"

definition get_sym_value_by_name :: "symtab_metadata \<Rightarrow> bytes \<Rightarrow> u64 option result" where
  "get_sym_value_by_name st name =
     (case sym_index st name of
        None \<Rightarrow> Inr None
      | Some idx \<Rightarrow> res_bind (dynsym_nth st idx) (\<lambda>s. Inr (Some (gs_value s))))"

definition get_sym_value :: "symtab_metadata \<Rightarrow> nat \<Rightarrow> u64 result" where
  "get_sym_value st idx = res_bind (dynsym_nth st idx) (\<lambda>s. Inr (gs_value s))"

definition get_sym_size :: "symtab_metadata \<Rightarrow> nat \<Rightarrow> u64 result" where
  "get_sym_size st idx = res_bind (dynsym_nth st idx) (\<lambda>s. Inr (gs_size s))"

section \<open>Patching\<close>

definition update_symbol ::
  "symtab_metadata \<Rightarrow> u64 \<Rightarrow> u64 \<Rightarrow> u64 \<Rightarrow> shdr_map \<Rightarrow> nat \<times> gen_symbol \<Rightarrow> gen_symbol list \<Rightarrow> gen_symbol list result" where
  "update_symbol st plt_vaddr text_vaddr data_vaddr m isym out =
     (let (i, symv) = isym in
      if i = 0 then Inr (out @ [symv])
      else if \<not> i - 1 < length (sy_symbols st) then Inl (Panic ''index out of bounds'')
      else if sd_content (sy_symbols st ! (i - 1)) = None then Inr (out @ [symv])
      else if \<not> i < length (dynsym_shdr_types st) then Inl (Panic ''index out of bounds'')
      else let shdr_type = dynsym_shdr_types st ! i in
        case m shdr_type of
          None \<Rightarrow> Inr (out @ [symv])
        | Some sec_idx \<Rightarrow>
            (let base_vaddr = (case shdr_type of Text \<Rightarrow> text_vaddr | Data \<Rightarrow> data_vaddr | Plt \<Rightarrow> plt_vaddr | _ \<Rightarrow> 0)
             in Inr (out @ [symv\<lparr>gs_shndx := of_nat sec_idx, gs_value := gs_value symv + base_vaddr\<rparr>])))"

definition update_symbol_values ::
  "u64 \<Rightarrow> u64 \<Rightarrow> u64 \<Rightarrow> shdr_map \<Rightarrow> symtab_metadata \<Rightarrow> symtab_metadata result" where
  "update_symbol_values plt_vaddr text_vaddr data_vaddr m st =
     res_bind (res_fold (update_symbol st plt_vaddr text_vaddr data_vaddr m) (enumerate 0 (dynsym st)) []) (\<lambda>syms.
       Inr (st\<lparr>dynsym := syms\<rparr>))"

definition patch_dynsym :: "symtab_metadata \<Rightarrow> section_allocator \<Rightarrow> section_allocator result" where
  "patch_dynsym st al =
     alloc_modify (dynsym_id st) (\<lambda>_. Inr (concat (map (symbol_write (is_64 (sy_arch st))) (dynsym st)))) al"

definition patch_symtab ::
  "u64 \<Rightarrow> u64 \<Rightarrow> u64 \<Rightarrow> shdr_map \<Rightarrow> symtab_metadata \<times> section_allocator \<Rightarrow> (symtab_metadata \<times> section_allocator) result" where
  "patch_symtab plt_vaddr text_vaddr data_vaddr m s =
     (let (st, al) = s in
      res_bind (update_symbol_values plt_vaddr text_vaddr data_vaddr m st) (\<lambda>st.
      res_bind (patch_dynsym st al) (\<lambda>al. Inr (st, al))))"

definition patch_plt_one ::
  "symtab_metadata \<Rightarrow> u64 \<Rightarrow> u64 \<Rightarrow> nat \<times> u64 \<Rightarrow> bytes \<Rightarrow> bytes result" where
  "patch_plt_one st plt_vaddr got_plt_vaddr e plt_data =
     (let (plt_idx, got_idx) = e; word_size = (if is_64 (sy_arch st) then 8 else 4) in
      res_bind (dynsym_nth st plt_idx) (\<lambda>plt_sym.
      let plt_off = gs_value plt_sym - plt_vaddr;
          target_got_vaddr = got_plt_vaddr + got_idx * word_size
      in patch_plt_entry (sy_arch st) plt_data plt_off (gs_value plt_sym) target_got_vaddr got_plt_vaddr))"

definition patch_plt :: "symtab_metadata \<Rightarrow> bytes \<Rightarrow> u64 \<Rightarrow> u64 \<Rightarrow> bytes result" where
  "patch_plt st plt_data plt_vaddr got_plt_vaddr =
     res_bind (case plt0_idx st of
        None \<Rightarrow> Inr plt_data
      | Some i \<Rightarrow> res_bind (dynsym_nth st i) (\<lambda>plt0_sym.
          let plt0_off = gs_value plt0_sym - plt_vaddr
          in patch_plt0 (sy_arch st) plt_data plt0_off (gs_value plt0_sym) got_plt_vaddr)) (\<lambda>plt_data.
     res_fold (patch_plt_one st plt_vaddr got_plt_vaddr) (plt_entries st) plt_data)"

definition patch_helper_one :: "symtab_metadata \<Rightarrow> u64 \<Rightarrow> u64 \<Rightarrow> nat \<times> nat \<Rightarrow> bytes \<Rightarrow> bytes result" where
  "patch_helper_one st text_vaddr got_vaddr e text_data =
     (let (plt_idx, helper_idx) = e in
      res_bind (dynsym_nth st plt_idx) (\<lambda>plt_sym.
      res_bind (dynsym_nth st helper_idx) (\<lambda>helper_sym.
      let helper_text_off = gs_value helper_sym - text_vaddr
      in patch_helper (sy_arch st) text_data helper_text_off (gs_value helper_sym) (gs_value plt_sym) got_vaddr)))"

text \<open>The order in which the map of helpers is walked.\<close>

definition patch_helpers ::
  "((nat \<times> nat) list \<Rightarrow> (nat \<times> nat) list) \<Rightarrow> symtab_metadata \<Rightarrow> bytes \<Rightarrow> u64 \<Rightarrow> u64 \<Rightarrow> bytes result" where
  "patch_helpers iter st text_data text_vaddr got_vaddr =
     res_fold (patch_helper_one st text_vaddr got_vaddr) (iter (helper_index st)) text_data"

definition patch_ifunc_resolver :: "symtab_metadata \<Rightarrow> bytes \<Rightarrow> u64 \<Rightarrow> u64 \<Rightarrow> bytes result" where
  "patch_ifunc_resolver st text_data text_vaddr target_vaddr =
     (case sym_index st IFUNC_RESOLVER_NAME of
        None \<Rightarrow> Inr text_data
      | Some i \<Rightarrow> res_bind (dynsym_nth st i) (\<lambda>resolver_sym.
          let resolver_text_off = gs_value resolver_sym - text_vaddr
          in arch_patch_ifunc_resolver (sy_arch st) text_data resolver_text_off (gs_value resolver_sym) target_vaddr))"

definition symtab_create_sections :: "symtab_metadata \<Rightarrow> gen_section list \<Rightarrow> gen_section list" where
  "symtab_create_sections st secs =
     secs @ [mk_section DynStr (dynstr_size st) 1 (dynstr_id st), mk_section DynSym (dynsym_size st) 8 (dynsym_id st),
             mk_section Hash (hash_size st) 4 (hash_id st)]"

end
