(* ===== verification/Gen_Reloc.thy ===== *)
theory Gen_Reloc
  imports Gen_Symtab
begin

text \<open>
  The relocations of a generated library, \<^verbatim>\<open>dylib/reloc.rs\<close>: the requested relocations are put in
  the order relative, GOT, COPY, IRELATIVE, PLT, each with a slot of the table it patches; once the
  layout is known the tables are written, with addends, and the GOT is initialised.
\<close>

record gen_reloc =
  gr_sym_idx :: u64
  gr_offset :: u64
  gr_addend :: u64
  gr_type :: reloc_type
  gr_sym_size :: u64

record relocation_info =
  ri_vaddr :: u64
  ri_type :: u32
  ri_sym_idx :: u64
  ri_addend :: u64
  ri_sym_size :: u64

record reloc_metadata =
  rm_arch :: arch
  rm_relocs :: "gen_reloc list"
  rm_relative_count :: nat
  rm_got_count :: nat
  rm_copy_count :: nat
  rm_plt_count :: nat
  rm_irelative_count :: nat
  rm_total_copy_size :: u64
  rm_rel_dyn_id :: nat
  rm_rel_plt_id :: nat
  rm_got_id :: nat
  rm_got_plt_id :: nat

section \<open>Collecting\<close>

datatype reloc_class = CRelative | CIrelative | CPlt | CCopy | CGot

definition class_of_reloc :: "arch \<Rightarrow> reloc_entry \<Rightarrow> reloc_class" where
  "class_of_reloc arch r =
     (if is_relative_reloc (re_type r) arch then CRelative
      else if is_irelative_reloc (re_type r) arch then CIrelative
      else if is_plt_reloc (re_type r) arch then CPlt
      else if is_copy_reloc (re_type r) arch then CCopy
      else CGot)"

definition of_class :: "arch \<Rightarrow> reloc_class \<Rightarrow> reloc_entry list \<Rightarrow> reloc_entry list" where
  "of_class arch c raw = filter (\<lambda>r. class_of_reloc arch r = c) raw"

definition push_relative :: "u64 \<Rightarrow> u64 \<times> gen_reloc list \<Rightarrow> reloc_entry \<Rightarrow> u64 \<times> gen_reloc list" where
  "push_relative ws st r = (let (slot, rs) = st in
     (slot + 1, rs @ [\<lparr>gr_sym_idx = 0, gr_offset = slot * ws, gr_addend = re_addend r, gr_type = re_type r, gr_sym_size = 0\<rparr>]))"

definition push_got :: "symtab_metadata \<Rightarrow> u64 \<Rightarrow> reloc_entry \<Rightarrow> u64 \<times> gen_reloc list \<Rightarrow> (u64 \<times> gen_reloc list) result" where
  "push_got sy ws r st = (let (slot, rs) = st in
     res_bind (unwrap ''called `Option::unwrap()` on a `None` value'' (get_sym_idx sy (re_name r))) (\<lambda>idx.
     Inr (slot + 1, rs @ [\<lparr>gr_sym_idx = of_nat idx, gr_offset = slot * ws, gr_addend = re_addend r,
       gr_type = re_type r, gr_sym_size = 0\<rparr>])))"

definition push_copy ::
  "symtab_metadata \<Rightarrow> reloc_entry \<Rightarrow> u64 \<times> u64 \<times> gen_reloc list \<Rightarrow> (u64 \<times> u64 \<times> gen_reloc list) result" where
  "push_copy sy r st = (let (current_copy_offset, total_copy_size, rs) = st in
     res_bind (unwrap ''called `Option::unwrap()` on a `None` value'' (get_sym_idx sy (re_name r))) (\<lambda>idx.
     res_bind (get_sym_size sy idx) (\<lambda>sz.
     Inr (current_copy_offset + sz, total_copy_size + sz,
       rs @ [\<lparr>gr_sym_idx = of_nat idx, gr_offset = current_copy_offset, gr_addend = 0, gr_type = re_type r, gr_sym_size = sz\<rparr>]))))"

definition push_irelative :: "u64 \<Rightarrow> u64 \<times> gen_reloc list \<Rightarrow> reloc_entry \<Rightarrow> u64 \<times> gen_reloc list" where
  "push_irelative ws st r = (let (slot, rs) = st in
     (slot + 1, rs @ [\<lparr>gr_sym_idx = 0, gr_offset = slot * ws, gr_addend = 0, gr_type = re_type r, gr_sym_size = 0\<rparr>]))"

definition push_plt :: "symtab_metadata \<Rightarrow> u64 \<Rightarrow> reloc_entry \<Rightarrow> u64 \<times> gen_reloc list \<Rightarrow> (u64 \<times> gen_reloc list) result" where
  "push_plt sy ws r st = (let (slot, rs) = st in
     res_bind (unwrap ''called `Option::unwrap()` on a `None` value'' (get_sym_idx sy (re_name r))) (\<lambda>idx.
     Inr (slot + 1, rs @ [\<lparr>gr_sym_idx = of_nat idx, gr_offset = slot * ws, gr_addend = 0,
       gr_type = re_type r, gr_sym_size = 0\<rparr>])))"

definition entry_size_of :: "arch \<Rightarrow> nat" where
  "entry_size_of arch =
     (if is_64 arch then (if arch_is_rela arch then 24 else 16) else (if arch_is_rela arch then 12 else 8))"

definition reloc_metadata_new ::
  "arch \<Rightarrow> reloc_entry list \<Rightarrow> symtab_metadata \<Rightarrow> section_allocator \<Rightarrow> (reloc_metadata \<times> section_allocator) result" where
  "reloc_metadata_new arch raw sy al =
     (let relative_relocs = of_class arch CRelative raw; got_relocs = of_class arch CGot raw;
          copy_relocs = of_class arch CCopy raw; plt_relocs = of_class arch CPlt raw;
          irelative_relocs = of_class arch CIrelative raw;
          relative_count = length relative_relocs; got_count = length got_relocs; copy_count = length copy_relocs;
          plt_count = length plt_relocs; irelative_count = length irelative_relocs;
          word_size = (if is_64 arch then 8 else 4);
          (slot, rs) = foldl (push_relative word_size) (0, []) relative_relocs
      in res_bind (res_fold (push_got sy word_size) got_relocs (slot, rs)) (\<lambda>(slot, rs).
         res_bind (res_fold (push_copy sy) copy_relocs (of_nat (length (get_data_content sy)), 0, rs)) (\<lambda>(_, total_copy_size, rs).
         let (slot, rs) = foldl (push_irelative word_size) (slot, rs) irelative_relocs in
         res_bind (res_fold (push_plt sy word_size) plt_relocs (3, rs)) (\<lambda>(_, rs).
         let entry_size = entry_size_of arch;
             (rel_dyn_id, al) = allocate ((relative_count + got_count + copy_count + irelative_count) * entry_size) al;
             (rel_plt_id, al) = allocate (plt_count * entry_size) al;
             (got_id, al) = allocate ((1 + relative_count + got_count + irelative_count) * unat word_size) al;
             (got_plt_id, al) = allocate ((3 + plt_count) * unat word_size) al
         in Inr (\<lparr>rm_arch = arch, rm_relocs = rs, rm_relative_count = relative_count, rm_got_count = got_count,
              rm_copy_count = copy_count, rm_plt_count = plt_count, rm_irelative_count = irelative_count,
              rm_total_copy_size = total_copy_size, rm_rel_dyn_id = rel_dyn_id, rm_rel_plt_id = rel_plt_id,
              rm_got_id = got_id, rm_got_plt_id = got_plt_id\<rparr>, al)))))"

definition rel_entry_size :: "reloc_metadata \<Rightarrow> nat" where
  "rel_entry_size rm = entry_size_of (rm_arch rm)"

definition gen_word_size :: "reloc_metadata \<Rightarrow> nat" where
  "gen_word_size rm = (if is_64 (rm_arch rm) then 8 else 4)"

definition rel_dyn_size :: "reloc_metadata \<Rightarrow> u64" where
  "rel_dyn_size rm =
     of_nat ((rm_relative_count rm + rm_got_count rm + rm_copy_count rm + rm_irelative_count rm) * rel_entry_size rm)"

definition rel_plt_size :: "reloc_metadata \<Rightarrow> u64" where
  "rel_plt_size rm = of_nat (rm_plt_count rm * rel_entry_size rm)"

definition got_size :: "reloc_metadata \<Rightarrow> u64" where
  "got_size rm = of_nat ((1 + rm_relative_count rm + rm_got_count rm + rm_irelative_count rm) * gen_word_size rm)"

definition got_plt_size :: "reloc_metadata \<Rightarrow> u64" where
  "got_plt_size rm = of_nat ((3 + rm_plt_count rm) * gen_word_size rm)"

definition get_relocation_infos :: "reloc_metadata \<Rightarrow> relocation_info list" where
  "get_relocation_infos rm = map (\<lambda>r. \<lparr>ri_vaddr = gr_offset r, ri_type = gr_type r, ri_sym_idx = gr_sym_idx r,
     ri_addend = gr_addend r, ri_sym_size = gr_sym_size r\<rparr>) (rm_relocs rm)"

definition plt_relocs :: "reloc_metadata \<Rightarrow> gen_reloc list result" where
  "plt_relocs rm =
     (let start = rm_relative_count rm + rm_got_count rm + rm_copy_count rm; fin = start + rm_plt_count rm
      in if fin \<le> length (rm_relocs rm) then Inr (take (fin - start) (drop start (rm_relocs rm)))
         else Inl (Panic ''range end index out of range for slice''))"

section \<open>Patching\<close>

definition reloc_write :: "bool \<Rightarrow> bool \<Rightarrow> gen_reloc \<Rightarrow> bytes" where
  "reloc_write is64 rela r =
     (if is64 then
        le_bytes 8 (gr_offset r) @ le_bytes 8 (push_bit 32 (gr_sym_idx r) OR (as_u64 (gr_type r) AND 0xffffffff)) @
        (if rela then le_bytes 8 (gr_addend r) else [])
      else
        le_bytes 4 (ucast (gr_offset r) :: u32) @
        le_bytes 4 (push_bit 8 (ucast (gr_sym_idx r)) OR (gr_type r AND 0xff) :: u32) @
        (if rela then le_bytes 4 (ucast (gr_addend r) :: u32) else []))"

definition word_bytes :: "bool \<Rightarrow> u64 \<Rightarrow> bytes" where
  "word_bytes is64 v = (if is64 then le_bytes 8 v else le_bytes 4 (ucast v :: u32))"

definition reloc_addend :: "arch \<Rightarrow> u64 \<Rightarrow> symtab_metadata \<Rightarrow> gen_reloc \<Rightarrow> u64 result" where
  "reloc_addend arch data_vaddr sy r =
     (if is_irelative_reloc (gr_type r) arch then
        res_bind (get_sym_value_by_name sy IFUNC_RESOLVER_NAME) (unwrap ''IFUNC resolver symbol not found'')
      else
        res_bind (if gr_sym_idx r \<noteq> 0 then get_sym_value sy (unat (gr_sym_idx r)) else Inr 0) (\<lambda>sym_val.
        Inr (calculate_addend arch (gr_type r) (gr_offset r) data_vaddr sym_val)))"

definition patch_reloc_one ::
  "reloc_metadata \<Rightarrow> u64 \<Rightarrow> u64 \<Rightarrow> u64 \<Rightarrow> u64 \<Rightarrow> symtab_metadata \<Rightarrow> nat \<times> gen_reloc \<Rightarrow>
   gen_reloc list \<times> section_allocator \<Rightarrow> (gen_reloc list \<times> section_allocator) result" where
  "patch_reloc_one rm got_vaddr got_plt_vaddr data_vaddr plt_vaddr sy ir st =
     (let (i, r) = ir; (out, al) = st; arch = rm_arch rm;
          plt_start = rm_relative_count rm + rm_got_count rm + rm_copy_count rm + rm_irelative_count rm;
          plt_end = plt_start + rm_plt_count rm;
          copy_start = rm_relative_count rm + rm_got_count rm; copy_end = copy_start + rm_copy_count rm
      in res_bind (reloc_addend arch data_vaddr sy r) (\<lambda>a.
         let r = r\<lparr>gr_addend := a\<rparr>;
             is_copy = (i \<ge> copy_start \<and> i < copy_end); is_plt = (i \<ge> plt_start \<and> i < plt_end)
         in res_bind (if is_plt then
              (let plt_entry_off = get_plt0_size arch + of_nat (i - plt_start) * get_plt_entry_size arch;
                   initial_val = get_got_plt_init_value arch plt_vaddr plt_entry_off
               in alloc_modify (rm_got_plt_id rm) (patch (gr_offset r) (word_bytes (is_64 arch) initial_val)) al)
            else Inr al) (\<lambda>al.
         let (base, section_id) =
               (if i < plt_start then (if is_copy then data_vaddr else got_vaddr, rm_rel_dyn_id rm)
                else (got_plt_vaddr, rm_rel_plt_id rm))
         in res_bind (if \<not> arch_is_rela arch \<and> \<not> is_plt \<and> \<not> is_copy \<and> (i < copy_start \<or> i \<ge> copy_end \<and> i < plt_start)
              then alloc_modify (rm_got_id rm) (patch (gr_offset r) (word_bytes (is_64 arch) (gr_addend r))) al
              else Inr al) (\<lambda>al.
         let r = r\<lparr>gr_offset := gr_offset r + base\<rparr>
         in res_bind (alloc_modify section_id (\<lambda>d. Inr (d @ reloc_write (is_64 arch) (arch_is_rela arch) r)) al) (\<lambda>al.
         Inr (out @ [r], al))))))"

definition patch_reloc ::
  "u64 \<Rightarrow> u64 \<Rightarrow> u64 \<Rightarrow> u64 \<Rightarrow> symtab_metadata \<Rightarrow> reloc_metadata \<times> section_allocator \<Rightarrow>
   (reloc_metadata \<times> section_allocator) result" where
  "patch_reloc got_vaddr got_plt_vaddr data_vaddr plt_vaddr sy s =
     (let (rm, al) = s in
      res_bind (alloc_modify (rm_rel_dyn_id rm) (\<lambda>_. Inr []) al) (\<lambda>al.
      res_bind (alloc_modify (rm_rel_plt_id rm) (\<lambda>_. Inr []) al) (\<lambda>al.
      res_bind (res_fold (patch_reloc_one rm got_vaddr got_plt_vaddr data_vaddr plt_vaddr sy)
                 (enumerate 0 (rm_relocs rm)) ([], al)) (\<lambda>(rs, al).
      Inr (rm\<lparr>rm_relocs := rs\<rparr>, al)))))"

definition patch_got ::
  "reloc_metadata \<Rightarrow> arch \<Rightarrow> u64 \<Rightarrow> u64 \<Rightarrow> section_allocator \<Rightarrow> section_allocator result" where
  "patch_got rm arch dyn_vaddr plt_vaddr al =
     (let is64 = is_64 arch; word_size = (if is64 then 8 else 4) in
      res_bind (alloc_modify (rm_got_id rm) (patch 0 (word_bytes is64 dyn_vaddr)) al) (\<lambda>al.
      res_bind (alloc_modify (rm_got_plt_id rm) (patch 0 (word_bytes is64 dyn_vaddr)) al) (\<lambda>al.
      res_bind (plt_relocs rm) (\<lambda>rs.
      alloc_modify (rm_got_plt_id rm) (\<lambda>got_plt_data.
        res_bind (res_fold (\<lambda>i (got_plt_data, current_plt_off).
            let got_off = of_nat ((3 + i) * word_size);
                initial_val = get_got_plt_init_value arch plt_vaddr current_plt_off
            in res_bind (patch got_off (word_bytes is64 initial_val) got_plt_data) (\<lambda>got_plt_data.
               Inr (got_plt_data, current_plt_off + get_plt_entry_size arch)))
          [0..<length rs] (got_plt_data, get_plt0_size arch)) (\<lambda>(got_plt_data, _). Inr got_plt_data)) al))))"

definition patch_all ::
  "shdr_manager \<Rightarrow> symtab_metadata \<Rightarrow> reloc_metadata \<times> section_allocator \<Rightarrow> (reloc_metadata \<times> section_allocator) result" where
  "patch_all sm sy s =
     (let (rm, al) = s; plt_vaddr = get_vaddr Plt sm; data_vaddr = get_vaddr Data sm; got_vaddr = get_vaddr Got sm;
          got_plt_vaddr = get_vaddr GotPlt sm; dyn_vaddr = get_vaddr Dynamic sm
      in res_bind (patch_got rm (rm_arch rm) dyn_vaddr plt_vaddr al) (\<lambda>al.
         patch_reloc got_vaddr got_plt_vaddr data_vaddr plt_vaddr sy (rm, al)))"

definition reloc_create_sections :: "reloc_metadata \<Rightarrow> gen_section list \<Rightarrow> gen_section list" where
  "reloc_create_sections rm secs =
     (let is64 = is_64 (rm_arch rm); rela = arch_is_rela (rm_arch rm); al = (if is64 then 8 else 4) in
      secs @ [mk_section (if rela then RelaDyn else RelDyn) (rel_dyn_size rm) al (rm_rel_dyn_id rm),
              mk_section (if rela then RelaPlt else RelPlt) (rel_plt_size rm) al (rm_rel_plt_id rm),
              mk_section Got (got_size rm) 8 (rm_got_id rm),
              mk_section GotPlt (got_plt_size rm) 8 (rm_got_plt_id rm)])"

end
