(* ===== verification/Gen_Dylib.thy ===== *)
theory Gen_Dylib
  imports Gen_Reloc
begin

text \<open>
  The writer of libraries, \<^verbatim>\<open>dylib/mod.rs\<close>, with the sections that have their own files: code, data,
  thread-local data and the dynamic section. \<^verbatim>\<open>DylibWriter::write\<close> collects the metadata, lays out
  the sections, patches what depends on addresses, and writes headers and sections into one vector.
\<close>

definition DT_STRSZ :: u64 where [abi]: "DT_STRSZ = 10"
definition DT_SYMENT :: u64 where [abi]: "DT_SYMENT = 11"
definition DT_RELAENT :: u64 where [abi]: "DT_RELAENT = 9"
definition DT_RELENT :: u64 where [abi]: "DT_RELENT = 19"
definition EM_386 :: u16 where [abi]: "EM_386 = 3"
definition EM_ARM :: u16 where [abi]: "EM_ARM = 40"
definition EM_AARCH64 :: u16 where [abi]: "EM_AARCH64 = 183"
definition EM_RISCV :: u16 where [abi]: "EM_RISCV = 243"
definition EM_LOONGARCH :: u16 where [abi]: "EM_LOONGARCH = 258"

section \<open>Data\<close>

record data_metadata =
  dm_data_id :: nat
  dm_data_size :: u64

definition data_metadata_new ::
  "reloc_metadata \<Rightarrow> symtab_metadata \<Rightarrow> section_allocator \<Rightarrow> data_metadata \<times> section_allocator" where
  "data_metadata_new rm sy al =
     (let data_content = get_data_content sy; copy_size = rm_total_copy_size rm;
          data_content = (if copy_size > 0 then vec_resize (length data_content + unat copy_size) 0 data_content else data_content);
          (i, al) = allocate_with_data data_content al
      in (\<lparr>dm_data_id = i, dm_data_size = of_nat (length data_content)\<rparr>, al))"

definition data_create_sections :: "data_metadata \<Rightarrow> gen_section list \<Rightarrow> gen_section list" where
  "data_create_sections d secs = secs @ [mk_section Data (dm_data_size d) 8 (dm_data_id d)]"

section \<open>Code\<close>

record code_metadata =
  cm_text_id :: nat
  cm_plt_id :: nat
  cm_text_size :: u64
  cm_plt_size :: u64

definition code_metadata_new :: "symtab_metadata \<Rightarrow> section_allocator \<Rightarrow> code_metadata \<times> section_allocator" where
  "code_metadata_new sy al =
     (let text_data = get_text_content sy; plt_data = get_plt_content sy;
          (text_id, al) = allocate_with_data text_data al;
          (plt_id, al) = allocate_with_data plt_data al
      in (\<lparr>cm_text_id = text_id, cm_plt_id = plt_id, cm_text_size = of_nat (length text_data),
           cm_plt_size = of_nat (length plt_data)\<rparr>, al))"

definition code_create_sections :: "code_metadata \<Rightarrow> gen_section list \<Rightarrow> gen_section list" where
  "code_create_sections c secs =
     secs @ [mk_section Text (cm_text_size c) 16 (cm_text_id c), mk_section Plt (cm_plt_size c) 16 (cm_plt_id c)]"

definition patch_text ::
  "((nat \<times> nat) list \<Rightarrow> (nat \<times> nat) list) \<Rightarrow> code_metadata \<Rightarrow> u64 \<Rightarrow> u64 \<Rightarrow> u64 \<Rightarrow> u64 \<Rightarrow> symtab_metadata \<Rightarrow>
   section_allocator \<Rightarrow> section_allocator result" where
  "patch_text iter c plt_vaddr text_vaddr got_plt_vaddr resolver_val sy al =
     res_bind (alloc_modify (cm_text_id c) (\<lambda>text_data.
        res_bind (patch_ifunc_resolver sy text_data text_vaddr resolver_val) (\<lambda>text_data.
        patch_helpers iter sy text_data text_vaddr got_plt_vaddr)) al) (\<lambda>al.
     alloc_modify (cm_plt_id c) (\<lambda>plt_data. patch_plt sy plt_data plt_vaddr got_plt_vaddr) al)"

section \<open>Thread-local data\<close>

record tls_metadata =
  tm_tls_id :: "nat option"
  tm_size :: u64

definition tls_metadata_new :: "symtab_metadata \<Rightarrow> section_allocator \<Rightarrow> tls_metadata \<times> section_allocator" where
  "tls_metadata_new sy al =
     (let tls_content = get_tls_content sy; sz = of_nat (length tls_content) in
      if tls_content \<noteq> [] then
        (let (i, al) = allocate_with_data tls_content al in (\<lparr>tm_tls_id = Some i, tm_size = sz\<rparr>, al))
      else (\<lparr>tm_tls_id = None, tm_size = sz\<rparr>, al))"

definition tls_create_section :: "tls_metadata \<Rightarrow> gen_section list \<Rightarrow> gen_section list" where
  "tls_create_section t secs = (case tm_tls_id t of None \<Rightarrow> secs | Some i \<Rightarrow> secs @ [mk_section Tls (tm_size t) 8 i])"

section \<open>The dynamic section\<close>

record dynamic_entry =
  de_tag :: u64
  de_value :: u64

record dynamic_metadata =
  dn_arch :: arch
  dyn_entries :: "dynamic_entry list"
  dynamic_id :: nat

definition add_entry :: "u64 \<Rightarrow> u64 \<Rightarrow> dynamic_metadata \<Rightarrow> dynamic_metadata" where
  "add_entry tag v d = d\<lparr>dyn_entries := dyn_entries d @ [\<lparr>de_tag = tag, de_value = v\<rparr>]\<rparr>"

definition init_from_section :: "dynamic_metadata \<Rightarrow> gen_section \<Rightarrow> dynamic_metadata" where
  "init_from_section d sec =
     (let is64 = is_64 (dn_arch d); rela = arch_is_rela (dn_arch d);
          vaddr = hd_addr (sec_header sec); sz = hd_size (sec_header sec) in
      case sec_kind sec of
        DynStr \<Rightarrow> add_entry DT_STRSZ sz (add_entry DT_STRTAB vaddr d)
      | DynSym \<Rightarrow> add_entry DT_SYMENT (if is64 then SYM_SIZE_64 else SYM_SIZE_32) (add_entry DT_SYMTAB vaddr d)
      | Hash \<Rightarrow> add_entry DT_HASH vaddr d
      | Got \<Rightarrow> add_entry DT_PLTGOT vaddr d
      | RelaDyn \<Rightarrow> add_entry DT_RELACOUNT 0 (add_entry DT_RELAENT (if is64 then RELA_SIZE_64 else RELA_SIZE_32)
                   (add_entry DT_RELASZ sz (add_entry DT_RELA vaddr d)))
      | RelDyn \<Rightarrow> add_entry DT_RELCOUNT 0 (add_entry DT_RELENT (if is64 then REL_SIZE_64 else REL_SIZE_32)
                  (add_entry DT_RELSZ sz (add_entry DT_REL vaddr d)))
      | RelaPlt \<Rightarrow> add_entry DT_PLTREL (if rela then DT_RELA else DT_REL) (add_entry DT_PLTRELSZ sz (add_entry DT_JMPREL vaddr d))
      | RelPlt \<Rightarrow> add_entry DT_PLTREL (if rela then DT_RELA else DT_REL) (add_entry DT_PLTRELSZ sz (add_entry DT_JMPREL vaddr d))
      | _ \<Rightarrow> d)"

definition init_from_sections :: "gen_section list \<Rightarrow> dynamic_metadata \<Rightarrow> dynamic_metadata" where
  "init_from_sections secs d = add_entry DT_NULL 0 (foldl init_from_section d secs)"

definition dynamic_metadata_new ::
  "arch \<Rightarrow> gen_section list \<Rightarrow> section_allocator \<Rightarrow> dynamic_metadata \<times> section_allocator" where
  "dynamic_metadata_new arch secs al =
     (let (i, al) = allocate 0 al
      in (init_from_sections secs \<lparr>dn_arch = arch, dyn_entries = [], dynamic_id = i\<rparr>, al))"

definition dynamic_size :: "dynamic_metadata \<Rightarrow> u64" where
  "dynamic_size d = of_nat (length (dyn_entries d)) * (if is_64 (dn_arch d) then 16 else 8)"

definition dynamic_create_section :: "dynamic_metadata \<Rightarrow> gen_section list \<Rightarrow> gen_section list" where
  "dynamic_create_section d secs = secs @ [mk_section Dynamic (dynamic_size d) 8 (dynamic_id d)]"

text \<open>The first entry with the tag is updated; a new one goes before the null entry.\<close>

fun update_first :: "u64 \<Rightarrow> u64 \<Rightarrow> dynamic_entry list \<Rightarrow> dynamic_entry list option" where
  "update_first tag v [] = None"
| "update_first tag v (e # es) =
     (if de_tag e = tag then Some (e\<lparr>de_value := v\<rparr> # es) else map_option ((#) e) (update_first tag v es))"

definition update_entry :: "u64 \<Rightarrow> u64 \<Rightarrow> dynamic_metadata \<Rightarrow> dynamic_metadata" where
  "update_entry tag v d =
     (case update_first tag v (dyn_entries d) of
        Some es \<Rightarrow> d\<lparr>dyn_entries := es\<rparr>
      | None \<Rightarrow>
          (if \<exists>e \<in> set (dyn_entries d). de_tag e = DT_NULL then
             d\<lparr>dyn_entries := takeWhile (\<lambda>e. de_tag e \<noteq> DT_NULL) (dyn_entries d) @ \<lparr>de_tag = tag, de_value = v\<rparr> #
                 dropWhile (\<lambda>e. de_tag e \<noteq> DT_NULL) (dyn_entries d)\<rparr>
           else add_entry tag v d))"

definition dynamic_write :: "bool \<Rightarrow> dynamic_metadata \<Rightarrow> bytes" where
  "dynamic_write is64 d = concat (map (\<lambda>e. if is64 then le_bytes 8 (de_tag e) @ le_bytes 8 (de_value e)
     else le_bytes 4 (ucast (de_tag e) :: u32) @ le_bytes 4 (ucast (de_value e) :: u32)) (dyn_entries d))"

definition patch_entries :: "shdr_manager \<Rightarrow> reloc_metadata \<Rightarrow> u64 \<Rightarrow> dynamic_metadata \<Rightarrow> dynamic_metadata" where
  "patch_entries sm rm got_plt_vaddr d =
     (let d = update_entry DT_STRTAB (get_vaddr DynStr sm) d;
          d = update_entry DT_SYMTAB (get_vaddr DynSym sm) d;
          d = update_entry DT_HASH (get_vaddr Hash sm) d;
          d = update_entry DT_PLTGOT got_plt_vaddr d in
      if arch_is_rela (dn_arch d) then
        (let d = update_entry DT_RELA (get_vaddr RelaDyn sm) d;
             d = update_entry DT_RELASZ (get_size RelaDyn sm) d;
             d = update_entry DT_JMPREL (get_vaddr RelaPlt sm) d;
             d = update_entry DT_PLTRELSZ (get_size RelaPlt sm) d
         in update_entry DT_RELACOUNT (of_nat (rm_relative_count rm)) d)
      else
        (let d = update_entry DT_REL (get_vaddr RelDyn sm) d;
             d = update_entry DT_RELSZ (get_size RelDyn sm) d;
             d = update_entry DT_JMPREL (get_vaddr RelPlt sm) d;
             d = update_entry DT_PLTRELSZ (get_size RelPlt sm) d
         in update_entry DT_RELCOUNT (of_nat (rm_relative_count rm)) d))"

definition patch_dynamic ::
  "shdr_manager \<Rightarrow> reloc_metadata \<Rightarrow> u64 \<Rightarrow> dynamic_metadata \<times> section_allocator \<Rightarrow>
   (dynamic_metadata \<times> section_allocator) result" where
  "patch_dynamic sm rm got_plt_vaddr s =
     (let (d, al) = s; is64 = is_64 (dn_arch d); d = patch_entries sm rm got_plt_vaddr d
      in res_bind (get_data_id Dynamic sm) (\<lambda>dyn_id.
         res_bind (alloc_modify dyn_id (\<lambda>_. Inr (dynamic_write is64 d)) al) (\<lambda>al. Inr (d, al))))"

section \<open>The writer\<close>

record dylib_writer =
  dw_arch :: arch
  dw_config :: elf_writer_config

record elf_write_output =
  ow_data :: bytes
  ow_base_addr :: u64
  ow_data_vaddr :: u64
  ow_text_vaddr :: u64
  ow_relocations :: "relocation_info list"
  ow_ifunc_resolver_val :: u64

definition dylib_writer_new :: "arch \<Rightarrow> dylib_writer" where
  "dylib_writer_new arch = \<lparr>dw_arch = arch, dw_config = config_default\<rparr>"

definition with_config :: "arch \<Rightarrow> elf_writer_config \<Rightarrow> dylib_writer" where
  "with_config arch c = \<lparr>dw_arch = arch, dw_config = c\<rparr>"

definition get_ident :: "arch \<Rightarrow> bytes" where
  "get_ident arch = (replicate 16 0)[0 := 0x7f, 1 := 0x45, 2 := 0x4C, 3 := 0x46, 4 := (if is_64 arch then 2 else 1),
     5 := 1, 6 := 1, 7 := 0]"

fun get_flags :: "arch \<Rightarrow> u32" where
  "get_flags Riscv64 = 0x0001 OR 0x0004"
| "get_flags Riscv32 = 0x0001 OR 0x0004"
| "get_flags Arm = 0x05000000 OR 0x00000400"
| "get_flags _ = 0"

fun get_machine :: "arch \<Rightarrow> u16" where
  "get_machine X86_64 = EM_X86_64"
| "get_machine X86 = EM_386"
| "get_machine Aarch64 = EM_AARCH64"
| "get_machine Riscv64 = EM_RISCV"
| "get_machine Riscv32 = EM_RISCV"
| "get_machine Arm = EM_ARM"
| "get_machine Loongarch64 = EM_LOONGARCH"

text \<open>The header to be written has the fields of \<open>ehdr\<close>.\<close>

definition ehdr_write :: "bool \<Rightarrow> ehdr \<Rightarrow> bytes" where
  "ehdr_write is64 h =
     e_ident h @ le_bytes 2 (e_type h) @ le_bytes 2 (e_machine h) @ le_bytes 4 (e_version h) @
     (if is64 then le_bytes 8 (e_entry h) @ le_bytes 8 (e_phoff h) @ le_bytes 8 (e_shoff h)
      else le_bytes 4 (ucast (e_entry h) :: u32) @ le_bytes 4 (ucast (e_phoff h) :: u32) @ le_bytes 4 (ucast (e_shoff h) :: u32)) @
     le_bytes 4 (e_flags h) @ le_bytes 2 (e_ehsize h) @ le_bytes 2 (e_phentsize h) @ le_bytes 2 (e_phnum h) @
     le_bytes 2 (e_shentsize h) @ le_bytes 2 (e_shnum h) @ le_bytes 2 (e_shstrndx h)"

text \<open>Nothing is written past the end of the vector; it is extended first.\<close>

definition write_at :: "u64 \<Rightarrow> bytes \<Rightarrow> bytes \<Rightarrow> bytes result" where
  "write_at offset d buf =
     (let buf = (if length buf < unat (offset + of_nat (length d)) then vec_resize (unat (offset + of_nat (length d))) 0 buf else buf)
      in patch offset d buf)"

text \<open>Steps 1 to 4: the sections and their names.\<close>

record dylib_parts =
  dp_symtab :: symtab_metadata
  dp_reloc :: reloc_metadata
  dp_text :: code_metadata
  dp_dyn :: dynamic_metadata
  dp_manager :: shdr_manager
  dp_alloc :: section_allocator

definition dylib_collect :: "arch \<Rightarrow> reloc_entry list \<Rightarrow> symbol_desc list \<Rightarrow> dylib_parts result" where
  "dylib_collect arch raw_relocs symbols =
     res_bind (symtab_metadata_new arch symbols raw_relocs []) (\<lambda>(symtab, al).
     res_bind (reloc_metadata_new arch raw_relocs symtab al) (\<lambda>(reloc, al).
     let (data, al) = data_metadata_new reloc symtab al;
         (text, al) = code_metadata_new symtab al;
         (tls, al) = tls_metadata_new symtab al;
         sections = code_create_sections text [];
         sections = data_create_sections data sections;
         sections = tls_create_section tls sections;
         sections = symtab_create_sections symtab sections;
         sections = reloc_create_sections reloc sections;
         (dyn_meta, al) = dynamic_metadata_new arch sections al;
         sections = dynamic_create_section dyn_meta sections;
         sm = foldl (\<lambda>sm sec. manager_add_section (sec_header sec) (sec_data sec) sm) manager_new sections
     in res_bind (create_shstrtab_section (sm, al)) (\<lambda>(sm, al).
     Inr \<lparr>dp_symtab = symtab, dp_reloc = reloc, dp_text = text, dp_dyn = dyn_meta, dp_manager = sm, dp_alloc = al\<rparr>)))"

text \<open>Step 5: the layout.\<close>

definition dylib_layout :: "arch \<Rightarrow> elf_writer_config \<Rightarrow> dylib_parts \<Rightarrow> (dylib_parts \<times> elf_layout) result" where
  "dylib_layout arch cfg p =
     (let lay = layout_new cfg; is64 = is_64 arch;
          ehdr_size = (if is64 then EHDR_SIZE_64 else EHDR_SIZE_32);
          ph_size = (if is64 then PHDR_SIZE_64 else PHDR_SIZE_32) * ucast (get_phnum (dp_manager p))
      in res_bind (add_header ehdr_size ph_size lay) (\<lambda>lay.
         res_bind (manager_layout lay (dp_manager p)) (\<lambda>(sm, lay).
         Inr (p\<lparr>dp_manager := sm\<rparr>, lay))))"

text \<open>Step 6: what depends on addresses.\<close>

definition dylib_patch ::
  "((nat \<times> nat) list \<Rightarrow> (nat \<times> nat) list) \<Rightarrow> elf_writer_config \<Rightarrow> dylib_parts \<Rightarrow> (dylib_parts \<times> u64) result" where
  "dylib_patch iter cfg p =
     (let sm = dp_manager p; shdr_map = get_shdr_map sm;
          plt_vaddr = get_vaddr Plt sm; text_vaddr = get_vaddr Text sm; data_vaddr = get_vaddr Data sm;
          got_plt_vaddr = get_vaddr GotPlt sm
      in res_bind (patch_symtab plt_vaddr text_vaddr data_vaddr shdr_map (dp_symtab p, dp_alloc p)) (\<lambda>(symtab, al).
      let resolver_val = (case cfg_ifunc_resolver_val cfg of None \<Rightarrow> plt_vaddr | Some v \<Rightarrow> v)
      in res_bind (patch_text iter (dp_text p) plt_vaddr text_vaddr got_plt_vaddr resolver_val symtab al) (\<lambda>al.
         res_bind (patch_all sm symtab (dp_reloc p, al)) (\<lambda>(reloc, al).
         res_bind (patch_dynamic sm reloc got_plt_vaddr (dp_dyn p, al)) (\<lambda>(dyn_meta, al).
         Inr (p\<lparr>dp_symtab := symtab, dp_reloc := reloc, dp_dyn := dyn_meta, dp_alloc := al\<rparr>, resolver_val))))))"

text \<open>Step 7: the file.\<close>

definition dylib_ehdr :: "arch \<Rightarrow> shdr_manager \<Rightarrow> u64 \<Rightarrow> nat \<Rightarrow> ehdr" where
  "dylib_ehdr arch sm shoff shstrndx =
     (let is64 = is_64 arch; ehdr_size = (if is64 then EHDR_SIZE_64 else EHDR_SIZE_32) in
      \<lparr>e_ident = get_ident arch, e_type = ET_DYN, e_machine = get_machine arch, e_version = ucast EV_CURRENT, e_entry = 0,
       e_phoff = ehdr_size, e_shoff = shoff, e_flags = get_flags arch, e_ehsize = ucast ehdr_size,
       e_phentsize = ucast (if is64 then PHDR_SIZE_64 else PHDR_SIZE_32), e_phnum = get_phnum sm,
       e_shentsize = ucast (if is64 then SHDR_SIZE_64 else SHDR_SIZE_32),
       e_shnum = of_nat (get_shdr_count sm + 1), e_shstrndx = of_nat shstrndx\<rparr>)"

definition write_section :: "section_allocator \<Rightarrow> gen_section \<Rightarrow> bytes \<Rightarrow> bytes result" where
  "write_section al sec out = res_bind (alloc_get al (sec_data sec)) (\<lambda>d. write_at (hd_offset (sec_header sec)) d out)"

definition dylib_emit :: "arch \<Rightarrow> elf_writer_config \<Rightarrow> elf_layout \<Rightarrow> dylib_parts \<Rightarrow> bytes result" where
  "dylib_emit arch cfg lay p =
     (let sm = dp_manager p; is64 = is_64 arch in
      res_bind (unwrap ''called `Option::unwrap()` on a `None` value'' (get_shdr_map sm ShStrTab)) (\<lambda>shstrndx.
      let out = ehdr_write is64 (dylib_ehdr arch sm (file_off lay) shstrndx) in
      res_bind (write_phdrs sm is64 (cfg_page_size cfg)) (\<lambda>phdrs.
      res_bind (res_fold (write_section (dp_alloc p)) (sm_shdrs sm) (out @ phdrs)) (\<lambda>out.
      res_bind (write_shdrs sm is64) (\<lambda>shdr_buf.
      write_at (file_off lay) shdr_buf out)))))"

definition dylib_write ::
  "((nat \<times> nat) list \<Rightarrow> (nat \<times> nat) list) \<Rightarrow> dylib_writer \<Rightarrow> reloc_entry list \<Rightarrow> symbol_desc list \<Rightarrow> elf_write_output result" where
  "dylib_write iter w raw_relocs symbols =
     (let arch = dw_arch w; cfg = dw_config w in
      res_bind (dylib_collect arch raw_relocs symbols) (\<lambda>p.
      res_bind (dylib_layout arch cfg p) (\<lambda>(p, lay).
      res_bind (dylib_patch iter cfg p) (\<lambda>(p, resolver_val).
      res_bind (dylib_emit arch cfg lay p) (\<lambda>out.
      Inr \<lparr>ow_data = out, ow_base_addr = cfg_base_addr cfg, ow_data_vaddr = get_vaddr Data (dp_manager p),
           ow_text_vaddr = get_vaddr Text (dp_manager p), ow_relocations = get_relocation_infos (dp_reloc p),
           ow_ifunc_resolver_val = resolver_val\<rparr>)))))"

end
