(* ===== verification/Gen_Layout.thy ===== *)
theory Gen_Layout
  imports Gen_Shdr "HOL-Library.Multiset"
begin

text \<open>
  The layout of a generated library: sections follow each other in the file without overlap, aligned,
  and sections of segments with different protections share no page, so the loadable segments can be
  mapped one by one. Offsets are compared as natural numbers.
\<close>

abbreviation off_of :: "gen_section \<Rightarrow> nat" where
  "off_of s \<equiv> unat (hd_offset (sec_header s))"

abbreviation sz_of :: "gen_section \<Rightarrow> nat" where
  "sz_of s \<equiv> unat (hd_size (sec_header s))"

abbreviation al_of :: "gen_section \<Rightarrow> nat" where
  "al_of s \<equiv> unat (hd_addralign (sec_header s))"

abbreviation grp :: "gen_section \<Rightarrow> nat option" where
  "grp s \<equiv> page_group (sec_kind s)"

lemma align_up_ok:
  assumes "a \<noteq> 0" and "unat v + unat a \<le> 2 ^ 64"
  obtains r where "align_up v a = Inr r" and "unat v \<le> unat r" and "unat r < unat v + unat a" and "unat a dvd unat r"
proof -
  let ?n = "unat a" and ?r = "(v + a - 1) div a * a"
  have n: "0 < ?n" using assms(1) by (simp add: unat_gt_0)
  have e: "v + a - 1 = of_nat (unat v + ?n - 1)" using n by (simp add: of_nat_diff)
  have u: "unat (v + a - 1) = unat v + ?n - 1"
    unfolding e by (rule unat_of_nat_usize) (use assms(2) n in linarith)
  have d: "(unat v + ?n - 1) div ?n * ?n + (unat v + ?n - 1) mod ?n = unat v + ?n - 1" by (rule div_mult_mod_eq)
  have m: "(unat v + ?n - 1) mod ?n < ?n" using n by simp
  have "(unat v + ?n - 1) div ?n * ?n < 2 ^ 64" using d assms(2) n by linarith
  then have "unat ((v + a - 1) div a) * ?n < 2 ^ LENGTH(64)" by (simp add: unat_div u)
  then have r: "unat ?r = (unat v + ?n - 1) div ?n * ?n" unfolding unat_mult_lem by (simp add: unat_div u)
  show thesis
  proof (rule that)
    show "align_up v a = Inr ?r" using assms(1) by (simp add: align_up_def)
    show "unat v \<le> unat ?r" using d m n unfolding r by linarith
    show "unat ?r < unat v + ?n" using d n unfolding r by linarith
    show "?n dvd unat ?r" unfolding r by simp
  qed
qed

text \<open>The section that \<open>sec\<close> becomes at the offset \<open>off\<close>.\<close>

definition placed_at :: "u64 \<Rightarrow> u64 \<Rightarrow> gen_section \<Rightarrow> gen_section" where
  "placed_at base off sec = sec\<lparr>sec_header := (sec_header sec)\<lparr>hd_offset := off,
     hd_addr := if kind_flags (sec_kind sec) AND SHF_ALLOC \<noteq> 0 then base + off else 0\<rparr>\<rparr>"

lemma placed_at_simps [simp]:
  "sec_kind (placed_at base off sec) = sec_kind sec"
  "hd_size (sec_header (placed_at base off sec)) = hd_size (sec_header sec)"
  "hd_addralign (sec_header (placed_at base off sec)) = hd_addralign (sec_header sec)"
  "hd_name_off (sec_header (placed_at base off sec)) = hd_name_off (sec_header sec)"
  "hd_offset (sec_header (placed_at base off sec)) = off"
  "sec_data (placed_at base off sec) = sec_data sec"
  by (simp_all add: placed_at_def)

lemma place_section_ok:
  assumes "lay_page_size lay \<noteq> 0" and "hd_addralign (sec_header sec) \<noteq> 0"
    and "unat (file_off lay) + unat (lay_page_size lay) + al_of sec + sz_of sec < 2 ^ 64"
  obtains off where
    "place_section sec (g, lay, acc) =
       Inr (grp sec, lay\<lparr>file_off := off + hd_size (sec_header sec)\<rparr>, acc @ [placed_at (lay_base_addr lay) off sec])"
    and "unat (file_off lay) \<le> unat off" and "unat (off + hd_size (sec_header sec)) = unat off + sz_of sec"
    and "unat off \<le> unat (file_off lay) + unat (lay_page_size lay) + al_of sec" and "al_of sec dvd unat off"
    and "grp sec \<noteq> g \<Longrightarrow> grp sec \<noteq> None \<Longrightarrow> \<exists>k. unat (lay_page_size lay) dvd k \<and> unat (file_off lay) \<le> k \<and> k \<le> unat off"
proof -
  let ?h = "sec_header sec" and ?ps = "lay_page_size lay" and ?new = "grp sec \<noteq> g \<and> grp sec \<noteq> None"
  from align_up_ok [OF assms(1), of "file_off lay"] assms(3) obtain p where
    p: "align_up (file_off lay) ?ps = Inr p" "unat (file_off lay) \<le> unat p" "unat p < unat (file_off lay) + unat ?ps"
      "unat ?ps dvd unat p" by auto
  define f where "f = (if ?new then p else file_off lay)"
  have f: "unat (file_off lay) \<le> unat f" "unat f \<le> unat (file_off lay) + unat ?ps" using p by (auto simp: f_def)
  from align_up_ok [OF assms(2), of f] assms(3) f obtain off where
    o: "align_up f (hd_addralign ?h) = Inr off" "unat f \<le> unat off" "unat off < unat f + al_of sec" "al_of sec dvd unat off" by auto
  have lay: "(if ?new then align_to_page lay else Inr lay) = Inr (lay\<lparr>file_off := f\<rparr>)"
    using p(1) by (simp add: align_to_page_def f_def)
  have run: "place_section sec (g, lay, acc) =
      Inr (grp sec, lay\<lparr>file_off := off + hd_size ?h\<rparr>, acc @ [placed_at (lay_base_addr lay) off sec])"
    using lay o(1) by (simp add: place_section_def Let_def layout_add_section_def placed_at_def)
  have sz: "unat (off + hd_size ?h) = unat off + sz_of sec"
    using o(3) f(2) assms(3) by (simp add: unat_word_ariths)
  show thesis
    by (rule that [OF run _ sz _ o(4)]) (use f o p in \<open>auto simp: f_def\<close>)
qed

section \<open>The fold over the sections\<close>

text \<open>
  The sections of the list in order between \<open>lo\<close> and \<open>hi\<close>, the group before them being \<open>g\<close>; a new
  group starts behind a page boundary.
\<close>

fun laid_out :: "nat \<Rightarrow> nat option \<Rightarrow> nat \<Rightarrow> nat \<Rightarrow> gen_section list \<Rightarrow> bool" where
  "laid_out ps g lo hi [] \<longleftrightarrow> lo \<le> hi"
| "laid_out ps g lo hi (s # ss) \<longleftrightarrow>
     lo \<le> off_of s \<and> al_of s dvd off_of s \<and>
     (grp s \<noteq> g \<and> grp s \<noteq> None \<longrightarrow> (\<exists>k. ps dvd k \<and> lo \<le> k \<and> k \<le> off_of s)) \<and>
     laid_out ps (grp s) (off_of s + sz_of s) hi ss"

definition room_for :: "u64 \<Rightarrow> gen_section list \<Rightarrow> nat" where
  "room_for ps secs = (\<Sum>s\<leftarrow>secs. unat ps + al_of s + sz_of s)"

lemma place_sections_ok:
  assumes "lay_page_size lay \<noteq> 0" and "\<forall>s \<in> set secs. hd_addralign (sec_header s) \<noteq> 0"
    and "unat (file_off lay) + room_for (lay_page_size lay) secs < 2 ^ 64"
  shows "\<exists>g' off' offs. res_fold place_section secs (g, lay, acc) =
      Inr (g', lay\<lparr>file_off := off'\<rparr>, acc @ map2 (placed_at (lay_base_addr lay)) offs secs) \<and>
    length offs = length secs \<and>
    laid_out (unat (lay_page_size lay)) g (unat (file_off lay)) (unat off') (map2 (placed_at (lay_base_addr lay)) offs secs) \<and>
    unat off' \<le> unat (file_off lay) + room_for (lay_page_size lay) secs"
  using assms
proof (induction secs arbitrary: g lay acc)
  case Nil
  then show ?case by (auto intro!: exI [of _ "file_off lay"])
next
  case (Cons s secs)
  let ?b = "lay_base_addr lay"
  from Cons.prems have "hd_addralign (sec_header s) \<noteq> 0"
    and "unat (file_off lay) + unat (lay_page_size lay) + al_of s + sz_of s < 2 ^ 64" by (auto simp: room_for_def)
  from place_section_ok [OF Cons.prems(1) this, of g acc] obtain off where
    run: "place_section s (g, lay, acc) = Inr (grp s, lay\<lparr>file_off := off + hd_size (sec_header s)\<rparr>, acc @ [placed_at ?b off s])"
    and b: "unat (file_off lay) \<le> unat off" "unat (off + hd_size (sec_header s)) = unat off + sz_of s"
      "unat off \<le> unat (file_off lay) + unat (lay_page_size lay) + al_of s" "al_of s dvd unat off"
    and pg: "grp s \<noteq> g \<Longrightarrow> grp s \<noteq> None \<Longrightarrow> \<exists>k. unat (lay_page_size lay) dvd k \<and> unat (file_off lay) \<le> k \<and> k \<le> unat off"
    by blast
  let ?lay = "lay\<lparr>file_off := off + hd_size (sec_header s)\<rparr>"
  have "unat (file_off ?lay) + room_for (lay_page_size ?lay) secs < 2 ^ 64"
    using b(2,3) Cons.prems(3) by (simp add: room_for_def)
  from Cons.IH [of ?lay "grp s" "acc @ [placed_at ?b off s]", OF _ _ this] Cons.prems(1,2) obtain g' off' offs where
    r: "res_fold place_section secs (grp s, ?lay, acc @ [placed_at ?b off s]) =
        Inr (g', lay\<lparr>file_off := off'\<rparr>, (acc @ [placed_at ?b off s]) @ map2 (placed_at ?b) offs secs)"
    and l: "length offs = length secs"
    and lo: "laid_out (unat (lay_page_size lay)) (grp s) (unat off + sz_of s) (unat off') (map2 (placed_at ?b) offs secs)"
    and hi: "unat off' \<le> unat off + sz_of s + room_for (lay_page_size lay) secs"
    by (auto simp: b(2))
  have "res_fold place_section (s # secs) (g, lay, acc) =
      Inr (g', lay\<lparr>file_off := off'\<rparr>, acc @ map2 (placed_at ?b) (off # offs) (s # secs))"
    using run r by simp
  moreover have "laid_out (unat (lay_page_size lay)) g (unat (file_off lay)) (unat off') (map2 (placed_at ?b) (off # offs) (s # secs))"
    using b(1,4) pg lo by simp
  moreover have "unat off' \<le> unat (file_off lay) + room_for (lay_page_size lay) (s # secs)"
    using hi b(3) by (simp add: room_for_def)
  moreover have "length (off # offs) = length (s # secs)" using l by simp
  ultimately show ?case by blast
qed

section \<open>Consequences\<close>

lemma laid_out_le: "laid_out ps g lo hi ss \<Longrightarrow> lo \<le> hi"
  by (induction ps g lo hi ss rule: laid_out.induct) auto

lemma laid_out_bounds:
  "laid_out ps g lo hi ss \<Longrightarrow> s \<in> set ss \<Longrightarrow> lo \<le> off_of s \<and> off_of s + sz_of s \<le> hi \<and> al_of s dvd off_of s"
proof (induction ps g lo hi ss rule: laid_out.induct)
  case (2 ps g lo hi t ss)
  then show ?case using laid_out_le [of ps "grp t" "off_of t + sz_of t" hi ss] by fastforce
qed simp

lemma laid_out_ordered:
  "laid_out ps g lo hi ss \<Longrightarrow> sorted_wrt (\<lambda>s t. off_of s + sz_of s \<le> off_of t) ss"
proof (induction ps g lo hi ss rule: laid_out.induct)
  case (2 ps g lo hi s ss)
  then show ?case using laid_out_bounds [of ps "grp s" "off_of s + sz_of s" hi ss] by auto
qed simp

lemma laid_out_enter:
  "laid_out ps g lo hi ss \<Longrightarrow> s \<in> set ss \<Longrightarrow> grp s \<noteq> g \<Longrightarrow> grp s \<noteq> None \<Longrightarrow> \<exists>k. ps dvd k \<and> lo \<le> k \<and> k \<le> off_of s"
proof (induction ps g lo hi ss rule: laid_out.induct)
  case (2 ps g lo hi t ss)
  show ?case
  proof (cases "s = t")
    case True
    then show ?thesis using 2 by auto
  next
    case False
    then have s: "s \<in> set ss" using 2 by auto
    have after: "off_of t + sz_of t \<le> off_of s" using laid_out_bounds [of ps "grp t" "off_of t + sz_of t" hi ss s] 2 s by simp
    show ?thesis
    proof (cases "grp s = grp t")
      case True
      with 2 obtain k where "ps dvd k" "lo \<le> k" "k \<le> off_of t" by auto
      with after show ?thesis by (intro exI [of _ k]) simp
    next
      case False
      with 2 s obtain k where "ps dvd k" "off_of t + sz_of t \<le> k" "k \<le> off_of s" by auto
      with 2 show ?thesis by (intro exI [of _ k]) simp
    qed
  qed
qed simp

lemma laid_out_pages:
  "laid_out ps g lo hi ss \<Longrightarrow>
   sorted_wrt (\<lambda>s t. grp s \<noteq> grp t \<and> grp t \<noteq> None \<longrightarrow> (\<exists>k. ps dvd k \<and> off_of s + sz_of s \<le> k \<and> k \<le> off_of t)) ss"
proof (induction ps g lo hi ss rule: laid_out.induct)
  case (2 ps g lo hi s ss)
  then show ?case using laid_out_enter [of ps "grp s" "off_of s + sz_of s" hi ss] by auto
qed simp

section \<open>The layout of all sections\<close>

text \<open>What the layout leaves of a section.\<close>

definition sec_identity :: "gen_section \<Rightarrow> section_kind \<times> u32 \<times> u64 \<times> u64 \<times> nat" where
  "sec_identity s = (sec_kind s, hd_name_off (sec_header s), hd_size (sec_header s), hd_addralign (sec_header s), sec_data s)"

definition sorted_secs :: "shdr_manager \<Rightarrow> gen_section list" where
  "sorted_secs sm = sort_key (\<lambda>s. sort_group (sec_kind s)) (sm_shdrs sm)"

lemma map2_placed_at:
  "length offs = length secs \<Longrightarrow> map sec_identity (map2 (placed_at b) offs secs) = map sec_identity secs"
  "length offs = length secs \<Longrightarrow> map sec_kind (map2 (placed_at b) offs secs) = map sec_kind secs"
  by (induction offs secs rule: list_induct2) (simp_all add: sec_identity_def)

lemma placed_at_addr:
  "s \<in> set (map2 (placed_at b) offs secs) \<Longrightarrow>
     hd_addr (sec_header s) = (if kind_flags (sec_kind s) AND SHF_ALLOC \<noteq> 0 then b + hd_offset (sec_header s) else 0)"
  by (auto simp: placed_at_def)

lemma manager_layout_ok:
  assumes "lay_page_size lay \<noteq> 0" and "\<forall>s \<in> set (sm_shdrs sm). hd_addralign (sec_header s) \<noteq> 0"
    and "unat (file_off lay) + room_for (lay_page_size lay) (sm_shdrs sm) < 2 ^ 64"
  obtains off' ss where
    "manager_layout lay sm = Inr (\<lparr>sm_shdrs = ss, rx_secs = Some (secs_of 1 ss), r_secs = Some (secs_of 0 ss),
       rw_secs = Some (secs_of 2 ss)\<rparr>, lay\<lparr>file_off := off'\<rparr>)"
    and "laid_out (unat (lay_page_size lay)) None (unat (file_off lay)) (unat off') ss"
    and "map sec_identity ss = map sec_identity (sorted_secs sm)" and "map sec_kind ss = map sec_kind (sorted_secs sm)"
    and "\<forall>s \<in> set ss.
      hd_addr (sec_header s) = (if kind_flags (sec_kind s) AND SHF_ALLOC \<noteq> 0 then lay_base_addr lay + hd_offset (sec_header s) else 0)"
proof -
  let ?b = "lay_base_addr lay"
  have "room_for (lay_page_size lay) (sorted_secs sm) = room_for (lay_page_size lay) (sm_shdrs sm)"
    unfolding room_for_def sum_mset_sum_list [symmetric] mset_map by (simp add: sorted_secs_def)
  moreover have "set (sorted_secs sm) = set (sm_shdrs sm)" by (simp add: sorted_secs_def)
  ultimately obtain g' off' offs where
    r: "res_fold place_section (sorted_secs sm) (None, lay, []) = Inr (g', lay\<lparr>file_off := off'\<rparr>, map2 (placed_at ?b) offs (sorted_secs sm))"
    and l: "length offs = length (sorted_secs sm)"
    and lo: "laid_out (unat (lay_page_size lay)) None (unat (file_off lay)) (unat off') (map2 (placed_at ?b) offs (sorted_secs sm))"
    using place_sections_ok [of lay "sorted_secs sm" None "[]"] assms by auto
  show thesis
    by (rule that [OF _ lo map2_placed_at [OF l]])
      (use r placed_at_addr [of _ ?b offs "sorted_secs sm"] in \<open>simp_all add: manager_layout_def Let_def sorted_secs_def [symmetric]\<close>)
qed

lemma sorted_map_sort_group: "sorted (map (\<lambda>s. sort_group (sec_kind s)) (sorted_secs sm))"
  by (simp add: sorted_secs_def)

text \<open>
  C20. The layout of a generated library. For a page size and alignments that are not zero and a file that
  fits the address space, laying out the sections returns. The sections are the ones given, stably sorted
  into read-only, executable, writable and not loaded; every section starts at a multiple of its alignment,
  behind the headers and behind the end of every section before it, and the next free offset is behind them
  all; a loaded section's address is the base plus its offset, and that of the others zero; between two
  loaded sections of different protection lies a page boundary.
\<close>

theorem generated_layout_correct:
  assumes "lay_page_size lay \<noteq> 0" and "\<forall>s \<in> set (sm_shdrs sm). hd_addralign (sec_header s) \<noteq> 0"
    and "unat (file_off lay) + room_for (lay_page_size lay) (sm_shdrs sm) < 2 ^ 64"
  shows "\<exists>sm' lay'. manager_layout lay sm = Inr (sm', lay') \<and>
    map sec_identity (sm_shdrs sm') = map sec_identity (sort_key (\<lambda>s. sort_group (sec_kind s)) (sm_shdrs sm)) \<and>
    (\<forall>s \<in> set (sm_shdrs sm'). unat (file_off lay) \<le> off_of s \<and> off_of s + sz_of s \<le> unat (file_off lay') \<and> al_of s dvd off_of s \<and>
      hd_addr (sec_header s) = (if kind_flags (sec_kind s) AND SHF_ALLOC \<noteq> 0 then lay_base_addr lay + hd_offset (sec_header s) else 0)) \<and>
    sorted_wrt (\<lambda>s t. off_of s + sz_of s \<le> off_of t) (sm_shdrs sm') \<and>
    sorted_wrt (\<lambda>s t. grp s \<noteq> grp t \<and> grp t \<noteq> None \<longrightarrow>
      (\<exists>k. unat (lay_page_size lay) dvd k \<and> off_of s + sz_of s \<le> k \<and> k \<le> off_of t)) (sm_shdrs sm')"
proof -
  obtain off' ss where run: "manager_layout lay sm = Inr (\<lparr>sm_shdrs = ss, rx_secs = Some (secs_of 1 ss), r_secs = Some (secs_of 0 ss),
       rw_secs = Some (secs_of 2 ss)\<rparr>, lay\<lparr>file_off := off'\<rparr>)"
    and lo: "laid_out (unat (lay_page_size lay)) None (unat (file_off lay)) (unat off') ss"
    and ident: "map sec_identity ss = map sec_identity (sorted_secs sm)" and "map sec_kind ss = map sec_kind (sorted_secs sm)"
    and addr: "\<forall>s \<in> set ss.
      hd_addr (sec_header s) = (if kind_flags (sec_kind s) AND SHF_ALLOC \<noteq> 0 then lay_base_addr lay + hd_offset (sec_header s) else 0)"
    by (rule manager_layout_ok [OF assms])
  show ?thesis
    by (intro exI conjI, rule run)
      (use laid_out_bounds [OF lo] laid_out_ordered [OF lo] laid_out_pages [OF lo] ident addr in
        \<open>simp_all add: sorted_secs_def\<close>)
qed

definition wit_manager :: shdr_manager where
  "wit_manager = \<lparr>sm_shdrs = [mk_section Text 0x20 16 0, mk_section Data 8 8 1, mk_section DynStr 5 1 2, mk_section ShStrTab 7 1 3],
     rx_secs = None, r_secs = None, rw_secs = None\<rparr>"

definition wit_layout :: elf_layout where
  "wit_layout = \<lparr>lay_base_addr = 0x400000, lay_page_size = 0x1000, file_off = 0x1000\<rparr>"

theorem generated_layout_correct_witness:
  "\<exists>sm' lay'. manager_layout wit_layout wit_manager = Inr (sm', lay') \<and>
    map sec_kind (sm_shdrs sm') = [DynStr, Text, Data, ShStrTab] \<and>
    sorted_wrt (\<lambda>s t. off_of s + sz_of s \<le> off_of t) (sm_shdrs sm')"
proof -
  have room: "unat (file_off wit_layout) + room_for (lay_page_size wit_layout) (sm_shdrs wit_manager) < 2 ^ 64"
    by (simp add: wit_layout_def wit_manager_def room_for_def mk_section_def)
  have ident: "map sec_identity (sort_key (\<lambda>s. sort_group (sec_kind s)) (sm_shdrs wit_manager)) =
      [(DynStr, 0, 5, 1, 2), (Text, 0, 0x20, 16, 0), (Data, 0, 8, 8, 1), (ShStrTab, 0, 7, 1, 3)]" by code_simp
  have kinds: "map sec_kind ss = map fst (map sec_identity ss)" for ss by (simp add: sec_identity_def)
  have "lay_page_size wit_layout \<noteq> 0" "\<forall>s \<in> set (sm_shdrs wit_manager). hd_addralign (sec_header s) \<noteq> 0"
    by (simp_all add: wit_layout_def wit_manager_def mk_section_def)
  from generated_layout_correct [OF this room] obtain sm' lay' where "manager_layout wit_layout wit_manager = Inr (sm', lay')"
    "map sec_identity (sm_shdrs sm') = [(DynStr, 0, 5, 1, 2), (Text, 0, 0x20, 16, 0), (Data, 0, 8, 8, 1), (ShStrTab, 0, 7, 1, 3)]"
    "sorted_wrt (\<lambda>s t. off_of s + sz_of s \<le> off_of t) (sm_shdrs sm')"
    unfolding ident by (elim exE conjE) (rule that)
  then show ?thesis by (intro exI [of _ sm'] exI [of _ lay'] conjI) (simp_all only: kinds list.map fst_conv)
qed

end
