(* ===== verification/Gen_Headers.thy ===== *)
theory Gen_Headers
  imports Gen_Dylib Gen_Layout Loader_Props
begin

text \<open>
  The headers of a generated library against the loader's parser: the program headers as a list of
  structures that the loader reads back, the loadable segments over the layout of the sections, and the
  file that \<^verbatim>\<open>DylibWriter::write\<close> puts together.
\<close>

section \<open>Program headers\<close>

definition gen_phdr :: "u32 \<Rightarrow> u32 \<Rightarrow> u64 \<Rightarrow> u64 \<Rightarrow> u64 \<Rightarrow> u64 \<Rightarrow> phdr" where
  "gen_phdr ty fl off vaddr sz align = \<lparr>p_type = ty, p_flags = fl, p_offset = off, p_vaddr = vaddr, p_paddr = vaddr,
     p_filesz = sz, p_memsz = sz, p_align = align\<rparr>"

definition r_phdr :: "u64 \<Rightarrow> gen_section list \<Rightarrow> phdr list" where
  "r_phdr page_size secs =
     (if secs = [] then [] else
      let f = sec_header (hd secs); l = sec_header (last secs)
      in [gen_phdr PT_LOAD PF_R 0 (hd_addr f - hd_offset f) (hd_offset l + hd_size l) page_size])"

definition load_phdr :: "u64 \<Rightarrow> u32 \<Rightarrow> gen_section list \<Rightarrow> phdr list" where
  "load_phdr page_size fl secs =
     (if secs = [] then [] else
      let f = sec_header (hd secs); l = sec_header (last secs)
      in [gen_phdr PT_LOAD fl (hd_offset f) (hd_addr f) (hd_offset l + hd_size l - hd_offset f) page_size])"

definition section_phdr :: "section_kind \<Rightarrow> u32 \<Rightarrow> u32 \<Rightarrow> gen_section list \<Rightarrow> phdr list" where
  "section_phdr k ty fl secs =
     (case find (\<lambda>s. sec_kind s = k) secs of None \<Rightarrow> []
      | Some s \<Rightarrow> [gen_phdr ty fl (hd_offset (sec_header s)) (hd_addr (sec_header s)) (hd_size (sec_header s)) 8])"

text \<open>The program headers of a 64-bit library with the given sections.\<close>

definition gen_loads :: "u64 \<Rightarrow> gen_section list \<Rightarrow> phdr list" where
  "gen_loads page_size secs =
     r_phdr page_size (secs_of 0 secs) @ load_phdr page_size (PF_R OR PF_X) (secs_of 1 secs) @
     load_phdr page_size (PF_R OR PF_W) (secs_of 2 secs)"

definition gen_phdrs :: "u64 \<Rightarrow> shdr_manager \<Rightarrow> phdr list" where
  "gen_phdrs page_size sm =
     gen_phdr PT_PHDR PF_R 64 64 (56 * ucast (get_phnum sm)) 8 # gen_loads page_size (sm_shdrs sm) @
     section_phdr Dynamic PT_DYNAMIC (PF_R OR PF_W) (sm_shdrs sm) @ section_phdr Tls PT_TLS PF_R (sm_shdrs sm)"

definition phdr_bytes :: "phdr \<Rightarrow> bytes" where
  "phdr_bytes p = write_phdr True (p_type p) (p_flags p) (p_offset p) (p_vaddr p) (p_filesz p) (p_memsz p) (p_align p)"

definition secs_laid :: "shdr_manager \<Rightarrow> bool" where
  "secs_laid sm \<longleftrightarrow> rx_secs sm = Some (secs_of 1 (sm_shdrs sm)) \<and> r_secs sm = Some (secs_of 0 (sm_shdrs sm)) \<and>
     rw_secs sm = Some (secs_of 2 (sm_shdrs sm))"

lemma length_phdr_bytes [simp]: "length (phdr_bytes p) = size_phdr"
  by (simp add: phdr_bytes_def write_phdr_def size_phdr_def)

lemma write_phdrs_gen: "secs_laid sm \<Longrightarrow> write_phdrs sm True ps = Inr (concat (map phdr_bytes (gen_phdrs ps sm)))"
  by (simp add: write_phdrs_def secs_laid_def gen_phdrs_def gen_loads_def phdr_bytes_def gen_phdr_def r_phdr_def load_phdr_def
      section_phdr_def write_r_phdr_def write_load_phdr_def find_section_def Let_def split: option.split)

lemma secs_of_empty: "secs_of g secs = [] \<longleftrightarrow> \<not> (\<exists>s \<in> set secs. segment_of (sec_kind s) = Some g)"
  by (auto simp: secs_of_def filter_empty_conv)

lemma find_kind_None: "find (\<lambda>s. sec_kind s = k) secs = None \<longleftrightarrow> \<not> (\<exists>s \<in> set secs. sec_kind s = k)"
  by (auto simp: find_None_iff)

text \<open>The number of program headers announced is the number written.\<close>

lemma length_gen_phdrs: "length (gen_phdrs ps sm) = unat (get_phnum sm)"
proof -
  have "length (section_phdr k ty fl secs) = (if \<exists>s \<in> set secs. sec_kind s = k then 1 else 0)" for k ty fl secs
    using find_kind_None [of k secs] by (cases "find (\<lambda>s. sec_kind s = k) secs") (simp_all add: section_phdr_def)
  moreover have "length (r_phdr ps (secs_of g secs)) = (if \<exists>s \<in> set secs. segment_of (sec_kind s) = Some g then 1 else 0)"
    "length (load_phdr ps fl (secs_of g secs)) = (if \<exists>s \<in> set secs. segment_of (sec_kind s) = Some g then 1 else 0)" for g secs fl
    by (simp_all add: r_phdr_def load_phdr_def secs_of_empty Let_def)
  ultimately show ?thesis by (simp add: gen_phdrs_def gen_loads_def get_phnum_def Let_def)
qed

lemma phdr_roundtrip:
  assumes "holds m a (phdr_bytes p)" and "p_paddr p = p_vaddr p"
  shows "phdr_at m a = p"
  using assms by (simp add: phdr_bytes_def write_phdr_def phdr_at_def holds_le_bytes add.assoc)

lemma gen_phdrs_paddr: "p \<in> set (gen_phdrs ps sm) \<Longrightarrow> p_paddr p = p_vaddr p"
  by (auto simp: gen_phdrs_def gen_loads_def r_phdr_def load_phdr_def section_phdr_def gen_phdr_def Let_def
      split: if_splits option.splits)

lemma phdr_table_roundtrip:
  assumes "holds m a (concat (map phdr_bytes (gen_phdrs ps sm)))"
  shows "map (\<lambda>i. phdr_at m (a + of_nat (i * size_phdr))) [0..<unat (get_phnum sm)] = gen_phdrs ps sm"
proof (rule nth_equalityI)
  fix i assume "i < length (map (\<lambda>i. phdr_at m (a + of_nat (i * size_phdr))) [0..<unat (get_phnum sm)])"
  then have i: "i < length (gen_phdrs ps sm)" by (simp add: length_gen_phdrs)
  have "holds m (a + of_nat (size_phdr * i)) (phdr_bytes (gen_phdrs ps sm ! i))"
    by (rule holds_array [OF assms]) (simp_all add: i)
  then show "map (\<lambda>i. phdr_at m (a + of_nat (i * size_phdr))) [0..<unat (get_phnum sm)] ! i = gen_phdrs ps sm ! i"
    using i gen_phdrs_paddr [OF nth_mem [OF i]] by (simp add: length_gen_phdrs phdr_roundtrip mult.commute)
qed (simp add: length_gen_phdrs)

section \<open>Loadable segments\<close>

text \<open>The protection that a loaded section asks for.\<close>

definition kind_prot :: "section_kind \<Rightarrow> u32" where
  "kind_prot k = PF_R OR (if kind_flags k AND SHF_EXECINSTR \<noteq> 0 then PF_X else 0) OR
     (if kind_flags k AND SHF_WRITE \<noteq> 0 then PF_W else 0)"

definition in_segment :: "gen_section \<Rightarrow> phdr \<Rightarrow> bool" where
  "in_segment s p \<longleftrightarrow> unat (p_offset p) \<le> off_of s \<and> off_of s + sz_of s \<le> unat (p_offset p) + unat (p_filesz p) \<and>
     hd_addr (sec_header s) - p_vaddr p = hd_offset (sec_header s) - p_offset p"

lemma segment_of_group: "segment_of k = page_group k"
  by (cases k) (simp_all add: segment_of_def page_group_def abi)

lemma page_group_sort: "page_group k = (if sort_group k < 3 then Some (sort_group k) else None)"
  by (cases k) (simp_all add: sort_group_def page_group_def abi)

lemma page_group_alloc: "page_group k = None \<longleftrightarrow> kind_flags k AND SHF_ALLOC = 0"
  by (simp add: page_group_def Let_def)

lemma kind_prot_group:
  "page_group k = Some 0 \<Longrightarrow> kind_prot k = PF_R" "page_group k = Some 1 \<Longrightarrow> kind_prot k = PF_R OR PF_X"
  "page_group k = Some 2 \<Longrightarrow> kind_prot k = PF_R OR PF_W"
  by (cases k; simp add: page_group_def kind_prot_def abi)+

lemma page_group_cases:
  obtains "page_group k = None" | "page_group k = Some 0" | "page_group k = Some 1" | "page_group k = Some 2"
  by (cases k) (simp_all add: page_group_def abi)

lemma sorted_wrt_key:
  fixes f :: "'a \<Rightarrow> nat"
  assumes "sorted_wrt P xs" and "sorted (map f xs)" and "x \<in> set xs" "y \<in> set xs" "f x < f y"
  shows "P x y"
proof -
  from assms(3,4) obtain i j where ij: "i < length xs" "xs ! i = x" "j < length xs" "xs ! j = y" by (auto simp: in_set_conv_nth)
  have "i < j"
  proof (rule ccontr)
    assume "\<not> i < j"
    then have "f y \<le> f x" using sorted_nth_mono [OF assms(2), of j i] ij by simp
    with assms(5) show False by simp
  qed
  then show ?thesis using sorted_wrt_nth_less [OF assms(1)] ij by blast
qed

lemma ordered_hd_last:
  assumes "sorted_wrt (\<lambda>s t. off_of s + sz_of s \<le> off_of t) ss" and "s \<in> set ss"
  shows "off_of (hd ss) \<le> off_of s" and "off_of s + sz_of s \<le> off_of (last ss) + sz_of (last ss)"
  using assms by (induction ss) (auto, metis last_in_set trans_le_add1)

text \<open>The sections of a layout, in groups, with their addresses.\<close>

definition grouped :: "nat \<Rightarrow> u64 \<Rightarrow> nat \<Rightarrow> gen_section list \<Rightarrow> bool" where
  "grouped ps base hi ss \<longleftrightarrow> hi < 2 ^ 64 \<and> (\<exists>lo. laid_out ps None lo hi ss) \<and> sorted (map (\<lambda>s. sort_group (sec_kind s)) ss) \<and>
     (\<forall>s \<in> set ss. grp s \<noteq> None \<longrightarrow> hd_addr (sec_header s) = base + hd_offset (sec_header s))"

lemma secs_of_bounds:
  assumes g: "grouped ps base hi ss" and s: "s \<in> set (secs_of g ss)"
  defines "f \<equiv> hd (secs_of g ss)" and "l \<equiv> last (secs_of g ss)"
  shows "off_of f \<le> off_of s" "off_of s + sz_of s \<le> off_of l + sz_of l"
    and "unat (hd_offset (sec_header l) + hd_size (sec_header l)) = off_of l + sz_of l"
    and "f \<in> set (secs_of g ss)" "l \<in> set (secs_of g ss)"
proof -
  from g obtain lo where lo: "laid_out ps None lo hi ss" and hi: "hi < 2 ^ 64" by (auto simp: grouped_def)
  have ord: "sorted_wrt (\<lambda>s t. off_of s + sz_of s \<le> off_of t) (secs_of g ss)"
    unfolding secs_of_def by (rule sorted_wrt_filter [OF laid_out_ordered [OF lo]])
  show "off_of f \<le> off_of s" "off_of s + sz_of s \<le> off_of l + sz_of l"
    using ordered_hd_last [OF ord s] by (simp_all add: f_def l_def)
  show f: "f \<in> set (secs_of g ss)" and l: "l \<in> set (secs_of g ss)" using s by (auto simp: f_def l_def intro: hd_in_set last_in_set)
  have "off_of l + sz_of l \<le> hi" using laid_out_bounds [OF lo, of l] l by (simp add: secs_of_def)
  with hi show "unat (hd_offset (sec_header l) + hd_size (sec_header l)) = off_of l + sz_of l"
    by (simp add: unat_word_ariths)
qed

lemma secs_of_addr:
  "grouped ps base hi ss \<Longrightarrow> s \<in> set (secs_of g ss) \<Longrightarrow> hd_addr (sec_header s) = base + hd_offset (sec_header s)"
  by (auto simp: grouped_def secs_of_def segment_of_group)

lemma r_phdr_covers:
  assumes g: "grouped ps base hi ss" and s: "s \<in> set (secs_of 0 ss)"
  obtains p where "r_phdr page_size (secs_of 0 ss) = [p]" and "in_segment s p"
    and "p_flags p = PF_R" "p_vaddr p = base" "p_offset p = 0"
    and "unat (p_filesz p) = off_of (last (secs_of 0 ss)) + sz_of (last (secs_of 0 ss))"
proof -
  note b = secs_of_bounds [OF g s]
  have ne: "secs_of 0 ss \<noteq> []" using s by auto
  have "hd_addr (sec_header s) = base + hd_offset (sec_header s)"
    "hd_addr (sec_header (hd (secs_of 0 ss))) = base + hd_offset (sec_header (hd (secs_of 0 ss)))"
    using secs_of_addr [OF g] s b(4) by auto
  with ne b show thesis
    by (intro that [of "gen_phdr PT_LOAD PF_R 0 base (hd_offset (sec_header (last (secs_of 0 ss))) + hd_size (sec_header (last (secs_of 0 ss)))) page_size"])
      (simp_all add: r_phdr_def Let_def gen_phdr_def in_segment_def)
qed

lemma load_phdr_covers:
  assumes g: "grouped ps base hi ss" and s: "s \<in> set (secs_of g ss)"
  obtains p where "load_phdr page_size fl (secs_of g ss) = [p]" and "in_segment s p"
    and "p_flags p = fl" "p_vaddr p = base + p_offset p" "unat (p_offset p) = off_of (hd (secs_of g ss))"
    and "unat (p_offset p) + unat (p_filesz p) = off_of (last (secs_of g ss)) + sz_of (last (secs_of g ss))"
proof -
  let ?f = "sec_header (hd (secs_of g ss))" and ?l = "sec_header (last (secs_of g ss))"
  note b = secs_of_bounds [OF g s]
  have ne: "secs_of g ss \<noteq> []" using s by auto
  have a: "hd_addr (sec_header s) = base + hd_offset (sec_header s)" "hd_addr ?f = base + hd_offset ?f"
    using secs_of_addr [OF g] s b(4) by auto
  have "unat (hd_offset ?l + hd_size ?l - hd_offset ?f) = off_of (last (secs_of g ss)) + sz_of (last (secs_of g ss)) - off_of (hd (secs_of g ss))"
    using b(1-3) by (simp add: unat_sub_if')
  with ne a b show thesis
    by (intro that [of "gen_phdr PT_LOAD fl (hd_offset ?f) (hd_addr ?f) (hd_offset ?l + hd_size ?l - hd_offset ?f) page_size"])
      (simp_all add: load_phdr_def Let_def gen_phdr_def in_segment_def)
qed

lemma group_gap:
  assumes "grouped ps base hi ss" and "s \<in> set (secs_of g ss)" "t \<in> set (secs_of h ss)" and "g < h"
  shows "\<exists>k. ps dvd k \<and> off_of s + sz_of s \<le> k \<and> k \<le> off_of t"
proof -
  from assms(1) obtain lo where lo: "laid_out ps None lo hi ss" and srt: "sorted (map (\<lambda>s. sort_group (sec_kind s)) ss)"
    by (auto simp: grouped_def)
  have st: "s \<in> set ss" "t \<in> set ss" "grp s = Some g" "grp t = Some h" using assms(2,3) by (simp_all add: secs_of_def segment_of_group)
  then have "sort_group (sec_kind s) < sort_group (sec_kind t)" using assms(4) by (simp add: page_group_sort split: if_splits)
  from sorted_wrt_key [OF laid_out_pages [OF lo] srt st(1,2) this] st assms(4) show ?thesis by simp
qed

text \<open>The segment of a group, if it has sections.\<close>

definition load_of :: "u64 \<Rightarrow> gen_section list \<Rightarrow> nat \<Rightarrow> phdr list" where
  "load_of page_size ss g =
     (if g = 0 then r_phdr page_size (secs_of 0 ss)
      else load_phdr page_size (if g = 1 then PF_R OR PF_X else PF_R OR PF_W) (secs_of g ss))"

lemma gen_loads_alt: "gen_loads page_size ss = concat (map (load_of page_size ss) [0, 1, 2])"
  by (simp add: gen_loads_def load_of_def)

lemma load_of_type: "p \<in> set (load_of page_size ss g) \<Longrightarrow> p_type p = PT_LOAD \<and> p_memsz p = p_filesz p \<and> p_align p = page_size"
  by (auto simp: load_of_def r_phdr_def load_phdr_def gen_phdr_def Let_def split: if_splits)

lemma load_of_cases:
  assumes g: "grouped ps base hi ss"
  obtains "secs_of g ss = []" "load_of page_size ss g = []"
  | p where "secs_of g ss \<noteq> []" "load_of page_size ss g = [p]" "\<And>s. s \<in> set (secs_of g ss) \<Longrightarrow> in_segment s p"
    "p_flags p = (if g = 0 then PF_R else if g = 1 then PF_R OR PF_X else PF_R OR PF_W)"
    "p_vaddr p = base + p_offset p" "unat (p_offset p) \<le> off_of (hd (secs_of g ss))" "g \<noteq> 0 \<Longrightarrow> unat (p_offset p) = off_of (hd (secs_of g ss))"
    "unat (p_offset p) + unat (p_filesz p) = off_of (last (secs_of g ss)) + sz_of (last (secs_of g ss))"
proof (cases "secs_of g ss = []")
  case True
  then show thesis by (intro that(1)) (auto simp: load_of_def r_phdr_def load_phdr_def)
next
  case False
  let ?fl = "if g = 1 then PF_R OR PF_X else PF_R OR PF_W"
  from False have h: "hd (secs_of g ss) \<in> set (secs_of g ss)" by (rule hd_in_set)
  show thesis
  proof (cases "g = 0")
    case True
    obtain p where p: "r_phdr page_size (secs_of 0 ss) = [p]" "p_flags p = PF_R" "p_vaddr p = base" "p_offset p = 0"
      "unat (p_filesz p) = off_of (last (secs_of 0 ss)) + sz_of (last (secs_of 0 ss))"
      using r_phdr_covers [OF g h [unfolded True]] by metis
    have "in_segment s p" if "s \<in> set (secs_of 0 ss)" for s
      using r_phdr_covers [OF g that, of page_size] p(1) by (metis list.inject)
    with p True False show thesis by (intro that(2) [of p]) (auto simp: load_of_def)
  next
    case no: False
    obtain p where p: "load_phdr page_size ?fl (secs_of g ss) = [p]" "p_flags p = ?fl" "p_vaddr p = base + p_offset p"
      "unat (p_offset p) = off_of (hd (secs_of g ss))"
      "unat (p_offset p) + unat (p_filesz p) = off_of (last (secs_of g ss)) + sz_of (last (secs_of g ss))"
      using load_phdr_covers [OF g h, of page_size ?fl] by metis
    have "in_segment s p" if "s \<in> set (secs_of g ss)" for s
      using load_phdr_covers [OF g that, of page_size ?fl] p(1) by (metis list.inject)
    with p no False show thesis by (intro that(2) [of p]) (auto simp: load_of_def)
  qed
qed

lemma load_gap:
  assumes g: "grouped ps base hi ss" and "p \<in> set (load_of page_size ss i)" "q \<in> set (load_of page_size ss j)" and "i < j"
  shows "\<exists>k. ps dvd k \<and> unat (p_offset p) + unat (p_filesz p) \<le> k \<and> k \<le> unat (p_offset q)"
proof -
  have p: "secs_of i ss \<noteq> []" "unat (p_offset p) + unat (p_filesz p) = off_of (last (secs_of i ss)) + sz_of (last (secs_of i ss))"
    by (rule load_of_cases [OF g, of i page_size]; use assms(2) in simp)+
  have q: "secs_of j ss \<noteq> []" "unat (p_offset q) = off_of (hd (secs_of j ss))"
    by (rule load_of_cases [OF g, of j page_size]; use assms(3,4) in simp)+
  from group_gap [OF g last_in_set [OF p(1)] hd_in_set [OF q(1)] assms(4)] show ?thesis unfolding p q .
qed

lemma gen_loads_gaps:
  assumes "grouped ps base hi ss"
  shows "sorted_wrt (\<lambda>p q. \<exists>k. ps dvd k \<and> unat (p_offset p) + unat (p_filesz p) \<le> k \<and> k \<le> unat (p_offset q)) (gen_loads page_size ss)"
proof -
  have one: "sorted_wrt P (load_of page_size ss i)" for P i by (rule load_of_cases [OF assms, of i page_size]) simp_all
  show ?thesis unfolding gen_loads_alt by (simp add: sorted_wrt_append one ball_Un) (intro conjI ballI; erule (1) load_gap [OF assms]; simp)
qed

lemma filter_gen_phdrs: "filter (\<lambda>p. p_type p = PT_LOAD) (gen_phdrs page_size sm) = gen_loads page_size (sm_shdrs sm)"
  by (simp add: gen_phdrs_def gen_loads_def section_phdr_def r_phdr_def load_phdr_def gen_phdr_def abi Let_def split: option.split)

lemma gen_loads_cover:
  assumes g: "grouped ps base hi ss" and s: "s \<in> set ss" "kind_flags (sec_kind s) AND SHF_ALLOC \<noteq> 0"
  shows "\<exists>p \<in> set (gen_loads page_size ss). p_flags p = kind_prot (sec_kind s) \<and> in_segment s p"
proof -
  from s(2) obtain i where i: "i \<in> {0, 1, 2}" "grp s = Some i"
    by (cases rule: page_group_cases [of "sec_kind s"]) (auto simp: page_group_alloc)
  then have si: "s \<in> set (secs_of i ss)" using s(1) by (simp add: secs_of_def segment_of_group)
  obtain p where "load_of page_size ss i = [p]" "in_segment s p"
    "p_flags p = (if i = 0 then PF_R else if i = 1 then PF_R OR PF_X else PF_R OR PF_W)"
    by (rule load_of_cases [OF g, of i page_size]) (use si in auto)
  then show ?thesis using i kind_prot_group [of "sec_kind s"] by (auto simp: gen_loads_alt)
qed

lemma gen_loads_fields:
  assumes "grouped ps base hi ss" and "p \<in> set (gen_loads page_size ss)"
  shows "p_vaddr p = base + p_offset p \<and> p_memsz p = p_filesz p \<and> p_align p = page_size"
proof -
  from assms(2) obtain i where "p \<in> set (load_of page_size ss i)" by (auto simp: gen_loads_alt)
  then show ?thesis using load_of_type [of p page_size ss i] by (cases rule: load_of_cases [OF assms(1), of i page_size]) auto
qed

lemma manager_layout_grouped:
  assumes "lay_page_size lay \<noteq> 0" and "\<forall>s \<in> set (sm_shdrs sm). hd_addralign (sec_header s) \<noteq> 0"
    and "unat (file_off lay) + room_for (lay_page_size lay) (sm_shdrs sm) < 2 ^ 64"
  obtains sm' lay' where "manager_layout lay sm = Inr (sm', lay')" and "secs_laid sm'"
    and "grouped (unat (lay_page_size lay)) (lay_base_addr lay) (unat (file_off lay')) (sm_shdrs sm')"
    and "laid_out (unat (lay_page_size lay)) None (unat (file_off lay)) (unat (file_off lay')) (sm_shdrs sm')"
    and "map sec_identity (sm_shdrs sm') = map sec_identity (sorted_secs sm)"
    and "lay_page_size lay' = lay_page_size lay" "lay_base_addr lay' = lay_base_addr lay"
proof -
  obtain off' ss where run: "manager_layout lay sm = Inr (\<lparr>sm_shdrs = ss, rx_secs = Some (secs_of 1 ss), r_secs = Some (secs_of 0 ss),
       rw_secs = Some (secs_of 2 ss)\<rparr>, lay\<lparr>file_off := off'\<rparr>)"
    and lo: "laid_out (unat (lay_page_size lay)) None (unat (file_off lay)) (unat off') ss"
    and ident: "map sec_identity ss = map sec_identity (sorted_secs sm)" and k: "map sec_kind ss = map sec_kind (sorted_secs sm)"
    and addr: "\<forall>s \<in> set ss.
      hd_addr (sec_header s) = (if kind_flags (sec_kind s) AND SHF_ALLOC \<noteq> 0 then lay_base_addr lay + hd_offset (sec_header s) else 0)"
    by (rule manager_layout_ok [OF assms])
  have "map (\<lambda>s. sort_group (sec_kind s)) ss = map (\<lambda>s. sort_group (sec_kind s)) (sorted_secs sm)"
    using arg_cong [OF k, of "map sort_group"] by (simp add: comp_def)
  then have "sorted (map (\<lambda>s. sort_group (sec_kind s)) ss)" using sorted_map_sort_group [of sm] by simp
  then have "grouped (unat (lay_page_size lay)) (lay_base_addr lay) (unat off') ss"
    using lo addr unsigned_less [of off'] by (auto simp: grouped_def page_group_alloc)
  with lo ident show thesis by (intro that [OF run]) (simp_all add: secs_laid_def)
qed

text \<open>
  C16. The segments of a generated library. After the layout, the program headers of a 64-bit library can be
  written, and as many are written as the header announces. Read back by the loader's structures from
  anywhere in memory, the loadable ones have as their virtual address the base plus their offset, the page
  size as alignment and no zero-filled part; every loaded section lies inside one that has exactly its
  protection, at the same distance from the start of the segment in memory as in the file; and between two
  of them lies a page boundary of the file, so no page is mapped with two protections.
\<close>

theorem generated_segments_correct:
  assumes "lay_page_size lay \<noteq> 0" and "\<forall>s \<in> set (sm_shdrs sm). hd_addralign (sec_header s) \<noteq> 0"
    and "unat (file_off lay) + room_for (lay_page_size lay) (sm_shdrs sm) < 2 ^ 64"
  shows "\<exists>sm' lay' bs. manager_layout lay sm = Inr (sm', lay') \<and> write_phdrs sm' True (lay_page_size lay) = Inr bs \<and>
    length bs = size_phdr * unat (get_phnum sm') \<and>
    (\<forall>m a. holds m a bs \<longrightarrow>
      (let segs = filter (\<lambda>p. p_type p = PT_LOAD) (map (\<lambda>i. phdr_at m (a + of_nat (i * size_phdr))) [0..<unat (get_phnum sm')]) in
       (\<forall>p \<in> set segs. p_vaddr p = lay_base_addr lay + p_offset p \<and> p_memsz p = p_filesz p \<and> p_align p = lay_page_size lay) \<and>
       (\<forall>s \<in> set (sm_shdrs sm'). kind_flags (sec_kind s) AND SHF_ALLOC \<noteq> 0 \<longrightarrow>
          (\<exists>p \<in> set segs. p_flags p = kind_prot (sec_kind s) \<and> in_segment s p)) \<and>
       sorted_wrt (\<lambda>p q. \<exists>k. unat (lay_page_size lay) dvd k \<and> unat (p_offset p) + unat (p_filesz p) \<le> k \<and> k \<le> unat (p_offset q)) segs))"
proof -
  obtain sm' lay' where run: "manager_layout lay sm = Inr (sm', lay')" and l: "secs_laid sm'"
    and g: "grouped (unat (lay_page_size lay)) (lay_base_addr lay) (unat (file_off lay')) (sm_shdrs sm')"
    by (rule manager_layout_grouped [OF assms])
  let ?ps = "lay_page_size lay"
  have len: "length (concat (map phdr_bytes (gen_phdrs ?ps sm'))) = size_phdr * unat (get_phnum sm')"
    by (simp add: length_concat comp_def sum_list_triv length_gen_phdrs)
  show ?thesis
  proof (intro exI conjI allI impI, rule run, rule write_phdrs_gen [OF l], rule len, goal_cases)
    case (1 m a)
    show ?case unfolding phdr_table_roundtrip [OF 1] filter_gen_phdrs Let_def
      using gen_loads_fields [OF g, of _ ?ps] gen_loads_cover [OF g, of _ ?ps] gen_loads_gaps [OF g, of ?ps] by simp
  qed
qed

theorem generated_segments_correct_witness:
  "\<exists>sm' lay' bs. manager_layout wit_layout wit_manager = Inr (sm', lay') \<and> write_phdrs sm' True 0x1000 = Inr bs \<and>
    length bs = size_phdr * unat (get_phnum sm')"
proof -
  have room: "unat (file_off wit_layout) + room_for (lay_page_size wit_layout) (sm_shdrs wit_manager) < 2 ^ 64"
    by (simp add: wit_layout_def wit_manager_def room_for_def mk_section_def)
  have "lay_page_size wit_layout \<noteq> 0" "\<forall>s \<in> set (sm_shdrs wit_manager). hd_addralign (sec_header s) \<noteq> 0"
    by (simp_all add: wit_layout_def wit_manager_def mk_section_def)
  from generated_segments_correct [OF this room] show ?thesis
    by (elim exE conjE) (intro exI conjI, assumption, simp_all add: wit_layout_def)
qed

end
