(* ===== verification/Gen_Symtab_Props.thy ===== *)
theory Gen_Symtab_Props
  imports Gen_Symtab Lookup_Props
begin

text \<open>
  The symbol table of a generated library as a refinement of a list of symbol descriptions with distinct
  names: every table the generator keeps (strings, symbols, name index, section offsets) is a function of
  that list, and adding a symbol adds it to the list unless its name is there. On the resulting bytes, in
  whatever memory, the loader's lookup finds the symbols by their names.
\<close>

section \<open>The abstract table\<close>

definition desc_names :: "symbol_desc list \<Rightarrow> bytes list" where
  "desc_names ds = [] # map sd_name ds"

definition spec_add :: "symbol_desc \<Rightarrow> symbol_desc list \<Rightarrow> symbol_desc list" where
  "spec_add d ds = (if sd_name d \<in> set (desc_names ds) then ds else ds @ [d])"

definition descs_content :: "section_kind \<Rightarrow> symbol_desc list \<Rightarrow> bytes" where
  "descs_content k ds =
     concat (map (\<lambda>s. case sd_content s of None \<Rightarrow> [] | Some c \<Rightarrow> if c_kind c = k then c_data c else []) ds)"

definition spec_dynstr :: "symbol_desc list \<Rightarrow> bytes" where
  "spec_dynstr ds = [0, 0] @ concat (map (\<lambda>d. sd_name d @ [0]) ds)"

definition null_symbol :: gen_symbol where
  "null_symbol = \<lparr>gs_name_idx = 0, gs_info = 0, gs_other = 0, gs_shndx = 0, gs_value = 0, gs_size = 0\<rparr>"

definition spec_kind :: "symbol_desc \<Rightarrow> section_kind" where
  "spec_kind d = (case sd_content d of Some c \<Rightarrow> c_kind c | None \<Rightarrow> undefined_kind (sd_type d))"

definition spec_symbol :: "symbol_desc list \<Rightarrow> nat \<Rightarrow> gen_symbol" where
  "spec_symbol ds i =
     (let d = ds ! i in
      \<lparr>gs_name_idx = of_nat (length (spec_dynstr (take i ds))),
       gs_info = push_bit 4 (scope_bind (sd_scope d)) OR type_stt (sd_type d), gs_other = 0, gs_shndx = 0,
       gs_value = (case sd_content d of None \<Rightarrow> 0 | Some c \<Rightarrow> of_nat (length (descs_content (c_kind c) (take i ds)))),
       gs_size = desc_size d\<rparr>)"

definition index_of :: "symbol_desc list \<Rightarrow> bytes \<Rightarrow> nat option" where
  "index_of ds n = find (\<lambda>i. desc_names ds ! i = n) [0..<length (desc_names ds)]"

definition refines :: "symtab_metadata \<Rightarrow> symbol_desc list \<Rightarrow> bool" where
  "refines st ds \<longleftrightarrow>
     sy_symbols st = ds \<and> dynstr st = spec_dynstr ds \<and>
     dynsym st = null_symbol # map (spec_symbol ds) [0..<length ds] \<and>
     dynsym_shdr_types st = Null # map spec_kind ds \<and>
     distinct (desc_names ds) \<and> sym_index st = index_of ds \<and>
     text_offset st = of_nat (length (descs_content Text ds)) \<and> data_offset st = of_nat (length (descs_content Data ds)) \<and>
     tls_offset st = of_nat (length (descs_content Tls ds)) \<and> plt_offset st = of_nat (length (descs_content Plt ds))"

definition supported :: "symbol_desc \<Rightarrow> bool" where
  "supported d \<longleftrightarrow> (case sd_content d of None \<Rightarrow> True | Some c \<Rightarrow> c_kind c \<in> {Text, Data, Tls, Plt})"

text \<open>What adding symbols leaves alone.\<close>

definition same_frame :: "symtab_metadata \<Rightarrow> symtab_metadata \<Rightarrow> bool" where
  "same_frame st st' \<longleftrightarrow> sy_arch st' = sy_arch st \<and> helper_index st' = helper_index st \<and>
     plt_entries st' = plt_entries st \<and> plt0_idx st' = plt0_idx st \<and> dynsym_id st' = dynsym_id st \<and>
     dynstr_id st' = dynstr_id st \<and> hash_id st' = hash_id st"

lemma same_frame_refl [simp]: "same_frame st st"
  by (simp add: same_frame_def)

lemma same_frame_trans: "same_frame a b \<Longrightarrow> same_frame b c \<Longrightarrow> same_frame a c"
  by (simp add: same_frame_def)

lemma descs_content_snoc:
  "descs_content k (ds @ [d]) = descs_content k ds @
     (case sd_content d of None \<Rightarrow> [] | Some c \<Rightarrow> if c_kind c = k then c_data c else [])"
  by (simp add: descs_content_def)

lemma kind_content_descs: "kind_content k st = descs_content k (sy_symbols st)"
  by (simp add: kind_content_def descs_content_def)

lemma spec_symbol_snoc: "i < length ds \<Longrightarrow> spec_symbol (ds @ [d]) i = spec_symbol ds i"
  by (simp add: spec_symbol_def Let_def nth_append split: option.split)

lemma length_desc_names [simp]: "length (desc_names ds) = Suc (length ds)"
  by (simp add: desc_names_def)

lemma index_of_Some:
  assumes "distinct (desc_names ds)"
  shows "index_of ds n = Some i \<longleftrightarrow> i \<le> length ds \<and> desc_names ds ! i = n"
proof
  assume "index_of ds n = Some i"
  then show "i \<le> length ds \<and> desc_names ds ! i = n"
    unfolding index_of_def find_Some_iff by (auto simp del: upt_Suc)
next
  assume i: "i \<le> length ds \<and> desc_names ds ! i = n"
  have "desc_names ds ! j \<noteq> n" if "j < i" for j
    using i that nth_eq_iff_index_eq [OF assms, of i j] by auto
  with i show "index_of ds n = Some i"
    unfolding index_of_def find_Some_iff by (intro exI [of _ i]) (auto simp: less_Suc_eq_le simp del: upt_Suc)
qed

lemma index_of_None: "index_of ds n = None \<longleftrightarrow> n \<notin> set (desc_names ds)"
  unfolding index_of_def find_None_iff by (auto simp: in_set_conv_nth simp del: upt_Suc)

lemma index_of_snoc:
  assumes "distinct (desc_names (ds @ [d]))"
  shows "index_of (ds @ [d]) = (index_of ds)(sd_name d \<mapsto> Suc (length ds))"
proof
  fix n
  have ds: "distinct (desc_names ds)" using assms by (simp add: desc_names_def)
  have nth: "desc_names (ds @ [d]) ! i = (if i = Suc (length ds) then sd_name d else desc_names ds ! i)"
    if "i \<le> Suc (length ds)" for i
    using that by (auto simp: desc_names_def nth_append nth_Cons split: nat.split)
  show "index_of (ds @ [d]) n = ((index_of ds)(sd_name d \<mapsto> Suc (length ds))) n"
  proof (cases "n = sd_name d")
    case True
    then show ?thesis using nth [of "Suc (length ds)"] by (simp add: index_of_Some [OF assms])
  next
    case False
    show ?thesis
    proof (cases "index_of ds n")
      case None
      then have "n \<notin> set (desc_names (ds @ [d]))" using False by (auto simp: index_of_None desc_names_def)
      then have "index_of (ds @ [d]) n = None" by (simp only: index_of_None not_False_eq_True)
      then show ?thesis using None False by simp
    next
      case (Some i)
      then have "i \<le> length ds" "desc_names ds ! i = n" by (simp_all add: index_of_Some [OF ds])
      then show ?thesis using Some False nth [of i] by (simp add: index_of_Some [OF assms])
    qed
  qed
qed

section \<open>Adding symbols\<close>

lemma take_offset_ok:
  assumes "refines st ds" and "c_kind c \<in> {Text, Data, Tls, Plt}"
  obtains st' where "take_offset c st = Inr (of_nat (length (descs_content (c_kind c) ds)), st')"
    and "\<And>d. sd_content d = Some c \<Longrightarrow>
      text_offset st' = of_nat (length (descs_content Text (ds @ [d]))) \<and> data_offset st' = of_nat (length (descs_content Data (ds @ [d]))) \<and>
      tls_offset st' = of_nat (length (descs_content Tls (ds @ [d]))) \<and> plt_offset st' = of_nat (length (descs_content Plt (ds @ [d])))"
    and "same_frame st st'" and "sy_symbols st' = ds" "dynstr st' = dynstr st" "dynsym st' = dynsym st"
      "dynsym_shdr_types st' = dynsym_shdr_types st" "sym_index st' = sym_index st"
  using assms by (cases "c_kind c") (auto simp: take_offset_def refines_def descs_content_snoc same_frame_def intro: that)

lemma add_single_symbol_refines:
  assumes r: "refines st ds" and s: "supported d"
  shows "\<exists>idx st'. add_single_symbol d st = Inr (idx, st') \<and> refines st' (spec_add d ds) \<and> same_frame st st' \<and>
    index_of (spec_add d ds) (sd_name d) = Some idx"
proof (cases "sd_name d \<in> set (desc_names ds)")
  case True
  then obtain idx where idx: "index_of ds (sd_name d) = Some idx" using index_of_None by fastforce
  then have "add_single_symbol d st = Inr (idx, st)" using r by (simp add: add_single_symbol_def refines_def)
  then show ?thesis using True idx r by (simp add: spec_add_def)
next
  case False
  have no: "sym_index st (sd_name d) = None" using False r by (simp add: refines_def index_of_None)
  have dist: "distinct (desc_names (ds @ [d]))" using False r by (auto simp: refines_def desc_names_def)
  obtain val st1 where o: "(case sd_content d of
        Some c \<Rightarrow> res_bind (take_offset c st) (\<lambda>(off, st). Inr (c_kind c, off, st))
      | None \<Rightarrow> Inr (undefined_kind (sd_type d), 0, st)) = Inr (spec_kind d, val, st1)"
    and val: "val = (case sd_content d of None \<Rightarrow> 0 | Some c \<Rightarrow> of_nat (length (descs_content (c_kind c) ds)))"
    and off: "text_offset st1 = of_nat (length (descs_content Text (ds @ [d])))" "data_offset st1 = of_nat (length (descs_content Data (ds @ [d])))"
      "tls_offset st1 = of_nat (length (descs_content Tls (ds @ [d])))" "plt_offset st1 = of_nat (length (descs_content Plt (ds @ [d])))"
    and fr: "same_frame st st1" and kept: "sy_symbols st1 = ds" "dynstr st1 = dynstr st" "dynsym st1 = dynsym st"
      "dynsym_shdr_types st1 = dynsym_shdr_types st" "sym_index st1 = sym_index st"
  proof (cases "sd_content d")
    case None
    then show ?thesis using r that [of 0 st] by (simp add: spec_kind_def refines_def descs_content_snoc)
  next
    case (Some c)
    with s have "c_kind c \<in> {Text, Data, Tls, Plt}" by (simp add: supported_def)
    from take_offset_ok [OF r this] obtain st' where
      t: "take_offset c st = Inr (of_nat (length (descs_content (c_kind c) ds)), st')"
      and t1: "text_offset st' = of_nat (length (descs_content Text (ds @ [d])))" "data_offset st' = of_nat (length (descs_content Data (ds @ [d])))"
        "tls_offset st' = of_nat (length (descs_content Tls (ds @ [d])))" "plt_offset st' = of_nat (length (descs_content Plt (ds @ [d])))"
      and t2: "same_frame st st'" "sy_symbols st' = ds" "dynstr st' = dynstr st" "dynsym st' = dynsym st"
        "dynsym_shdr_types st' = dynsym_shdr_types st" "sym_index st' = sym_index st"
      using Some by metis
    show ?thesis by (rule that [OF _ _ t1 t2]) (use Some t in \<open>simp_all add: spec_kind_def\<close>)
  qed
  let ?sym = "\<lparr>gs_name_idx = cur_idx (dynstr st), gs_info = push_bit 4 (scope_bind (sd_scope d)) OR type_stt (sd_type d),
      gs_other = 0, gs_shndx = 0, gs_value = val, gs_size = desc_size d\<rparr>"
  let ?st = "(snd (add_symbol (sd_name d) ?sym (spec_kind d) st1))\<lparr>sy_symbols := ds @ [d]\<rparr>"
  have run: "add_single_symbol d st = Inr (Suc (length ds), ?st)"
    using no o r kept by (simp add: add_single_symbol_def Let_def add_symbol_def refines_def)
  have symv: "?sym = spec_symbol (ds @ [d]) (length ds)"
    using r val by (simp add: spec_symbol_def Let_def refines_def cur_idx_def nth_append split: option.split)
  have "map (spec_symbol ds) [0..<length ds] = map (spec_symbol (ds @ [d])) [0..<length ds]"
    by (simp add: spec_symbol_snoc)
  then have "refines ?st (ds @ [d])"
    using r kept off dist symv index_of_snoc [OF dist]
    by (simp add: refines_def add_symbol_def Let_def string_table_add_def spec_dynstr_def)
  moreover have "same_frame st ?st" using fr by (simp add: same_frame_def add_symbol_def Let_def)
  ultimately show ?thesis using run False index_of_snoc [OF dist] by (simp add: spec_add_def)
qed

definition spec_add_all :: "symbol_desc list \<Rightarrow> symbol_desc list \<Rightarrow> symbol_desc list" where
  "spec_add_all xs ds = foldl (\<lambda>ds d. spec_add d ds) ds xs"

lemma add_all_refines:
  assumes "refines st ds" and "\<forall>d \<in> set xs. supported d"
  shows "\<exists>st'. res_fold (\<lambda>s st. res_bind (add_single_symbol s st) (\<lambda>(_, st). Inr st)) xs st = Inr st' \<and>
    refines st' (spec_add_all xs ds) \<and> same_frame st st'"
  using assms
proof (induction xs arbitrary: st ds)
  case Nil
  then show ?case by (simp add: spec_add_all_def)
next
  case (Cons d xs)
  from add_single_symbol_refines [OF Cons.prems(1), of d] Cons.prems(2) obtain idx st1
    where s: "add_single_symbol d st = Inr (idx, st1)" and r: "refines st1 (spec_add d ds)" and f: "same_frame st st1" by auto
  from Cons.IH [OF r] Cons.prems(2) obtain st' where
    "res_fold (\<lambda>s st. res_bind (add_single_symbol s st) (\<lambda>(_, st). Inr st)) xs st1 = Inr st'"
    "refines st' (spec_add_all xs (spec_add d ds))" "same_frame st1 st'" by auto
  with s f show ?case by (auto simp: spec_add_all_def intro: same_frame_trans)
qed

text \<open>The entry of a function in the PLT, and its helper.\<close>

definition plt_desc :: "arch \<Rightarrow> u32 \<Rightarrow> symbol_desc list \<Rightarrow> reloc_entry \<Rightarrow> symbol_desc" where
  "plt_desc arch i ds r =
     plt_func (re_name r @ str_bytes ''@plt'') (generate_plt_entry_code arch i (of_nat (length (descs_content Plt ds))))"

definition helper_desc :: "arch \<Rightarrow> reloc_entry \<Rightarrow> symbol_desc" where
  "helper_desc arch r = global_func (re_name r @ HELPER_SUFFIX) (generate_helper_code arch)"

definition spec_plt :: "arch \<Rightarrow> u32 \<times> symbol_desc list \<Rightarrow> reloc_entry \<Rightarrow> u32 \<times> symbol_desc list" where
  "spec_plt arch s r = (let (i, ds) = s in (i + 1, spec_add (helper_desc arch r) (spec_add (plt_desc arch i ds r) ds)))"

text \<open>The symbols of a library: the resolver, the ones asked for, the PLT and the helpers.\<close>

definition spec_descs :: "arch \<Rightarrow> symbol_desc list \<Rightarrow> reloc_entry list \<Rightarrow> symbol_desc list" where
  "spec_descs arch symbols relocs =
     (let ds = spec_add_all (global_func IFUNC_RESOLVER_NAME (get_ifunc_resolver_code arch) # symbols) [];
          ds = spec_add (plt_func (str_bytes ''PLT0'') (generate_plt0_code arch)) ds
      in snd (foldl (spec_plt arch) (0, ds) (filter (\<lambda>r. is_plt_reloc (re_type r) arch) relocs)))"

lemma supported_funcs [simp]: "supported (plt_func n c)" "supported (global_func n c)"
  by (simp_all add: supported_def plt_func_def global_func_def)

lemma refines_update [simp]:
  "refines (st\<lparr>plt_entries := x\<rparr>) ds = refines st ds" "refines (st\<lparr>helper_index := h\<rparr>) ds = refines st ds"
  "refines (st\<lparr>plt0_idx := p\<rparr>) ds = refines st ds" "refines (st\<lparr>dynstr_size := n\<rparr>) ds = refines st ds"
  "refines (st\<lparr>dynsym_size := n\<rparr>) ds = refines st ds" "refines (st\<lparr>hash_size := n\<rparr>) ds = refines st ds"
  by (simp_all add: refines_def)

text \<open>What the PLT loop keeps of the rest.\<close>

definition plt_frame :: "symtab_metadata \<Rightarrow> symtab_metadata \<Rightarrow> bool" where
  "plt_frame st st' \<longleftrightarrow> sy_arch st' = sy_arch st \<and> dynsym_id st' = dynsym_id st \<and> dynstr_id st' = dynstr_id st \<and> hash_id st' = hash_id st"

lemma plt_frame_refl [simp]: "plt_frame st st"
  by (simp add: plt_frame_def)

lemma plt_frame_trans: "plt_frame a b \<Longrightarrow> plt_frame b c \<Longrightarrow> plt_frame a c"
  by (simp add: plt_frame_def)

lemma same_frame_plt: "same_frame a b \<Longrightarrow> plt_frame a b"
  by (simp add: plt_frame_def same_frame_def)

lemma add_plt_symbol_refines:
  assumes r: "refines st ds"
  shows "\<exists>st'. add_plt_symbol rel (g, i, st) = Inr (g + 1, i + 1, st') \<and>
    refines st' (snd (spec_plt (sy_arch st) (i, ds) rel)) \<and> plt_frame st st'"
proof -
  let ?arch = "sy_arch st"
  have off: "plt_offset st = of_nat (length (descs_content Plt ds))" using r by (simp add: refines_def)
  from add_single_symbol_refines [OF r, of "plt_desc ?arch i ds rel"] obtain p st1
    where s1: "add_single_symbol (plt_desc ?arch i ds rel) st = Inr (p, st1)"
      and r1: "refines st1 (spec_add (plt_desc ?arch i ds rel) ds)" and f1: "same_frame st st1"
    by (auto simp: plt_desc_def)
  let ?st1 = "st1\<lparr>plt_entries := plt_entries st1 @ [(p, g)]\<rparr>"
  have a1: "sy_arch ?st1 = ?arch" using f1 by (simp add: same_frame_def)
  from r1 have "refines ?st1 (spec_add (plt_desc ?arch i ds rel) ds)" by simp
  from add_single_symbol_refines [OF this, of "helper_desc ?arch rel"] obtain h st2
    where s2: "add_single_symbol (helper_desc ?arch rel) ?st1 = Inr (h, st2)"
      and r2: "refines st2 (spec_add (helper_desc ?arch rel) (spec_add (plt_desc ?arch i ds rel) ds))" and f2: "same_frame ?st1 st2"
    by (auto simp: helper_desc_def)
  have run: "add_plt_symbol rel (g, i, st) = Inr (g + 1, i + 1, st2\<lparr>helper_index := index_insert p h (helper_index st2)\<rparr>)"
    using s1 s2 a1 by (simp add: add_plt_symbol_def Let_def plt_desc_def helper_desc_def off)
  show ?thesis
    by (rule exI, rule conjI [OF run]) (use r2 f1 f2 in \<open>simp add: spec_plt_def plt_frame_def same_frame_def\<close>)
qed

lemma add_plt_loop_refines:
  assumes "refines st ds" and "sy_arch st = arch"
  shows "\<exists>g' i' st'. res_fold add_plt_symbol rels (g, i, st) = Inr (g', i', st') \<and>
    refines st' (snd (foldl (spec_plt arch) (i, ds) rels)) \<and> plt_frame st st'"
  using assms
proof (induction rels arbitrary: g i st ds)
  case Nil
  then show ?case by simp
next
  case (Cons rel rels)
  from add_plt_symbol_refines [OF Cons.prems(1), of rel g i] obtain st1
    where s: "add_plt_symbol rel (g, i, st) = Inr (g + 1, i + 1, st1)"
      and r: "refines st1 (snd (spec_plt arch (i, ds) rel))" and f: "plt_frame st st1" using Cons.prems(2) by auto
  have fst_spec: "spec_plt arch (i, ds) rel = (i + 1, snd (spec_plt arch (i, ds) rel))" by (simp add: spec_plt_def)
  have "sy_arch st1 = arch" using f Cons.prems(2) by (simp add: plt_frame_def)
  from Cons.IH [OF r this, of "g + 1" "i + 1"] s f show ?case
    by (auto simp: fst_spec [symmetric] intro: plt_frame_trans)
qed

lemma refines_start:
  "refines (snd (add_symbol [] null_symbol Null \<lparr>sy_arch = arch, dynstr = string_table_new, dynsym = [], dynsym_shdr_types = [],
     sym_index = Map.empty, helper_index = [], sy_symbols = [], dynsym_id = a, dynsym_size = 0, dynstr_id = b, dynstr_size = 0,
     hash_id = c, hash_size = 0, text_offset = 0, data_offset = 0, tls_offset = 0, plt_offset = 0, plt0_idx = None,
     plt_entries = []\<rparr>)) []"
  by (simp add: refines_def add_symbol_def Let_def string_table_new_def string_table_add_def spec_dynstr_def desc_names_def
      descs_content_def index_of_def fun_eq_iff)

lemma add_symbols_refines:
  assumes "refines st ds" and "\<forall>d \<in> set symbols. supported d"
  shows "\<exists>st'. add_symbols symbols st = Inr st' \<and> same_frame st st' \<and>
    refines st' (spec_add_all (global_func IFUNC_RESOLVER_NAME (get_ifunc_resolver_code (sy_arch st)) # symbols) ds)"
  unfolding add_symbols_def Let_def
  using add_all_refines [OF assms(1), of "global_func IFUNC_RESOLVER_NAME (get_ifunc_resolver_code (sy_arch st)) # symbols"] assms(2)
  by (metis set_ConsD supported_funcs(2))

lemma add_plt_symbols_refines:
  assumes "refines st ds" and arch: "sy_arch st = arch"
  shows "\<exists>st'. add_plt_symbols relocs st = Inr st' \<and> plt_frame st st' \<and>
    refines st' (snd (foldl (spec_plt arch) (0, spec_add (plt_func (str_bytes ''PLT0'') (generate_plt0_code arch)) ds)
      (filter (\<lambda>r. is_plt_reloc (re_type r) arch) relocs)))"
proof -
  let ?p0 = "plt_func (str_bytes ''PLT0'') (generate_plt0_code arch)"
  from add_single_symbol_refines [OF assms(1), of ?p0] obtain i st2
    where s2: "add_single_symbol ?p0 st = Inr (i, st2)" and r2: "refines st2 (spec_add ?p0 ds)" and f2: "same_frame st st2" by auto
  let ?st2 = "st2\<lparr>plt0_idx := Some (length (dynsym st2) - 1)\<rparr>"
  have r3: "refines ?st2 (spec_add ?p0 ds)" and a2: "sy_arch ?st2 = arch" and f3: "plt_frame st ?st2"
    using r2 f2 arch by (simp_all add: same_frame_def plt_frame_def)
  from add_plt_loop_refines [OF r3 a2, of "filter (\<lambda>r. is_plt_reloc (re_type r) arch) relocs" 3 0] obtain g' i' st'
    where "res_fold add_plt_symbol (filter (\<lambda>r. is_plt_reloc (re_type r) arch) relocs) (3, 0, ?st2) = Inr (g', i', st')"
      and r': "refines st' (snd (foldl (spec_plt arch) (0, spec_add ?p0 ds) (filter (\<lambda>r. is_plt_reloc (re_type r) arch) relocs)))"
      and f': "plt_frame ?st2 st'" by blast
  then have "add_plt_symbols relocs st = Inr st'" using s2 a2 arch by (simp add: add_plt_symbols_def Let_def)
  then show ?thesis using r' plt_frame_trans [OF f3 f'] by blast
qed

lemma symtab_metadata_new_refines:
  assumes "\<forall>d \<in> set symbols. supported d"
  shows "\<exists>st. symtab_metadata_new arch symbols relocs al =
      Inr (st, al @ [concat (map (symbol_write (is_64 arch)) (dynsym st)), dynstr st, create_hashtable st []]) \<and>
    refines st (spec_descs arch symbols relocs) \<and>
    sy_arch st = arch \<and> dynsym_id st = length al \<and> dynstr_id st = length al + 1 \<and> hash_id st = length al + 2 \<and>
    dynsym_size st = of_nat (length (concat (map (symbol_write (is_64 arch)) (dynsym st)))) \<and>
    dynstr_size st = of_nat (length (dynstr st)) \<and> hash_size st = of_nat (length (create_hashtable st []))"
proof -
  define st0 where "st0 = snd (add_symbol [] null_symbol Null \<lparr>sy_arch = arch, dynstr = string_table_new, dynsym = [],
     dynsym_shdr_types = [], sym_index = Map.empty, helper_index = [], sy_symbols = [], dynsym_id = length al, dynsym_size = 0,
     dynstr_id = Suc (length al), dynstr_size = 0, hash_id = Suc (Suc (length al)), hash_size = 0, text_offset = 0, data_offset = 0,
     tls_offset = 0, plt_offset = 0, plt0_idx = None, plt_entries = []\<rparr>)"
  have r0: "refines st0 []" unfolding st0_def by (rule refines_start)
  have fr0: "sy_arch st0 = arch" "dynsym_id st0 = length al" "dynstr_id st0 = Suc (length al)" "hash_id st0 = Suc (Suc (length al))"
    by (simp_all add: st0_def add_symbol_def Let_def)
  from add_symbols_refines [OF r0 assms] obtain st1 where s1: "add_symbols symbols st0 = Inr st1" and f1: "same_frame st0 st1"
    and r1: "refines st1 (spec_add_all (global_func IFUNC_RESOLVER_NAME (get_ifunc_resolver_code arch) # symbols) [])"
    using fr0(1) by auto
  have a1: "sy_arch st1 = arch" using f1 fr0 by (simp add: same_frame_def)
  from add_plt_symbols_refines [OF r1 a1, of relocs] obtain st3 where s3: "add_plt_symbols relocs st1 = Inr st3"
    and f3: "plt_frame st1 st3" and r3: "refines st3 (spec_descs arch symbols relocs)" by (auto simp: spec_descs_def Let_def)
  have ids: "dynsym_id st3 = length al" "dynstr_id st3 = Suc (length al)" "hash_id st3 = Suc (Suc (length al))" "sy_arch st3 = arch"
    using f1 f3 fr0 by (simp_all add: plt_frame_def same_frame_def)
  let ?st = "st3\<lparr>dynstr_size := of_nat (length (dynstr st3)),
      dynsym_size := of_nat (length (concat (map (symbol_write (is_64 arch)) (dynsym st3)))),
      hash_size := of_nat (length (create_hashtable st3 []))\<rparr>"
  have ht: "create_hashtable (st3\<lparr>dynstr_size := n, dynsym_size := k\<rparr>) [] = create_hashtable st3 []"
    "create_hashtable (st3\<lparr>dynstr_size := n, dynsym_size := k, hash_size := h\<rparr>) [] = create_hashtable st3 []" for n k h
    by (simp_all add: create_hashtable_def)
  have "symtab_metadata_new arch symbols relocs al =
      Inr (?st, al @ [concat (map (symbol_write (is_64 arch)) (dynsym st3)), dynstr st3, create_hashtable st3 []])"
    using s1 s3
    by (simp add: symtab_metadata_new_def allocate_def Let_def null_symbol_def case_prod_unfold alloc_modify_def alloc_get_def
        list_update_append nth_append ht st0_def)
  then show ?thesis using r3 ids ht(2) by (intro exI [of _ ?st]) simp
qed

text \<open>
  C17. The symbol table refines the list of its descriptions. For every request with supported contents,
  building the table returns, and every table of the result is a function of the list of descriptions with
  distinct names that starts with the resolver, keeps the first of the requested symbols with a name, and
  ends with the PLT header, the PLT entries and the helpers: the strings are the names one after the other,
  the symbol of a description has the offset of its name and of its bytes in the section of its kind, the
  name index maps a name to its position, and the section offsets are the sizes of the contents. The three
  buffers allocated hold the symbols, the strings and the hash table, and the sizes kept are theirs.
\<close>

theorem symtab_refines_list:
  assumes "\<forall>d \<in> set symbols. supported d"
  shows "\<exists>st. symtab_metadata_new arch symbols relocs al =
      Inr (st, al @ [concat (map (symbol_write (is_64 arch)) (dynsym st)), dynstr st, create_hashtable st []]) \<and>
    refines st (spec_descs arch symbols relocs) \<and>
    sy_arch st = arch \<and> dynsym_id st = length al \<and> dynstr_id st = length al + 1 \<and> hash_id st = length al + 2 \<and>
    dynsym_size st = of_nat (length (concat (map (symbol_write (is_64 arch)) (dynsym st)))) \<and>
    dynstr_size st = of_nat (length (dynstr st)) \<and> hash_size st = of_nat (length (create_hashtable st []))"
  by (rule symtab_metadata_new_refines [OF assms])

definition wit_request :: "symbol_desc list" where
  "wit_request = [global_func (str_bytes ''f'') [0xC3], global_object (str_bytes ''x'') [1, 2, 3, 4], undefined_func (str_bytes ''g'')]"

definition wit_relocs :: "reloc_entry list" where
  "wit_relocs = [jump_slot (str_bytes ''g'') X86_64, relative X86_64]"

theorem symtab_refines_list_witness:
  "\<exists>st. symtab_metadata_new X86_64 wit_request wit_relocs [] =
      Inr (st, [concat (map (symbol_write True) (dynsym st)), dynstr st, create_hashtable st []]) \<and>
    map sd_name (sy_symbols st) = map str_bytes [''__ifunc_resolver'', ''f'', ''x'', ''g'', ''PLT0'', ''g@plt'', ''g@helper'']"
proof -
  have s: "\<forall>d \<in> set wit_request. supported d"
    by (simp add: wit_request_def supported_def global_func_def global_object_def undefined_func_def)
  have "map sd_name (spec_descs X86_64 wit_request wit_relocs) =
      map str_bytes [''__ifunc_resolver'', ''f'', ''x'', ''g'', ''PLT0'', ''g@plt'', ''g@helper'']" by code_simp
  then show ?thesis using symtab_refines_list [OF s, of X86_64 wit_relocs "[]"] by (auto simp: refines_def)
qed

end
