(* ===== verification/Gen_Lookup_Props.thy ===== *)
theory Gen_Lookup_Props
  imports Gen_Symtab_Props
begin

text \<open>
  The generator against the loader: the symbol table, the string table and the hash table that
  \<^verbatim>\<open>tools/gen-elf\<close> writes for a 64-bit library, read back from memory by the lookup of
  \<^verbatim>\<open>src/src/elf\<close>.
\<close>

section \<open>Strings\<close>

lemma holds_cstr:
  assumes "holds m a (bs @ [0])" and "0 \<notin> set bs"
  shows "cstr m a = Some bs"
  by (rule cstr_bytes) (use assms in \<open>auto simp: holds_iff nth_append\<close>)

section \<open>The hash table\<close>

lemma hash_table_words:
  assumes h: "holds m hp (create_hashtable st [])" and n: "length (dynsym st) < 2 ^ 32"
  defines "H \<equiv> elf_hash_parse m hp"
  shows "h_nbucket H = 1" and "h_nchain H = of_nat (length (dynsym st))"
    and "elf_bucket m H 0 = (if 1 < length (dynsym st) then 1 else 0)"
    and "\<And>i. 1 \<le> i \<Longrightarrow> i < length (dynsym st) \<Longrightarrow>
      elf_next m H i = (if Suc i < length (dynsym st) then Suc i else 0)"
proof -
  let ?n = "length (dynsym st)"
  let ?next = "\<lambda>i. if i + 1 < ?n then of_nat (i + 1) else 0 :: u32"
  have w: "holds m hp (le_bytes 4 (1 :: u32))" "holds m (hp + 4) (le_bytes 4 (of_nat ?n :: u32))"
    "holds m (hp + 8) (le_bytes 4 (if 1 < ?n then 1 else 0 :: u32))"
    and c: "holds m (hp + 16) (concat (map (\<lambda>i. le_bytes 4 (?next i)) [1..<?n]))"
    using h by (simp_all add: create_hashtable_def Let_def add.assoc)
  show nb: "h_nbucket H = 1" "h_nchain H = of_nat ?n"
    using holds_le_bytes [OF w(1)] holds_le_bytes [OF w(2)] by (simp_all add: H_def elf_hash_parse_def Let_def)
  have b: "h_buckets H = hp + 8" "h_chains H = hp + 12"
    using holds_le_bytes [OF w(1)] by (simp_all add: H_def elf_hash_parse_def Let_def)
  show "elf_bucket m H 0 = (if 1 < ?n then 1 else 0)"
    using holds_le_bytes [OF w(3)] by (simp add: elf_bucket_def b)
  show "elf_next m H i = (if Suc i < ?n then Suc i else 0)" if i: "1 \<le> i" "i < ?n" for i
  proof -
    have "holds m (hp + 16 + of_nat (4 * (i - 1))) (le_bytes 4 (?next ([1..<?n] ! (i - 1))))"
      by (rule holds_array [OF c]) (use i in auto)
    then have "read_u32 m (hp + 16 + of_nat (4 * (i - 1))) = ?next i"
      using i by (simp add: holds_le_bytes)
    moreover have "hp + 16 + of_nat (4 * (i - 1)) = h_chains H + of_nat i * 4"
      using i by (simp add: b of_nat_diff algebra_simps)
    ultimately have "read_u32 m (h_chains H + of_nat i * 4) = ?next i" by (simp only:)
    then show ?thesis using n i by (simp add: elf_next_def take_bit_nat_eq_self unsigned_of_nat del: of_nat_Suc of_nat_add)
  qed
qed

text \<open>The single chain runs through all symbols in order.\<close>

lemma elf_path_all:
  assumes "\<And>i. 1 \<le> i \<Longrightarrow> i < n \<Longrightarrow> elf_next m H i = (if Suc i < n then Suc i else 0)"
    and "1 \<le> i" "i < n" "n - i \<le> k"
  shows "elf_path m H k i = Some [i..<n]"
  using assms(2-)
proof (induction k arbitrary: i)
  case (Suc k)
  show ?case
  proof (cases "Suc i < n")
    case True
    then show ?thesis using Suc assms(1) [of i] by (simp add: upt_conv_Cons)
  next
    case False
    then have "n = Suc i" using Suc.prems by simp
    then show ?thesis using Suc.prems assms(1) [of i] by (cases k) simp_all
  qed
qed simp

section \<open>The linked symbols\<close>

text \<open>
  A symbol with contents gets the number of its section and the address of its bytes in it; the others stay undefined.
\<close>

definition section_base :: "u64 \<Rightarrow> u64 \<Rightarrow> u64 \<Rightarrow> section_kind \<Rightarrow> u64" where
  "section_base plt_vaddr text_vaddr data_vaddr k =
     (if k = Text then text_vaddr else if k = Data then data_vaddr else if k = Plt then plt_vaddr else 0)"

definition linked_symbol :: "(section_kind \<Rightarrow> u64) \<Rightarrow> shdr_map \<Rightarrow> symbol_desc list \<Rightarrow> nat \<Rightarrow> gen_symbol" where
  "linked_symbol base m ds i =
     (let s = spec_symbol ds i in
      case sd_content (ds ! i) of None \<Rightarrow> s
      | Some c \<Rightarrow> (case m (c_kind c) of None \<Rightarrow> s
          | Some idx \<Rightarrow> s\<lparr>gs_shndx := of_nat idx, gs_value := base (c_kind c) + of_nat (length (descs_content (c_kind c) (take i ds)))\<rparr>))"

lemma res_fold_map:
  assumes "\<And>x out. x \<in> set xs \<Longrightarrow> f x out = Inr (out @ [g x])"
  shows "res_fold f xs out = Inr (out @ map g xs)"
  using assms by (induction xs arbitrary: out) simp_all

lemma update_symbol_values_linked:
  assumes r: "refines st ds"
  shows "update_symbol_values p t d m st =
    Inr (st\<lparr>dynsym := null_symbol # map (linked_symbol (section_base p t d) m ds) [0..<length ds]\<rparr>)"
proof -
  let ?g = "\<lambda>(i, s). if i = 0 then s else linked_symbol (section_base p t d) m ds (i - 1)"
  have "update_symbol st p t d m x out = Inr (out @ [?g x])" if x: "x \<in> set (enumerate 0 (dynsym st))" for x out
  proof -
    obtain i s where xs: "x = (i, s)" by (cases x)
    with x r have i: "i < Suc (length ds)" and s: "s = (null_symbol # map (spec_symbol ds) [0..<length ds]) ! i"
      by (auto simp: in_set_enumerate_eq refines_def)
    show ?thesis
    proof (cases i)
      case 0
      then show ?thesis by (simp add: update_symbol_def xs)
    next
      case (Suc j)
      with i s have j: "j < length ds" and sj: "s = spec_symbol ds j" by auto
      have v: "gs_value s = of_nat (length (descs_content (c_kind c) (take j ds)))" if "sd_content (ds ! j) = Some c" for c
        using that by (simp add: sj spec_symbol_def Let_def)
      show ?thesis using r j
        by (auto simp: update_symbol_def xs Suc refines_def Let_def linked_symbol_def spec_kind_def sj [symmetric] v section_base_def
            split: option.split section_kind.split)
    qed
  qed
  then have "res_fold (update_symbol st p t d m) (enumerate 0 (dynsym st)) [] = Inr (map ?g (enumerate 0 (dynsym st)))"
    using res_fold_map [of "enumerate 0 (dynsym st)" "update_symbol st p t d m" ?g "[]"] by simp
  moreover have "map ?g (enumerate 0 (dynsym st)) = null_symbol # map (linked_symbol (section_base p t d) m ds) [0..<length ds]"
    using r by (intro nth_equalityI) (auto simp: refines_def nth_enumerate_eq nth_Cons split: nat.split)
  ultimately show ?thesis by (simp add: update_symbol_values_def)
qed

text \<open>What linking leaves alone: the name and the kind of the symbol.\<close>

lemma linked_symbol_name [simp]: "gs_name_idx (linked_symbol b m ds i) = of_nat (length (spec_dynstr (take i ds)))"
  by (simp add: linked_symbol_def Let_def spec_symbol_def split: option.split)

section \<open>Reading symbols\<close>

definition symbol_of :: "gen_symbol \<Rightarrow> sym" where
  "symbol_of s = \<lparr>sym_name = gs_name_idx s, sym_info = gs_info s, sym_other = gs_other s, sym_shndx = gs_shndx s,
     sym_value = gs_value s, sym_size = gs_size s\<rparr>"

lemma length_symbol_write [simp]: "length (symbol_write True s) = size_sym"
  by (simp add: symbol_write_def size_sym_def)

lemma symbol_write_roundtrip: "holds m a (symbol_write True s) \<Longrightarrow> sym_at m a = symbol_of s"
  by (simp add: symbol_write_def symbol_of_def sym_at_def holds_le_bytes add.assoc)

lemma dynsym_entry:
  assumes "holds m sp (concat (map (symbol_write True) syms))" and "i < length syms" and "st_symtab T = sp"
  shows "sym_at m (sym_ptr T (of_nat i)) = symbol_of (syms ! i)"
proof -
  have "holds m (sp + of_nat (size_sym * i)) (symbol_write True (syms ! i))"
    by (rule holds_array [OF assms(1)]) (simp_all add: assms(2))
  then show ?thesis using assms(3) by (simp add: sym_ptr_def symbol_write_roundtrip mult.commute)
qed

lemma dynstr_entry:
  assumes "holds m tp (spec_dynstr ds)" and "i < length ds"
  shows "holds m (tp + of_nat (length (spec_dynstr (take i ds)))) (sd_name (ds ! i) @ [0])"
proof -
  have "spec_dynstr ds = spec_dynstr (take i ds) @ (sd_name (ds ! i) @ [0]) @ concat (map (\<lambda>d. sd_name d @ [0]) (drop (Suc i) ds))"
    using arg_cong [OF id_take_nth_drop [OF assms(2)], of spec_dynstr] by (simp add: spec_dynstr_def)
  then show ?thesis using assms(1) by (metis holds_append)
qed

section \<open>Lookup\<close>

definition generated_table :: "mem \<Rightarrow> usize \<Rightarrow> usize \<Rightarrow> usize \<Rightarrow> symbol_table" where
  "generated_table m sp tp hp =
     \<lparr>st_hashtab = Elf (elf_hash_parse m hp), st_symtab = sp, st_strtab = tp, st_version = None\<rparr>"

lemma length_dynstr_symbols: "length ds < length (spec_dynstr ds)"
proof -
  have "length ds \<le> sum_list (map (\<lambda>d. Suc (length (sd_name d))) ds)" by (induction ds) simp_all
  then show ?thesis by (simp add: spec_dynstr_def length_concat comp_def)
qed

lemma length_dynstr_take: "length (spec_dynstr (take i ds)) \<le> length (spec_dynstr ds)"
proof -
  have "spec_dynstr (take i ds @ drop i ds) = spec_dynstr (take i ds) @ concat (map (\<lambda>d. sd_name d @ [0]) (drop i ds))"
    unfolding spec_dynstr_def map_append concat_append by simp
  then show ?thesis by simp
qed

text \<open>The three tables of a library in memory.\<close>

definition generated_in ::
  "symtab_metadata \<Rightarrow> symbol_desc list \<Rightarrow> (nat \<Rightarrow> gen_symbol) \<Rightarrow> mem \<Rightarrow> usize \<Rightarrow> usize \<Rightarrow> usize \<Rightarrow> bool" where
  "generated_in st ds syms m sp tp hp \<longleftrightarrow>
     refines st ds \<and> (\<forall>d \<in> set ds. 0 \<notin> set (sd_name d)) \<and> length (spec_dynstr ds) < 2 ^ 32 \<and>
     (\<forall>i < length ds. gs_name_idx (syms i) = of_nat (length (spec_dynstr (take i ds)))) \<and>
     holds m sp (concat (map (symbol_write True) (null_symbol # map syms [0..<length ds]))) \<and>
     holds m tp (spec_dynstr ds) \<and> holds m hp (create_hashtable st [])"

lemma generated_inD:
  assumes "generated_in st ds syms m sp tp hp"
  shows "refines st ds" and "\<And>d. d \<in> set ds \<Longrightarrow> 0 \<notin> set (sd_name d)" and "length (spec_dynstr ds) < 2 ^ 32"
    and "\<And>i. i < length ds \<Longrightarrow> gs_name_idx (syms i) = of_nat (length (spec_dynstr (take i ds)))"
    and "holds m sp (concat (map (symbol_write True) (null_symbol # map syms [0..<length ds])))"
    and "holds m tp (spec_dynstr ds)" and "holds m hp (create_hashtable st [])"
  using assms by (simp_all add: generated_in_def)

lemma generated_symbol_at:
  "generated_in st ds syms m sp tp hp \<Longrightarrow> i < length ds \<Longrightarrow>
    sym_at m (sym_ptr (generated_table m sp tp hp) (of_nat (Suc i))) = symbol_of (syms i)"
  using dynsym_entry [OF generated_inD(5), of st ds syms m sp tp hp "Suc i" "generated_table m sp tp hp"]
  by (simp add: generated_table_def del: of_nat_Suc)

lemma generated_name_at:
  assumes g: "generated_in st ds syms m sp tp hp" and i: "i < length ds"
  shows "sym_name_at m (generated_table m sp tp hp) (Suc i) = Some (sd_name (ds ! i))"
proof -
  have "length (spec_dynstr (take i ds)) < 2 ^ 32" using generated_inD(3) [OF g] length_dynstr_take [of i ds] by linarith
  then have "st_name (symbol_of (syms i)) = of_nat (length (spec_dynstr (take i ds)))"
    by (simp add: st_name_def symbol_of_def generated_inD(4) [OF g i] word_unat_eq_iff unsigned_of_nat take_bit_nat_eq_self)
  moreover have "cstr m (tp + of_nat (length (spec_dynstr (take i ds)))) = Some (sd_name (ds ! i))"
    by (rule holds_cstr [OF dynstr_entry [OF generated_inD(6) [OF g] i]]) (simp add: generated_inD(2) [OF g] i)
  ultimately show ?thesis using generated_symbol_at [OF g i] by (simp add: sym_name_at_def generated_table_def del: of_nat_Suc)
qed

lemma generated_table_wf:
  assumes g: "generated_in st ds syms m sp tp hp"
  shows "symtab_wf HB m (generated_table m sp tp hp) {1..<Suc (length ds)}"
proof -
  let ?T = "generated_table m sp tp hp" and ?H = "elf_hash_parse m hp" and ?n = "Suc (length ds)"
  have n: "length (dynsym st) = ?n" using generated_inD(1) [OF g] by (simp add: refines_def)
  have lt: "length (dynsym st) < 2 ^ 32" using generated_inD(3) [OF g] length_dynstr_symbols [of ds] n by linarith
  note hw = hash_table_words [OF generated_inD(7) [OF g] lt, unfolded n]
  have path: "\<exists>p. elf_path m ?H ?n (elf_bucket m ?H 0) = Some p \<and> set p = {1..<?n}"
  proof (cases "ds = []")
    case False
    then have "elf_path m ?H ?n 1 = Some [1..<?n]"
      by (intro elf_path_all [OF hw(4)]) (auto simp: Suc_le_eq)
    then show ?thesis using False hw(3) by (auto simp: Suc_le_eq)
  qed (simp add: hw(3))
  have "\<exists>name. sym_name_at m ?T i = Some name" if "i \<in> {1..<?n}" for i
    using generated_name_at [OF g, of "i - 1"] that by auto
  then have "elf_wf m ?T ?H ?n" using path hw(1) by (auto simp: elf_wf_def Let_def)
  then show ?thesis by (auto simp: symtab_wf_def elf_table_wf_def generated_table_def)
qed

text \<open>Every symbol is found by its name, and no other name is found.\<close>

lemma generated_found:
  assumes g: "generated_in st ds syms m sp tp hp" and i: "i < length ds"
  shows "lookup_by_name HB m (generated_table m sp tp hp) (sd_name (ds ! i)) =
    Inr (Some (sym_ptr (generated_table m sp tp hp) (of_nat (Suc i))))"
proof (rule lookup_by_name_unique [OF generated_table_wf [OF g]])
  show "Suc i \<in> {1..<Suc (length ds)}" using i by simp
  show "sym_name_at m (generated_table m sp tp hp) (Suc i) = Some (sd_name (ds ! i))" by (rule generated_name_at [OF g i])
  fix j assume j: "j \<in> {1..<Suc (length ds)}" "sym_name_at m (generated_table m sp tp hp) j = Some (sd_name (ds ! i))"
  then have "sd_name (ds ! (j - 1)) = sd_name (ds ! i)" using generated_name_at [OF g, of "j - 1"] by auto
  moreover have "distinct (map sd_name ds)" using generated_inD(1) [OF g] by (simp add: refines_def desc_names_def)
  ultimately have "j - 1 = i" using i j(1) nth_eq_iff_index_eq [of "map sd_name ds" "j - 1" i] by auto
  then show "j = Suc i" using j(1) by auto
qed

lemma generated_absent:
  assumes g: "generated_in st ds syms m sp tp hp" and nm: "name \<notin> sd_name ` set ds"
  shows "lookup_by_name HB m (generated_table m sp tp hp) name = Inr None"
proof (rule lookup_by_name_absent [OF generated_table_wf [OF g]])
  fix i assume i: "i \<in> {1..<Suc (length ds)}"
  then have "sym_name_at m (generated_table m sp tp hp) i = Some (sd_name (ds ! (i - 1)))" "i - 1 < length ds"
    using generated_name_at [OF g, of "i - 1"] by auto
  with nm show "sym_name_at m (generated_table m sp tp hp) i \<noteq> Some name" by auto
qed

text \<open>No name has a zero byte, when none of the request has.\<close>

lemma spec_add_all_names:
  "(\<And>d. d \<in> set ds \<Longrightarrow> P d) \<Longrightarrow> P d' \<Longrightarrow> d \<in> set (spec_add d' ds) \<Longrightarrow> P d"
  "(\<And>d. d \<in> set ds \<Longrightarrow> P d) \<Longrightarrow> (\<And>d. d \<in> set xs \<Longrightarrow> P d) \<Longrightarrow> d \<in> set (spec_add_all xs ds) \<Longrightarrow> P d"
proof -
  show one: "P d" if "\<And>d. d \<in> set ds \<Longrightarrow> P d" "P d'" "d \<in> set (spec_add d' ds)" for ds d d'
    using that by (auto simp: spec_add_def split: if_splits)
  show "P d" if "\<And>d. d \<in> set ds \<Longrightarrow> P d" "\<And>d. d \<in> set xs \<Longrightarrow> P d" "d \<in> set (spec_add_all xs ds)" for ds
    using that
  proof (induction xs arbitrary: ds)
    case (Cons x xs)
    have "d \<in> set (spec_add_all xs (spec_add x ds))" using Cons.prems(3) by (simp add: spec_add_all_def)
    then show ?case by (rule Cons.IH [rotated -1]) (use Cons.prems one in \<open>auto intro: one\<close>)
  qed (simp add: spec_add_all_def)
qed

lemma spec_plt_names:
  assumes "\<And>d. d \<in> set ds \<Longrightarrow> 0 \<notin> set (sd_name d)" and "\<And>r. r \<in> set rels \<Longrightarrow> 0 \<notin> set (re_name r)"
    and "d \<in> set (snd (foldl (spec_plt arch) (i, ds) rels))"
  shows "0 \<notin> set (sd_name d)"
  using assms
proof (induction rels arbitrary: i ds)
  case (Cons r rels)
  have suffix: "0 \<notin> set (str_bytes ''@plt'')" "0 \<notin> set HELPER_SUFFIX" by (simp_all add: str_bytes_def HELPER_SUFFIX_def)
  have r: "0 \<notin> set (re_name r)" using Cons.prems(2) by simp
  have "0 \<notin> set (sd_name d)" if "d \<in> set (snd (spec_plt arch (i, ds) r))" for d
  proof (rule spec_add_all_names(1) [of _ "\<lambda>d. 0 \<notin> set (sd_name d)"])
    show "d \<in> set (spec_add (helper_desc arch r) (spec_add (plt_desc arch i ds r) ds))" using that by (simp add: spec_plt_def)
    show "0 \<notin> set (sd_name (helper_desc arch r))" using r suffix by (simp add: helper_desc_def global_func_def)
    show "0 \<notin> set (sd_name d)" if "d \<in> set (spec_add (plt_desc arch i ds r) ds)" for d
      by (rule spec_add_all_names(1) [OF _ _ that, of "\<lambda>d. 0 \<notin> set (sd_name d)"])
        (use Cons.prems(1) r suffix in \<open>simp_all add: plt_desc_def plt_func_def\<close>)
  qed
  moreover have "foldl (spec_plt arch) (i, ds) (r # rels) = foldl (spec_plt arch) (i + 1, snd (spec_plt arch (i, ds) r)) rels"
    by (simp add: spec_plt_def)
  ultimately show ?case using Cons.IH [of "snd (spec_plt arch (i, ds) r)" "i + 1"] Cons.prems(2,3) by simp
qed simp

lemma spec_descs_names:
  assumes "\<forall>d \<in> set symbols. 0 \<notin> set (sd_name d)" and "\<forall>r \<in> set relocs. 0 \<notin> set (re_name r)"
    and "d \<in> set (spec_descs arch symbols relocs)"
  shows "0 \<notin> set (sd_name d)"
proof -
  let ?xs = "global_func IFUNC_RESOLVER_NAME (get_ifunc_resolver_code arch) # symbols"
  let ?p0 = "plt_func (str_bytes ''PLT0'') (generate_plt0_code arch)"
  have fixed: "0 \<notin> set (str_bytes ''PLT0'')" "0 \<notin> set IFUNC_RESOLVER_NAME" by (simp_all add: str_bytes_def IFUNC_RESOLVER_NAME_def)
  have "0 \<notin> set (sd_name d)" if "d \<in> set (spec_add_all ?xs [])" for d
    by (rule spec_add_all_names(2) [OF _ _ that, of "\<lambda>d. 0 \<notin> set (sd_name d)"])
      (use assms(1) fixed in \<open>auto simp: global_func_def\<close>)
  then have "0 \<notin> set (sd_name d)" if "d \<in> set (spec_add ?p0 (spec_add_all ?xs []))" for d
    by (rule spec_add_all_names(1) [OF _ _ that, of "\<lambda>d. 0 \<notin> set (sd_name d)"]) (use fixed in \<open>simp_all add: plt_func_def\<close>)
  then show ?thesis
    by (rule spec_plt_names [where rels = "filter (\<lambda>r. is_plt_reloc (re_type r) arch) relocs"])
      (use assms(2,3) in \<open>auto simp: spec_descs_def Let_def\<close>)
qed

text \<open>
  C14. The loader finds what the generator wrote. For every request with supported contents and names
  without zero bytes, on a 64-bit architecture, the symbol table is built and linked without a fault; with
  its symbols, strings and hash table anywhere in memory, the loader's lookup of the name of a symbol
  returns that symbol, with the section number and the address the linking gave it, and the lookup of any
  other name returns none.
\<close>

theorem generated_symbols_found:
  assumes "is_64 arch" and "\<forall>d \<in> set symbols. supported d \<and> 0 \<notin> set (sd_name d)" and "\<forall>r \<in> set relocs. 0 \<notin> set (re_name r)"
    and "length (spec_dynstr (spec_descs arch symbols relocs)) < 2 ^ 32"
  shows "\<exists>st al1 st' al2. symtab_metadata_new arch symbols relocs al = Inr (st, al1) \<and>
    patch_symtab plt_vaddr text_vaddr data_vaddr sections (st, al1) = Inr (st', al2) \<and>
    (\<forall>HB m sp tp hp. holds m sp (al2 ! dynsym_id st') \<and> holds m tp (al2 ! dynstr_id st') \<and> holds m hp (al2 ! hash_id st') \<longrightarrow>
      (let T = generated_table m sp tp hp; ds = spec_descs arch symbols relocs in
       (\<forall>i < length ds.
          lookup_by_name HB m T (sd_name (ds ! i)) = Inr (Some (sym_ptr T (of_nat (Suc i)))) \<and>
          sym_at m (sym_ptr T (of_nat (Suc i))) =
            symbol_of (linked_symbol (section_base plt_vaddr text_vaddr data_vaddr) sections ds i)) \<and>
       (\<forall>name. name \<notin> sd_name ` set ds \<longrightarrow> lookup_by_name HB m T name = Inr None)))"
proof -
  let ?ds = "spec_descs arch symbols relocs"
  let ?L = "linked_symbol (section_base plt_vaddr text_vaddr data_vaddr) sections ?ds"
  obtain st where new: "symtab_metadata_new arch symbols relocs al =
      Inr (st, al @ [concat (map (symbol_write (is_64 arch)) (dynsym st)), dynstr st, create_hashtable st []])"
    and r: "refines st ?ds" and ids: "sy_arch st = arch" "dynsym_id st = length al" "dynstr_id st = length al + 1" "hash_id st = length al + 2"
    using symtab_metadata_new_refines [of symbols arch relocs al] assms(2) by blast
  let ?syms = "null_symbol # map ?L [0..<length ?ds]" and ?bytes = "concat (map (symbol_write (is_64 arch)) (dynsym st))"
  let ?al = "al @ [concat (map (symbol_write True) ?syms), dynstr st, create_hashtable st []]"
  have "alloc_modify (length al) (\<lambda>_. Inr x) (al @ [a, b, c]) = Inr (al @ [x, b, c])" for x a b c
    by (simp add: alloc_modify_def alloc_get_def list_update_append nth_append)
  then have run: "patch_symtab plt_vaddr text_vaddr data_vaddr sections (st, al @ [?bytes, dynstr st, create_hashtable st []])
      = Inr (st\<lparr>dynsym := ?syms\<rparr>, ?al)"
    using ids assms(1) by (simp add: patch_symtab_def update_symbol_values_linked [OF r] patch_dynsym_def)
  have nth: "?al ! length al = concat (map (symbol_write True) ?syms)" "?al ! (length al + 1) = dynstr st"
    "?al ! (length al + 2) = create_hashtable st []" by (simp_all add: nth_append)
  have "generated_in st ?ds ?L m sp tp hp"
    if "holds m sp (?al ! length al)" "holds m tp (?al ! (length al + 1))" "holds m hp (?al ! (length al + 2))" for m sp tp hp
    using that assms(4) r spec_descs_names [of symbols relocs _ arch] assms(2,3) unfolding nth
    by (auto simp: generated_in_def refines_def)
  from generated_found [OF this] generated_absent [OF this] generated_symbol_at [OF this] show ?thesis
    by (intro exI conjI) (rule new run, simp add: ids Let_def)+
qed

theorem generated_symbols_found_witness:
  "\<exists>st al1 st' al2. symtab_metadata_new X86_64 wit_request wit_relocs [] = Inr (st, al1) \<and>
    patch_symtab 0x1000 0x2000 0x3000 (Map.empty(Text \<mapsto> 5, Data \<mapsto> 7)) (st, al1) = Inr (st', al2) \<and>
    (\<forall>HB m. holds m 0x100 (al2 ! dynsym_id st') \<and> holds m 0x800 (al2 ! dynstr_id st') \<and> holds m 0xA00 (al2 ! hash_id st') \<longrightarrow>
      lookup_by_name HB m (generated_table m 0x100 0x800 0xA00) (str_bytes ''x'') = Inr (Some 0x148) \<and>
      sym_shndx (sym_at m 0x148) = 7 \<and> sym_value (sym_at m 0x148) = 0x3000 \<and>
      lookup_by_name HB m (generated_table m 0x100 0x800 0xA00) (str_bytes ''y'') = Inr None)"
proof -
  let ?ds = "spec_descs X86_64 wit_request wit_relocs" and ?sec = "Map.empty(Text \<mapsto> 5, Data \<mapsto> 7)"
  have len: "length (spec_dynstr ?ds) = 45" by code_simp
  have h: "is_64 X86_64" "\<forall>d \<in> set wit_request. supported d \<and> 0 \<notin> set (sd_name d)" "\<forall>r \<in> set wit_relocs. 0 \<notin> set (re_name r)"
    by code_simp+
  have h4: "length (spec_dynstr ?ds) < 2 ^ 32" unfolding len by simp
  have ds: "2 < length ?ds" "sd_name (?ds ! 2) = str_bytes ''x''" "str_bytes ''y'' \<notin> sd_name ` set ?ds" by code_simp+
  have l: "gs_shndx (linked_symbol (section_base 0x1000 0x2000 0x3000) ?sec ?ds 2) = 7"
    "gs_value (linked_symbol (section_base 0x1000 0x2000 0x3000) ?sec ?ds 2) = 0x3000" by code_simp+
  have p: "sym_ptr (generated_table m 0x100 0x800 0xA00) (of_nat (Suc 2)) = 0x148" for m
    by (simp add: sym_ptr_def generated_table_def size_sym_def)
  obtain st al1 st' al2 where g: "symtab_metadata_new X86_64 wit_request wit_relocs [] = Inr (st, al1)"
      "patch_symtab 0x1000 0x2000 0x3000 ?sec (st, al1) = Inr (st', al2)"
    and l1: "\<And>HB m sp tp hp i. holds m sp (al2 ! dynsym_id st') \<and> holds m tp (al2 ! dynstr_id st') \<and> holds m hp (al2 ! hash_id st') \<Longrightarrow>
       i < length ?ds \<Longrightarrow>
          lookup_by_name HB m (generated_table m sp tp hp) (sd_name (?ds ! i)) =
            Inr (Some (sym_ptr (generated_table m sp tp hp) (of_nat (Suc i)))) \<and>
          sym_at m (sym_ptr (generated_table m sp tp hp) (of_nat (Suc i))) =
            symbol_of (linked_symbol (section_base 0x1000 0x2000 0x3000) ?sec ?ds i)"
    and l2: "\<And>HB m sp tp hp name. holds m sp (al2 ! dynsym_id st') \<and> holds m tp (al2 ! dynstr_id st') \<and> holds m hp (al2 ! hash_id st') \<Longrightarrow>
       name \<notin> sd_name ` set ?ds \<Longrightarrow> lookup_by_name HB m (generated_table m sp tp hp) name = Inr None"
    using generated_symbols_found [OF h h4, of "[]" "0x1000" "0x2000" "0x3000" ?sec] unfolding Let_def by blast
  have "lookup_by_name HB m (generated_table m 0x100 0x800 0xA00) (str_bytes ''x'') = Inr (Some 0x148) \<and>
      sym_shndx (sym_at m 0x148) = 7 \<and> sym_value (sym_at m 0x148) = 0x3000 \<and>
      lookup_by_name HB m (generated_table m 0x100 0x800 0xA00) (str_bytes ''y'') = Inr None"
    if hm: "holds m 0x100 (al2 ! dynsym_id st') \<and> holds m 0x800 (al2 ! dynstr_id st') \<and> holds m 0xA00 (al2 ! hash_id st')" for HB m
    using l1 [OF hm ds(1), of HB] l2 [OF hm ds(3), of HB] l unfolding p ds(2) by (simp add: symbol_of_def)
  with g show ?thesis by blast
qed

end
