(* ===== verification/Gen_File.thy ===== *)
theory Gen_File
  imports Gen_Headers Gen_Lookup_Props
begin

text \<open>
  The file of a generated library: the vector that \<^verbatim>\<open>DylibWriter::write\<close> fills, read as a file by
  the loader's parser. The header, the program headers, every section at its offset and the section headers
  come out as they were laid out.
\<close>

section \<open>Writing at an offset\<close>

lemma write_at_ok:
  assumes "unat off + length d < 2 ^ 64"
  obtains out where "write_at off d buf = Inr out" and "length out = max (length buf) (unat off + length d)"
    and "\<And>i. bytes_content out i = (if unat off \<le> i \<and> i < unat off + length d then d ! (i - unat off) else bytes_content buf i)"
proof -
  let ?n = "unat off + length d"
  let ?buf = "buf @ replicate (?n - length buf) 0" and ?out = "put (unat off) d (buf @ replicate (?n - length buf) 0)"
  have n: "unat (off + of_nat (length d)) = ?n"
    using assms by (simp add: unat_word_ariths unsigned_of_nat take_bit_nat_eq_self)
  have "write_at off d buf = Inr ?out" unfolding write_at_def n by (simp add: vec_resize_def patch_def)
  moreover have len: "length ?out = max (length buf) ?n" by simp
  moreover have "bytes_content ?out i = (if unat off \<le> i \<and> i < ?n then d ! (i - unat off) else bytes_content buf i)" for i
    unfolding bytes_content_def len by (auto simp: put_def nth_append min_def)
  ultimately show thesis by (rule that)
qed

text \<open>The sections one after the other: every section is at its offset, and nothing before the first changes.\<close>

definition sized :: "section_allocator \<Rightarrow> gen_section \<Rightarrow> bool" where
  "sized al s \<longleftrightarrow> sec_data s < length al \<and> length (al ! sec_data s) = sz_of s"

lemma write_sections_ok:
  assumes "laid_out ps g lo hi ss" and "hi < 2 ^ 64" and "\<forall>s \<in> set ss. sized al s"
  shows "\<exists>out. res_fold (write_section al) ss buf = Inr out \<and> length out \<le> max (length buf) hi \<and>
    (\<forall>i < lo. bytes_content out i = bytes_content buf i) \<and>
    (\<forall>s \<in> set ss. \<forall>i < sz_of s. bytes_content out (off_of s + i) = al ! sec_data s ! i)"
  using assms
proof (induction ss arbitrary: g lo buf)
  case Nil
  then show ?case by simp
next
  case (Cons s ss)
  have sz: "sec_data s < length al" "length (al ! sec_data s) = sz_of s" using Cons.prems(3) by (simp_all add: sized_def)
  have lo: "lo \<le> off_of s" and rest: "laid_out ps (grp s) (off_of s + sz_of s) hi ss" using Cons.prems(1) by simp_all
  then have le: "off_of s + sz_of s \<le> hi" using laid_out_le by blast
  have lt: "off_of s + length (al ! sec_data s) < 2 ^ 64" using le Cons.prems(2) sz by linarith
  obtain b1 where b1: "write_at (hd_offset (sec_header s)) (al ! sec_data s) buf = Inr b1" "length b1 = max (length buf) (off_of s + sz_of s)"
    "\<And>i. bytes_content b1 i = (if off_of s \<le> i \<and> i < off_of s + sz_of s then al ! sec_data s ! (i - off_of s) else bytes_content buf i)"
    using write_at_ok [OF lt, of buf] sz by metis
  from Cons.IH [OF rest Cons.prems(2), of b1] Cons.prems(3) obtain out where
    out: "res_fold (write_section al) ss b1 = Inr out" "length out \<le> max (length b1) hi"
    "\<forall>i < off_of s + sz_of s. bytes_content out i = bytes_content b1 i"
    "\<forall>t \<in> set ss. \<forall>i < sz_of t. bytes_content out (off_of t + i) = al ! sec_data t ! i" by auto
  have "res_fold (write_section al) (s # ss) buf = Inr out"
    using b1(1) out(1) sz(1) by (simp add: write_section_def alloc_get_def)
  moreover have "length out \<le> max (length buf) hi" using out(2) b1(2) le by simp
  moreover have "\<forall>i < lo. bytes_content out i = bytes_content buf i" using out(3) b1(3) lo by simp
  moreover have "\<forall>i < sz_of s. bytes_content out (off_of s + i) = al ! sec_data s ! i" using out(3) b1(3) by simp
  ultimately show ?case using out(4) by auto
qed

section \<open>Section headers\<close>

definition link_of :: "section_kind \<Rightarrow> shdr_map \<Rightarrow> u32" where
  "link_of k m = (case kind_link k m of Inl _ \<Rightarrow> 0 | Inr l \<Rightarrow> l)"

definition gen_shdr :: "shdr_map \<Rightarrow> gen_section \<Rightarrow> shdr" where
  "gen_shdr m s =
     (let h = sec_header s; k = hd_shtype h in
      \<lparr>sh_name = hd_name_off h, sh_type = kind_shtype k, sh_flags = kind_flags k, sh_addr = hd_addr h, sh_offset = hd_offset h,
       sh_size = hd_size h, sh_link = link_of k m, sh_info = kind_info k m, sh_addralign = hd_addralign h,
       sh_entsize = kind_entsize k True\<rparr>)"

definition null_shdr :: shdr where
  "null_shdr = \<lparr>sh_name = 0, sh_type = 0, sh_flags = 0, sh_addr = 0, sh_offset = 0, sh_size = 0, sh_link = 0, sh_info = 0,
     sh_addralign = 0, sh_entsize = 0\<rparr>"

definition shdr_bytes :: "shdr \<Rightarrow> bytes" where
  "shdr_bytes s = le_bytes 4 (sh_name s) @ le_bytes 4 (sh_type s) @ le_bytes 8 (sh_flags s) @ le_bytes 8 (sh_addr s) @
     le_bytes 8 (sh_offset s) @ le_bytes 8 (sh_size s) @ le_bytes 4 (sh_link s) @ le_bytes 4 (sh_info s) @
     le_bytes 8 (sh_addralign s) @ le_bytes 8 (sh_entsize s)"

definition gen_shdrs :: "shdr_manager \<Rightarrow> shdr list" where
  "gen_shdrs sm = null_shdr # map (gen_shdr (get_shdr_map sm)) (sm_shdrs sm)"

lemma length_shdr_bytes [simp]: "length (shdr_bytes s) = size_shdr"
  by (simp add: shdr_bytes_def size_shdr_def)

lemma shdr_roundtrip: "holds m a (shdr_bytes s) \<Longrightarrow> shdr_at m a = s"
  by (simp add: shdr_bytes_def shdr_at_def holds_le_bytes add.assoc)

lemma null_shdr_bytes: "shdr_bytes null_shdr = replicate 64 0"
  by (simp add: shdr_bytes_def null_shdr_def le_bytes_def upt_rec numeral_eq_Suc)

text \<open>The links can be resolved when the string table and the symbol table have sections.\<close>

lemma kind_link_ok: "m DynStr \<noteq> None \<Longrightarrow> m DynSym \<noteq> None \<Longrightarrow> kind_link k m = Inr (link_of k m)"
  by (cases k) (auto simp: link_of_def link_to_def unwrap_def)

lemma write_shdrs_gen:
  assumes "get_shdr_map sm DynStr \<noteq> None" and "get_shdr_map sm DynSym \<noteq> None"
  shows "write_shdrs sm True = Inr (concat (map shdr_bytes (gen_shdrs sm)))"
proof -
  let ?m = "get_shdr_map sm"
  have one: "write_shdr ?m True (sec_header s) = Inr (shdr_bytes (gen_shdr ?m s))" for s
    by (simp add: write_shdr_def kind_link_ok [OF assms] shdr_bytes_def gen_shdr_def Let_def)
  have "res_fold (\<lambda>sec out. res_bind (write_shdr ?m True (sec_header sec)) (\<lambda>bs. Inr (out @ bs))) ss out =
      Inr (out @ concat (map (\<lambda>s. shdr_bytes (gen_shdr ?m s)) ss))" for ss out
    by (induction ss arbitrary: out) (simp_all add: one)
  then show ?thesis by (simp add: write_shdrs_def gen_shdrs_def null_shdr_bytes comp_def)
qed

lemma shdr_table_roundtrip:
  assumes "holds m a (concat (map shdr_bytes shs))"
  shows "map (\<lambda>i. shdr_at m (a + of_nat (i * size_shdr))) [0..<length shs] = shs"
proof (rule nth_equalityI)
  fix i assume "i < length (map (\<lambda>i. shdr_at m (a + of_nat (i * size_shdr))) [0..<length shs])"
  then have i: "i < length shs" by simp
  have "holds m (a + of_nat (size_shdr * i)) (shdr_bytes (shs ! i))" by (rule holds_array [OF assms]) (simp_all add: i)
  then show "map (\<lambda>i. shdr_at m (a + of_nat (i * size_shdr))) [0..<length shs] ! i = shs ! i"
    using i by (simp add: shdr_roundtrip mult.commute)
qed simp

section \<open>The file header\<close>

lemma ehdr_roundtrip:
  assumes "holds m a (ehdr_write True h)" and "length (e_ident h) = 16"
  shows "ehdr_at m a = h"
proof -
  have "read_bytes 16 m a = e_ident h" using assms by (simp add: ehdr_write_def) (simp add: holds_def)
  then show ?thesis using assms by (simp add: ehdr_write_def ehdr_at_def holds_le_bytes add.assoc)
qed

lemma length_get_ident [simp]: "length (get_ident arch) = 16"
  by (simp add: get_ident_def)

lemma get_ident_list: "get_ident arch = [0x7F, 0x45, 0x4C, 0x46, if is_64 arch then 2 else 1, 1, 1, 0, 0, 0, 0, 0, 0, 0, 0, 0]"
  unfolding get_ident_def by (simp add: numeral_eq_Suc)

text \<open>The loader is built for x86-64, and accepts no other header.\<close>

lemma generated_header_accepted:
  "is_64 arch \<Longrightarrow> vaildate (dylib_ehdr arch sm off i) = Inr () \<longleftrightarrow> arch = X86_64"
  by (cases arch) (simp_all add: vaildate_def dylib_ehdr_def get_ident_list Let_def abi EI_CLASS_def EI_VERSION_def E_CLASS_def
      EM_ARCH_def ELFMAGIC_def)

text \<open>Bytes of the file, as the parser sees them.\<close>

lemma file_holds:
  assumes "\<And>i. i < length bs \<Longrightarrow> c (unat off + i) = bs ! i" and "length bs < 2 ^ 64"
  shows "holds (file_at c off) 0 bs"
  using assms by (simp add: holds_iff file_at_def unsigned_of_nat take_bit_nat_eq_self)

section \<open>The map of section numbers\<close>

lemma get_shdr_map_snoc:
  "sm_shdrs sm = ss @ [s] \<Longrightarrow> get_shdr_map sm = (get_shdr_map (sm\<lparr>sm_shdrs := ss\<rparr>))(sec_kind s \<mapsto> Suc (length ss))"
  by (simp add: get_shdr_map_def enumerate_append_eq)

lemma get_shdr_map_number:
  "case get_shdr_map sm k of
     None \<Rightarrow> k \<notin> sec_kind ` set (sm_shdrs sm)
   | Some i \<Rightarrow> 0 < i \<and> i \<le> length (sm_shdrs sm) \<and> sec_kind (sm_shdrs sm ! (i - 1)) = k"
proof (induction "sm_shdrs sm" arbitrary: sm rule: rev_induct)
  case Nil
  then show ?case by (simp add: get_shdr_map_def)
next
  case (snoc s ss)
  note eq = snoc.hyps(2) [symmetric]
  have "get_shdr_map sm k = (if k = sec_kind s then Some (Suc (length ss)) else get_shdr_map (sm\<lparr>sm_shdrs := ss\<rparr>) k)"
    using get_shdr_map_snoc [OF eq] by simp
  then show ?case using snoc.hyps(1) [of "sm\<lparr>sm_shdrs := ss\<rparr>"] by (auto simp: eq nth_append split: option.splits)
qed

section \<open>The layout of a library\<close>

lemma get_phnum_cong:
  assumes "sec_kind ` set (sm_shdrs sm) = sec_kind ` set (sm_shdrs sm')"
  shows "get_phnum sm = get_phnum sm'"
proof -
  have "(\<exists>s \<in> set (sm_shdrs sm). P (sec_kind s)) \<longleftrightarrow> (\<exists>s \<in> set (sm_shdrs sm'). P (sec_kind s))" for P
    using assms by (metis (mono_tags, lifting) imageE imageI)
  from this [of "\<lambda>k. segment_of k = Some g" for g] this [of "\<lambda>k. k = j" for j] show ?thesis
    by (simp add: get_phnum_def)
qed

definition header_size :: "shdr_manager \<Rightarrow> nat" where
  "header_size sm = 64 + size_phdr * unat (get_phnum sm)"

definition file_room :: "elf_writer_config \<Rightarrow> shdr_manager \<Rightarrow> nat" where
  "file_room cfg sm = header_size sm + unat (cfg_page_size cfg) + room_for (cfg_page_size cfg) (sm_shdrs sm) +
     size_shdr * Suc (length (sm_shdrs sm))"

lemma place_sections_room:
  assumes "manager_layout lay sm = Inr (sm', lay')" and "lay_page_size lay \<noteq> 0"
    and "\<forall>s \<in> set (sm_shdrs sm). hd_addralign (sec_header s) \<noteq> 0"
    and "unat (file_off lay) + room_for (lay_page_size lay) (sm_shdrs sm) < 2 ^ 64"
  shows "unat (file_off lay') \<le> unat (file_off lay) + room_for (lay_page_size lay) (sm_shdrs sm)"
proof -
  have r: "room_for (lay_page_size lay) (sorted_secs sm) = room_for (lay_page_size lay) (sm_shdrs sm)"
    unfolding room_for_def sum_mset_sum_list [symmetric] mset_map by (simp add: sorted_secs_def)
  have "set (sorted_secs sm) = set (sm_shdrs sm)" by (simp add: sorted_secs_def)
  with place_sections_ok [of lay "sorted_secs sm" None "[]"] assms(2-4) r obtain g' off' offs where
    "res_fold place_section (sorted_secs sm) (None, lay, []) = Inr (g', lay\<lparr>file_off := off'\<rparr>, map2 (placed_at (lay_base_addr lay)) offs (sorted_secs sm))"
    "unat off' \<le> unat (file_off lay) + room_for (lay_page_size lay) (sm_shdrs sm)" by auto
  with assms(1) show ?thesis by (auto simp: manager_layout_def Let_def sorted_secs_def [symmetric])
qed

lemma dylib_layout_ok:
  assumes "is_64 arch" and "cfg_page_size cfg \<noteq> 0" and al: "\<forall>s \<in> set (sm_shdrs (dp_manager p)). hd_addralign (sec_header s) \<noteq> 0"
    and room: "file_room cfg (dp_manager p) < 2 ^ 64"
  obtains sm' lay lo where "dylib_layout arch cfg p = Inr (p\<lparr>dp_manager := sm'\<rparr>, lay)" and "secs_laid sm'"
    and "laid_out (unat (cfg_page_size cfg)) None lo (unat (file_off lay)) (sm_shdrs sm')" and "header_size sm' \<le> lo"
    and "map sec_identity (sm_shdrs sm') = map sec_identity (sorted_secs (dp_manager p))"
    and "unat (file_off lay) + size_shdr * Suc (length (sm_shdrs sm')) < 2 ^ 64"
proof -
  let ?sm = "dp_manager p" and ?hs = "EHDR_SIZE_64 + PHDR_SIZE_64 * ucast (get_phnum (dp_manager p))"
  have n: "unat (get_phnum ?sm) < 2 ^ 16" using unsigned_less [of "get_phnum ?sm"] by simp
  have hs: "unat ?hs = header_size ?sm"
    using n by (simp add: EHDR_SIZE_64_def PHDR_SIZE_64_def header_size_def size_phdr_def unat_word_ariths
        unsigned_ucast_eq take_bit_nat_eq_self)
  from align_up_ok [OF assms(2), of ?hs] room obtain r where r: "align_up ?hs (cfg_page_size cfg) = Inr r" "unat ?hs \<le> unat r"
    "unat r < unat ?hs + unat (cfg_page_size cfg)" by (auto simp: file_room_def hs)
  let ?lay = "\<lparr>lay_base_addr = cfg_base_addr cfg, lay_page_size = cfg_page_size cfg, file_off = r\<rparr>"
  have add: "add_header EHDR_SIZE_64 (PHDR_SIZE_64 * ucast (get_phnum ?sm)) (layout_new cfg) = Inr ?lay"
    using r(1) by (simp add: add_header_def align_to_page_def layout_new_def)
  have fits: "unat (file_off ?lay) + room_for (lay_page_size ?lay) (sm_shdrs ?sm) < 2 ^ 64"
    using room r(3) by (simp add: file_room_def hs)
  have ps: "lay_page_size ?lay \<noteq> 0" using assms(2) by simp
  obtain sm' lay' where run: "manager_layout ?lay ?sm = Inr (sm', lay')" and l: "secs_laid sm'"
    and "grouped (unat (lay_page_size ?lay)) (lay_base_addr ?lay) (unat (file_off lay')) (sm_shdrs sm')"
    and lo: "laid_out (unat (lay_page_size ?lay)) None (unat (file_off ?lay)) (unat (file_off lay')) (sm_shdrs sm')"
    and ident: "map sec_identity (sm_shdrs sm') = map sec_identity (sorted_secs ?sm)"
    by (rule manager_layout_grouped [OF ps al fits])
  have len: "length (sm_shdrs sm') = length (sm_shdrs ?sm)" using arg_cong [OF ident, of length] by (simp add: sorted_secs_def)
  have k: "sec_kind ` set ss = fst ` set (map sec_identity ss)" for ss by (auto simp: sec_identity_def image_image)
  have "sec_kind ` set (sm_shdrs sm') = sec_kind ` set (sorted_secs ?sm)" by (simp only: k ident)
  then have "sec_kind ` set (sm_shdrs sm') = sec_kind ` set (sm_shdrs ?sm)" by (simp add: sorted_secs_def)
  then have ph: "get_phnum sm' = get_phnum ?sm" by (rule get_phnum_cong)
  show thesis
  proof (rule that)
    show "dylib_layout arch cfg p = Inr (p\<lparr>dp_manager := sm'\<rparr>, lay')" using assms(1) add run by (simp add: dylib_layout_def)
    show "header_size sm' \<le> unat r" using r(2) hs ph by (simp add: header_size_def)
    show "unat (file_off lay') + size_shdr * Suc (length (sm_shdrs sm')) < 2 ^ 64"
      using place_sections_room [OF run ps al fits] r(3) room by (simp add: len file_room_def hs)
  qed (use l lo ident in simp_all)
qed

section \<open>The whole file\<close>

lemma sec_identity_sized: "sec_identity s = sec_identity t \<Longrightarrow> sized al s \<longleftrightarrow> sized al t"
  by (simp add: sec_identity_def sized_def)

lemma dylib_emit_ok:
  assumes arch: "is_64 arch" and l: "secs_laid sm" and lo: "laid_out ps None lo (unat (file_off lay)) (sm_shdrs sm)" and hs: "header_size sm \<le> lo"
    and room: "unat (file_off lay) + size_shdr * Suc (length (sm_shdrs sm)) < 2 ^ 64" and sz: "\<forall>s \<in> set (sm_shdrs sm). sized al s"
    and kinds: "get_shdr_map sm DynStr \<noteq> None" "get_shdr_map sm DynSym \<noteq> None" "get_shdr_map sm ShStrTab = Some i"
    and p: "dp_manager p = sm" "dp_alloc p = al"
  obtains out where "dylib_emit arch cfg lay p = Inr out"
    and "\<And>j. j < header_size sm \<Longrightarrow> bytes_content out j =
       (ehdr_write True (dylib_ehdr arch sm (file_off lay) i) @ concat (map phdr_bytes (gen_phdrs (cfg_page_size cfg) sm))) ! j"
    and "\<And>s j. s \<in> set (sm_shdrs sm) \<Longrightarrow> j < sz_of s \<Longrightarrow> bytes_content out (off_of s + j) = al ! sec_data s ! j"
    and "\<And>j. j < length (concat (map shdr_bytes (gen_shdrs sm))) \<Longrightarrow>
       bytes_content out (unat (file_off lay) + j) = concat (map shdr_bytes (gen_shdrs sm)) ! j"
proof -
  let ?h = "ehdr_write True (dylib_ehdr arch sm (file_off lay) i)" and ?ph = "concat (map phdr_bytes (gen_phdrs (cfg_page_size cfg) sm))"
  let ?sh = "concat (map shdr_bytes (gen_shdrs sm))"
  have len0: "length (?h @ ?ph) = header_size sm"
    by (simp add: ehdr_write_def dylib_ehdr_def Let_def header_size_def length_concat comp_def sum_list_triv length_gen_phdrs)
  have lsh: "length ?sh = size_shdr * Suc (length (sm_shdrs sm))" by (simp add: gen_shdrs_def length_concat comp_def sum_list_triv)
  have hi: "unat (file_off lay) < 2 ^ 64" using unsigned_less [of "file_off lay"] by simp
  from write_sections_ok [OF lo hi sz, of "?h @ ?ph"] obtain o1 where
    o1: "res_fold (write_section al) (sm_shdrs sm) (?h @ ?ph) = Inr o1" and keep: "\<forall>j < lo. bytes_content o1 j = bytes_content (?h @ ?ph) j"
    and secs: "\<forall>s \<in> set (sm_shdrs sm). \<forall>j < sz_of s. bytes_content o1 (off_of s + j) = al ! sec_data s ! j" by blast
  have "unat (file_off lay) + length ?sh < 2 ^ 64" using room by (simp add: lsh)
  from write_at_ok [OF this, of o1] obtain out where out: "write_at (file_off lay) ?sh o1 = Inr out"
    and c: "\<And>j. bytes_content out j = (if unat (file_off lay) \<le> j \<and> j < unat (file_off lay) + length ?sh
              then ?sh ! (j - unat (file_off lay)) else bytes_content o1 j)" by metis
  have below: "lo \<le> unat (file_off lay)" using laid_out_le [OF lo] .
  show thesis
  proof (rule that)
    show "dylib_emit arch cfg lay p = Inr out"
      using arch kinds o1 out by (simp add: dylib_emit_def p write_phdrs_gen [OF l] write_shdrs_gen [OF kinds(1,2)] Let_def unwrap_def)
    show "bytes_content out (unat (file_off lay) + j) = ?sh ! j" if "j < length ?sh" for j using that by (simp add: c)
    show "bytes_content out (off_of s + j) = al ! sec_data s ! j" if "s \<in> set (sm_shdrs sm)" "j < sz_of s" for s j
      using that secs laid_out_bounds [OF lo that(1)] by (simp add: c)
    show "bytes_content out j = (?h @ ?ph) ! j" if "j < header_size sm" for j
    proof -
      have "bytes_content out j = bytes_content (?h @ ?ph) j" using that keep hs below by (simp add: c)
      then show ?thesis using that len0 by (simp add: bytes_content_def)
    qed
  qed
qed

text \<open>The parser on the three headers.\<close>

lemma length_ehdr_write: "length (e_ident h) = 16 \<Longrightarrow> length (ehdr_write True h) = 64"
  by (simp add: ehdr_write_def)

lemma dylib_ehdr_ident [simp]: "length (e_ident (dylib_ehdr arch sm off i)) = 16"
  by (simp add: dylib_ehdr_def Let_def)

lemma parsed_ehdr:
  assumes "\<And>j. j < 64 \<Longrightarrow> c j = ehdr_write True h ! j" and "length (e_ident h) = 16"
  shows "file_ehdr c = h"
  unfolding file_ehdr_def
  by (rule ehdr_roundtrip [OF file_holds]) (use assms length_ehdr_write [OF assms(2)] in simp_all)

lemma parsed_phdrs:
  assumes "is_64 arch" and "\<And>j. j < size_phdr * unat (get_phnum sm) \<Longrightarrow> c (64 + j) = concat (map phdr_bytes (gen_phdrs ps sm)) ! j"
  shows "file_phdrs c (dylib_ehdr arch sm off i) = gen_phdrs ps sm"
proof -
  let ?h = "dylib_ehdr arch sm off i" and ?n = "unat (get_phnum sm)"
  have n: "?n < 2 ^ 16" using unsigned_less [of "get_phnum sm"] by simp
  have start: "fst (phdr_range ?h) = 64" and size: "table_size (phdr_range ?h) = size_phdr * ?n"
    using assms(1) n by (simp_all add: phdr_range_def table_size_def dylib_ehdr_def Let_def EHDR_SIZE_64_def PHDR_SIZE_64_def size_phdr_def
        unat_word_ariths unsigned_ucast_eq take_bit_nat_eq_self)
  have len: "length (concat (map phdr_bytes (gen_phdrs ps sm))) = size_phdr * ?n"
    by (simp add: length_concat comp_def sum_list_triv length_gen_phdrs)
  have "holds (file_at c 64) 0 (concat (map phdr_bytes (gen_phdrs ps sm)))"
    by (rule file_holds) (use assms(2) n in \<open>simp_all only: len, simp_all add: size_phdr_def\<close>)
  from phdr_table_roundtrip [OF this] show ?thesis by (simp add: file_phdrs_def start size size_phdr_def)
qed

lemma parsed_shdrs:
  assumes "is_64 arch" and "length (sm_shdrs sm) < 2 ^ 16 - 1"
    and "\<And>j. j < length (concat (map shdr_bytes (gen_shdrs sm))) \<Longrightarrow> c (unat off + j) = concat (map shdr_bytes (gen_shdrs sm)) ! j"
  shows "file_shdrs c (dylib_ehdr arch sm off i) = gen_shdrs sm"
proof -
  let ?h = "dylib_ehdr arch sm off i" and ?n = "Suc (length (sm_shdrs sm))"
  have n: "?n < 2 ^ 16" using assms(2) by simp
  have "unat (of_nat ?n :: u16) = ?n" using n by (simp add: unsigned_of_nat take_bit_nat_eq_self del: of_nat_Suc)
  then have start: "fst (shdr_range ?h) = off" and size: "table_size (shdr_range ?h) = size_shdr * ?n"
    using assms(1) n by (simp_all add: shdr_range_def table_size_def dylib_ehdr_def Let_def SHDR_SIZE_64_def size_shdr_def get_shdr_count_def
        unat_word_ariths unsigned_ucast_eq take_bit_nat_eq_self del: of_nat_Suc)
  have len: "length (concat (map shdr_bytes (gen_shdrs sm))) = size_shdr * ?n"
    by (simp add: length_concat comp_def sum_list_triv gen_shdrs_def)
  have "holds (file_at c off) 0 (concat (map shdr_bytes (gen_shdrs sm)))"
    by (rule file_holds) (rule assms(3), assumption, use n in \<open>simp add: len size_shdr_def\<close>)
  from shdr_table_roundtrip [OF this] show ?thesis by (simp add: file_shdrs_def start size size_shdr_def gen_shdrs_def)
qed

text \<open>
  C15. The file of a generated library. For a 64-bit architecture, sections with a string table, a symbol
  table and a section of names, and buffers of the sizes that the sections announce, the library is laid out
  and written without a fault. Parsed by the loader's structures, the file is a dynamic library whose header
  the loader accepts exactly for x86-64; its program headers are the ones of the laid-out sections; its
  section headers are the null header and one for each section, in order, with the fields of the section; the
  header names the section of section names; and every section's bytes are in the file at its offset.
\<close>

theorem generated_file_correct:
  assumes "is_64 arch" and "cfg_page_size cfg \<noteq> 0" and "\<forall>s \<in> set (sm_shdrs (dp_manager p)). hd_addralign (sec_header s) \<noteq> 0"
    and "file_room cfg (dp_manager p) < 2 ^ 64" and "length (sm_shdrs (dp_manager p)) < 2 ^ 16 - 1"
    and "{DynStr, DynSym, ShStrTab} \<subseteq> sec_kind ` set (sm_shdrs (dp_manager p))"
    and "\<forall>s \<in> set (sm_shdrs (dp_manager p)). sized al s"
  shows "\<exists>sm lay out. dylib_layout arch cfg p = Inr (p\<lparr>dp_manager := sm\<rparr>, lay) \<and>
    dylib_emit arch cfg lay (p\<lparr>dp_manager := sm, dp_alloc := al\<rparr>) = Inr out \<and>
    (let c = bytes_content out; h = file_ehdr c; secs = sm_shdrs sm in
      is_dylib h \<and> (vaildate h = Inr () \<longleftrightarrow> arch = X86_64) \<and>
      file_phdrs c h = gen_phdrs (cfg_page_size cfg) sm \<and>
      file_shdrs c h = null_shdr # map (gen_shdr (get_shdr_map sm)) secs \<and>
      sec_kind (secs ! (unat (e_shstrndx h) - 1)) = ShStrTab \<and>
      map sec_identity secs = map sec_identity (sorted_secs (dp_manager p)) \<and>
      (\<forall>s \<in> set secs. \<forall>j < sz_of s. c (off_of s + j) = al ! sec_data s ! j))"
proof -
  let ?ps = "cfg_page_size cfg"
  obtain sm lay lo where run: "dylib_layout arch cfg p = Inr (p\<lparr>dp_manager := sm\<rparr>, lay)" and l: "secs_laid sm"
    and lo: "laid_out (unat ?ps) None lo (unat (file_off lay)) (sm_shdrs sm)" and hs: "header_size sm \<le> lo"
    and ident: "map sec_identity (sm_shdrs sm) = map sec_identity (sorted_secs (dp_manager p))"
    and room: "unat (file_off lay) + size_shdr * Suc (length (sm_shdrs sm)) < 2 ^ 64"
    by (rule dylib_layout_ok [OF assms(1-4)])
  have len: "length (sm_shdrs sm) = length (sm_shdrs (dp_manager p))" using arg_cong [OF ident, of length] by (simp add: sorted_secs_def)
  have sid: "\<exists>t \<in> set (sm_shdrs (dp_manager p)). sec_identity s = sec_identity t" if "s \<in> set (sm_shdrs sm)" for s
    using arg_cong [OF ident, of set] that by (simp add: sorted_secs_def) blast
  have sz: "\<forall>s \<in> set (sm_shdrs sm). sized al s" using sid assms(7) sec_identity_sized by metis
  have "sec_kind ` set (sm_shdrs (dp_manager p)) = sec_kind ` set (sm_shdrs sm)"
  proof -
    have k: "sec_kind ` set ss = fst ` set (map sec_identity ss)" for ss by (auto simp: sec_identity_def image_image)
    have "sec_kind ` set (sm_shdrs sm) = sec_kind ` set (sorted_secs (dp_manager p))" by (simp only: k ident)
    then show ?thesis by (simp add: sorted_secs_def)
  qed
  then have maps: "get_shdr_map sm k \<noteq> None" if "k \<in> {DynStr, DynSym, ShStrTab}" for k
    using get_shdr_map_number [where sm = sm and k = k] assms(6) that by (auto split: option.splits)
  then obtain i where i: "get_shdr_map sm ShStrTab = Some i" by blast
  have inum: "0 < i" "i \<le> length (sm_shdrs sm)" "sec_kind (sm_shdrs sm ! (i - 1)) = ShStrTab"
    using get_shdr_map_number [where sm = sm and k = ShStrTab] i by auto
  let ?h = "dylib_ehdr arch sm (file_off lay) i"
  let ?p = "p\<lparr>dp_manager := sm, dp_alloc := al\<rparr>"
  obtain out where emit: "dylib_emit arch cfg lay ?p = Inr out"
    and hdr: "\<And>j. j < header_size sm \<Longrightarrow> bytes_content out j = (ehdr_write True ?h @ concat (map phdr_bytes (gen_phdrs ?ps sm))) ! j"
    and body: "\<And>s j. s \<in> set (sm_shdrs sm) \<Longrightarrow> j < sz_of s \<Longrightarrow> bytes_content out (off_of s + j) = al ! sec_data s ! j"
    and shd: "\<And>j. j < length (concat (map shdr_bytes (gen_shdrs sm))) \<Longrightarrow>
       bytes_content out (unat (file_off lay) + j) = concat (map shdr_bytes (gen_shdrs sm)) ! j"
    by (rule dylib_emit_ok [OF assms(1) l lo hs room sz _ _ i, of ?p cfg]) (use maps in auto)
  have h64: "length (ehdr_write True ?h) = 64" by (rule length_ehdr_write) simp
  have eh: "file_ehdr (bytes_content out) = ?h"
    by (rule parsed_ehdr) (use hdr h64 in \<open>simp_all add: header_size_def nth_append\<close>)
  have ph: "file_phdrs (bytes_content out) ?h = gen_phdrs ?ps sm"
    by (rule parsed_phdrs [OF assms(1)]) (use hdr h64 in \<open>simp add: header_size_def nth_append\<close>)
  have sh: "file_shdrs (bytes_content out) ?h = gen_shdrs sm"
    by (rule parsed_shdrs [OF assms(1)]) (use assms(5) len shd in simp_all)
  have "unat (e_shstrndx ?h) = i"
    using inum(2) len assms(5) by (simp add: dylib_ehdr_def Let_def unsigned_of_nat take_bit_nat_eq_self)
  then show ?thesis
    using run emit eh ph sh inum(3) body ident assms(1)
    by (intro exI [of _ sm] exI [of _ lay] exI [of _ out])
      (simp add: Let_def generated_header_accepted gen_shdrs_def, simp add: is_dylib_def dylib_ehdr_def Let_def)
qed

text \<open>A request with a function, an object and a call, with the dynamic section in its buffer.\<close>

definition wit_config :: elf_writer_config where
  "wit_config = with_page_size 16 config_default"

definition wit_alloc :: "dylib_parts \<Rightarrow> section_allocator" where
  "wit_alloc p = (dp_alloc p)[dynamic_id (dp_dyn p) := dynamic_write True (dp_dyn p)]"

definition wit_checks :: "dylib_parts \<Rightarrow> bool" where
  "wit_checks p = (let secs = sm_shdrs (dp_manager p) in
     list_all (\<lambda>s. hd_addralign (sec_header s) \<noteq> 0 \<and> sized (wit_alloc p) s) secs \<and> length secs = 12 \<and>
     {DynStr, DynSym, ShStrTab} \<subseteq> sec_kind ` set secs \<and> file_room wit_config (dp_manager p) < 4000)"

lemma wit_eval: "case dylib_collect X86_64 wit_relocs wit_request of Inl _ \<Rightarrow> False | Inr p \<Rightarrow> wit_checks p"
  by code_simp

theorem generated_file_correct_witness:
  "\<exists>p sm lay out. dylib_collect X86_64 wit_relocs wit_request = Inr p \<and>
     dylib_layout X86_64 wit_config p = Inr (p\<lparr>dp_manager := sm\<rparr>, lay) \<and>
     dylib_emit X86_64 wit_config lay (p\<lparr>dp_manager := sm, dp_alloc := wit_alloc p\<rparr>) = Inr out \<and>
     vaildate (file_ehdr (bytes_content out)) = Inr () \<and> length (file_shdrs (bytes_content out) (file_ehdr (bytes_content out))) = 13"
proof -
  from wit_eval obtain p where p: "dylib_collect X86_64 wit_relocs wit_request = Inr p" and c: "wit_checks p"
    by (cases "dylib_collect X86_64 wit_relocs wit_request") simp_all
  let ?secs = "sm_shdrs (dp_manager p)"
  have h: "is_64 X86_64" "cfg_page_size wit_config \<noteq> 0" "\<forall>s \<in> set ?secs. hd_addralign (sec_header s) \<noteq> 0"
    "file_room wit_config (dp_manager p) < 2 ^ 64" "length ?secs < 2 ^ 16 - 1" "{DynStr, DynSym, ShStrTab} \<subseteq> sec_kind ` set ?secs"
    "\<forall>s \<in> set ?secs. sized (wit_alloc p) s"
    using c by (auto simp: wit_checks_def Let_def list_all_iff wit_config_def with_page_size_def)
  have len: "length (sorted_secs (dp_manager p)) = 12" using c by (simp add: wit_checks_def Let_def sorted_secs_def)
  from generated_file_correct [OF h] obtain sm lay out where r: "dylib_layout X86_64 wit_config p = Inr (p\<lparr>dp_manager := sm\<rparr>, lay)"
     "dylib_emit X86_64 wit_config lay (p\<lparr>dp_manager := sm, dp_alloc := wit_alloc p\<rparr>) = Inr out"
     "vaildate (file_ehdr (bytes_content out)) = Inr ()"
     "file_shdrs (bytes_content out) (file_ehdr (bytes_content out)) = null_shdr # map (gen_shdr (get_shdr_map sm)) (sm_shdrs sm)"
     "map sec_identity (sm_shdrs sm) = map sec_identity (sorted_secs (dp_manager p))"
    unfolding Let_def by blast
  have "length (sm_shdrs sm) = 12" using arg_cong [OF r(5), of length] len by simp
  then show ?thesis using p r by auto
qed

end
