(* ===== verification/Gen_Code_Props.thy ===== *)
theory Gen_Code_Props
  imports Gen_Code
begin

text \<open>
  What the generated code does on x86-64. The stubs use six instructions, whose effect on the program
  counter, the stack and \<^verbatim>\<open>rax\<close> is given by a step function over memory; the patched stubs are run on
  it. A displacement is 32 bits, sign-extended, so the stubs work for targets within two gigabytes.
\<close>

section \<open>The instructions\<close>

record x86_state =
  x_pc :: u64
  x_stack :: "u64 list"
  x_rax :: u64

text \<open>
  \<^verbatim>\<open>jmp [rip+d]\<close>, \<^verbatim>\<open>push [rip+d]\<close>, \<^verbatim>\<open>push i\<close>, \<^verbatim>\<open>jmp d\<close>, \<^verbatim>\<open>lea rax,[rip+d]\<close> and
  \<^verbatim>\<open>ret\<close>.
\<close>

definition disp_at :: "mem \<Rightarrow> u64 \<Rightarrow> u64" where
  "disp_at m a = scast (read_u32 m a)"

definition x86_step :: "mem \<Rightarrow> x86_state \<Rightarrow> x86_state option" where
  "x86_step m s =
     (let pc = x_pc s in
      if m pc = 0xFF \<and> m (pc + 1) = 0x25 then Some (s\<lparr>x_pc := read_u64 m (pc + 6 + disp_at m (pc + 2))\<rparr>)
      else if m pc = 0xFF \<and> m (pc + 1) = 0x35 then
        Some (s\<lparr>x_pc := pc + 6, x_stack := read_u64 m (pc + 6 + disp_at m (pc + 2)) # x_stack s\<rparr>)
      else if m pc = 0x68 then Some (s\<lparr>x_pc := pc + 5, x_stack := disp_at m (pc + 1) # x_stack s\<rparr>)
      else if m pc = 0xE9 then Some (s\<lparr>x_pc := pc + 5 + disp_at m (pc + 1)\<rparr>)
      else if m pc = 0x48 \<and> m (pc + 1) = 0x8D \<and> m (pc + 2) = 0x05 then
        Some (s\<lparr>x_pc := pc + 7, x_rax := pc + 7 + disp_at m (pc + 3)\<rparr>)
      else if m pc = 0xC3 then
        (case x_stack s of [] \<Rightarrow> None | r # rs \<Rightarrow> Some (s\<lparr>x_pc := r, x_stack := rs\<rparr>))
      else None)"

primrec x86_run :: "nat \<Rightarrow> mem \<Rightarrow> x86_state \<Rightarrow> x86_state option" where
  "x86_run 0 m s = Some s"
| "x86_run (Suc n) m s = Option.bind (x86_step m s) (x86_run n m)"

text \<open>The distance fits a displacement.\<close>

definition near :: "u64 \<Rightarrow> u64 \<Rightarrow> bool" where
  "near target from = (scast (ucast (target - from) :: u32) = target - from)"

lemma near_reach: "near target from \<Longrightarrow> from + scast (ucast (target - from) :: u32) = target"
  by (simp add: near_def)

section \<open>Patching a template inside a buffer\<close>

lemma patch_template:
  assumes "length pre + length t < 2 ^ 64" and "k + length bs \<le> length t"
  shows "patch (of_nat (length pre) + of_nat k) bs (pre @ t @ post) = Inr (pre @ put k bs t @ post)"
proof -
  have "unat (of_nat (length pre) + of_nat k :: usize) = length pre + k"
    using assms unat_of_nat_usize [of "length pre + k"] by simp
  then show ?thesis using assms(2) by (simp add: patch_def put_def)
qed

lemma holds_put:
  assumes "holds m a (put k bs t)" and "k + length bs \<le> length t"
  shows "holds m a (take k t)" and "holds m (a + of_nat k) bs" and "holds m (a + of_nat (k + length bs)) (drop (k + length bs) t)"
  using assms by (simp_all add: put_def add.assoc min_absorb2)

section \<open>The stubs\<close>

text \<open>The bytes of the patched stubs.\<close>

lemma x86_64_plt0_patched:
  assumes "length pre + 16 < 2 ^ 64"
  shows "patch_plt0 X86_64 (pre @ generate_plt0_code X86_64 @ post) (of_nat (length pre)) vaddr got =
    Inr (pre @ ([0xFF, 0x35] @ le_bytes 4 (ucast (got + 8 - (vaddr + 6)) :: u32) @ [0xFF, 0x25] @
      le_bytes 4 (ucast (got + 16 - (vaddr + 12)) :: u32) @ [0x90, 0x90, 0x90, 0x90]) @ post)"
proof -
  let ?a = "le_bytes 4 (ucast (got + 8 - (vaddr + 6)) :: u32)" and ?b = "le_bytes 4 (ucast (got + 16 - (vaddr + 12)) :: u32)"
  let ?t = "[0xFF, 0x35] @ ?a @ [0xFF, 0x25, 0, 0, 0, 0, 0x90, 0x90, 0x90, 0x90]"
  have "generate_plt0_code X86_64 = [0xFF, 0x35, 0, 0, 0, 0, 0xFF, 0x25, 0, 0, 0, 0, 0x90, 0x90, 0x90, 0x90]"
    by (simp add: x86_64_generate_plt0_code_def vec_resize_def numeral_eq_Suc)
  moreover have "patch (of_nat (length pre) + of_nat 2) ?a (pre @ [0xFF, 0x35, 0, 0, 0, 0, 0xFF, 0x25, 0, 0, 0, 0, 0x90, 0x90, 0x90, 0x90] @ post) = Inr (pre @ ?t @ post)"
    by (subst patch_template) (use assms in \<open>simp_all add: put_def\<close>)
  moreover have "patch (of_nat (length pre) + of_nat 8) ?b (pre @ ?t @ post) =
      Inr (pre @ ([0xFF, 0x35] @ ?a @ [0xFF, 0x25] @ ?b @ [0x90, 0x90, 0x90, 0x90]) @ post)"
    by (subst patch_template) (use assms in \<open>simp_all add: put_def\<close>)
  ultimately show ?thesis by (simp add: x86_64_patch_plt0_def Let_def)
qed

lemma x86_64_plt_entry_patched:
  assumes "length pre + 16 < 2 ^ 64"
  shows "patch_plt_entry X86_64 (pre @ generate_plt_entry_code X86_64 idx off @ post) (of_nat (length pre)) vaddr slot got =
    Inr (pre @ ([0xFF, 0x25] @ le_bytes 4 (ucast (slot - (vaddr + 6)) :: u32) @ [0x68] @ le_bytes 4 idx @ [0xE9] @
      le_bytes 4 (- ((ucast off :: u32) + 16))) @ post)"
proof -
  have t: "generate_plt_entry_code X86_64 idx off =
      [0xFF, 0x25, 0, 0, 0, 0, 0x68] @ le_bytes 4 idx @ [0xE9] @ le_bytes 4 (- ((ucast off :: u32) + 16))"
    by (simp add: x86_64_generate_plt_entry_code_def vec_resize_def Let_def)
  have "patch (of_nat (length pre) + of_nat 2) (le_bytes 4 (ucast (slot - (vaddr + 6)) :: u32)) (pre @ generate_plt_entry_code X86_64 idx off @ post) =
      Inr (pre @ ([0xFF, 0x25] @ le_bytes 4 (ucast (slot - (vaddr + 6)) :: u32) @ [0x68] @ le_bytes 4 idx @ [0xE9] @
      le_bytes 4 (- ((ucast off :: u32) + 16))) @ post)"
    unfolding t by (subst patch_template) (use assms in \<open>simp_all add: put_def\<close>)
  then show ?thesis by (simp add: x86_64_patch_plt_entry_def Let_def)
qed

lemma x86_64_helper_patched:
  assumes "length pre + 8 < 2 ^ 64"
  shows "patch_helper X86_64 (pre @ generate_helper_code X86_64 @ post) (of_nat (length pre)) vaddr plt got =
    Inr (pre @ ([0xE9] @ le_bytes 4 (ucast (plt - (vaddr + 5)) :: u32) @ [0x90, 0x90, 0x90]) @ post)"
proof -
  have "patch (of_nat (length pre) + of_nat 0) [0xE9] (pre @ generate_helper_code X86_64 @ post) = Inr (pre @ generate_helper_code X86_64 @ post)"
    by (subst patch_template) (use assms in \<open>simp_all add: put_def x86_64_generate_helper_code_def\<close>)
  moreover have "patch (of_nat (length pre) + of_nat 1) (le_bytes 4 (ucast (plt - (vaddr + 5)) :: u32)) (pre @ generate_helper_code X86_64 @ post) =
      Inr (pre @ ([0xE9] @ le_bytes 4 (ucast (plt - (vaddr + 5)) :: u32) @ [0x90, 0x90, 0x90]) @ post)"
    by (subst patch_template) (use assms in \<open>simp_all add: put_def x86_64_generate_helper_code_def\<close>)
  ultimately show ?thesis by (simp add: x86_64_patch_helper_def Let_def)
qed

lemma x86_64_resolver_patched:
  assumes "length pre + 16 < 2 ^ 64"
  shows "arch_patch_ifunc_resolver X86_64 (pre @ get_ifunc_resolver_code X86_64 @ post) (of_nat (length pre)) vaddr target =
    Inr (pre @ ([0x48, 0x8D, 0x05] @ le_bytes 4 (ucast (target - (vaddr + 7)) :: u32) @ [0xC3] @ replicate 8 0x90) @ post)"
proof -
  have t: "get_ifunc_resolver_code X86_64 = [0x48, 0x8D, 0x05, 0x90, 0x90, 0x90, 0x90, 0xC3] @ replicate 8 0x90"
    by (simp add: x86_64_get_ifunc_resolver_code_def put_def numeral_eq_Suc)
  have "patch (of_nat (length pre) + of_nat 3) (le_bytes 4 (ucast (target - (vaddr + 7)) :: u32)) (pre @ get_ifunc_resolver_code X86_64 @ post) =
      Inr (pre @ ([0x48, 0x8D, 0x05] @ le_bytes 4 (ucast (target - (vaddr + 7)) :: u32) @ [0xC3] @ replicate 8 0x90) @ post)"
    unfolding t by (subst patch_template) (use assms in \<open>simp_all add: put_def\<close>)
  then show ?thesis by (simp add: x86_64_patch_ifunc_resolver_def Let_def)
qed

section \<open>Running the stubs\<close>

lemma holds_code [simp]: "holds m a (x # xs) \<longleftrightarrow> m a = x \<and> holds m (a + 1) xs"
  by (rule holds_Cons)

lemma disp_le_bytes: "holds m a (le_bytes 4 (d :: u32)) \<Longrightarrow> disp_at m a = scast d"
  by (simp add: disp_at_def holds_le_bytes)

lemma disp_near:
  "holds m a (le_bytes 4 (ucast (target - from) :: u32)) \<Longrightarrow> near target from \<Longrightarrow> from + disp_at m a = target"
  by (simp add: disp_le_bytes near_reach)

lemma x86_run_two: "x86_step m s = Some s1 \<Longrightarrow> x86_step m s1 = Some s2 \<Longrightarrow> x86_run 2 m s = Some s2"
  by (simp add: numeral_2_eq_2)

lemma x86_run_add: "x86_run (i + j) m s = Option.bind (x86_run i m s) (x86_run j m)"
proof (induction i arbitrary: s)
  case (Suc i)
  then show ?case by (cases "x86_step m s") simp_all
qed simp

lemma helper_step:
  assumes "holds m vaddr ([0xE9] @ le_bytes 4 (ucast (plt - (vaddr + 5)) :: u32) @ rest)" and n: "near plt (vaddr + 5)"
    and "x_pc s = vaddr"
  shows "x86_step m s = Some (s\<lparr>x_pc := plt\<rparr>)"
proof -
  have "holds m (vaddr + 1) (le_bytes 4 (ucast (plt - (vaddr + 5)) :: u32))" using assms(1) by simp
  from disp_near [OF this n] show ?thesis using assms by (simp add: x86_step_def)
qed

text \<open>The entry jumps through its slot.\<close>

lemma plt_entry_step:
  assumes "holds m vaddr ([0xFF, 0x25] @ le_bytes 4 (ucast (slot - (vaddr + 6)) :: u32) @ rest)" and n: "near slot (vaddr + 6)"
    and "x_pc s = vaddr"
  shows "x86_step m s = Some (s\<lparr>x_pc := read_u64 m slot\<rparr>)"
proof -
  have "holds m (vaddr + 2) (le_bytes 4 (ucast (slot - (vaddr + 6)) :: u32))" using assms(1) by (simp add: add.assoc)
  from disp_near [OF this n] show ?thesis using assms by (simp add: x86_step_def)
qed

text \<open>Behind the jump, the entry pushes its index and goes to the first entry.\<close>

lemma sint_neg_u32: "k < 2 ^ 31 \<Longrightarrow> sint (word_of_int (- int k) :: u32) = - int k"
  by (simp add: signed_of_int signed_take_bit_int_eq_self del: of_int_minus of_int_of_nat_eq)

lemma plt0_displacement:
  assumes "unat off + 16 < 2 ^ 31"
  shows "scast (- ((ucast off :: u32) + 16)) = - ((off :: u64) + 16)"
proof -
  let ?k = "int (unat off + 16)"
  have "ucast off = (word_of_int (int (unat off)) :: u32)" by (simp only: ucast_eq uint_nat)
  then have "- ((ucast off :: u32) + 16) = word_of_int (- ?k)" by simp
  moreover have "sint (word_of_int (- ?k) :: u32) = - ?k"
    by (rule sint_neg_u32) (use assms in simp)
  ultimately have "scast (- ((ucast off :: u32) + 16)) = (word_of_int (- ?k) :: u64)" by (simp only: scast_eq)
  then show ?thesis by simp
qed

lemma plt_entry_resolve:
  assumes h: "holds m vaddr ([0xFF, 0x25] @ d @ [0x68] @ le_bytes 4 (idx :: u32) @ [0xE9] @ le_bytes 4 (- ((ucast off :: u32) + 16)))"
    and "length d = 4" and "vaddr = plt + off" and "unat off + 16 < 2 ^ 31" and "x_pc s = vaddr + 6"
  shows "x86_run 2 m s = Some (s\<lparr>x_pc := plt, x_stack := scast idx # x_stack s\<rparr>)"
proof -
  have i: "m (vaddr + 6) = 0x68" "m (vaddr + 11) = 0xE9" "holds m (vaddr + 7) (le_bytes 4 idx)"
      "holds m (vaddr + 12) (le_bytes 4 (- ((ucast off :: u32) + 16)))"
    using h assms(2) by (simp_all add: add.assoc)
  note imm = disp_le_bytes [OF i(3)] and disp = disp_le_bytes [OF i(4)]
  have j: "vaddr + 16 + disp_at m (vaddr + 12) = plt" unfolding disp plt0_displacement [OF assms(4)] by (simp add: assms(3))
  show ?thesis
  proof (rule x86_run_two)
    show "x86_step m s = Some (s\<lparr>x_pc := vaddr + 11, x_stack := scast idx # x_stack s\<rparr>)"
      using i(1) imm assms(5) by (simp add: x86_step_def add.assoc)
    show "x86_step m (s\<lparr>x_pc := vaddr + 11, x_stack := scast idx # x_stack s\<rparr>) = Some (s\<lparr>x_pc := plt, x_stack := scast idx # x_stack s\<rparr>)"
      using i(2) j by (simp add: x86_step_def add.assoc)
  qed
qed

lemma plt0_resolve:
  assumes h: "holds m vaddr ([0xFF, 0x35] @ le_bytes 4 (ucast (got + 8 - (vaddr + 6)) :: u32) @ [0xFF, 0x25] @
      le_bytes 4 (ucast (got + 16 - (vaddr + 12)) :: u32) @ rest)"
    and n: "near (got + 8) (vaddr + 6)" "near (got + 16) (vaddr + 12)" and "x_pc s = vaddr"
  shows "x86_run 2 m s = Some (s\<lparr>x_pc := read_u64 m (got + 16), x_stack := read_u64 m (got + 8) # x_stack s\<rparr>)"
proof -
  have i: "m vaddr = 0xFF" "m (vaddr + 1) = 0x35" "m (vaddr + 6) = 0xFF" "m (vaddr + 7) = 0x25"
    using h by (simp_all add: add.assoc)
  have "holds m (vaddr + 2) (le_bytes 4 (ucast (got + 8 - (vaddr + 6)) :: u32))"
    "holds m (vaddr + 8) (le_bytes 4 (ucast (got + 16 - (vaddr + 12)) :: u32))" using h by (simp_all add: add.assoc)
  from disp_near [OF this(1) n(1)] disp_near [OF this(2) n(2)]
  have d: "vaddr + 6 + disp_at m (vaddr + 2) = got + 8" "vaddr + 12 + disp_at m (vaddr + 8) = got + 16" .
  have rd: "read_u64 m (vaddr + 6 + disp_at m (vaddr + 2)) = read_u64 m (got + 8)"
    "read_u64 m (vaddr + (12 + disp_at m (vaddr + 8))) = read_u64 m (got + 16)" by (simp_all only: d add.assoc [symmetric])
  show ?thesis
  proof (rule x86_run_two)
    show "x86_step m s = Some (s\<lparr>x_pc := vaddr + 6, x_stack := read_u64 m (got + 8) # x_stack s\<rparr>)"
      using i rd assms(4) by (simp add: x86_step_def)
    show "x86_step m (s\<lparr>x_pc := vaddr + 6, x_stack := read_u64 m (got + 8) # x_stack s\<rparr>) =
        Some (s\<lparr>x_pc := read_u64 m (got + 16), x_stack := read_u64 m (got + 8) # x_stack s\<rparr>)"
      using i rd(2) by (simp add: x86_step_def add.assoc)
  qed
qed

lemma resolver_run:
  assumes h: "holds m vaddr ([0x48, 0x8D, 0x05] @ le_bytes 4 (ucast (target - (vaddr + 7)) :: u32) @ [0xC3] @ rest)"
    and n: "near target (vaddr + 7)" and "x_pc s = vaddr" and "x_stack s = r # rs"
  shows "x86_run 2 m s = Some (s\<lparr>x_pc := r, x_stack := rs, x_rax := target\<rparr>)"
proof -
  have i: "m vaddr = 0x48" "m (vaddr + 1) = 0x8D" "m (vaddr + 2) = 0x05" "m (vaddr + 7) = 0xC3" using h by (simp_all add: add.assoc)
  have "holds m (vaddr + 3) (le_bytes 4 (ucast (target - (vaddr + 7)) :: u32))" using h by (simp add: add.assoc)
  note d = disp_near [OF this n]
  show ?thesis
  proof (rule x86_run_two)
    show "x86_step m s = Some (s\<lparr>x_pc := vaddr + 7, x_rax := target\<rparr>)" using i d assms(3) by (simp add: x86_step_def)
    show "x86_step m (s\<lparr>x_pc := vaddr + 7, x_rax := target\<rparr>) = Some (s\<lparr>x_pc := r, x_stack := rs, x_rax := target\<rparr>)"
      using i(4) assms(4) by (simp add: x86_step_def)
  qed
qed

section \<open>Lazy calls\<close>

text \<open>
  C18. Calls through the PLT of a generated x86-64 library. The templates of the first PLT entry, of a PLT
  entry and of its helper are patched without a fault wherever they lie in their sections. With the results
  in memory and every distance below two gigabytes, a call of the helper arrives at the address that the
  function's GOT slot holds, with the stack unchanged; and when the slot still has the value that the generator
  puts there, it arrives at the resolver, the address in the third GOT word, with the second GOT word
  and the index of the function's relocation pushed. The patched IFUNC resolver returns its target.
\<close>

theorem x86_64_lazy_call:
  assumes "length pre0 + 16 < 2 ^ 64" "length pre1 + 16 < 2 ^ 64" "length pre2 + 8 < 2 ^ 64" "length pre3 + 16 < 2 ^ 64"
    and "unat off + 16 < 2 ^ 31"
    and "near (got + 8) (plt + 6)" "near (got + 16) (plt + 12)" "near slot (plt + off + 6)" "near (plt + off) (helper + 5)"
      "near target (resolver + 7)"
  shows "\<exists>c0 c1 c2 c3.
    patch_plt0 X86_64 (pre0 @ generate_plt0_code X86_64 @ post0) (of_nat (length pre0)) plt got = Inr (pre0 @ c0 @ post0) \<and>
    patch_plt_entry X86_64 (pre1 @ generate_plt_entry_code X86_64 idx off @ post1) (of_nat (length pre1)) (plt + off) slot got =
      Inr (pre1 @ c1 @ post1) \<and>
    patch_helper X86_64 (pre2 @ generate_helper_code X86_64 @ post2) (of_nat (length pre2)) helper (plt + off) got =
      Inr (pre2 @ c2 @ post2) \<and>
    arch_patch_ifunc_resolver X86_64 (pre3 @ get_ifunc_resolver_code X86_64 @ post3) (of_nat (length pre3)) resolver target =
      Inr (pre3 @ c3 @ post3) \<and>
    (\<forall>m s. holds m plt c0 \<and> holds m (plt + off) c1 \<and> holds m helper c2 \<and> x_pc s = helper \<longrightarrow>
      x86_run 2 m s = Some (s\<lparr>x_pc := read_u64 m slot\<rparr>) \<and>
      (read_u64 m slot = get_got_plt_init_value X86_64 plt off \<longrightarrow>
        x86_run 6 m s = Some (s\<lparr>x_pc := read_u64 m (got + 16), x_stack := read_u64 m (got + 8) # scast idx # x_stack s\<rparr>))) \<and>
    (\<forall>m s r rs. holds m resolver c3 \<and> x_pc s = resolver \<and> x_stack s = r # rs \<longrightarrow>
      x86_run 2 m s = Some (s\<lparr>x_pc := r, x_stack := rs, x_rax := target\<rparr>))"
proof -
  let ?c0 = "[0xFF, 0x35] @ le_bytes 4 (ucast (got + 8 - (plt + 6)) :: u32) @ [0xFF, 0x25] @
      le_bytes 4 (ucast (got + 16 - (plt + 12)) :: u32) @ [0x90, 0x90, 0x90, 0x90]"
  let ?c1 = "[0xFF, 0x25] @ le_bytes 4 (ucast (slot - (plt + off + 6)) :: u32) @ [0x68] @ le_bytes 4 idx @ [0xE9] @
      le_bytes 4 (- ((ucast off :: u32) + 16))"
  let ?c2 = "[0xE9] @ le_bytes 4 (ucast (plt + off - (helper + 5)) :: u32) @ [0x90, 0x90, 0x90]"
  let ?c3 = "[0x48, 0x8D, 0x05] @ le_bytes 4 (ucast (target - (resolver + 7)) :: u32) @ [0xC3] @ replicate 8 0x90"
  have call: "x86_run 2 m s = Some (s\<lparr>x_pc := read_u64 m slot\<rparr>)"
    if "holds m (plt + off) ?c1" "holds m helper ?c2" "x_pc s = helper" for m s
    using x86_run_two [OF helper_step [OF that(2) assms(9) that(3)] plt_entry_step [OF that(1) assms(8), of "s\<lparr>x_pc := plt + off\<rparr>"]] by simp
  have lazy: "x86_run 6 m s = Some (s\<lparr>x_pc := read_u64 m (got + 16), x_stack := read_u64 m (got + 8) # scast idx # x_stack s\<rparr>)"
    if h: "holds m plt ?c0" "holds m (plt + off) ?c1" "holds m helper ?c2" "x_pc s = helper"
      and slot: "read_u64 m slot = get_got_plt_init_value X86_64 plt off" for m s
  proof -
    let ?s1 = "s\<lparr>x_pc := plt + off + 6\<rparr>" and ?s2 = "s\<lparr>x_pc := plt, x_stack := scast idx # x_stack s\<rparr>"
    have "x86_run 2 m ?s1 = Some ?s2" using plt_entry_resolve [OF h(2) _ refl assms(5), of ?s1] by simp
    moreover have "x86_run 2 m ?s2 = Some (s\<lparr>x_pc := read_u64 m (got + 16), x_stack := read_u64 m (got + 8) # scast idx # x_stack s\<rparr>)"
      using plt0_resolve [OF h(1) assms(6,7), of ?s2] by simp
    moreover have "x86_run 6 m s = Option.bind (x86_run 2 m s) (\<lambda>s. Option.bind (x86_run 2 m s) (x86_run 2 m))"
      using x86_run_add [of 2 4 m s] x86_run_add [of 2 2 m] by (cases "x86_run 2 m s") simp_all
    ultimately show ?thesis using call [OF h(2-4)] slot by simp
  qed
  have resolve: "x86_run 2 m s = Some (s\<lparr>x_pc := r, x_stack := rs, x_rax := target\<rparr>)"
    if "holds m resolver ?c3" "x_pc s = resolver" "x_stack s = r # rs" for m s r rs
    using resolver_run [OF that(1) assms(10) that(2,3)] .
  show ?thesis
    by (rule exI [of _ ?c0], rule exI [of _ ?c1], rule exI [of _ ?c2], rule exI [of _ ?c3])
      (intro conjI allI impI x86_64_plt0_patched x86_64_plt_entry_patched x86_64_helper_patched x86_64_resolver_patched assms(1-4);
        elim conjE; intro call lazy resolve; assumption)
qed

theorem x86_64_lazy_call_witness:
  "\<exists>c0 c1 c2. patch_plt0 X86_64 (generate_plt0_code X86_64) 0 0x1000 0x3000 = Inr c0 \<and>
    patch_plt_entry X86_64 (generate_plt_entry_code X86_64 0 16) 0 0x1010 0x3018 0x3000 = Inr c1 \<and>
    patch_helper X86_64 (generate_helper_code X86_64) 0 0x2000 0x1010 0x3000 = Inr c2 \<and>
    (\<forall>m s. holds m 0x1000 c0 \<and> holds m 0x1010 c1 \<and> holds m 0x2000 c2 \<and> x_pc s = 0x2000 \<and> read_u64 m 0x3018 = 0x1016 \<longrightarrow>
      x86_run 6 m s = Some (s\<lparr>x_pc := read_u64 m 0x3010, x_stack := read_u64 m 0x3008 # 0 # x_stack s\<rparr>))"
proof -
  have n: "near (0x3000 + 8) (0x1000 + 6)" "near (0x3000 + 16) (0x1000 + 12)" "near 0x3018 (0x1000 + 16 + 6)" "near (0x1000 + 16) (0x2000 + 5)"
    "near 0x5000 (0x2100 + 7)" by (simp_all add: near_def)
  have l: "length ([] :: bytes) + 16 < 2 ^ 64" "length ([] :: bytes) + 8 < 2 ^ 64" "unat (16 :: u64) + 16 < 2 ^ 31" by simp_all
  from x86_64_lazy_call [OF l(1) l(1) l(2) l(1) l(3) n, where idx = 0 and ?post0.0 = "[]" and ?post1.0 = "[]" and ?post2.0 = "[]" and ?post3.0 = "[]"]
  show ?thesis by (elim exE conjE) (intro exI conjI, simp_all, blast)
qed

end
