(* ===== verification/Gen_Object.thy ===== *)
theory Gen_Object
  imports Gen_Common
begin

text \<open>
  \<^verbatim>\<open>tools/gen-elf/src/relocatable.rs\<close>: the writer of object files. It fills an object of the
  \<^verbatim>\<open>object\<close> crate, whose operations are the parameter \<open>object_crate\<close>; sections and symbols
  are numbers it hands out. The two hash maps are maps. The lemmas say which calls are made: one
  section per kind, every symbol under its name, and relocations a word apart.
\<close>

section \<open>The object crate\<close>

datatype obj_architecture = ArX86_64 | ArI386 | ArAarch64 | ArRiscv64 | ArRiscv32 | ArArm | ArLoongArch64

fun architecture_of :: "arch \<Rightarrow> obj_architecture" where
  "architecture_of X86_64 = ArX86_64"
| "architecture_of X86 = ArI386"
| "architecture_of Aarch64 = ArAarch64"
| "architecture_of Riscv64 = ArRiscv64"
| "architecture_of Riscv32 = ArRiscv32"
| "architecture_of Arm = ArArm"
| "architecture_of Loongarch64 = ArLoongArch64"

datatype obj_section_kind = OText | OData | OTls

datatype obj_symbol_kind = SText | SData | STls

datatype obj_symbol_scope = SDynamic | SCompilation

record obj_symbol =
  os_name :: bytes
  os_value :: u64
  os_size :: u64
  os_kind :: obj_symbol_kind
  os_scope :: obj_symbol_scope
  os_weak :: bool
  os_section :: "nat option"

record obj_reloc =
  or_offset :: u64
  or_symbol :: nat
  or_addend :: u64
  or_type :: u32

record 'o object_crate =
  ob_new :: "obj_architecture \<Rightarrow> 'o"
  ob_add_section :: "bytes \<Rightarrow> bytes \<Rightarrow> obj_section_kind \<Rightarrow> 'o \<Rightarrow> nat \<times> 'o"
  ob_append_section_data :: "nat \<Rightarrow> bytes \<Rightarrow> u64 \<Rightarrow> 'o \<Rightarrow> u64 \<times> 'o"
  ob_add_symbol :: "obj_symbol \<Rightarrow> 'o \<Rightarrow> nat \<times> 'o"
  ob_section_symbol :: "nat \<Rightarrow> 'o \<Rightarrow> nat \<times> 'o"
  ob_add_relocation :: "nat \<Rightarrow> obj_reloc \<Rightarrow> 'o \<Rightarrow> 'o result"
  ob_write :: "'o \<Rightarrow> bytes result"

section \<open>The writer\<close>

fun section_for :: "section_kind \<Rightarrow> bytes \<times> obj_section_kind" where
  "section_for Text = (str_bytes ''.text'', OText)"
| "section_for Data = (str_bytes ''.data'', OData)"
| "section_for Plt = (str_bytes ''.plt'', OText)"
| "section_for Tls = (str_bytes ''.tdata'', OTls)"
| "section_for _ = (str_bytes ''.data'', OData)"

fun symbol_kind :: "symbol_type \<Rightarrow> obj_symbol_kind" where
  "symbol_kind Func = SText"
| "symbol_kind Object = SData"
| "symbol_kind TlsSym = STls"

fun symbol_scope_for :: "symbol_scope \<Rightarrow> obj_symbol_scope" where
  "symbol_scope_for Global = SDynamic"
| "symbol_scope_for Local = SCompilation"
| "symbol_scope_for Weak = SDynamic"

record 'o writer_state =
  ws_obj :: 'o
  ws_sections :: "section_kind \<rightharpoonup> nat"
  ws_symbols :: "bytes \<rightharpoonup> nat"

text \<open>\<^verbatim>\<open>section_map.entry(kind).or_insert_with(...)\<close>.\<close>

definition section_entry :: "'o object_crate \<Rightarrow> section_kind \<Rightarrow> 'o writer_state \<Rightarrow> nat \<times> 'o writer_state" where
  "section_entry C k st =
     (case ws_sections st k of
        Some sid \<Rightarrow> (sid, st)
      | None \<Rightarrow>
          (let (name, kind) = section_for k;
               (sid, obj) = ob_add_section C [] name kind (ws_obj st)
           in (sid, st\<lparr>ws_obj := obj, ws_sections := (ws_sections st)(k \<mapsto> sid)\<rparr>)))"

definition add_defined :: "'o object_crate \<Rightarrow> symbol_desc \<Rightarrow> 'o writer_state \<Rightarrow> 'o writer_state" where
  "add_defined C d st =
     (case sd_content d of
        None \<Rightarrow> st
      | Some c \<Rightarrow>
          (let (sid, st1) = section_entry C (c_kind c) st;
               (off, obj) = ob_append_section_data C sid (c_data c) 8 (ws_obj st1);
               (y, obj') = ob_add_symbol C
                 \<lparr>os_name = sd_name d, os_value = off, os_size = of_nat (length (c_data c)),
                  os_kind = symbol_kind (sd_type d), os_scope = symbol_scope_for (sd_scope d),
                  os_weak = (sd_scope d = Weak), os_section = Some sid\<rparr> obj
           in st1\<lparr>ws_obj := obj', ws_symbols := (ws_symbols st1)(sd_name d \<mapsto> y)\<rparr>))"

definition add_undefined :: "'o object_crate \<Rightarrow> symbol_desc \<Rightarrow> 'o writer_state \<Rightarrow> 'o writer_state" where
  "add_undefined C d st =
     (case sd_content d of
        Some c \<Rightarrow> st
      | None \<Rightarrow>
          (let (y, obj) = ob_add_symbol C
                 \<lparr>os_name = sd_name d, os_value = 0, os_size = 0, os_kind = symbol_kind (sd_type d),
                  os_scope = SDynamic, os_weak = (sd_scope d = Weak), os_section = None\<rparr> (ws_obj st)
           in st\<lparr>ws_obj := obj, ws_symbols := (ws_symbols st)(sd_name d \<mapsto> y)\<rparr>))"

definition target_section :: "'o writer_state \<Rightarrow> nat option" where
  "target_section st = (case ws_sections st Text of Some s \<Rightarrow> Some s | None \<Rightarrow> ws_sections st Data)"

definition not_found :: "bytes \<Rightarrow> fault" where
  "not_found name = Err (Custom (''Symbol not found for relocation: '' @ map (\<lambda>b. char_of (unat b)) name))"

definition reloc_symbol ::
  "'o object_crate \<Rightarrow> nat \<Rightarrow> (bytes \<rightharpoonup> nat) \<Rightarrow> reloc_entry \<Rightarrow> 'o \<Rightarrow> (nat \<times> 'o) result" where
  "reloc_symbol C sid syms r obj =
     (if re_name r = [] then Inr (ob_section_symbol C sid obj)
      else case syms (re_name r) of None \<Rightarrow> Inl (not_found (re_name r)) | Some y \<Rightarrow> Inr (y, obj))"

text \<open>The loop over the relocations: the object, and the offsets so far.\<close>

fun add_relocs ::
  "'o object_crate \<Rightarrow> u64 \<Rightarrow> nat \<Rightarrow> (bytes \<rightharpoonup> nat) \<Rightarrow> nat \<Rightarrow> reloc_entry list \<Rightarrow> 'o \<times> u64 list \<Rightarrow> ('o \<times> u64 list) result" where
  "add_relocs C word_size sid syms idx [] st = Inr st"
| "add_relocs C word_size sid syms idx (r # rs) (obj, offs) =
     res_bind (reloc_symbol C sid syms r obj)
       (\<lambda>(y, obj1).
          let offset = 0x10 + of_nat idx * word_size in
          res_bind
            (ob_add_relocation C sid \<lparr>or_offset = offset, or_symbol = y, or_addend = 0, or_type = re_type r\<rparr> obj1)
            (\<lambda>obj2. add_relocs C word_size sid syms (Suc idx) rs (obj2, offs @ [offset])))"

record object_output =
  oo_data :: bytes
  oo_reloc_offsets :: "u64 list"

definition symbols_added :: "'o object_crate \<Rightarrow> arch \<Rightarrow> symbol_desc list \<Rightarrow> 'o writer_state" where
  "symbols_added C a symbols =
     fold (add_undefined C) symbols
       (fold (add_defined C) symbols
          \<lparr>ws_obj = ob_new C (architecture_of a), ws_sections = Map.empty, ws_symbols = Map.empty\<rparr>)"

definition gen_static_elf ::
  "'o object_crate \<Rightarrow> arch \<Rightarrow> symbol_desc list \<Rightarrow> reloc_entry list \<Rightarrow> object_output result" where
  "gen_static_elf C a symbols relocs =
     (let st = symbols_added C a symbols
      in res_bind
           (case target_section st of
              None \<Rightarrow> Inr (ws_obj st, [])
            | Some sid \<Rightarrow> add_relocs C (if is_64 a then 8 else 4) sid (ws_symbols st) 0 relocs (ws_obj st, []))
           (\<lambda>(obj, offs).
              res_bind (ob_write C obj) (\<lambda>bs. Inr \<lparr>oo_data = bs, oo_reloc_offsets = offs\<rparr>)))"

record object_writer =
  ow_arch :: arch

definition object_writer_new :: "arch \<Rightarrow> object_writer" where
  "object_writer_new a = \<lparr>ow_arch = a\<rparr>"

definition object_writer_write ::
  "'o object_crate \<Rightarrow> object_writer \<Rightarrow> symbol_desc list \<Rightarrow> reloc_entry list \<Rightarrow> object_output result" where
  "object_writer_write C w symbols relocs = gen_static_elf C (ow_arch w) symbols relocs"

section \<open>Lemmas\<close>

lemma fold_dom:
  assumes "\<And>d st. d \<in> set ds \<Longrightarrow> dom (g (f d st)) = dom (g st) \<union> A d"
  shows "dom (g (fold f ds st)) = dom (g st) \<union> (\<Union>d \<in> set ds. A d)"
  using assms by (induction ds arbitrary: st) auto

text \<open>Every described name is known, and exactly the kinds that occur have a section.\<close>

lemma symbols_known: "dom (ws_symbols (symbols_added C a symbols)) = sd_name ` set symbols"
proof -
  let ?A = "\<lambda>d. if sd_content d = None then {} else {sd_name d}"
  let ?B = "\<lambda>d. if sd_content d = None then {sd_name d} else {}"
  have A: "dom (ws_symbols (add_defined C d st)) = dom (ws_symbols st) \<union> ?A d" for d st
    by (auto simp: add_defined_def section_entry_def Let_def split: option.splits prod.splits)
  have B: "dom (ws_symbols (add_undefined C d st)) = dom (ws_symbols st) \<union> ?B d" for d st
    by (auto simp: add_undefined_def Let_def split: option.splits prod.splits)
  have all: "(\<Union>d \<in> set symbols. ?A d) \<union> (\<Union>d \<in> set symbols. ?B d) = sd_name ` set symbols"
    unfolding UN_Un_distrib [symmetric] by (auto split: if_splits)
  show ?thesis
    unfolding symbols_added_def
    by (subst fold_dom [where A = ?B], rule B, subst fold_dom [where A = ?A], rule A) (simp add: all [simplified])
qed

definition kinds_of :: "symbol_desc list \<Rightarrow> section_kind set" where
  "kinds_of symbols = (\<Union>d \<in> set symbols. case sd_content d of None \<Rightarrow> {} | Some c \<Rightarrow> {c_kind c})"

lemma sections_created: "dom (ws_sections (symbols_added C a symbols)) = kinds_of symbols"
proof -
  let ?A = "\<lambda>d. case sd_content d of None \<Rightarrow> {} | Some c \<Rightarrow> {c_kind c}"
  have A: "dom (ws_sections (add_defined C d st)) = dom (ws_sections st) \<union> ?A d" for d st
    by (auto simp: add_defined_def section_entry_def Let_def split: option.splits prod.splits)
  have B: "dom (ws_sections (add_undefined C d st)) = dom (ws_sections st) \<union> {}" for d st
    by (auto simp: add_undefined_def Let_def split: option.splits prod.splits)
  show ?thesis
    unfolding symbols_added_def
    by (subst fold_dom [where A = "\<lambda>_. {}"], rule B, subst fold_dom [where A = ?A], rule A)
      (simp add: kinds_of_def)
qed

lemma reloc_symbol_known:
  "re_name r = [] \<or> re_name r \<in> dom syms \<Longrightarrow> \<exists>y obj1. reloc_symbol C sid syms r obj = Inr (y, obj1)"
  by (cases "ob_section_symbol C sid obj") (auto simp: reloc_symbol_def)

lemma target_section_None:
  "target_section st = None \<longleftrightarrow> Text \<notin> dom (ws_sections st) \<and> Data \<notin> dom (ws_sections st)"
  by (simp add: target_section_def domIff split: option.split)

lemma add_relocs_offsets:
  assumes "\<And>s r obj. \<exists>obj'. ob_add_relocation C s r obj = Inr obj'"
    and "\<forall>r \<in> set rs. re_name r = [] \<or> re_name r \<in> dom syms"
  shows "\<exists>obj'. add_relocs C ws sid syms idx rs (obj, offs) =
     Inr (obj', offs @ map (\<lambda>i. 0x10 + of_nat i * ws) [idx..<idx + length rs])"
  using assms(2)
proof (induction rs arbitrary: idx obj offs)
  case Nil
  then show ?case by simp
next
  case (Cons r rs)
  obtain y obj1 where y: "reloc_symbol C sid syms r obj = Inr (y, obj1)"
    using reloc_symbol_known Cons.prems by (metis list.set_intros(1))
  obtain obj2 where o2: "ob_add_relocation C sid
      \<lparr>or_offset = 0x10 + of_nat idx * ws, or_symbol = y, or_addend = 0, or_type = re_type r\<rparr> obj1 = Inr obj2"
    using assms(1) by blast
  have "[idx..<idx + length (r # rs)] = idx # [Suc idx..<Suc idx + length rs]"
    by (simp add: upt_conv_Cons del: upt_Suc)
  moreover have "\<forall>r \<in> set rs. re_name r = [] \<or> re_name r \<in> dom syms" using Cons.prems by simp
  ultimately show ?case
    using Cons.IH [of "Suc idx" obj2 "offs @ [0x10 + of_nat idx * ws]"] y o2 by (simp add: Let_def)
qed

lemma add_relocs_unknown:
  assumes "\<And>s r obj. \<exists>obj'. ob_add_relocation C s r obj = Inr obj'"
    and "r \<in> set rs" "re_name r \<noteq> []" "re_name r \<notin> dom syms"
  shows "\<exists>name. add_relocs C ws sid syms idx rs (obj, offs) = Inl (not_found name) \<and> name \<notin> dom syms"
  using assms(2)
proof (induction rs arbitrary: idx obj offs)
  case Nil
  then show ?case by simp
next
  case (Cons q rs)
  show ?case
  proof (cases "re_name q = [] \<or> re_name q \<in> dom syms")
    case False
    then show ?thesis by (auto simp: reloc_symbol_def domIff)
  next
    case True
    with assms(3,4) Cons.prems have r: "r \<in> set rs" by auto
    from True obtain y obj1 where y: "reloc_symbol C sid syms q obj = Inr (y, obj1)"
      using reloc_symbol_known by metis
    obtain obj2 where "ob_add_relocation C sid
        \<lparr>or_offset = 0x10 + of_nat idx * ws, or_symbol = y, or_addend = 0, or_type = re_type q\<rparr> obj1 = Inr obj2"
      using assms(1) by blast
    with Cons.IH [OF r] y show ?thesis by (simp add: Let_def)
  qed
qed

text \<open>
  Outcome of the writer when the object crate accepts every call. Without code and data there is no
  section to put relocations in, and they are dropped; otherwise every name must be described, and
  the relocations are a word apart from offset 16 on.
\<close>

lemma gen_static_elf_outcome:
  fixes C :: "'o object_crate" and symbols :: "symbol_desc list" and a :: arch
  assumes "\<And>s r obj. \<exists>obj'. ob_add_relocation C s r obj = Inr obj'"
    and "\<And>obj. \<exists>bs. ob_write C obj = Inr bs"
  defines "names \<equiv> sd_name ` set symbols" and "word_size \<equiv> (if is_64 a then 8 else 4)"
  shows "Text \<notin> kinds_of symbols \<Longrightarrow> Data \<notin> kinds_of symbols \<Longrightarrow>
       \<exists>bs. gen_static_elf C a symbols relocs = Inr \<lparr>oo_data = bs, oo_reloc_offsets = []\<rparr>"
    and "Text \<in> kinds_of symbols \<or> Data \<in> kinds_of symbols \<Longrightarrow>
       \<forall>r \<in> set relocs. re_name r = [] \<or> re_name r \<in> names \<Longrightarrow>
       \<exists>bs. gen_static_elf C a symbols relocs =
         Inr \<lparr>oo_data = bs, oo_reloc_offsets = map (\<lambda>i. 0x10 + of_nat i * word_size) [0..<length relocs]\<rparr>"
    and "Text \<in> kinds_of symbols \<or> Data \<in> kinds_of symbols \<Longrightarrow>
       r \<in> set relocs \<Longrightarrow> re_name r \<noteq> [] \<Longrightarrow> re_name r \<notin> names \<Longrightarrow>
       \<exists>name. gen_static_elf C a symbols relocs = Inl (not_found name) \<and> name \<notin> names"
proof -
  let ?st = "symbols_added C a symbols"
  have w: "\<exists>bs. res_bind (ob_write C obj) (\<lambda>bs. Inr \<lparr>oo_data = bs, oo_reloc_offsets = offs\<rparr>) =
      Inr \<lparr>oo_data = bs, oo_reloc_offsets = offs\<rparr>" for obj offs
    using assms(2) [of obj] by auto
  note dom = sections_created [of C a symbols] and known = symbols_known [of C a symbols, folded names_def]
  show "\<exists>bs. gen_static_elf C a symbols relocs = Inr \<lparr>oo_data = bs, oo_reloc_offsets = []\<rparr>"
    if "Text \<notin> kinds_of symbols" "Data \<notin> kinds_of symbols"
  proof -
    from that dom have "target_section ?st = None" by (simp add: target_section_None)
    then show ?thesis using w [of "ws_obj ?st" "[]"] by (simp add: gen_static_elf_def Let_def)
  qed
  show "\<exists>bs. gen_static_elf C a symbols relocs =
      Inr \<lparr>oo_data = bs, oo_reloc_offsets = map (\<lambda>i. 0x10 + of_nat i * word_size) [0..<length relocs]\<rparr>"
    if sec: "Text \<in> kinds_of symbols \<or> Data \<in> kinds_of symbols"
      and all: "\<forall>r \<in> set relocs. re_name r = [] \<or> re_name r \<in> names"
  proof -
    from sec dom obtain sid where sid: "target_section ?st = Some sid"
      using target_section_None by blast
    obtain obj where "add_relocs C word_size sid (ws_symbols ?st) 0 relocs (ws_obj ?st, []) =
        Inr (obj, map (\<lambda>i. 0x10 + of_nat i * word_size) [0..<length relocs])"
      using add_relocs_offsets [OF assms(1), of relocs "ws_symbols ?st" word_size sid 0 "ws_obj ?st" "[]"] all
      by (auto simp: known)
    with sid w [of obj] show ?thesis by (simp add: gen_static_elf_def Let_def word_size_def)
  qed
  show "\<exists>name. gen_static_elf C a symbols relocs = Inl (not_found name) \<and> name \<notin> names"
    if sec: "Text \<in> kinds_of symbols \<or> Data \<in> kinds_of symbols"
      and r: "r \<in> set relocs" "re_name r \<noteq> []" "re_name r \<notin> names"
  proof -
    from sec dom obtain sid where sid: "target_section ?st = Some sid"
      using target_section_None by blast
    from add_relocs_unknown [OF assms(1) r(1,2), of "ws_symbols ?st" word_size sid 0 "ws_obj ?st" "[]"] r(3)
    obtain name where "add_relocs C word_size sid (ws_symbols ?st) 0 relocs (ws_obj ?st, []) = Inl (not_found name)"
      "name \<notin> names" by (auto simp: known)
    with sid show ?thesis by (auto simp: gen_static_elf_def Let_def word_size_def)
  qed
qed

end
