(* ===== verification/Mini_Loader.thy ===== *)
theory Mini_Loader
  imports Reloc_Relative Image
begin

text \<open>
  \<^verbatim>\<open>crates/mini-loader/src/main.rs\<close>: a program that the kernel starts like an interpreter. It
  relocates itself, loads the program named by its first argument and that program's interpreter
  with a released version of the loader (a parameter), rewrites the initial stack as if the
  kernel had started the program directly, and jumps to it. The initial stack is a sequence of
  words: the number of arguments, the arguments, a null word, the environment, a null word,
  and the auxiliary vector, pairs of words that end with the tag \<^verbatim>\<open>AT_NULL\<close>.

  The heap of the program is not modelled: nothing below depends on its contents. Printing is the
  result of the \<^verbatim>\<open>write\<close> system call on the bytes, a parameter.
\<close>

section \<open>Constants\<close>

definition AT_NULL :: u64 where [abi]: "AT_NULL = 0"
definition AT_PHDR :: u64 where [abi]: "AT_PHDR = 3"
definition AT_PHENT :: u64 where [abi]: "AT_PHENT = 4"
definition AT_PHNUM :: u64 where [abi]: "AT_PHNUM = 5"
definition AT_BASE :: u64 where [abi]: "AT_BASE = 7"
definition AT_ENTRY :: u64 where [abi]: "AT_ENTRY = 9"
definition AT_EXECFN :: u64 where [abi]: "AT_EXECFN = 31"

section \<open>Output\<close>

definition mini_from_ret :: "usize \<Rightarrow> string \<Rightarrow> string + usize" where
  "mini_from_ret value msg = (if - 4096 < value then Inl msg else Inr value)"

definition print_str :: "(string \<Rightarrow> usize) \<Rightarrow> string \<Rightarrow> unit result" where
  "print_str W s =
     (case mini_from_ret (W s) ''print failed'' of
        Inl e \<Rightarrow> Inl (Panic e)
      | Inr _ \<Rightarrow> Inr ())"

section \<open>Reading the dynamic section and the stack\<close>

text \<open>The dynamic section of the program itself: table and number of relative relocations.\<close>

definition self_entry :: "usize option \<times> usize option \<Rightarrow> u64 \<Rightarrow> u64 \<Rightarrow> usize option \<times> usize option" where
  "self_entry s tag val =
     (if tag = DT_RELA then (Some val, snd s)
      else if tag = DT_RELACOUNT then (fst s, Some val)
      else s)"

partial_function (option) self_dynamic ::
  "mem \<Rightarrow> usize \<Rightarrow> usize option \<times> usize option \<Rightarrow> (usize option \<times> usize option) option" where
  "self_dynamic m p s =
     (if read_u64 m p = DT_NULL then Some s
      else self_dynamic m (p + 16) (self_entry s (read_u64 m p) (read_u64 m (p + 8))))"

declare self_dynamic.simps [code]

partial_function (option) count_env :: "mem \<Rightarrow> usize \<Rightarrow> usize \<Rightarrow> usize option" where
  "count_env m cur_env env_count =
     (if read_u64 m cur_env \<noteq> 0 then count_env m (cur_env + 8) (env_count + 1) else Some env_count)"

declare count_env.simps [code]

record aux_info =
  ax_ph :: usize
  ax_phnum :: u64
  ax_base :: usize

definition aux_entry :: "aux_info \<Rightarrow> u64 \<Rightarrow> u64 \<Rightarrow> aux_info" where
  "aux_entry s tag val =
     (if tag = AT_PHDR then s\<lparr>ax_ph := val\<rparr>
      else if tag = AT_PHNUM then s\<lparr>ax_phnum := val\<rparr>
      else if tag = AT_BASE then s\<lparr>ax_base := val\<rparr>
      else s)"

partial_function (option) scan_aux :: "mem \<Rightarrow> usize \<Rightarrow> aux_info \<Rightarrow> aux_info option" where
  "scan_aux m p s =
     (if read_u64 m p = AT_NULL then Some s
      else scan_aux m (p + 16) (aux_entry s (read_u64 m p) (read_u64 m (p + 8))))"

declare scan_aux.simps [code]

text \<open>The search for \<^verbatim>\<open>PT_DYNAMIC\<close> has no bound; the index into the headers is checked.\<close>

function find_base :: "mem \<Rightarrow> usize \<Rightarrow> usize \<Rightarrow> nat \<Rightarrow> nat \<Rightarrow> usize result" where
  "find_base m dynv ph phnum idx =
     (if phnum \<le> idx then Inl (Panic ''index out of bounds'')
      else let phdr = phdr_at m (ph + of_nat (56 * idx))
           in if p_type phdr = PT_DYNAMIC then Inr (dynv - p_vaddr phdr)
              else find_base m dynv ph phnum (Suc idx))"
  by pat_completeness auto
termination
  by (relation "measure (\<lambda>(m, dynv, ph, phnum, idx). phnum - idx)") auto

declare find_base.simps [simp del]

section \<open>Relocating itself\<close>

definition boot_one :: "(string \<Rightarrow> usize) \<Rightarrow> usize \<Rightarrow> usize \<Rightarrow> mem \<Rightarrow> mem result" where
  "boot_one W base p m =
     (let rela = rela_at m p in
      res_bind
        (if rela_info rela AND 0xFFFFFFFF \<noteq> ucast REL_RELATIVE then print_str W ''unknown rela type'' else Inr ())
        (\<lambda>_. Inr (write_u64 m (rela_offset rela + base) (base + rela_addend rela))))"

definition rela_ptrs :: "usize \<Rightarrow> usize \<Rightarrow> usize list" where
  "rela_ptrs rela_ptr n = map (\<lambda>i. rela_ptr + of_nat (24 * i)) [0..<unat n]"

text \<open>
  The first part of \<^verbatim>\<open>rust_main\<close>: it returns the number of arguments, the address of the
  auxiliary vector, and the memory after the relocation.
\<close>

definition bootstrap ::
  "(string \<Rightarrow> usize) \<Rightarrow> usize \<Rightarrow> usize \<Rightarrow> mem \<Rightarrow> (usize \<times> usize \<times> mem) result" where
  "bootstrap W sp dynv m =
     res_bind (returned (self_dynamic m dynv (None, None))) (\<lambda>(rela, rela_count).
     res_bind (unwrap ''called `Option::unwrap()` on a `None` value'' rela) (\<lambda>rela.
     res_bind (unwrap ''called `Option::unwrap()` on a `None` value'' rela_count) (\<lambda>rela_count.
     let argc = read_u64 m sp;
         env = sp + 8 * (argc + 1 + 1) in
     res_bind (returned (count_env m env 0)) (\<lambda>env_count.
     let auxv = env + 8 * (env_count + 1) in
     res_bind (returned (scan_aux m auxv \<lparr>ax_ph = 0, ax_phnum = 0, ax_base = 0\<rparr>)) (\<lambda>info.
     res_bind (if ax_base info = 0 then find_base m dynv (ax_ph info) (unat (ax_phnum info)) 0 else Inr (ax_base info)) (\<lambda>base.
     res_bind (res_fold (boot_one W base) (rela_ptrs (rela + base) rela_count) m) (\<lambda>m'.
     Inr (argc, auxv, m'))))))))"

section \<open>Handing over\<close>

text \<open>What the program reads of a loaded file; loading fails or changes memory.\<close>

record mini_elf =
  le_entry :: usize
  le_phdrs :: usize
  le_phnum :: usize
  le_interp :: "bytes option"

type_synonym load_fn = "bytes \<Rightarrow> mem \<Rightarrow> (mini_elf \<times> mem) option"

definition load_or_panic :: "load_fn \<Rightarrow> bytes \<Rightarrow> mem \<Rightarrow> (mini_elf \<times> mem) result" where
  "load_or_panic load name m = unwrap ''called `Result::unwrap()` on an `Err` value'' (load name m)"

text \<open>The new value of an auxiliary entry, if it gets one.\<close>

definition aux_value :: "mini_elf \<Rightarrow> mini_elf option \<Rightarrow> usize \<Rightarrow> u64 \<Rightarrow> u64 option" where
  "aux_value elf interp_dylib argv1 tag =
     (if tag = AT_PHDR then Some (le_phdrs elf)
      else if tag = AT_PHNUM then Some (le_phnum elf)
      else if tag = AT_PHENT then Some (of_nat size_phdr)
      else if tag = AT_ENTRY then Some (le_entry elf)
      else if tag = AT_EXECFN then Some argv1
      else if tag = AT_BASE then Some (case interp_dylib of Some dylib \<Rightarrow> le_entry dylib | None \<Rightarrow> le_entry elf)
      else None)"

partial_function (option) update_aux ::
  "mini_elf \<Rightarrow> mini_elf option \<Rightarrow> usize \<Rightarrow> usize \<Rightarrow> mem \<Rightarrow> (usize \<times> mem) option" where
  "update_aux elf interp_dylib argv p m =
     (if read_u64 m p = AT_NULL then Some (p, m)
      else update_aux elf interp_dylib argv (p + 16)
             (case aux_value elf interp_dylib (read_u64 m (argv + 8)) (read_u64 m p) of
                None \<Rightarrow> m
              | Some v \<Rightarrow> write_u64 m (p + 8) v))"

declare update_aux.simps [code]

text \<open>\<^verbatim>\<open>core::ptr::copy\<close> of \<open>n\<close> words: the source is read before the destination is written.\<close>

definition ptr_copy :: "mem \<Rightarrow> usize \<Rightarrow> usize \<Rightarrow> usize \<Rightarrow> mem" where
  "ptr_copy m src dst n = write_bytes m dst (read_bytes (8 * unat n) m src)"

text \<open>The rest of \<^verbatim>\<open>rust_main\<close>: the arguments of \<^verbatim>\<open>trampoline\<close> and the memory.\<close>

definition hand_over :: "load_fn \<Rightarrow> usize \<Rightarrow> usize \<times> usize \<times> mem \<Rightarrow> (usize \<times> usize \<times> mem) result" where
  "hand_over load sp st =
     (let (argc, auxv, m) = st in
      if argc = 1 then Inl (Panic ''no input file'')
      else
        let argv = sp + 8 in
        res_bind (returned (cstr m (read_u64 m (argv + 8)))) (\<lambda>elf_name.
        res_bind (to_str elf_name) (\<lambda>name.
        res_bind (load_or_panic load name m) (\<lambda>(elf, m1).
        res_bind
          (case le_interp elf of
             None \<Rightarrow> Inr (None, m1)
           | Some interp_name \<Rightarrow>
               res_bind (load_or_panic load interp_name m1) (\<lambda>(dylib, m2). Inr (Some dylib, m2)))
          (\<lambda>(interp_dylib, m2).
        res_bind (returned (update_aux elf interp_dylib argv auxv m2)) (\<lambda>(cur_aux_ptr, m3).
        let sz = cur_aux_ptr + 16 - (sp + 8);
            m4 = ptr_copy m3 (sp + 8) sp (sz div 8);
            m5 = write_u64 m4 sp (argc - 1)
        in Inr (case interp_dylib of Some dylib \<Rightarrow> le_entry dylib | None \<Rightarrow> le_entry elf, sp, m5)))))))"

definition rust_main ::
  "(string \<Rightarrow> usize) \<Rightarrow> load_fn \<Rightarrow> usize \<Rightarrow> usize \<Rightarrow> mem \<Rightarrow> (usize \<times> usize \<times> mem) result" where
  "rust_main W load sp dynv m = res_bind (bootstrap W sp dynv m) (hand_over load sp)"

section \<open>Words in memory\<close>

definition words_at :: "mem \<Rightarrow> usize \<Rightarrow> u64 list \<Rightarrow> bool" where
  "words_at m a ws \<longleftrightarrow> (\<forall>i < length ws. read_u64 m (a + of_nat (8 * i)) = ws ! i)"

definition pair_words :: "(u64 \<times> u64) list \<Rightarrow> u64 list" where
  "pair_words ps = concat (map (\<lambda>(t, v). [t, v]) ps)"

lemma pair_words_simps [simp]:
  "pair_words [] = []"
  "pair_words ((t, v) # ps) = t # v # pair_words ps"
  by (simp_all add: pair_words_def)

lemma length_pair_words [simp]: "length (pair_words ps) = 2 * length ps"
  by (induction ps) auto

lemma words_at_Nil [simp]: "words_at m a []"
  by (simp add: words_at_def)

lemma words_at_Cons [simp]: "words_at m a (w # ws) \<longleftrightarrow> read_u64 m a = w \<and> words_at m (a + 8) ws"
  by (simp add: words_at_def All_less_Suc2 add.assoc)

lemma words_at_append [simp]:
  "words_at m a (us @ ws) \<longleftrightarrow> words_at m a us \<and> words_at m (a + of_nat (8 * length us)) ws"
proof (induction us arbitrary: a)
  case Nil
  then show ?case by simp
next
  case (Cons u us)
  then show ?case by (simp add: add.assoc)
qed

lemma words_at_nth: "words_at m a ws \<Longrightarrow> i < length ws \<Longrightarrow> read_u64 m (a + of_nat (8 * i)) = ws ! i"
  by (simp add: words_at_def)

lemma word_in_range:
  assumes "i < n" and "8 * n \<le> 2 ^ 64" and "k < 8"
  shows "in_range a (8 * n) (a + of_nat (8 * i) + of_nat k)"
proof -
  have "in_range a (8 * n) (a + of_nat (8 * i + k))" using assms by (intro in_range_add_of_nat) simp_all
  then show ?thesis by (simp add: add.assoc)
qed

lemma words_at_cong:
  assumes "\<And>x. in_range a (8 * length ws) x \<Longrightarrow> m' x = m x" and "8 * length ws \<le> 2 ^ 64"
  shows "words_at m' a ws \<longleftrightarrow> words_at m a ws"
proof -
  have "read_u64 m' (a + of_nat (8 * i)) = read_u64 m (a + of_nat (8 * i))" if "i < length ws" for i
    by (rule read_le_cong, rule assms(1), rule word_in_range) (use that assms(2) in simp_all)
  then show ?thesis by (simp add: words_at_def)
qed

lemma indexed_apart:
  assumes "i \<noteq> j" and "8 * i + 8 \<le> 2 ^ 63" and "8 * j + 8 \<le> 2 ^ 63"
  shows "disjoint_ranges (a + of_nat (8 * i)) 8 (a + of_nat (8 * j)) 8"
proof -
  have apart: "8 \<le> unat (of_nat (8 * k) - of_nat (8 * l) :: usize) \<and> 8 \<le> unat (of_nat (8 * l) - of_nat (8 * k) :: usize)"
    if "l < k" "8 * k + 8 \<le> 2 ^ 63" for k l
  proof -
    define d where "d = 8 * (k - l)"
    have d: "8 \<le> d" "d \<le> 2 ^ 63" using that by (simp_all add: d_def)
    have eq: "of_nat (8 * k) - of_nat (8 * l) = (of_nat d :: usize)"
      and "of_nat (8 * l) - of_nat (8 * k) = - (of_nat d :: usize)"
      using that by (simp_all add: d_def of_nat_diff algebra_simps)
    moreover have "- (of_nat d :: usize) = of_nat (2 ^ 64 - d)" using d by (simp add: of_nat_diff)
    ultimately have neg: "of_nat (8 * l) - of_nat (8 * k) = (of_nat (2 ^ 64 - d) :: usize)" by (rule_tac trans)
    have u: "unat (of_nat d :: usize) = d" "unat (of_nat (2 ^ 64 - d) :: usize) = 2 ^ 64 - d"
      by (rule unat_of_nat_usize, use d in simp)+
    show ?thesis unfolding eq neg u using d by simp
  qed
  show ?thesis
    using apart [of i j] apart [of j i] assms by (intro disjoint_if) (cases "i < j"; simp add: algebra_simps)+
qed

lemma words_at_write:
  assumes "words_at m a ws" and "i < length ws" and "8 * length ws \<le> 2 ^ 63"
  shows "words_at (write_u64 m (a + of_nat (8 * i)) v) a (ws[i := v])"
  unfolding words_at_def
proof (intro allI impI)
  fix j assume j: "j < length (ws[i := v])"
  show "read_u64 (write_u64 m (a + of_nat (8 * i)) v) (a + of_nat (8 * j)) = ws[i := v] ! j"
  proof (cases "j = i")
    case True
    with assms show ?thesis by (simp add: read_write_le)
  next
    case False
    then have "disjoint_ranges (a + of_nat (8 * i)) 8 (a + of_nat (8 * j)) 8"
      using assms j by (intro indexed_apart) simp_all
    with False assms(1) j show ?thesis
      by (simp add: read_le_write_le_disjoint words_at_def del: of_nat_mult)
  qed
qed

lemma write_word_frame:
  assumes "\<not> in_range a (8 * n) x" and "i < n" and "8 * n \<le> 2 ^ 64"
  shows "write_u64 m (a + of_nat (8 * i)) v x = m x"
proof (rule write_le_frame, rule notI)
  assume "in_range (a + of_nat (8 * i)) 8 x"
  then have k: "unat (x - (a + of_nat (8 * i))) < 8" by (simp add: in_range_def)
  have "in_range a (8 * n) (a + of_nat (8 * i) + of_nat (unat (x - (a + of_nat (8 * i)))))"
    by (rule word_in_range [OF assms(2,3) k])
  with assms(1) show False by simp
qed

lemma words_at_copy:
  assumes "words_at m src ws" and "unat n = length ws" and "8 * length ws < 2 ^ 64"
  shows "words_at (ptr_copy m src dst n) dst ws"
  unfolding words_at_def
proof (intro allI impI)
  fix i assume i: "i < length ws"
  have "ptr_copy m src dst n (dst + of_nat (8 * i) + of_nat k) = m (src + of_nat (8 * i) + of_nat k)"
    if "k < 8" for k
  proof -
    have "unat (dst + of_nat (8 * i) + of_nat k - dst) = 8 * i + k"
      using that i assms(3) unat_of_nat_usize [of "8 * i + k"] by simp
    with that i assms(2) show ?thesis by (simp add: ptr_copy_def write_bytes_def add.assoc)
  qed
  then have "read_u64 (ptr_copy m src dst n) (dst + of_nat (8 * i)) = read_u64 m (src + of_nat (8 * i))"
    unfolding read_le_def read_bytes_def by (intro arg_cong [where f = le_word] map_cong) simp_all
  with assms(1) i show "read_u64 (ptr_copy m src dst n) (dst + of_nat (8 * i)) = ws ! i"
    by (simp add: words_at_def)
qed

section \<open>Tables of pairs\<close>

text \<open>A loop over pairs of words that ends at the tag zero folds its step over the pairs before it.\<close>

locale pair_scan =
  fixes scan :: "mem \<Rightarrow> usize \<Rightarrow> 's \<Rightarrow> 's option"
    and step :: "'s \<Rightarrow> u64 \<Rightarrow> u64 \<Rightarrow> 's"
  assumes unfold: "scan m p s =
    (if read_u64 m p = 0 then Some s else scan m (p + 16) (step s (read_u64 m p) (read_u64 m (p + 8))))"
begin

lemma scan_pairs:
  assumes "words_at m p (pair_words ps @ [0])" and "0 \<notin> fst ` set ps"
  shows "scan m p s = Some (foldl (\<lambda>s (t, v). step s t v) s ps)"
  using assms
proof (induction ps arbitrary: p s)
  case Nil
  then show ?case by (simp add: unfold [of m p s])
next
  case (Cons pv ps)
  obtain t v where pv: "pv = (t, v)" by fastforce
  with Cons.prems have "words_at m (p + 16) (pair_words ps @ [0])" by (simp add: add.assoc)
  from Cons.IH [OF this] Cons.prems pv show ?case by (simp add: unfold [of m p s])
qed

end

interpretation self_dynamic: pair_scan self_dynamic self_entry
  by unfold_locales (subst self_dynamic.simps, simp add: DT_NULL_def)

interpretation scan_aux: pair_scan scan_aux aux_entry
  by unfold_locales (subst scan_aux.simps, simp add: AT_NULL_def)

lemma count_env_words:
  assumes "words_at m p (env @ [0])" and "0 \<notin> set env"
  shows "count_env m p n = Some (n + of_nat (length env))"
  using assms
proof (induction env arbitrary: p n)
  case Nil
  then show ?case by (simp add: count_env.simps)
next
  case (Cons e env)
  then have "words_at m (p + 8) (env @ [0])" by (simp add: add.assoc)
  from Cons.IH [OF this] Cons.prems show ?case by (subst count_env.simps) (simp add: ac_simps)
qed

section \<open>Rewriting the auxiliary vector\<close>

text \<open>An auxiliary vector with new values for some tags.\<close>

definition aux_rewritten :: "(u64 \<rightharpoonup> u64) \<Rightarrow> (u64 \<times> u64) list \<Rightarrow> (u64 \<times> u64) list" where
  "aux_rewritten new aux = map (\<lambda>(t, v). (t, case new t of None \<Rightarrow> v | Some v' \<Rightarrow> v')) aux"

text \<open>The values of the loop, as a table.\<close>

lemma aux_value_table:
  "aux_value elf interp argv1 =
     [AT_PHDR \<mapsto> le_phdrs elf, AT_PHENT \<mapsto> 56, AT_PHNUM \<mapsto> le_phnum elf, AT_ENTRY \<mapsto> le_entry elf,
      AT_EXECFN \<mapsto> argv1, AT_BASE \<mapsto> (case interp of Some dylib \<Rightarrow> le_entry dylib | None \<Rightarrow> le_entry elf)]"
  by (rule ext) (simp add: aux_value_def size_phdr_def abi)

text \<open>
  The words from \<open>a\<close> on are \<open>pre\<close>, the pairs still to be visited, and what follows them; the second
  argument of the program is the third word of \<open>pre\<close>.
\<close>

lemma update_aux_words:
  assumes "words_at m a (pre @ pair_words ps @ 0 # post)" and "0 \<notin> fst ` set ps" and "3 \<le> length pre"
    and "8 * (length pre + 2 * length ps + 1 + length post) \<le> 2 ^ 63"
  shows "\<exists>m'. update_aux elf interp (a + 8) (a + of_nat (8 * length pre)) m =
       Some (a + of_nat (8 * (length pre + 2 * length ps)), m') \<and>
     words_at m' a (pre @ pair_words (aux_rewritten (aux_value elf interp (pre ! 2)) ps) @ 0 # post) \<and>
     (\<forall>x. \<not> in_range a (8 * (length pre + 2 * length ps + 1 + length post)) x \<longrightarrow> m' x = m x)"
  using assms
proof (induction ps arbitrary: pre m)
  case Nil
  then have "read_u64 m (a + of_nat (8 * length pre)) = 0" by simp
  with Nil show ?case by (subst update_aux.simps) (auto simp: AT_NULL_def aux_rewritten_def)
next
  case (Cons pv ps)
  obtain t v where pv: "pv = (t, v)" by fastforce
  let ?W = "pre @ pair_words (pv # ps) @ 0 # post" and ?n = "length pre + 2 * length (pv # ps) + 1 + length post"
  let ?p = "a + of_nat (8 * length pre)"
  have len: "length ?W = ?n" by simp
  have tag: "read_u64 m ?p = t" and nz: "t \<noteq> 0" using Cons.prems(1,2) pv by simp_all
  have arg: "read_u64 m (a + 8 + 8) = pre ! 2"
    using words_at_nth [OF Cons.prems(1), of 2] Cons.prems(3) by (simp add: nth_append add.assoc)
  define v' where "v' = (case aux_value elf interp (pre ! 2) t of None \<Rightarrow> v | Some v' \<Rightarrow> v')"
  define m1 where "m1 = (case aux_value elf interp (pre ! 2) t of None \<Rightarrow> m | Some w \<Rightarrow> write_u64 m (?p + 8) w)"
  have p8: "?p + 8 = a + of_nat (8 * (length pre + 1))" by (simp add: add.assoc)
  have upd: "?W[length pre + 1 := v'] = (pre @ [t, v']) @ pair_words ps @ 0 # post"
    by (simp add: pv list_update_append)
  have "?W ! (length pre + 1) = v" by (simp add: pv nth_append)
  then have same: "?W[length pre + 1 := v] = ?W" by (metis list_update_id)
  have m1: "words_at m1 a ((pre @ [t, v']) @ pair_words ps @ 0 # post)"
  proof (cases "aux_value elf interp (pre ! 2) t")
    case None
    then have "m1 = m" "v' = v" by (simp_all add: m1_def v'_def)
    with upd same Cons.prems(1) show ?thesis by metis
  next
    case (Some w)
    have "words_at (write_u64 m (a + of_nat (8 * (length pre + 1))) w) a (?W[length pre + 1 := w])"
      by (rule words_at_write [OF Cons.prems(1)]) (use Cons.prems(4) len in simp_all)
    with Some upd show ?thesis unfolding m1_def v'_def p8 by simp
  qed
  have frame: "m1 x = m x" if "\<not> in_range a (8 * ?n) x" for x
  proof (cases "aux_value elf interp (pre ! 2) t")
    case (Some w)
    then have "m1 x = write_u64 m (a + of_nat (8 * (length pre + 1))) w x" by (simp only: m1_def p8 option.case)
    also have "\<dots> = m x" by (rule write_word_frame [OF that]) (use Cons.prems(4) in simp_all)
    finally show ?thesis .
  qed (simp add: m1_def)
  have "\<exists>m'. update_aux elf interp (a + 8) (a + of_nat (8 * length (pre @ [t, v']))) m1 =
       Some (a + of_nat (8 * (length (pre @ [t, v']) + 2 * length ps)), m') \<and>
     words_at m' a ((pre @ [t, v']) @ pair_words (aux_rewritten (aux_value elf interp ((pre @ [t, v']) ! 2)) ps) @ 0 # post) \<and>
     (\<forall>x. \<not> in_range a (8 * (length (pre @ [t, v']) + 2 * length ps + 1 + length post)) x \<longrightarrow> m' x = m1 x)"
    by (rule Cons.IH [OF m1]) (use Cons.prems in auto)
  then obtain m' where
    run: "update_aux elf interp (a + 8) (?p + 16) m1 = Some (a + of_nat (8 * (length pre + 2 * length (pv # ps))), m')"
    and res: "words_at m' a (pre @ pair_words (aux_rewritten (aux_value elf interp (pre ! 2)) (pv # ps)) @ 0 # post)"
    and out: "\<And>x. \<not> in_range a (8 * ?n) x \<Longrightarrow> m' x = m1 x"
    using Cons.prems(3) by (auto simp: nth_append aux_rewritten_def pv v'_def add.assoc add.commute add.left_commute)
  have "update_aux elf interp (a + 8) ?p m = update_aux elf interp (a + 8) (?p + 16) m1"
    unfolding m1_def by (subst update_aux.simps) (simp only: tag nz arg AT_NULL_def if_False)
  with run res out frame show ?case by metis
qed

section \<open>The initial stack\<close>

definition start_stack :: "u64 list \<Rightarrow> u64 list \<Rightarrow> (u64 \<times> u64) list \<Rightarrow> u64 \<Rightarrow> u64 list" where
  "start_stack argv env aux z = of_nat (length argv) # argv @ 0 # env @ 0 # pair_words aux @ [0, z]"

definition stack_bytes :: "u64 list \<Rightarrow> u64 list \<Rightarrow> (u64 \<times> u64) list \<Rightarrow> nat" where
  "stack_bytes argv env aux = 8 * (length argv + length env + 2 * length aux + 5)"

lemma length_start_stack: "8 * length (start_stack argv env aux z) = stack_bytes argv env aux"
  by (simp add: start_stack_def stack_bytes_def)

lemma shift_arguments:
  fixes v :: u64
  assumes W: "words_at m sp (w # a0 # ws)" and "8 * (length ws + 2) \<le> 2 ^ 63"
  defines "m' \<equiv> write_u64 (ptr_copy m (sp + 8) sp (of_nat (length ws + 1))) sp v"
  shows "words_at m' sp (v # ws)" and "\<not> in_range sp (8 * (length ws + 2)) x \<Longrightarrow> m' x = m x"
proof -
  let ?n = "length ws + 1"
  let ?c = "ptr_copy m (sp + 8) sp (of_nat ?n)"
  have n: "unat (of_nat ?n :: usize) = ?n" by (rule unat_of_nat_usize) (use assms(2) in simp)
  have "words_at ?c sp (a0 # ws)"
    by (rule words_at_copy) (use W n assms(2) in simp_all)
  from words_at_write [OF this, of 0 v] assms(2) show "words_at m' sp (v # ws)" by (simp add: m'_def)
  assume x: "\<not> in_range sp (8 * (length ws + 2)) x"
  then have "\<not> in_range sp (length (read_bytes (8 * unat (of_nat ?n :: usize)) m (sp + 8))) x"
    unfolding length_read_bytes n by (simp add: in_range_def)
  then have "?c x = m x" unfolding ptr_copy_def by (rule write_bytes_frame)
  moreover have "m' x = ?c x"
    using write_word_frame [OF x, of 0] assms(2) by (simp add: m'_def)
  ultimately show "m' x = m x" by simp
qed

lemma copied_size:
  assumes "8 * n \<le> 2 ^ 63"
  shows "(sp + of_nat (8 * n) + 16 - (sp + 8)) div 8 = (of_nat (n + 1) :: usize)"
proof -
  have e: "sp + of_nat (8 * n) + 16 - (sp + 8) = (of_nat (8 * (n + 1)) :: usize)" by simp
  have u: "unat (of_nat (8 * (n + 1)) :: usize) = 8 * (n + 1)" "unat (of_nat (n + 1) :: usize) = n + 1"
    by (rule unat_of_nat_usize, use assms in simp)+
  show ?thesis
    unfolding e word_unat_eq_iff unat_div_distrib u by simp
qed

section \<open>Both parts\<close>

text \<open>
  What the program needs of the loader it calls: it loads the named file and that file's
  interpreter, and leaves the addresses of a set alone.
\<close>

definition loads_beside :: "load_fn \<Rightarrow> bytes \<Rightarrow> mini_elf \<Rightarrow> mini_elf option \<Rightarrow> usize set \<Rightarrow> bool" where
  "loads_beside load name elf interp S \<longleftrightarrow>
     (\<forall>m. \<exists>m'. load name m = Some (elf, m')) \<and>
     (interp = None \<longleftrightarrow> le_interp elf = None) \<and>
     (\<forall>i dylib m. le_interp elf = Some i \<and> interp = Some dylib \<longrightarrow> (\<exists>m'. load i m = Some (dylib, m'))) \<and>
     (\<forall>n m e m'. load n m = Some (e, m') \<longrightarrow> (\<forall>x \<in> S. m' x = m x))"

lemma loads_beside_run:
  assumes "loads_beside load name elf interp S"
  shows "\<exists>m1 m2. load_or_panic load name m = Inr (elf, m1) \<and>
     (case le_interp elf of
        None \<Rightarrow> Inr (None, m1)
      | Some interp_name \<Rightarrow>
          res_bind (load_or_panic load interp_name m1) (\<lambda>(dylib, m2). Inr (Some dylib, m2))) = Inr (interp, m2) \<and>
     (\<forall>x \<in> S. m2 x = m x)"
proof -
  obtain m1 where m1: "load name m = Some (elf, m1)" "\<forall>x \<in> S. m1 x = m x"
    using assms unfolding loads_beside_def by blast
  show ?thesis
  proof (cases interp)
    case None
    with assms m1 show ?thesis by (auto simp: loads_beside_def load_or_panic_def)
  next
    case (Some dylib)
    with assms obtain i where i: "le_interp elf = Some i" by (auto simp: loads_beside_def)
    with assms Some obtain m2 where m2: "load i m1 = Some (dylib, m2)" "\<forall>x \<in> S. m2 x = m1 x"
      unfolding loads_beside_def by blast
    with m1 Some i show ?thesis by (auto simp: load_or_panic_def)
  qed
qed

lemma hand_over_spec:
  assumes stack: "words_at m sp (start_stack argv env aux z)" and argc: "2 \<le> length argv"
    and tags: "0 \<notin> fst ` set aux" and size: "stack_bytes argv env aux \<le> 2 ^ 63"
    and name: "cstr m (argv ! 1) = Some name" "utf8_valid name"
    and load: "loads_beside load name elf interp S" "{x. in_range sp (stack_bytes argv env aux) x} \<subseteq> S"
  shows "\<exists>m'. hand_over load sp (of_nat (length argv), sp + of_nat (8 * (length argv + length env + 3)), m) =
       Inr (case interp of Some dylib \<Rightarrow> le_entry dylib | None \<Rightarrow> le_entry elf, sp, m') \<and>
     words_at m' sp (start_stack (tl argv) env (aux_rewritten (aux_value elf interp (argv ! 1)) aux) z) \<and>
     (\<forall>x \<in> S. \<not> in_range sp (stack_bytes argv env aux) x \<longrightarrow> m' x = m x)"
proof -
  obtain a0 a1 args where argv: "argv = a0 # a1 # args"
    using argc by (cases argv; cases "tl argv") auto
  obtain m1 m2 where l1: "load_or_panic load name m = Inr (elf, m1)"
    and l2: "(case le_interp elf of
        None \<Rightarrow> Inr (None, m1)
      | Some interp_name \<Rightarrow>
          res_bind (load_or_panic load interp_name m1) (\<lambda>(dylib, m2). Inr (Some dylib, m2))) = Inr (interp, m2)"
    and S: "\<forall>x \<in> S. m2 x = m x" using loads_beside_run [OF load(1), of m] by blast
  let ?pre = "of_nat (length argv) # argv @ 0 # env @ [0]" and ?aux = "aux_rewritten (aux_value elf interp (argv ! 1)) aux"
  let ?auxv = "sp + of_nat (8 * length ?pre)"
  have len: "length ?pre = length argv + length env + 3"
    and bytes: "8 * (length ?pre + 2 * length aux + 1 + length [z]) = stack_bytes argv env aux"
    by (simp_all add: stack_bytes_def)
  have "words_at m2 sp (start_stack argv env aux z) = words_at m sp (start_stack argv env aux z)"
    by (rule words_at_cong) (use S load(2) size in \<open>auto simp: length_start_stack\<close>)
  with stack have W: "words_at m2 sp (?pre @ pair_words aux @ 0 # [z])" by (simp add: start_stack_def)
  obtain m3 where up: "update_aux elf interp (sp + 8) ?auxv m2 =
      Some (sp + of_nat (8 * (length ?pre + 2 * length aux)), m3)"
    and W3: "words_at m3 sp (?pre @ pair_words ?aux @ 0 # [z])"
    and F3: "\<And>x. \<not> in_range sp (stack_bytes argv env aux) x \<Longrightarrow> m3 x = m2 x"
    using update_aux_words [OF W tags, of elf interp] size unfolding bytes by (auto simp: argv)
  let ?ws = "a1 # args @ 0 # env @ 0 # pair_words ?aux @ [0, z]"
  have wl: "length ?ws + 1 = length ?pre + 2 * length aux + 1" "8 * (length ?ws + 2) = stack_bytes argv env aux"
    by (simp_all add: argv aux_rewritten_def stack_bytes_def)
  define auxv cur k argc' where "auxv = ?auxv" and "cur = sp + of_nat (8 * (length ?pre + 2 * length aux))"
    and "k = (of_nat (length ?ws + 1) :: usize)" and "argc' = (of_nat (length argv) :: usize)"
  let ?m5 = "write_u64 (ptr_copy m3 (sp + 8) sp k) sp (argc' - 1)"
  have "words_at m3 sp (of_nat (length argv) # a0 # ?ws)" using W3 by (simp add: argv ac_simps)
  note shift = shift_arguments [OF this, where v = "argc' - 1", folded k_def]
  have "(cur + 16 - (sp + 8)) div 8 = k"
    unfolding wl(1) k_def cur_def by (rule copied_size) (use size bytes in simp)
  moreover have "read_u64 m (sp + 8 + 8) = argv ! 1"
    using stack by (simp add: start_stack_def argv)
  moreover have "unat argc' = length argv"
    unfolding argc'_def by (rule unat_of_nat_usize) (use size in \<open>simp add: stack_bytes_def\<close>)
  then have "argc' \<noteq> 1" using argc by auto
  moreover have "update_aux elf interp (sp + 8) auxv m2 = Some (cur, m3)"
    unfolding auxv_def cur_def by (rule up)
  ultimately have "hand_over load sp (argc', auxv, m) =
      Inr (case interp of Some dylib \<Rightarrow> le_entry dylib | None \<Rightarrow> le_entry elf, sp, ?m5)"
    using name l1 l2 by (simp add: hand_over_def to_str_def Let_def)
  moreover have "words_at ?m5 sp (start_stack (tl argv) env ?aux z)"
    using shift(1) size wl(2) by (simp add: start_stack_def argv argc'_def)
  moreover have "?m5 x = m x" if "x \<in> S" "\<not> in_range sp (stack_bytes argv env aux) x" for x
    using shift(2) [of x] F3 [of x] S that size wl(2) by simp
  ultimately show ?thesis unfolding auxv_def argc'_def len by blast
qed

text \<open>The entries that the program relocates itself with are relative, and their targets are apart from each other and from the table.\<close>

definition self_table_ok :: "mem \<Rightarrow> usize \<Rightarrow> usize list \<Rightarrow> bool" where
  "self_table_ok m base ps \<longleftrightarrow>
     (\<forall>p \<in> set ps. rela_info (rela_at m p) AND 0xFFFFFFFF = ucast REL_RELATIVE) \<and>
     (\<forall>p \<in> set ps. \<forall>q \<in> set ps. disjoint_ranges (base + rela_offset (rela_at m p)) 8 q 24) \<and>
     words_apart (map (\<lambda>p. base + rela_offset (rela_at m p)) ps)"

text \<open>The program relocates itself as the loader relocates a module: the same fold over the table.\<close>

lemma boot_fold:
  assumes "self_table_ok m base ps"
  shows "res_fold (boot_one W base) ps m = Inr (foldl (relative_one (segments_new base 0)) m ps)"
  using assms
proof (induction ps arbitrary: m)
  case Nil
  then show ?case by simp
next
  case (Cons p ps)
  let ?m = "write_u64 m (base + rela_offset (rela_at m p)) (base + rela_addend (rela_at m p))"
  have one: "boot_one W base p m = Inr ?m" "relative_one (segments_new base 0) m p = ?m"
    using Cons.prems by (simp_all add: boot_one_def self_table_ok_def relative_one_alt rel_target_def
        segments_new_def base_of_def Let_def add.commute)
  have same: "rela_at ?m q = rela_at m q" if "q \<in> set ps" for q
    using Cons.prems that by (simp add: self_table_ok_def rela_at_write)
  then have eq: "map (\<lambda>q. base + rela_offset (rela_at ?m q)) ps = map (\<lambda>q. base + rela_offset (rela_at m q)) ps"
    by simp
  have "self_table_ok ?m base ps"
    using Cons.prems same unfolding self_table_ok_def eq by (simp add: words_apart_def)
  from Cons.IH [OF this] one show ?case by simp
qed

lemma boot_relocated:
  assumes "self_table_ok m base ps"
  shows "\<exists>m'. res_fold (boot_one W base) ps m = Inr m' \<and>
     (\<forall>p \<in> set ps. read_u64 m' (base + rela_offset (rela_at m p)) = base + rela_addend (rela_at m p)) \<and>
     (\<forall>x. (\<forall>p \<in> set ps. \<not> in_range (base + rela_offset (rela_at m p)) 8 x) \<longrightarrow> m' x = m x)"
  using relative_fold [of ps "segments_new base 0" m] assms
  unfolding boot_fold [OF assms]
  by (simp add: self_table_ok_def rel_target_def segments_new_def base_of_def comp_def)

text \<open>The base of the program itself: what the kernel says, or the address of the dynamic section.\<close>

definition self_base :: "mem \<Rightarrow> usize \<Rightarrow> (u64 \<times> u64) list \<Rightarrow> usize result" where
  "self_base m dynv aux =
     (let info = foldl (\<lambda>s (t, v). aux_entry s t v) \<lparr>ax_ph = 0, ax_phnum = 0, ax_base = 0\<rparr> aux
      in if ax_base info = 0 then find_base m dynv (ax_ph info) (unat (ax_phnum info)) 0 else Inr (ax_base info))"

lemma bootstrap_spec:
  assumes stack: "words_at m sp (start_stack argv env aux z)" and env: "0 \<notin> set env" and aux: "0 \<notin> fst ` set aux"
    and dyn: "words_at m dynv (pair_words ds @ [0])" "0 \<notin> fst ` set ds"
      "foldl (\<lambda>s (t, v). self_entry s t v) (None, None) ds = (Some rela, Some cnt)"
    and base: "self_base m dynv aux = Inr base"
    and ok: "self_table_ok m base (rela_ptrs (rela + base) cnt)"
  shows "\<exists>m'. bootstrap W sp dynv m =
       Inr (of_nat (length argv), sp + of_nat (8 * (length argv + length env + 3)), m') \<and>
     (\<forall>p \<in> set (rela_ptrs (rela + base) cnt).
        read_u64 m' (base + rela_offset (rela_at m p)) = base + rela_addend (rela_at m p)) \<and>
     (\<forall>x. (\<forall>p \<in> set (rela_ptrs (rela + base) cnt). \<not> in_range (base + rela_offset (rela_at m p)) 8 x) \<longrightarrow> m' x = m x)"
proof -
  define envp where "envp = sp + of_nat (8 * (length argv + 2))"
  define auxv where "auxv = sp + of_nat (8 * (length argv + length env + 3))"
  have argc: "read_u64 m sp = of_nat (length argv)" using stack by (simp add: start_stack_def)
  have "sp + 8 * (of_nat (length argv) + 1 + 1) = envp" "envp + 8 * (of_nat (length env) + 1) = auxv"
    by (simp_all add: envp_def auxv_def algebra_simps)
  moreover have "words_at m envp (env @ [0])" "words_at m auxv (pair_words aux @ [0])"
    using stack by (simp_all add: start_stack_def envp_def auxv_def algebra_simps)
  moreover note count_env_words [OF this(1) env, of 0] scan_aux.scan_pairs [OF this(2) aux]
    self_dynamic.scan_pairs [OF dyn(1,2), of "(None, None)"]
  ultimately show ?thesis
    using boot_relocated [OF ok, of W] base dyn(3) argc unfolding auxv_def [symmetric]
    by (auto simp: bootstrap_def self_base_def Let_def)
qed

lemma cstr_kept:
  assumes "cstr m a = Some bs" and "length bs < 2 ^ 63" and "\<And>x. in_range a (length bs + 1) x \<Longrightarrow> m' x = m x"
  shows "cstr m' a = Some bs"
proof -
  have "m' (a + of_nat i) = m (a + of_nat i)" if "i \<le> length bs" for i
    using that assms(2) by (intro assms(3) in_range_add_of_nat) simp_all
  with cstr_sound [OF assms(1)] show ?thesis by (intro cstr_bytes) simp_all
qed

section \<open>Concrete inputs\<close>

definition put_words :: "mem \<Rightarrow> usize \<Rightarrow> u64 list \<Rightarrow> mem" where
  "put_words m a ws =
     (\<lambda>x. let k = unat (x - a)
          in if k < 8 * length ws then ucast (drop_bit (8 * (k mod 8)) (ws ! (k div 8))) else m x)"

lemma put_words_frame: "\<not> in_range a (8 * length ws) x \<Longrightarrow> put_words m a ws x = m x"
  by (simp add: put_words_def in_range_def)

lemma words_at_put:
  assumes "8 * length ws < 2 ^ 64"
  shows "words_at (put_words m a ws) a ws"
  unfolding words_at_def
proof (intro allI impI)
  fix i assume i: "i < length ws"
  have byte: "put_words m a ws (a + of_nat (8 * i) + of_nat k) = ucast (drop_bit (8 * k) (ws ! i))" if "k < 8" for k
  proof -
    have "unat (a + of_nat (8 * i) + of_nat k - a) = 8 * i + k"
      using that i assms unat_of_nat_usize [of "8 * i + k"] by simp
    with that i show ?thesis by (simp add: put_words_def Let_def)
  qed
  show "read_u64 (put_words m a ws) (a + of_nat (8 * i)) = ws ! i"
  proof (rule bit_word_eqI)
    fix n assume n: "n < LENGTH(64)"
    then have "n div 8 < 8" by simp
    from n byte [OF this] show "bit (read_u64 (put_words m a ws) (a + of_nat (8 * i))) n = bit (ws ! i) n"
      by (simp add: bit_read_le bit_ucast_iff bit_drop_bit_eq del: of_nat_mult)
  qed
qed

lemma words_at_put_other:
  assumes "disjoint_ranges a (8 * length us) b (8 * length ws)" and "8 * length ws \<le> 2 ^ 64"
  shows "words_at (put_words m a us) b ws = words_at m b ws"
  by (rule words_at_cong [OF _ assms(2)], rule put_words_frame) (use assms(1) in \<open>auto simp: disjoint_ranges_def\<close>)

definition wit_aux :: "(u64 \<times> u64) list" where
  "wit_aux = [(AT_PHDR, 1), (AT_BASE, 0x1000), (AT_ENTRY, 5), (6, 0x1000)]"

definition wit_boot_mem :: mem where
  "wit_boot_mem =
     put_words (put_words (put_words (put_words (\<lambda>_. 0) 0x5000 [0x61])
       0x3000 (pair_words [(DT_RELA, 0x1000), (DT_RELACOUNT, 1)] @ [0]))
       0x2000 [0x3800, 8, 0x10])
       0x7000 (start_stack [0x5100, 0x5000] [0x5200] wit_aux 0)"

definition wit_elf :: mini_elf where
  "wit_elf = \<lparr>le_entry = 0x9010, le_phdrs = 0x9040, le_phnum = 4, le_interp = None\<rparr>"

lemma wit_boot_words:
  "words_at wit_boot_mem 0x7000 (start_stack [0x5100, 0x5000] [0x5200] wit_aux 0)"
  "words_at wit_boot_mem 0x2000 [0x3800, 8, 0x10]"
  "words_at wit_boot_mem 0x3000 (pair_words [(DT_RELA, 0x1000), (DT_RELACOUNT, 1)] @ [0])"
proof -
  let ?S = "start_stack [0x5100, 0x5000] [0x5200] wit_aux 0"
  let ?D = "pair_words [(DT_RELA, 0x1000), (DT_RELACOUNT, 1)] @ [0]" and ?R = "[0x3800, 8, 0x10] :: u64 list"
  have len: "8 * length ?S = 128" "8 * length ?D = 40" "8 * length ?R = 24"
    by (simp_all add: start_stack_def wit_aux_def)
  have apart: "disjoint_ranges 0x7000 128 0x2000 24" "disjoint_ranges 0x7000 128 0x3000 40" "disjoint_ranges 0x2000 24 0x3000 40"
    by (simp_all add: disjoint_if)
  note other = words_at_put_other [where b = "0x2000" and ws = ?R] words_at_put_other [where b = "0x3000" and ws = ?D]
  show "words_at wit_boot_mem 0x7000 ?S"
    unfolding wit_boot_mem_def by (rule words_at_put) (simp only: len, simp)
  show "words_at wit_boot_mem 0x2000 ?R"
    unfolding wit_boot_mem_def
    by (subst other(1), simp only: len apart, simp, rule words_at_put, simp)
  show "words_at wit_boot_mem 0x3000 ?D"
    unfolding wit_boot_mem_def
    by (subst other(2), simp only: len apart, simp only: len, simp,
        subst other(2), simp only: len apart, simp only: len, simp, rule words_at_put, simp only: len, simp)
qed

lemma wit_boot_name: "cstr wit_boot_mem 0x5000 = Some [0x61]"
proof -
  have "wit_boot_mem 0x5000 = 0x61" "wit_boot_mem 0x5001 = 0"
    by (simp_all add: wit_boot_mem_def put_words_def Let_def start_stack_def wit_aux_def)
  then show ?thesis by (intro cstr_bytes) simp_all
qed

section \<open>Properties\<close>

text \<open>
  C19. The mini loader hands over. Started on a stack with at least one argument, with a dynamic
  section that names a table of relative relocations, and with a loader that loads the named file,
  it relocates itself and jumps to the entry point of the file's interpreter, or of the file itself
  when it has none. The stack then has one argument less, the same environment, and the auxiliary
  vector with these values changed and all others kept: AT_PHDR, AT_PHENT and AT_PHNUM are the
  address, entry size and number of the program headers of the file, AT_ENTRY is its entry point,
  AT_EXECFN its name, the second argument, and AT_BASE the address jumped to (an entry point, where a
  kernel stores the base of the interpreter).
\<close>

theorem mini_loader_hands_over:
  fixes targets :: "usize list"
  assumes stack: "words_at m sp (start_stack argv env aux z)" "stack_bytes argv env aux \<le> 2 ^ 63"
      "2 \<le> length argv" "0 \<notin> set env" "0 \<notin> fst ` set aux"
    and dyn: "words_at m dynv (pair_words ds @ [0])" "0 \<notin> fst ` set ds"
      "foldl (\<lambda>s (t, v). self_entry s t v) (None, None) ds = (Some rela, Some cnt)"
    and base: "self_base m dynv aux = Inr base" "self_table_ok m base (rela_ptrs (rela + base) cnt)"
    and targets: "targets = map (\<lambda>p. base + rela_offset (rela_at m p)) (rela_ptrs (rela + base) cnt)"
      "\<forall>t \<in> set targets. disjoint_ranges t 8 sp (stack_bytes argv env aux) \<and>
         disjoint_ranges t 8 (argv ! 1) (length name + 1)"
    and name: "cstr m (argv ! 1) = Some name" "utf8_valid name" "length name < 2 ^ 63"
    and load: "loads_beside load name elf interp
        ({x. in_range sp (stack_bytes argv env aux) x} \<union> {x. \<exists>t \<in> set targets. in_range t 8 x})"
    and target: "target = (case interp of Some dylib \<Rightarrow> le_entry dylib | None \<Rightarrow> le_entry elf)"
  shows "\<exists>m'. rust_main W load sp dynv m = Inr (target, sp, m') \<and>
     words_at m' sp (start_stack (tl argv) env
       (aux_rewritten [AT_PHDR \<mapsto> le_phdrs elf, AT_PHENT \<mapsto> 56, AT_PHNUM \<mapsto> le_phnum elf, AT_ENTRY \<mapsto> le_entry elf,
          AT_EXECFN \<mapsto> argv ! 1, AT_BASE \<mapsto> target] aux) z) \<and>
     (\<forall>p \<in> set (rela_ptrs (rela + base) cnt).
        read_u64 m' (base + rela_offset (rela_at m p)) = base + rela_addend (rela_at m p))"
proof -
  let ?ps = "rela_ptrs (rela + base) cnt" and ?n = "stack_bytes argv env aux"
  let ?T = "\<lambda>p. base + rela_offset (rela_at m p)"
  obtain m1 where boot: "bootstrap W sp dynv m =
        Inr (of_nat (length argv), sp + of_nat (8 * (length argv + length env + 3)), m1)"
    and rel: "\<forall>p \<in> set ?ps. read_u64 m1 (?T p) = base + rela_addend (rela_at m p)"
    and frame: "\<And>x. \<forall>p \<in> set ?ps. \<not> in_range (?T p) 8 x \<Longrightarrow> m1 x = m x"
    using bootstrap_spec [OF stack(1,4,5) dyn base, of W] by blast
  have keep: "m1 x = m x" if "in_range sp ?n x \<or> in_range (argv ! 1) (length name + 1) x" for x
    by (rule frame) (use that targets in \<open>auto simp: disjoint_ranges_def\<close>)
  have "words_at m1 sp (start_stack argv env aux z)"
    using stack(1,2) keep
    by (subst words_at_cong [where m = m]) (auto simp: length_start_stack)
  moreover have "cstr m1 (argv ! 1) = Some name"
    by (rule cstr_kept [OF name(1,3)]) (use keep in blast)
  ultimately obtain m' where run: "hand_over load sp
        (of_nat (length argv), sp + of_nat (8 * (length argv + length env + 3)), m1) =
       Inr (case interp of Some dylib \<Rightarrow> le_entry dylib | None \<Rightarrow> le_entry elf, sp, m')"
    and st: "words_at m' sp (start_stack (tl argv) env (aux_rewritten (aux_value elf interp (argv ! 1)) aux) z)"
    and out: "\<And>t x. t \<in> set targets \<Longrightarrow> in_range t 8 x \<Longrightarrow> \<not> in_range sp ?n x \<Longrightarrow> m' x = m1 x"
    using hand_over_spec [OF _ stack(3,5,2) _ name(2) load] by blast
  have "read_u64 m' (?T p) = read_u64 m1 (?T p)" if p: "p \<in> set ?ps" for p
  proof (rule read_le_cong)
    fix i :: nat assume "i < 8"
    then have i: "in_range (?T p) 8 (?T p + of_nat i)" by (intro in_range_add_of_nat) simp_all
    have t: "?T p \<in> set targets" using p targets(1) by simp
    with targets(2) i have "\<not> in_range sp ?n (?T p + of_nat i)" by (auto simp: disjoint_ranges_def)
    with t i show "m' (?T p + of_nat i) = m1 (?T p + of_nat i)" by (rule out)
  qed
  with rel boot run st show ?thesis by (auto simp: rust_main_def target aux_value_table)
qed

theorem mini_loader_hands_over_witness:
  "\<exists>m'. rust_main (\<lambda>_. 0) (\<lambda>name m. Some (wit_elf, m)) 0x7000 0x3000 wit_boot_mem = Inr (0x9010, 0x7000, m') \<and>
     words_at m' 0x7000
       (start_stack [0x5000] [0x5200] [(AT_PHDR, 0x9040), (AT_BASE, 0x9010), (AT_ENTRY, 0x9010), (6, 0x1000)] 0) \<and>
     read_u64 m' 0x4800 = 0x1010"
proof -
  let ?load = "\<lambda>name m. Some (wit_elf, m)"
  have entry: "rela_at wit_boot_mem 0x2000 = \<lparr>rela_offset = 0x3800, rela_info = 8, rela_addend = 0x10\<rparr>"
    using wit_boot_words(2) by (simp add: rela_at_def)
  have ptrs: "rela_ptrs (0x1000 + 0x1000) 1 = [0x2000]" "rela_ptrs 0x2000 1 = [0x2000]" by (simp_all add: rela_ptrs_def)
  have base: "self_base wit_boot_mem 0x3000 wit_aux = Inr 0x1000"
    by (simp add: self_base_def wit_aux_def aux_entry_def abi)
  have ok: "self_table_ok wit_boot_mem 0x1000 (rela_ptrs (0x1000 + 0x1000) 1)"
    by (simp add: self_table_ok_def ptrs entry rel_consts words_apart_def disjoint_if)
  have "\<exists>m'. rust_main (\<lambda>_. 0) ?load 0x7000 0x3000 wit_boot_mem =
       Inr (0x9010, 0x7000, m') \<and>
     words_at m' 0x7000 (start_stack (tl [0x5100, 0x5000]) [0x5200]
       (aux_rewritten [AT_PHDR \<mapsto> le_phdrs wit_elf, AT_PHENT \<mapsto> 56, AT_PHNUM \<mapsto> le_phnum wit_elf, AT_ENTRY \<mapsto> le_entry wit_elf,
          AT_EXECFN \<mapsto> [0x5100, 0x5000] ! 1, AT_BASE \<mapsto> 0x9010] wit_aux) 0) \<and>
     (\<forall>p \<in> set (rela_ptrs (0x1000 + 0x1000) 1).
        read_u64 m' (0x1000 + rela_offset (rela_at wit_boot_mem p)) = 0x1000 + rela_addend (rela_at wit_boot_mem p))"
  proof (rule mini_loader_hands_over [where interp = None, OF wit_boot_words(1) _ _ _ _ wit_boot_words(3) _ _ base ok refl])
    show "foldl (\<lambda>s (t, v). self_entry s t v) (None, None) [(DT_RELA, 0x1000), (DT_RELACOUNT, 1)] = (Some 0x1000, Some 1)"
      by (simp add: self_entry_def abi)
    show "cstr wit_boot_mem ([0x5100, 0x5000] ! 1) = Some [0x61]" using wit_boot_name by simp
  qed (simp_all add: stack_bytes_def abi wit_aux_def ptrs entry disjoint_if loads_beside_def wit_elf_def)
  then show ?thesis
    unfolding ptrs by (simp add: entry wit_elf_def aux_rewritten_def wit_aux_def abi)
qed

end
