(* ===== verification/Spec2Isabelle.thy ===== *)
theory Spec2Isabelle
  imports Reloc_Props Static_Props Section_Layout Object_Props Os_Linux Module_Refs
    Gen_File Gen_Code_Props Gen_Object Mini_Loader
begin

text \<open>
  A verification development for \<^verbatim>\<open>elf_loader\<close>, a library that loads and relocates
  ELF files, for the generator of the files it is tested with, and for the example loader built on it.
  Paths below are relative to \<^verbatim>\<open>src/src/\<close>, those of the generator to
  \<^verbatim>\<open>src/tools/gen-elf/src/\<close>, those of the example to \<^verbatim>\<open>src/crates/mini-loader/src/\<close>.

  \<^bold>\<open>The program.\<close> A reader (\<^verbatim>\<open>input/\<close>) supplies the bytes of a file; the loader
  (\<^verbatim>\<open>loader.rs\<close>) reads the header (\<^verbatim>\<open>elf/ehdr.rs\<close>) and the program headers through a
  buffer it keeps, decides what kind of image the file is, reserves address space, and maps, copies
  and zeroes the segments (\<^verbatim>\<open>segment/\<close>) through a mapping backend (\<^verbatim>\<open>os/\<close>). A
  builder (\<^verbatim>\<open>image/builder.rs\<close>) makes the image; its dynamic section
  (\<^verbatim>\<open>elf/dynamic.rs\<close>) is parsed at the first access (\<^verbatim>\<open>image/common/dynamic.rs\<close>)
  and names the symbol, string, hash, version and relocation tables. Symbols are looked up through GNU,
  System V or freshly built hash tables (\<^verbatim>\<open>elf/hash/\<close>, \<^verbatim>\<open>elf/symbol.rs\<close>) with
  versions (\<^verbatim>\<open>elf/version.rs\<close>). Relocation (\<^verbatim>\<open>relocation/\<close>) resolves symbols in
  a scope of loaded modules and patches the image, at load time or on the first call; relocatable
  objects (\<^verbatim>\<open>segment/section.rs\<close>, \<^verbatim>\<open>arch/x86_64.rs\<close>) get a GOT and PLT of
  their own. A module runs its constructors at the end of relocation and its destructors when it is
  dropped.

  The generator (\<^verbatim>\<open>dylib/\<close>, \<^verbatim>\<open>arch/\<close>) writes a dynamic library for any of seven
  architectures from a list of symbols and relocations: it collects symbols, strings and a hash table, adds
  PLT entries and helpers, orders the relocations, lays out the sections, patches code, tables and GOT with
  the addresses, and writes headers and sections into one file. Object files (\<^verbatim>\<open>relocatable.rs\<close>)
  it describes to the \<^verbatim>\<open>object\<close> crate, which writes them.

  The example (\<^verbatim>\<open>main.rs\<close>) is a program that starts another: it relocates itself, loads the program
  and its interpreter with the library, rewrites the auxiliary vector, removes itself from the
  arguments on the stack and jumps to the entry point.

  \<^bold>\<open>Conventions.\<close> The target is 64-bit little-endian x86-64 with the \<^verbatim>\<open>version\<close> feature
  and the release profile, in which \<^verbatim>\<open>+\<close> wraps. A pointer is a 64-bit word into one total byte
  memory; a reference to a table entry is its address, and it is read when the code reads it. A
  computation returns a value or a fault: an \<^verbatim>\<open>Err\<close>, a panic, a read of an uninitialised value,
  or no return at all. Loops without a bound in the code (the dynamic section, C strings, hash chains)
  are \<^theory_text>\<open>partial_function (option)\<close>, no fuel is used, and the theorems about them say that they
  return on well-formed input. What a fault leaves behind (an unmapped reservation, a buffer partly
  overwritten) is not described. The state of a stateful operation is passed and returned.

  Code that is not part of the library is a parameter: \<^verbatim>\<open>libc\<close>, the kernel and the allocator,
  \<^verbatim>\<open>hashbrown\<close>, the user's hooks, lookups and handlers, IFUNC resolvers and constructors. What
  the theorems need of them is a named hypothesis (\<open>posix_mmap\<close>, \<open>mmap_grants\<close>, \<open>posix_file\<close>,
  \<open>containers_ok\<close>, \<open>passive_hook\<close> and others) that a witness satisfies.

  \<^bold>\<open>Theories.\<close>
  \<^item> \<open>Prelude\<close>: words, errors (\<^verbatim>\<open>error.rs\<close>), results, memory. \<open>Elf_Abi\<close>: constants and layouts
    of the \<^verbatim>\<open>elf\<close> crate. \<open>Elf_Defs\<close>: \<^verbatim>\<open>elf/defs.rs\<close>, \<^verbatim>\<open>elf/ehdr.rs\<close>.
  \<^item> \<open>Input\<close>: readers, with the interface \<open>reader_contract\<close>. \<open>Os_Mmap\<close>: the \<^verbatim>\<open>Mmap\<close> trait with the
    interface \<open>mmap_contract\<close>, and bare metal. \<open>Os_Unix\<close>: POSIX mappings and files.
    \<open>Os_Files\<close>: opening files and the conversion of inputs, with the interface \<open>file_backend\<close>. \<open>Os_Linux\<close>: the backend over raw
    system calls, which succeeds exactly where the C library does with a valid reservation (\<open>mmap_agree\<close>).
  \<^item> \<open>Segment\<close>, \<open>Segment_Load\<close>, \<open>Loading_Props\<close>: \<^verbatim>\<open>segment/mod.rs\<close>, \<^verbatim>\<open>segment/program.rs\<close>. In the
    environment \<open>loading_env\<close>, loading puts every byte of every segment where the headers say, and no
    byte elsewhere; the reservation covers all pages; protections are those asked for.
  \<^item> \<open>Symbol_Table\<close>, \<open>Dynamic\<close>, \<open>Version\<close>, \<open>Hash_Lookup\<close>, \<open>Lookup_Correct\<close>, \<open>Lookup_Props\<close>: the dynamic
    section is parsed, in every field, to what its last entries say; the three hash formats refine linear search
    (interface \<open>symbol_lookup\<close>), so they agree; counting the symbols of a GNU table returns their number, or 1
    without hashed symbols; the version tables, described by their layout in memory (\<open>verdef_chain\<close>,
    \<open>verneed_chain\<close>), are read and matched.
  \<^item> \<open>Reloc_Core\<close>, \<open>Reloc_Dynamic\<close>, \<open>Reloc_Relative\<close>, \<open>Reloc_Resolve\<close>, \<open>Reloc_Props\<close>: relocation of dynamic images
    (\<^verbatim>\<open>relocation/\<close>). The order of resolution, the memory after each kind of table, the dependencies
    recorded (the libraries that an entry uses, by \<open>run_uses\<close>, or that are needed), errors, and lazy binding.
  \<^item> \<open>Section\<close>, \<open>Section_Layout\<close>, \<open>Static_Reloc\<close>, \<open>Static_Props\<close>: relocatable objects: sections are laid out
    aligned, apart and backed by the right part of the file; the GOT and PLT reserved by the scan suffice for the
    loop that relocates the object, their capacity over all reachable states, the relocated fields, calls through stubs.
  \<^item> \<open>Image\<close>, \<open>Object_Image\<close>, \<open>Loader\<close>, \<open>Loader_Props\<close>, \<open>Object_Props\<close>: builders, images and the loader
    (\<^verbatim>\<open>image/\<close>, \<^verbatim>\<open>loader.rs\<close>). From a file to an image; which file becomes what; loads are
    independent of each other; parsing happens once; constructors and destructors come in pairs; the
    tables of objects are rebased entry by entry (\<open>entry_update\<close>).
  \<^item> \<open>Image_Api\<close>: the accessors of images and loaded modules and the conversions between kinds. What a load
    returned stays consistent with its parsed data; the headers of the file decide the kind, name, entry and
    length of the relocated image.
  \<^item> \<open>Module_Refs\<close>: the counted references of \<^verbatim>\<open>image/common/core.rs\<close>. A client is a step relation over the
    handles it owns; in every reachable state a module is alive exactly while a handle leads to it, and
    dropping finalises exactly what nobody owns any more, dependents first.
  \<^item> \<open>Gen_Common\<close>, \<open>Gen_Code\<close>, \<open>Gen_Shdr\<close>, \<open>Gen_Symtab\<close>, \<open>Gen_Reloc\<close>, \<open>Gen_Dylib\<close>: the generator, one theory per file
    or two of it; in \<open>Gen_Dylib\<close> the steps of \<^verbatim>\<open>DylibWriter::write\<close> are definitions of their own.
  \<^item> \<open>Gen_Symtab_Props\<close>, \<open>Gen_Lookup_Props\<close>: the tables of symbols refine a list of descriptions, and the loader's
    lookup on their bytes finds every symbol. \<open>Gen_Layout\<close>, \<open>Gen_Headers\<close>, \<open>Gen_File\<close>: the sections are laid out
    aligned and apart, no page has two protections, and the loader's parser reads back from the file the
    headers and sections that were laid out. \<open>Gen_Code_Props\<close>: the patched x86-64 stubs, run on a step
    function for the six instructions they use, reach the function, the resolver or the IFUNC target.
    \<open>Gen_Object\<close>: the writer of object files over the operations of the \<^verbatim>\<open>object\<close> crate, with its outcome on
    every input.
  \<^item> \<open>Mini_Loader\<close>: the example. Its scans of vectors of pairs on the stack share the interface \<open>pair_scan\<close>; on a stack
    laid out by the ABI it hands over to the program or its interpreter with one argument less and the auxiliary vector of the program,
    with the address jumped to in AT_BASE.

  \<^bold>\<open>Correspondence.\<close> A struct is a record with the fields of the source, under a prefix where two
  records would share a name; an enum is a datatype; a method is a definition of the same name, with
  the name of its type in front where two would clash (\<open>gnu_lookup\<close>, \<open>elf_lookup\<close>). Loop bodies and long
  \<^verbatim>\<open>match\<close> arms are definitions of their own. An image before it is parsed is \<open>raw_image\<close>; what the
  relocator reads of it afterwards is \<open>dynamic_image\<close>, and \<open>dynamic_image_of\<close> relates the two. The
  address of the shared allocation of a module is a parameter of the operation that makes it, and
  identifies the module.

  \<^bold>\<open>Not modelled.\<close> In the relocation theories a weak reference is a module and a predicate that says
  whether it is alive; the counters behind it are in \<open>Module_Refs\<close>, without overflow. Left out are the
  destructor of the user's data; the assembly of the lazy resolver, and the resolution code of other
  targets; the Windows backend, which does not compile at this commit;
  the accessors of libraries, which forward to those of the image and the core; the \<^verbatim>\<open>Debug\<close>
  implementations; thread-local storage beyond the offsets that relocation stores; the
  implementations of the traits of lookups and handlers that forward a call; of the generator the command line and writing the bytes to a path; of the example the heap,
  the panic handler and the assembly; the Windows crate, a wrapper over the library.
\<close>

end
